(* ===== verification/Prelude.thy ===== *)
theory Prelude
  imports Main "HOL-Library.Word" "HOL-Library.State_Monad"
begin

text \<open>
  Shared vocabulary of the development: machine types of the 32-bit ESP32 target, wrapping
  \<open>size_t\<close> arithmetic, the state monad in which the stateful C++ code is written with its
  weakest-precondition calculus, counted loops, and list lemmas used by several components.

  \<^item> \<open>u8\<close>, \<open>u16\<close>, \<open>u32\<close>, \<open>u64\<close> are machine words; \<open>unsigned long\<close> and \<open>size_t\<close> counters
    have 32 bits on the target. Buffer lengths and capacities are \<open>nat\<close>, and the places where
    the code subtracts or multiplies them go through \<open>sz_sub\<close>, \<open>sz_add\<close> and \<open>sz_mul\<close>, which wrap
    at \<open>2 ^ 32\<close>.
  \<^item> \<open>int\<close> of C++ is \<open>int\<close> (its overflow is undefined behaviour in C++ and no claim uses it).
  \<^item> Everything outside the repository (clock, semaphores, heap, sockets, libssh2) acts on a
    world of an arbitrary type \<open>'w\<close>; \<open>ext f\<close> runs such a function on the world component of
    the state.
\<close>

type_synonym u8 = "8 word"
type_synonym u16 = "16 word"
type_synonym u32 = "32 word"
type_synonym u64 = "64 word"
type_synonym bytes = "u8 list"

named_theorems wp_simps \<open>weakest preconditions of the statement forms, as rewrite rules\<close>
named_theorems keeps_intros \<open>invariant preservation of the statement forms, as introduction rules\<close>

section \<open>Wrapping size arithmetic\<close>

definition sz_add :: "nat \<Rightarrow> nat \<Rightarrow> nat" where
  "sz_add a b = (a + b) mod 2 ^ 32"

definition sz_sub :: "nat \<Rightarrow> nat \<Rightarrow> nat" where
  "sz_sub a b = (a + (2 ^ 32 - b mod 2 ^ 32)) mod 2 ^ 32"

definition sz_mul :: "nat \<Rightarrow> nat \<Rightarrow> nat" where
  "sz_mul a b = (a * b) mod 2 ^ 32"

lemma sz_add_exact [simp]: "a + b < 2 ^ 32 \<Longrightarrow> sz_add a b = a + b"
  by (simp add: sz_add_def)

lemma sz_mul_exact [simp]: "a * b < 2 ^ 32 \<Longrightarrow> sz_mul a b = a * b"
  by (simp add: sz_mul_def)

lemma sz_sub_exact [simp]: "b \<le> a \<Longrightarrow> a < 2 ^ 32 \<Longrightarrow> sz_sub a b = a - b"
  by (simp add: sz_sub_def mod_if)

lemma sz_sub_bound: "sz_sub a b < 2 ^ 32"
  by (simp add: sz_sub_def)

lemma sint_neg_iff: "sint (w :: u32) < 0 \<longleftrightarrow> 2 ^ 31 \<le> unat w"
proof -
  have u: "uint w < 2 ^ 32" using uint_lt2p [of w] by simp
  have s: "sint w = (uint w + 2 ^ 31) mod 2 ^ 32 - 2 ^ 31"
    by (simp add: sint_uint signed_take_bit_eq_take_bit_shift take_bit_eq_mod)
  have "(uint w + 2 ^ 31) mod 2 ^ 32 = uint w - 2 ^ 31" if "2 ^ 31 \<le> uint w"
  proof -
    have "uint w + 2 ^ 31 = (uint w - 2 ^ 31) + 2 ^ 32" by simp
    then have "(uint w + 2 ^ 31) mod 2 ^ 32 = (uint w - 2 ^ 31) mod 2 ^ 32" by (metis mod_add_self2)
    then show ?thesis using that u by (simp add: mod_pos_pos_trivial)
  qed
  moreover have "(uint w + 2 ^ 31) mod 2 ^ 32 = uint w + 2 ^ 31" if "\<not> 2 ^ 31 \<le> uint w"
    using that uint_ge_0 [of w] by (intro mod_pos_pos_trivial) auto
  ultimately show ?thesis using u s by (cases "2 ^ 31 \<le> uint w") (auto simp: le_nat_iff simp flip: nat_uint_eq)
qed

lemma unat_inc_below: "(x :: 'a::len word) < y \<Longrightarrow> unat (x + 1) = Suc (unat x)"
proof -
  assume "x < y"
  then have "Suc (unat x) < 2 ^ LENGTH('a)"
    by (meson Suc_leI le_less_trans unsigned_less word_less_nat_alt)
  then show ?thesis by (simp add: unat_word_ariths)
qed

section \<open>The state monad and its weakest preconditions\<close>

abbreviation ret :: "'a \<Rightarrow> ('s, 'a) state" where
  "ret \<equiv> State_Monad.return"

abbreviation get_st :: "('s, 's) state" where
  "get_st \<equiv> State_Monad.get"

abbreviation put_st :: "'s \<Rightarrow> ('s, unit) state" where
  "put_st \<equiv> State_Monad.set"

definition gets :: "('s \<Rightarrow> 'a) \<Rightarrow> ('s, 'a) state" where
  "gets f = State (\<lambda>s. (f s, s))"

definition modify :: "('s \<Rightarrow> 's) \<Rightarrow> ('s, unit) state" where
  "modify f = State (\<lambda>s. ((), f s))"

definition whenM :: "bool \<Rightarrow> ('s, unit) state \<Rightarrow> ('s, unit) state" where
  "whenM b m = (if b then m else ret ())"

definition wp :: "('s, 'a) state \<Rightarrow> ('a \<Rightarrow> 's \<Rightarrow> bool) \<Rightarrow> 's \<Rightarrow> bool" where
  "wp m Q s = (case run_state m s of (a, s') \<Rightarrow> Q a s')"

lemma run_state_gets [simp]: "run_state (gets f) s = (f s, s)"
  by (simp add: gets_def)

lemma run_state_modify [simp]: "run_state (modify f) s = ((), f s)"
  by (simp add: modify_def)

lemma run_state_whenM [simp]:
  "run_state (whenM b m) s = (if b then run_state m s else ((), s))"
  by (simp add: whenM_def)

lemma wp_return [wp_simps]: "wp (ret a) Q s = Q a s"
  by (simp add: wp_def)

lemma wp_bind [wp_simps]: "wp (State_Monad.bind m f) Q s = wp m (\<lambda>a. wp (f a) Q) s"
  by (simp add: wp_def split: prod.splits)

lemma wp_get [wp_simps]: "wp get_st Q s = Q s s"
  by (simp add: wp_def)

lemma wp_set [wp_simps]: "wp (put_st s') Q s = Q () s'"
  by (simp add: wp_def)

lemma wp_gets [wp_simps]: "wp (gets f) Q s = Q (f s) s"
  by (simp add: wp_def)

lemma wp_modify [wp_simps]: "wp (modify f) Q s = Q () (f s)"
  by (simp add: wp_def)

lemma wp_if [wp_simps]: "wp (if b then m else n) Q s = (if b then wp m Q s else wp n Q s)"
  by simp

lemma wp_whenM [wp_simps]: "wp (whenM b m) Q s = (if b then wp m Q s else Q () s)"
  by (simp add: whenM_def wp_return)

lemma wp_let [wp_simps]: "wp (let x = e in f x) Q s = (let x = e in wp (f x) Q s)"
  by (simp add: Let_def)

lemma wp_case_option [wp_simps]:
  "wp (case x of None \<Rightarrow> m | Some y \<Rightarrow> f y) Q s
     = (case x of None \<Rightarrow> wp m Q s | Some y \<Rightarrow> wp (f y) Q s)"
  by (simp split: option.split)

lemma wp_case_prod [wp_simps]:
  "wp (case x of (a, b) \<Rightarrow> f a b) Q s = (case x of (a, b) \<Rightarrow> wp (f a b) Q s)"
  by (simp split: prod.split)

text \<open>The same under a binder, where the rules above have no state to match.\<close>

lemma wp_return_fun: "wp (ret a) Q = Q a"
  by (simp add: fun_eq_iff wp_return)

lemma wp_bind_fun: "wp (State_Monad.bind m f) Q = wp m (\<lambda>a. wp (f a) Q)"
  by (simp add: fun_eq_iff wp_bind)

lemma wp_mono: "wp m Q s \<Longrightarrow> (\<And>a s'. Q a s' \<Longrightarrow> R a s') \<Longrightarrow> wp m R s"
  by (auto simp: wp_def split: prod.splits)

text \<open>The same as introduction rules, for proofs that follow the statements of an operation.\<close>

lemma wp_if_intro: "(b \<Longrightarrow> wp m Q s) \<Longrightarrow> (\<not> b \<Longrightarrow> wp n Q s) \<Longrightarrow> wp (if b then m else n) Q s"
  by simp

lemma wp_ret_intro: "Q a s \<Longrightarrow> wp (ret a) Q s"
  by (simp add: wp_simps)

lemma wp_gets_intro: "wp (f (g s)) Q s \<Longrightarrow> wp (State_Monad.bind (gets g) f) Q s"
  by (simp add: wp_simps)

lemma wp_when_intro: "(b \<Longrightarrow> wp m Q s) \<Longrightarrow> (\<not> b \<Longrightarrow> Q () s) \<Longrightarrow> wp (whenM b m) Q s"
  by (simp add: wp_simps)

lemma wp_seq: "wp m R s \<Longrightarrow> (\<And>a s'. R a s' \<Longrightarrow> wp (f a) Q s') \<Longrightarrow> wp (State_Monad.bind m f) Q s"
  unfolding wp_bind by (rule wp_mono)

lemma wp_conj: "wp m Q s \<Longrightarrow> wp m R s \<Longrightarrow> wp m (\<lambda>a s'. Q a s' \<and> R a s') s"
  by (auto simp: wp_def split: prod.splits)

lemma wp_run: "wp m Q s \<Longrightarrow> run_state m s = (a, s') \<Longrightarrow> Q a s'"
  by (simp add: wp_def)

lemma wp_iff_run: "wp m Q s \<longleftrightarrow> Q (fst (run_state m s)) (snd (run_state m s))"
  by (simp add: wp_def split: prod.splits)

section \<open>Counted loops\<close>

text \<open>
  \<open>for_each f xs\<close> is a \<open>for\<close> loop whose body may only \<open>continue\<close>; the body of \<open>for_break\<close>
  returns \<open>False\<close> where the source says \<open>break\<close>.
\<close>

fun for_each :: "('a \<Rightarrow> ('s, unit) state) \<Rightarrow> 'a list \<Rightarrow> ('s, unit) state" where
  "for_each f [] = ret ()"
| "for_each f (x # xs) = do { f x; for_each f xs }"

fun for_break :: "('a \<Rightarrow> ('s, bool) state) \<Rightarrow> 'a list \<Rightarrow> ('s, unit) state" where
  "for_break f [] = ret ()"
| "for_break f (x # xs) = do { go \<leftarrow> f x; if go then for_break f xs else ret () }"

lemma wp_for_each:
  assumes "I s" and "\<And>x s. x \<in> set xs \<Longrightarrow> I s \<Longrightarrow> wp (f x) (\<lambda>_. I) s"
  shows "wp (for_each f xs) (\<lambda>_. I) s"
  using assms
proof (induction xs arbitrary: s)
  case Nil
  then show ?case by (simp add: wp_simps)
next
  case (Cons x xs)
  have "wp (f x) (\<lambda>_. I) s" using Cons.prems by simp
  then have "wp (f x) (\<lambda>_. wp (for_each f xs) (\<lambda>_. I)) s"
    by (rule wp_mono) (use Cons in auto)
  then show ?case by (simp add: wp_simps)
qed

lemma wp_for_break:
  assumes "I s" and "\<And>x s. x \<in> set xs \<Longrightarrow> I s \<Longrightarrow> wp (f x) (\<lambda>_. I) s"
  shows "wp (for_break f xs) (\<lambda>_. I) s"
  using assms
proof (induction xs arbitrary: s)
  case Nil
  then show ?case by (simp add: wp_simps)
next
  case (Cons x xs)
  have "wp (f x) (\<lambda>_. I) s" using Cons.prems by simp
  then have "wp (f x) (\<lambda>go. if go then wp (for_break f xs) (\<lambda>_. I) else I) s"
    by (rule wp_mono) (use Cons in auto)
  moreover have "wp (if go then for_break f xs else ret ()) (\<lambda>_. I)
      = (if go then wp (for_break f xs) (\<lambda>_. I) else I)" for go
    by (auto simp: wp_simps fun_eq_iff)
  ultimately show ?case by (simp add: wp_simps)
qed

section \<open>Invariant preservation\<close>

definition keeps :: "('s \<Rightarrow> bool) \<Rightarrow> ('s, 'a) state \<Rightarrow> bool" where
  "keeps I m \<longleftrightarrow> (\<forall>s. I s \<longrightarrow> wp m (\<lambda>_. I) s)"

lemma keepsI: "(\<And>s. I s \<Longrightarrow> wp m (\<lambda>_. I) s) \<Longrightarrow> keeps I m"
  by (simp add: keeps_def)

lemma keepsD: "keeps I m \<Longrightarrow> I s \<Longrightarrow> wp m (\<lambda>_. I) s"
  by (simp add: keeps_def)

lemma keeps_run: "keeps I m \<Longrightarrow> I s \<Longrightarrow> run_state m s = (a, s') \<Longrightarrow> I s'"
  by (auto simp: keeps_def dest: wp_run)

lemma keeps_return [keeps_intros]: "keeps I (ret a)"
  by (simp add: keeps_def wp_simps)

lemma keeps_gets [keeps_intros]: "keeps I (gets f)"
  by (simp add: keeps_def wp_simps)

lemma keeps_get [keeps_intros]: "keeps I get_st"
  by (simp add: keeps_def wp_simps)

lemma keeps_bind [keeps_intros]:
  "keeps I m \<Longrightarrow> (\<And>a. keeps I (f a)) \<Longrightarrow> keeps I (State_Monad.bind m f)"
  unfolding keeps_def by (auto simp: wp_simps intro: wp_mono)

lemma keeps_gets_bind: "(\<And>s. I s \<Longrightarrow> keeps I (f (g s))) \<Longrightarrow> keeps I (State_Monad.bind (gets g) f)"
  by (simp add: keeps_def wp_simps)

lemma keeps_if [keeps_intros]:
  "(b \<Longrightarrow> keeps I m) \<Longrightarrow> (\<not> b \<Longrightarrow> keeps I n) \<Longrightarrow> keeps I (if b then m else n)"
  by simp

lemma keeps_whenM [keeps_intros]: "(b \<Longrightarrow> keeps I m) \<Longrightarrow> keeps I (whenM b m)"
  by (simp add: keeps_def wp_simps)

lemma keeps_let [keeps_intros]: "(\<And>x. keeps I (f x)) \<Longrightarrow> keeps I (let x = e in f x)"
  by simp

lemma keeps_case_option [keeps_intros]:
  "keeps I m \<Longrightarrow> (\<And>y. keeps I (f y)) \<Longrightarrow> keeps I (case x of None \<Rightarrow> m | Some y \<Rightarrow> f y)"
  by (simp split: option.split)

lemma keeps_case_prod [keeps_intros]:
  "(\<And>a b. keeps I (f a b)) \<Longrightarrow> keeps I (case x of (a, b) \<Rightarrow> f a b)"
  by (simp split: prod.split)

lemma keeps_for_each [keeps_intros]:
  "(\<And>x. x \<in> set xs \<Longrightarrow> keeps I (f x)) \<Longrightarrow> keeps I (for_each f xs)"
  by (auto intro!: keepsI wp_for_each dest: keepsD)

lemma keeps_for_break [keeps_intros]:
  "(\<And>x. x \<in> set xs \<Longrightarrow> keeps I (f x)) \<Longrightarrow> keeps I (for_break f xs)"
  by (auto intro!: keepsI wp_for_break dest: keepsD)

lemma keeps_modify: "(\<And>s. I s \<Longrightarrow> I (f s)) \<Longrightarrow> keeps I (modify f)"
  by (simp add: keeps_def wp_simps)

lemma keeps_conj: "keeps I m \<Longrightarrow> keeps J m \<Longrightarrow> keeps (\<lambda>s. I s \<and> J s) m"
  by (auto simp: keeps_def intro: wp_conj)

section \<open>The world\<close>

record 'w wstate =
  world :: 'w

definition ext :: "('w \<Rightarrow> 'a \<times> 'w) \<Rightarrow> (('w, 'z) wstate_scheme, 'a) state" where
  "ext f = State (\<lambda>s. case f (world s) of (a, w) \<Rightarrow> (a, s\<lparr>world := w\<rparr>))"

lemma world_self [simp]: "s\<lparr>world := world s\<rparr> = s"
  by (cases s) simp

lemma run_state_ext [simp]:
  "run_state (ext f) s = (case f (world s) of (a, w) \<Rightarrow> (a, s\<lparr>world := w\<rparr>))"
  by (simp add: ext_def)

lemma wp_ext [wp_simps]: "wp (ext f) Q s = (case f (world s) of (a, w) \<Rightarrow> Q a (s\<lparr>world := w\<rparr>))"
  by (simp add: wp_def split: prod.splits)

section \<open>Lists\<close>

text \<open>
  Overwriting \<open>length bs\<close> cells of a memory area from position \<open>pos\<close> on. A write that runs past
  the end makes the area longer, so an invariant that fixes the area's length excludes overruns.
\<close>

definition mem_write :: "'a list \<Rightarrow> nat \<Rightarrow> 'a list \<Rightarrow> 'a list" where
  "mem_write mem pos bs = take pos mem @ bs @ drop (pos + length bs) mem"

lemma length_mem_write [simp]:
  "pos + length bs \<le> length mem \<Longrightarrow> length (mem_write mem pos bs) = length mem"
  by (simp add: mem_write_def)

lemma mem_read_write_same:
  "pos \<le> length mem \<Longrightarrow> take (length bs) (drop pos (mem_write mem pos bs)) = bs"
  by (simp add: mem_write_def)

lemma mem_write_overrun_grows:
  "pos \<le> length mem \<Longrightarrow> length mem < pos + length bs \<Longrightarrow> length mem < length (mem_write mem pos bs)"
  by (simp add: mem_write_def)

lemma sum_list_map_update:
  fixes f :: "'a \<Rightarrow> 'b::ab_group_add"
  assumes "i < length xs"
  shows "sum_list (map f (xs[i := x])) = sum_list (map f xs) - f (xs ! i) + f x"
  using assms
proof (induction xs arbitrary: i)
  case Nil
  then show ?case by simp
next
  case (Cons y ys)
  then show ?case by (cases i) (simp_all add: algebra_simps)
qed

end
