(* ===== verification/Platform.thy ===== *)
theory Platform
  imports Prelude
begin

text \<open>
  The interface to the code the library calls and does not contain: Arduino and ESP-IDF (clock,
  heap), FreeRTOS (semaphores, task delay, byte ring buffers), lwIP sockets and libssh2. Each
  function is a field of the record \<open>platform\<close>, an arbitrary function on an arbitrary world \<open>'w\<close>
  (a ring buffer is a value of an arbitrary type \<open>'r\<close>, owned by the object that created it).
  The C functions are named as in their headers. Pointers returned by allocators appear as
  booleans (non-null), pointers to libssh2 objects as numbers with 0 for the null pointer, and
  out-parameters as additional results.
  \<open>SSH_TUNNEL_PREPEND_CAPACITY\<close> is the build-time constant of that name (8192 by default,
  2048 in the low-memory profile), \<open>TUNNEL_DIAG_LOG_ONLY\<close> says whether that build flag is set, and
  \<open>sizeof_StaticRingbuffer\<close>, \<open>sizeof_ChannelSlot\<close> are the sizes of FreeRTOS's control block and of
  a channel slot as the compiler lays them out.
\<close>

type_synonym ssh_channel = nat
type_synonym ssh_listener = nat
type_synonym ssh_session_ptr = nat

abbreviation NULL :: nat where "NULL \<equiv> 0"

datatype mutex_id = SessionMutex | ConfigMutex | StatsMutex

datatype heap_cap = MALLOC_CAP_SPIRAM | MALLOC_CAP_8BIT

datatype shutdown_how = SHUT_WR | SHUT_RDWR

record ('w, 'r) platform =
  SSH_TUNNEL_PREPEND_CAPACITY :: nat
  sizeof_StaticRingbuffer :: nat
  sizeof_ChannelSlot :: nat
  TUNNEL_DIAG_LOG_ONLY :: bool
  p_millis :: "'w \<Rightarrow> u32 \<times> 'w"
  p_vTaskDelay :: "u32 \<Rightarrow> 'w \<Rightarrow> unit \<times> 'w"
  p_malloc :: "nat \<Rightarrow> 'w \<Rightarrow> bool \<times> 'w"
  p_heap_caps_malloc :: "heap_cap \<Rightarrow> nat \<Rightarrow> 'w \<Rightarrow> bool \<times> 'w"
  p_free :: "'w \<Rightarrow> unit \<times> 'w"
  p_heap_caps_get_free_size :: "heap_cap \<Rightarrow> 'w \<Rightarrow> nat \<times> 'w"
  p_heap_caps_get_largest_free_block :: "heap_cap \<Rightarrow> 'w \<Rightarrow> nat \<times> 'w"
  p_xSemaphoreCreateMutex :: "mutex_id \<Rightarrow> 'w \<Rightarrow> bool \<times> 'w"
  p_xSemaphoreTake :: "mutex_id \<Rightarrow> u32 \<Rightarrow> 'w \<Rightarrow> bool \<times> 'w"
  p_xSemaphoreGive :: "mutex_id \<Rightarrow> 'w \<Rightarrow> unit \<times> 'w"
  p_vSemaphoreDelete :: "mutex_id \<Rightarrow> 'w \<Rightarrow> unit \<times> 'w"
  xRingbufferCreateStatic :: "nat \<Rightarrow> 'r option"
  xRingbufferGetCurFreeSize :: "'r \<Rightarrow> nat"
  xRingbufferSend :: "bytes \<Rightarrow> 'r \<Rightarrow> bool \<times> 'r"
  xRingbufferReceiveUpTo :: "nat \<Rightarrow> 'r \<Rightarrow> bytes option \<times> 'r"
  vRingbufferReturnItem :: "'r \<Rightarrow> 'r"
  p_socket :: "'w \<Rightarrow> int \<times> 'w"
  p_close :: "int \<Rightarrow> 'w \<Rightarrow> int \<times> 'w"
  p_shutdown :: "int \<Rightarrow> shutdown_how \<Rightarrow> 'w \<Rightarrow> int \<times> 'w"
  p_inet_pton :: "string \<Rightarrow> 'w \<Rightarrow> int \<times> 'w"
  p_gethostbyname :: "string \<Rightarrow> 'w \<Rightarrow> bool \<times> 'w"
  p_fcntl_getfl :: "int \<Rightarrow> 'w \<Rightarrow> int \<times> 'w"
  p_fcntl_setfl_nonblock :: "int \<Rightarrow> int \<Rightarrow> 'w \<Rightarrow> int \<times> 'w"
  p_connect :: "int \<Rightarrow> string \<Rightarrow> int \<Rightarrow> 'w \<Rightarrow> (int \<times> int) \<times> 'w"
  p_select_writable :: "int \<Rightarrow> nat \<Rightarrow> 'w \<Rightarrow> (int \<times> bool) \<times> 'w"
  p_getsockopt_error :: "int \<Rightarrow> 'w \<Rightarrow> (int \<times> int) \<times> 'w"
  p_setsockopt :: "int \<Rightarrow> string \<Rightarrow> int \<Rightarrow> 'w \<Rightarrow> int \<times> 'w"
  p_recv :: "int \<Rightarrow> nat \<Rightarrow> 'w \<Rightarrow> (int \<times> bytes \<times> int) \<times> 'w"
  p_send :: "int \<Rightarrow> bytes \<Rightarrow> 'w \<Rightarrow> (int \<times> int) \<times> 'w"
  libssh2_init :: "'w \<Rightarrow> int \<times> 'w"
  libssh2_session_init :: "'w \<Rightarrow> ssh_session_ptr \<times> 'w"
  libssh2_session_handshake :: "ssh_session_ptr \<Rightarrow> int \<Rightarrow> 'w \<Rightarrow> int \<times> 'w"
  libssh2_session_set_blocking :: "ssh_session_ptr \<Rightarrow> bool \<Rightarrow> 'w \<Rightarrow> unit \<times> 'w"
  libssh2_session_disconnect :: "ssh_session_ptr \<Rightarrow> 'w \<Rightarrow> int \<times> 'w"
  libssh2_session_free :: "ssh_session_ptr \<Rightarrow> 'w \<Rightarrow> int \<times> 'w"
  libssh2_session_last_errno :: "ssh_session_ptr \<Rightarrow> 'w \<Rightarrow> int \<times> 'w"
  libssh2_session_last_error :: "ssh_session_ptr \<Rightarrow> 'w \<Rightarrow> int \<times> 'w"
  libssh2_session_hostkey :: "ssh_session_ptr \<Rightarrow> 'w \<Rightarrow> (bytes option \<times> int) \<times> 'w"
  libssh2_hostkey_hash_sha256 :: "ssh_session_ptr \<Rightarrow> 'w \<Rightarrow> bytes option \<times> 'w"
  libssh2_keepalive_config :: "ssh_session_ptr \<Rightarrow> int \<Rightarrow> 'w \<Rightarrow> unit \<times> 'w"
  libssh2_keepalive_send :: "ssh_session_ptr \<Rightarrow> 'w \<Rightarrow> int \<times> 'w"
  libssh2_userauth_list :: "ssh_session_ptr \<Rightarrow> string \<Rightarrow> 'w \<Rightarrow> bool \<times> 'w"
  libssh2_userauth_password :: "ssh_session_ptr \<Rightarrow> string \<Rightarrow> string \<Rightarrow> 'w \<Rightarrow> int \<times> 'w"
  libssh2_userauth_publickey_frommemory ::
    "ssh_session_ptr \<Rightarrow> string \<Rightarrow> string option \<Rightarrow> string \<Rightarrow> string option \<Rightarrow> 'w \<Rightarrow> int \<times> 'w"
  libssh2_channel_forward_listen_ex ::
    "ssh_session_ptr \<Rightarrow> string \<Rightarrow> int \<Rightarrow> int \<Rightarrow> 'w \<Rightarrow> (ssh_listener \<times> int) \<times> 'w"
  libssh2_channel_forward_cancel :: "ssh_listener \<Rightarrow> 'w \<Rightarrow> int \<times> 'w"
  libssh2_channel_forward_accept :: "ssh_listener \<Rightarrow> 'w \<Rightarrow> ssh_channel \<times> 'w"
  libssh2_channel_set_blocking :: "ssh_channel \<Rightarrow> bool \<Rightarrow> 'w \<Rightarrow> unit \<times> 'w"
  libssh2_channel_read :: "ssh_channel \<Rightarrow> nat \<Rightarrow> 'w \<Rightarrow> (int \<times> bytes) \<times> 'w"
  libssh2_channel_write :: "ssh_channel \<Rightarrow> bytes \<Rightarrow> 'w \<Rightarrow> int \<times> 'w"
  libssh2_channel_eof :: "ssh_channel \<Rightarrow> 'w \<Rightarrow> int \<times> 'w"
  libssh2_channel_send_eof :: "ssh_channel \<Rightarrow> 'w \<Rightarrow> int \<times> 'w"
  libssh2_channel_close :: "ssh_channel \<Rightarrow> 'w \<Rightarrow> int \<times> 'w"
  libssh2_channel_free :: "ssh_channel \<Rightarrow> 'w \<Rightarrow> int \<times> 'w"

text \<open>Error codes of \<open>libssh2.h\<close> and \<open>errno.h\<close> that the library compares with.\<close>

abbreviation LIBSSH2_ERROR_SOCKET_SEND :: int where "LIBSSH2_ERROR_SOCKET_SEND \<equiv> -7"
abbreviation LIBSSH2_ERROR_SOCKET_DISCONNECT :: int where "LIBSSH2_ERROR_SOCKET_DISCONNECT \<equiv> -13"
abbreviation LIBSSH2_ERROR_CHANNEL_UNKNOWN :: int where "LIBSSH2_ERROR_CHANNEL_UNKNOWN \<equiv> -23"
abbreviation LIBSSH2_ERROR_CHANNEL_CLOSED :: int where "LIBSSH2_ERROR_CHANNEL_CLOSED \<equiv> -26"
abbreviation LIBSSH2_ERROR_EAGAIN :: int where "LIBSSH2_ERROR_EAGAIN \<equiv> -37"
abbreviation EAGAIN :: int where "EAGAIN \<equiv> 11"
abbreviation EWOULDBLOCK :: int where "EWOULDBLOCK \<equiv> 11"
abbreviation EINPROGRESS :: int where "EINPROGRESS \<equiv> 119"

section \<open>Calls\<close>

abbreviation millis :: "('w, 'r) platform \<Rightarrow> (('w, 'z) wstate_scheme, u32) state" where
  "millis P \<equiv> ext (p_millis P)"

end
