(* ===== verification/Host_Key.thy ===== *)
theory Host_Key
  imports Ssh_Config
begin

text \<open>
  The host-key part of \<open>ssh_session.cpp\<close>: the two encodings of the SHA-256 fingerprint, the
  normalisation of the fingerprint the user configured, and the comparison of the two. The session's
  \<open>verifyHostKey\<close> (theory \<open>Ssh_Session\<close>) calls these. Decoders are defined here to state that the
  encodings lose nothing.
\<close>

unbundle bit_operations_syntax

section \<open>Encodings\<close>

definition kHexDigits :: string where
  "kHexDigits = ''0123456789abcdef''"

fun encodeFingerprintHex :: "bytes \<Rightarrow> string" where
  "encodeFingerprintHex [] = []"
| "encodeFingerprintHex (value # data) =
     kHexDigits ! unat (drop_bit 4 value AND 0x0F)
     # kHexDigits ! unat (value AND 0x0F) # encodeFingerprintHex data"

definition kBase64Table :: string where
  "kBase64Table = ''ABCDEFGHIJKLMNOPQRSTUVWXYZabcdefghijklmnopqrstuvwxyz0123456789+/''"

definition triple :: "u8 \<Rightarrow> u8 \<Rightarrow> u8 \<Rightarrow> u32" where
  "triple a b c = push_bit 16 (ucast a) OR push_bit 8 (ucast b) OR ucast c"

definition b64_char :: "u32 \<Rightarrow> nat \<Rightarrow> char" where
  "b64_char t sh = kBase64Table ! unat (drop_bit sh t AND 0x3F)"

text \<open>One round of the loop per group of up to three octets.\<close>

fun base64_groups :: "bytes \<Rightarrow> string" where
  "base64_groups [] = []"
| "base64_groups [a] = [b64_char (triple a 0 0) 18, b64_char (triple a 0 0) 12, CHR ''='', CHR ''='']"
| "base64_groups [a, b] =
     [b64_char (triple a b 0) 18, b64_char (triple a b 0) 12, b64_char (triple a b 0) 6, CHR ''='']"
| "base64_groups (a # b # c # data) =
     b64_char (triple a b c) 18 # b64_char (triple a b c) 12 # b64_char (triple a b c) 6
     # b64_char (triple a b c) 0 # base64_groups data"

definition strip_padding :: "string \<Rightarrow> string" where
  "strip_padding out = rev (dropWhile (\<lambda>ch. ch = CHR ''='') (rev out))"

definition encodeFingerprintBase64 :: "bytes \<Rightarrow> string" where
  "encodeFingerprintBase64 data = strip_padding (base64_groups data)"

section \<open>String operations\<close>

definition char_code :: "char \<Rightarrow> nat" where
  "char_code ch = of_char ch"

definition isspace :: "char \<Rightarrow> bool" where
  "isspace ch \<longleftrightarrow> char_code ch = 32 \<or> (9 \<le> char_code ch \<and> char_code ch \<le> 13)"

definition isxdigit :: "char \<Rightarrow> bool" where
  "isxdigit ch \<longleftrightarrow> (48 \<le> char_code ch \<and> char_code ch \<le> 57) \<or> (65 \<le> char_code ch \<and> char_code ch \<le> 70)
     \<or> (97 \<le> char_code ch \<and> char_code ch \<le> 102)"

definition tolower :: "char \<Rightarrow> char" where
  "tolower ch = (if 65 \<le> char_code ch \<and> char_code ch \<le> 90 then char_of (char_code ch + 32) else ch)"

definition toLowerCase :: "string \<Rightarrow> string" where
  "toLowerCase s = List.map tolower s"

definition trim :: "string \<Rightarrow> string" where
  "trim s = rev (dropWhile isspace (rev (dropWhile isspace s)))"

text \<open>\<open>replace\<close> of a one-character string by the empty one.\<close>

definition removeChar :: "char \<Rightarrow> string \<Rightarrow> string" where
  "removeChar ch s = filter (\<lambda>x. x \<noteq> ch) s"

definition isValidHexFingerprint :: "string \<Rightarrow> bool" where
  "isValidHexFingerprint value \<longleftrightarrow> length value = 64 \<and> list_all isxdigit value"

definition CR :: char where
  "CR = CHR 0x0D"

definition LF :: char where
  "LF = CHR 0x0A"

section \<open>Comparison\<close>

definition keyTypeStr :: "int \<Rightarrow> string" where
  "keyTypeStr host_key_type =
     (if host_key_type = 1 then ''ssh-rsa''
      else if host_key_type = 2 then ''ssh-dss''
      else if host_key_type = 3 then ''ecdsa-sha2-nistp256''
      else if host_key_type = 4 then ''ecdsa-sha2-nistp384''
      else if host_key_type = 5 then ''ecdsa-sha2-nistp521''
      else if host_key_type = 6 then ''ssh-ed25519''
      else ''unknown'')"

definition expectedRaw_of :: "string \<Rightarrow> string" where
  "expectedRaw_of fingerprint = removeChar LF (removeChar CR (trim fingerprint))"

text \<open>The pair \<open>(expectedIsBase64, expectedComparable)\<close> that is compared in the end.\<close>

definition expected_form :: "string \<Rightarrow> bool \<times> string" where
  "expected_form expectedRaw =
     (let lowered = toLowerCase expectedRaw;
          (expectedIsBase64, expectedComparable) =
            (if startsWith lowered ''sha256:''
             then (True, drop (nat (indexOf expectedRaw '':'') + 1) expectedRaw)
             else let candidate = removeChar (CHR '':'') (removeChar (CHR '' '') expectedRaw);
                      candidateLower = toLowerCase candidate
                  in if isValidHexFingerprint candidateLower then (False, candidateLower)
                     else (True, expectedRaw));
          expectedComparable =
            (if expectedIsBase64
             then let e = trim expectedComparable;
                      e = (if startsWith e ''SHA256:'' then drop 7 e
                           else if startsWith e ''sha256:'' then drop 7 e else e)
                  in removeChar (CHR ''='') (removeChar LF (removeChar CR (removeChar (CHR '' '') e)))
             else removeChar (CHR '':'') (removeChar (CHR '' '') (toLowerCase expectedComparable)))
      in (expectedIsBase64, expectedComparable))"

definition fingerprintsMatch :: "string \<Rightarrow> bytes \<Rightarrow> bool" where
  "fingerprintsMatch expectedRaw fingerprint_raw =
     (case expected_form expectedRaw of
        (expectedIsBase64, expectedComparable) \<Rightarrow>
          if expectedIsBase64 then expectedComparable = encodeFingerprintBase64 fingerprint_raw
          else expectedComparable = encodeFingerprintHex fingerprint_raw)"

section \<open>Diagnostic tag\<close>

definition fnv1a :: "string \<Rightarrow> u64" where
  "fnv1a key = foldl (\<lambda>h ch. (h XOR of_nat (char_code ch)) * 1099511628211) 1469598103934665603 key"

fun hex_digits_of :: "nat \<Rightarrow> u64 \<Rightarrow> string" where
  "hex_digits_of 0 v = []"
| "hex_digits_of (Suc n) v = hex_digits_of n (drop_bit 4 v) @ [kHexDigits ! unat (v AND 0xF)]"

definition publicKeyDiagnosticTag :: "string \<Rightarrow> string" where
  "publicKeyDiagnosticTag key =
     (let h = fnv1a key in hex_digits_of 8 (drop_bit 32 h) @ hex_digits_of 8 (h AND 0xffffffff))"

section \<open>Decoders\<close>

definition digit_of :: "string \<Rightarrow> char \<Rightarrow> nat" where
  "digit_of table ch = length (takeWhile (\<lambda>x. x \<noteq> ch) table)"

fun hex_decode :: "string \<Rightarrow> bytes" where
  "hex_decode (h # l # s) = of_nat (16 * digit_of kHexDigits h + digit_of kHexDigits l) # hex_decode s"
| "hex_decode s = []"

definition b64_val :: "char \<Rightarrow> u8" where
  "b64_val ch = of_nat (digit_of kBase64Table ch)"

fun base64_decode :: "string \<Rightarrow> bytes" where
  "base64_decode (w # x # y # z # s) =
     (push_bit 2 (b64_val w) OR drop_bit 4 (b64_val x))
     # (push_bit 4 (b64_val x) OR drop_bit 2 (b64_val y))
     # (push_bit 6 (b64_val y) OR b64_val z) # base64_decode s"
| "base64_decode [w, x, y] =
     [push_bit 2 (b64_val w) OR drop_bit 4 (b64_val x), push_bit 4 (b64_val x) OR drop_bit 2 (b64_val y)]"
| "base64_decode [w, x] = [push_bit 2 (b64_val w) OR drop_bit 4 (b64_val x)]"
| "base64_decode s = []"

lemma digit_of_nth: "distinct t \<Longrightarrow> i < length t \<Longrightarrow> digit_of t (t ! i) = i"
proof -
  assume d: "distinct t" and i: "i < length t"
  have "takeWhile (\<lambda>x. x \<noteq> t ! i) t = take i t"
    by (rule takeWhile_eq_take_P_nth) (use d i nth_eq_iff_index_eq in fastforce)+
  then show ?thesis using i by (simp add: digit_of_def)
qed

lemma hex_table: "distinct kHexDigits" "length kHexDigits = 16"
  by (simp_all add: kHexDigits_def)

lemma base64_table: "distinct kBase64Table" "length kBase64Table = 64"
  by (simp_all add: kBase64Table_def)

lemma unat_and_mask_less: "unat (w AND 0x0F :: u8) < 16" "unat (v AND 0x3F :: u32) < 64"
  using word_and_le1 [of w "0x0F"] word_and_le1 [of v "0x3F"] by (simp_all add: word_le_nat_alt)

section \<open>Round trips\<close>

lemma and_take_bit: "(w :: 'a::len word) AND 0x0F = take_bit 4 w" "w AND 0x3F = take_bit 6 w"
  by (simp_all add: take_bit_eq_mask mask_eq_exp_minus_1)

lemma nibbles: "16 * unat (drop_bit 4 (v :: u8) AND 0x0F) + unat (v AND 0x0F) = unat v"
proof -
  have v: "unat v < 256" using unsigned_less [of v] by simp
  have "unat (drop_bit 4 v AND 0x0F) = unat v div 16"
    using v by (simp add: and_take_bit unsigned_take_bit_eq unsigned_drop_bit_eq take_bit_eq_mod drop_bit_eq_div unat_div unat_mod)
  moreover have "unat (v AND 0x0F) = unat v mod 16"
    by (simp add: and_take_bit unsigned_take_bit_eq take_bit_eq_mod unat_mod)
  ultimately show ?thesis by simp
qed

lemma hex_roundtrip: "hex_decode (encodeFingerprintHex data) = data"
  by (induction data rule: encodeFingerprintHex.induct)
    (simp_all add: digit_of_nth hex_table unat_and_mask_less nibbles)

lemma b64_val_char: "b64_val (b64_char t sh) = ucast (take_bit 6 (drop_bit sh t))"
proof -
  have "digit_of kBase64Table (b64_char t sh) = unat (take_bit 6 (drop_bit sh t))"
    using unat_and_mask_less(2) [of "drop_bit sh t"]
    by (simp add: b64_char_def digit_of_nth base64_table and_take_bit)
  then show ?thesis by (simp add: b64_val_def)
qed

lemma bit_ucast8: "bit (ucast (w :: u32) :: u8) n \<longleftrightarrow> n < 8 \<and> bit w n"
  by (auto simp: bit_simps)

lemma bit_ucast32: "bit (ucast (w :: u8) :: u32) n \<longleftrightarrow> n < 8 \<and> bit w n"
  using bit_imp_le_length [of w n] by (auto simp: bit_simps)

lemma bit8_eqI:
  fixes v w :: u8
  assumes "bit v 0 = bit w 0" "bit v 1 = bit w 1" "bit v 2 = bit w 2" "bit v 3 = bit w 3"
    "bit v 4 = bit w 4" "bit v 5 = bit w 5" "bit v 6 = bit w 6" "bit v 7 = bit w 7"
  shows "v = w"
proof (rule bit_word_eqI)
  fix n assume "n < LENGTH(8)"
  then consider "n = 0" | "n = 1" | "n = 2" | "n = 3" | "n = 4" | "n = 5" | "n = 6" | "n = 7"
    by (simp; linarith)
  then show "bit v n = bit w n" by cases (use assms in simp_all)
qed

lemma bit8_high: "8 \<le> n \<Longrightarrow> \<not> bit (w :: u8) n"
  using bit_imp_le_length [of w n] by auto

lemma decode_group:
  "push_bit 2 (b64_val (b64_char (triple a b c) 18)) OR drop_bit 4 (b64_val (b64_char (triple a b c) 12)) = a"
  "push_bit 4 (b64_val (b64_char (triple a b c) 12)) OR drop_bit 2 (b64_val (b64_char (triple a b c) 6)) = b"
  "push_bit 6 (b64_val (b64_char (triple a b c) 6)) OR b64_val (b64_char (triple a b c) 0) = c"
proof -
  note bits = bit_simps bit_ucast8 bit_ucast32 bit8_high
  show "push_bit 2 (b64_val (b64_char (triple a b c) 18)) OR drop_bit 4 (b64_val (b64_char (triple a b c) 12)) = a"
    unfolding b64_val_char triple_def
    by (rule bit8_eqI) (simp_all add: bits)
  show "push_bit 4 (b64_val (b64_char (triple a b c) 12)) OR drop_bit 2 (b64_val (b64_char (triple a b c) 6)) = b"
    unfolding b64_val_char triple_def
    by (rule bit8_eqI) (simp_all add: bits)
  show "push_bit 6 (b64_val (b64_char (triple a b c) 6)) OR b64_val (b64_char (triple a b c) 0) = c"
    unfolding b64_val_char triple_def
    by (rule bit8_eqI) (simp_all add: bits)
qed

lemma b64_char_table: "b64_char t sh \<in> set kBase64Table"
  using unat_and_mask_less(2) [of "drop_bit sh t"] by (simp add: b64_char_def base64_table nth_mem)

lemma b64_char_not_pad [simp]: "b64_char t sh \<noteq> CHR ''=''"
proof -
  have "CHR ''='' \<notin> set kBase64Table" by (simp add: kBase64Table_def)
  then show ?thesis using b64_char_table [of t sh] by auto
qed

fun base64_body :: "bytes \<Rightarrow> string" where
  "base64_body [] = []"
| "base64_body [a] = [b64_char (triple a 0 0) 18, b64_char (triple a 0 0) 12]"
| "base64_body [a, b] = [b64_char (triple a b 0) 18, b64_char (triple a b 0) 12, b64_char (triple a b 0) 6]"
| "base64_body (a # b # c # data) =
     b64_char (triple a b c) 18 # b64_char (triple a b c) 12 # b64_char (triple a b c) 6
     # b64_char (triple a b c) 0 # base64_body data"

lemma base64_groups_body: "\<exists>k. base64_groups data = base64_body data @ replicate k (CHR ''='')"
  by (induction data rule: base64_groups.induct) (auto simp: numeral_eq_Suc intro: exI [of _ 0] exI [of _ 1] exI [of _ 2])

lemma base64_body_chars: "ch \<in> set (base64_body data) \<Longrightarrow> ch \<noteq> CHR ''=''"
  by (induction data rule: base64_body.induct) (auto simp: b64_char_not_pad [symmetric])

lemma strip_padding_append:
  "(\<And>ch. ch \<in> set s \<Longrightarrow> ch \<noteq> CHR ''='') \<Longrightarrow> strip_padding (s @ replicate k (CHR ''='')) = s"
  by (cases s rule: rev_cases) (auto simp: strip_padding_def dropWhile_append)

lemma encodeFingerprintBase64_body: "encodeFingerprintBase64 data = base64_body data"
  using base64_groups_body [of data] strip_padding_append base64_body_chars
  by (auto simp: encodeFingerprintBase64_def)

lemma base64_roundtrip: "base64_decode (encodeFingerprintBase64 data) = data"
  unfolding encodeFingerprintBase64_body
  by (induction data rule: base64_body.induct) (simp_all add: decode_group)

section \<open>What a configured fingerprint accepts\<close>

lemma fingerprintsMatch_unique:
  "fingerprintsMatch e h1 \<Longrightarrow> fingerprintsMatch e h2 \<Longrightarrow> h1 = h2"
proof -
  assume m: "fingerprintsMatch e h1" "fingerprintsMatch e h2"
  obtain b c where f: "expected_form e = (b, c)" by (rule prod.exhaust)
  show "h1 = h2"
  proof (cases b)
    case True
    then have "encodeFingerprintBase64 h1 = encodeFingerprintBase64 h2"
      using m unfolding fingerprintsMatch_def f by simp
    then show ?thesis by (metis base64_roundtrip)
  next
    case False
    then have "encodeFingerprintHex h1 = encodeFingerprintHex h2"
      using m unfolding fingerprintsMatch_def f by simp
    then show ?thesis by (metis hex_roundtrip)
  qed
qed

lemma removeChar_absent: "ch \<notin> set s \<Longrightarrow> removeChar ch s = s"
  by (auto simp: removeChar_def filter_id_conv)

lemma trim_no_space: "(\<And>ch. ch \<in> set s \<Longrightarrow> \<not> isspace ch) \<Longrightarrow> trim s = s"
  by (cases s rule: rev_cases; cases s) (auto simp: trim_def dropWhile_append)

lemma hex_chars: "set (encodeFingerprintHex data) \<subseteq> set kHexDigits"
  using hex_table(2) unat_and_mask_less(1)
  by (induction data) (auto intro!: nth_mem)

lemma length_hex: "length (encodeFingerprintHex data) = 2 * length data"
  by (induction data) auto

lemma hex_digit_check:
  "list_all (\<lambda>ch. tolower ch = ch \<and> isxdigit ch \<and> \<not> isspace ch
     \<and> ch \<notin> {CHR '':'', CHR '' '', CR, LF, CHR ''s''}) kHexDigits"
  by code_simp

lemma base64_digit_check:
  "list_all (\<lambda>ch. \<not> isspace ch \<and> ch \<notin> {CHR '':'', CHR '' '', CR, LF, CHR ''=''}) kBase64Table"
  by code_simp

lemmas hex_digit_facts = hex_digit_check [unfolded list_all_iff, THEN bspec]
lemmas base64_digit_facts = base64_digit_check [unfolded list_all_iff, THEN bspec]

lemma base64_chars: "set (encodeFingerprintBase64 data) \<subseteq> set kBase64Table"
  unfolding encodeFingerprintBase64_body
  by (induction data rule: base64_body.induct) (auto simp: b64_char_table)

lemma match_hex:
  assumes "length h = 32"
  shows "fingerprintsMatch (encodeFingerprintHex h) h"
proof -
  let ?e = "encodeFingerprintHex h"
  have facts: "tolower ch = ch" "isxdigit ch" "ch \<noteq> CHR '':''" "ch \<noteq> CHR '' ''" "ch \<noteq> CHR ''s''" if "ch \<in> set ?e" for ch
    using hex_digit_facts [of ch] hex_chars [of h] that by auto
  have lower: "toLowerCase ?e = ?e" by (simp add: toLowerCase_def facts(1) map_idI)
  have no_prefix: "\<not> startsWith ?e ''sha256:''"
  proof
    assume "startsWith ?e ''sha256:''"
    then have "CHR ''s'' \<in> set (take (length ''sha256:'') ?e)" unfolding startsWith_def by simp
    then show False using facts(5) [OF in_set_takeD] by blast
  qed
  have rm: "removeChar (CHR '':'') ?e = ?e" "removeChar (CHR '' '') ?e = ?e"
    using facts(3,4) by (auto intro!: removeChar_absent)
  have valid: "isValidHexFingerprint ?e"
    using assms facts(2) by (simp add: isValidHexFingerprint_def length_hex list_all_iff)
  show ?thesis
    by (simp add: fingerprintsMatch_def expected_form_def lower no_prefix rm valid)
qed

lemma match_base64: "fingerprintsMatch (''SHA256:'' @ encodeFingerprintBase64 h) h"
proof -
  let ?e = "encodeFingerprintBase64 h"
  have facts: "\<not> isspace ch" "ch \<noteq> CHR '':''" "ch \<noteq> CHR '' ''" "ch \<noteq> CR" "ch \<noteq> LF" "ch \<noteq> CHR ''=''"
    if "ch \<in> set ?e" for ch
    using base64_digit_facts [of ch] base64_chars [of h] that by auto
  have prefix: "startsWith (toLowerCase (''SHA256:'' @ ?e)) ''sha256:''"
  proof -
    have "toLowerCase ''SHA256:'' = ''sha256:''" by code_simp
    then show ?thesis by (simp add: startsWith_def toLowerCase_def)
  qed
  have colon: "indexOf (''SHA256:'' @ ?e) '':'' = 6"
    by (simp add: indexOf_def)
  have no_colon: "\<not> startsWith ?e (p @ [CHR '':''])" for p
  proof
    assume "startsWith ?e (p @ [CHR '':''])"
    then have "CHR '':'' \<in> set (take (length (p @ [CHR '':''])) ?e)" unfolding startsWith_def by simp
    then show False using facts(2) [OF in_set_takeD] by blast
  qed
  have "\<not> startsWith ?e ''SHA256:''" "\<not> startsWith ?e ''sha256:''"
    using no_colon [of "''SHA256''"] no_colon [of "''sha256''"] by simp_all
  moreover have "trim ?e = ?e" using facts(1) by (rule trim_no_space)
  moreover have "removeChar (CHR '' '') ?e = ?e" "removeChar CR ?e = ?e" "removeChar LF ?e = ?e"
    "removeChar (CHR ''='') ?e = ?e"
    using facts(3-6) by (intro removeChar_absent; blast)+
  moreover define e where "e = ''SHA256:'' @ ?e"
  moreover have "startsWith (toLowerCase e) ''sha256:''" "indexOf e '':'' = 6" "drop 7 e = ?e"
    using prefix colon by (simp_all add: e_def)
  ultimately show ?thesis
    unfolding e_def [symmetric] by (simp add: fingerprintsMatch_def expected_form_def)
qed

section \<open>Properties\<close>

text \<open>
  C24: A configured fingerprint accepts at most one key hash, and it accepts a SHA-256 hash when it
  is that hash printed in hexadecimal or, with the prefix of OpenSSH, in unpadded base64.
\<close>

theorem fingerprint_accepts_one_hash:
  assumes "length h = 32"
  shows "(fingerprintsMatch (encodeFingerprintHex h) h' \<longleftrightarrow> h' = h)
    \<and> (fingerprintsMatch (''SHA256:'' @ encodeFingerprintBase64 h) h' \<longleftrightarrow> h' = h)"
  using match_hex [OF assms] match_base64 [of h] fingerprintsMatch_unique by blast

theorem fingerprint_accepts_one_hash_witness:
  "fingerprintsMatch (''SHA256:'' @ encodeFingerprintBase64 (replicate 32 7)) (replicate 32 7)
   \<and> \<not> fingerprintsMatch (encodeFingerprintHex (replicate 32 7)) (replicate 32 8)"
proof -
  have "replicate 32 (8 :: u8) \<noteq> replicate 32 7" by (simp add: replicate_eq_replicate)
  then show ?thesis using fingerprint_accepts_one_hash [of "replicate 32 7"] by simp
qed

text \<open>
  The two fingerprint encoders lose nothing: the hash can be read back from its hexadecimal and
  from its unpadded base64 form, for hashes of every length.
\<close>

theorem fingerprint_encoders_roundtrip:
  "hex_decode (encodeFingerprintHex data) = data \<and> base64_decode (encodeFingerprintBase64 data) = data"
  by (simp add: hex_roundtrip base64_roundtrip)

end
