(* ===== verification/Forward_Accept.thy ===== *)
theory Forward_Accept
  imports Platform
begin

text \<open>
  \<open>forward_accept_error.h\<close>, the classification of the error left by a
  \<open>libssh2_channel_forward_accept\<close> that returned no channel, and \<open>forward_accept_diag.h\<close>, the
  counters the session keeps about its accept polling. The counters are 32-bit and wrap.
\<close>

section \<open>forward\_accept\_error\<close>

definition isBenignNoChannel :: "int \<Rightarrow> int \<Rightarrow> bool" where
  "isBenignNoChannel err eagainCode \<longleftrightarrow> err = 0 \<or> err = eagainCode"

definition isFatal :: "int \<Rightarrow> int \<Rightarrow> int \<Rightarrow> int \<Rightarrow> int \<Rightarrow> int \<Rightarrow> bool" where
  "isFatal err eagainCode channelUnknownCode channelClosedCode socketSendCode socketDisconnectCode =
     (if isBenignNoChannel err eagainCode then False
      else err = channelUnknownCode \<or> err = channelClosedCode \<or> err = socketSendCode
             \<or> err = socketDisconnectCode)"

definition shouldReconnectAfterConsecutiveErrors ::
  "int \<Rightarrow> int \<Rightarrow> int \<Rightarrow> int \<Rightarrow> int \<Rightarrow> int \<Rightarrow> int \<Rightarrow> bool" where
  "shouldReconnectAfterConsecutiveErrors consecutiveFatalErrors err eagainCode channelUnknownCode
       channelClosedCode socketSendCode socketDisconnectCode \<longleftrightarrow>
     consecutiveFatalErrors \<ge> 3
     \<and> isFatal err eagainCode channelUnknownCode channelClosedCode socketSendCode socketDisconnectCode"

section \<open>forward\_accept\_diag\<close>

record accept_snapshot =
  sn_pollsSinceAccept :: u32
  sn_eagainSinceAccept :: u32
  sn_errorsSinceAccept :: u32
  sn_lockMissesSinceAccept :: u32
  sn_totalPolls :: u32
  sn_totalAccepts :: u32
  sn_idleMs :: u32
  sn_lastErr :: int

record accept_tracker =
  totalPolls :: u32
  totalAccepts :: u32
  pollsSinceAccept :: u32
  eagainSinceAccept :: u32
  errorsSinceAccept :: u32
  lockMissesSinceAccept :: u32
  idleStartMs :: u32
  lastSummaryMs :: u32
  lastErr :: int

definition tracker_reset :: "accept_tracker \<Rightarrow> accept_tracker" where
  "tracker_reset t = t\<lparr>totalPolls := 0, totalAccepts := 0, pollsSinceAccept := 0,
     eagainSinceAccept := 0, errorsSinceAccept := 0, lockMissesSinceAccept := 0, idleStartMs := 0,
     lastSummaryMs := 0, lastErr := 0\<rparr>"

definition tracker_new :: accept_tracker where
  "tracker_new = \<lparr>totalPolls = 0, totalAccepts = 0, pollsSinceAccept = 0, eagainSinceAccept = 0,
     errorsSinceAccept = 0, lockMissesSinceAccept = 0, idleStartMs = 0, lastSummaryMs = 0, lastErr = 0\<rparr>"

definition recordPoll :: "u32 \<Rightarrow> accept_tracker \<Rightarrow> accept_tracker" where
  "recordPoll nowMs t =
     (let t = (if idleStartMs t = 0 then t\<lparr>idleStartMs := nowMs\<rparr> else t)
      in t\<lparr>totalPolls := totalPolls t + 1, pollsSinceAccept := pollsSinceAccept t + 1\<rparr>)"

definition recordNoChannel :: "int \<Rightarrow> bool \<Rightarrow> accept_tracker \<Rightarrow> accept_tracker" where
  "recordNoChannel err isEagain t =
     (let t = t\<lparr>lastErr := err\<rparr> in
      if isEagain then t\<lparr>eagainSinceAccept := eagainSinceAccept t + 1\<rparr>
      else if err \<noteq> 0 then t\<lparr>errorsSinceAccept := errorsSinceAccept t + 1\<rparr>
      else t)"

definition recordLockUnavailable :: "u32 \<Rightarrow> accept_tracker \<Rightarrow> accept_tracker" where
  "recordLockUnavailable nowMs t =
     (let t = (if idleStartMs t = 0 then t\<lparr>idleStartMs := nowMs\<rparr> else t)
      in t\<lparr>lockMissesSinceAccept := lockMissesSinceAccept t + 1\<rparr>)"

definition elapsed :: "u32 \<Rightarrow> u32 \<Rightarrow> u32" where
  "elapsed nowMs thenMs = nowMs - thenMs"

definition idleSummaryDue :: "u32 \<Rightarrow> u32 \<Rightarrow> accept_tracker \<Rightarrow> bool" where
  "idleSummaryDue nowMs intervalMs t =
     (if pollsSinceAccept t = 0 \<and> lockMissesSinceAccept t = 0 then False
      else let last = (if lastSummaryMs t \<noteq> 0 then lastSummaryMs t else idleStartMs t)
           in last \<noteq> 0 \<and> elapsed nowMs last \<ge> intervalMs)"

definition markIdleSummary :: "u32 \<Rightarrow> accept_tracker \<Rightarrow> accept_tracker" where
  "markIdleSummary nowMs t = t\<lparr>lastSummaryMs := nowMs\<rparr>"

definition tracker_snapshot :: "u32 \<Rightarrow> accept_tracker \<Rightarrow> accept_snapshot" where
  "tracker_snapshot nowMs t =
     \<lparr>sn_pollsSinceAccept = pollsSinceAccept t, sn_eagainSinceAccept = eagainSinceAccept t,
      sn_errorsSinceAccept = errorsSinceAccept t, sn_lockMissesSinceAccept = lockMissesSinceAccept t,
      sn_totalPolls = totalPolls t, sn_totalAccepts = totalAccepts t,
      sn_idleMs = (if idleStartMs t \<noteq> 0 then elapsed nowMs (idleStartMs t) else 0),
      sn_lastErr = lastErr t\<rparr>"

definition recordAccept :: "u32 \<Rightarrow> accept_tracker \<Rightarrow> accept_snapshot \<times> accept_tracker" where
  "recordAccept nowMs t =
     (let out = tracker_snapshot nowMs t;
          t = t\<lparr>totalAccepts := totalAccepts t + 1\<rparr>;
          out = out\<lparr>sn_totalAccepts := totalAccepts t\<rparr>
      in (out, t\<lparr>pollsSinceAccept := 0, eagainSinceAccept := 0, errorsSinceAccept := 0,
                 lockMissesSinceAccept := 0, idleStartMs := 0, lastSummaryMs := 0, lastErr := 0\<rparr>))"

end
