(* ===== verification/Network_Optimizer.thy ===== *)
theory Network_Optimizer
  imports Platform
begin

text \<open>
  \<open>network_optimizations.h\<close>: the socket options set on the local and on the SSH socket. The
  options that lwIP may lack are all defined on the target; \<open>errno\<close> only chooses a log level.
\<close>

definition optimizeSocket :: "('w, 'r) platform \<Rightarrow> int \<Rightarrow> int \<Rightarrow> (('w, 'z) wstate_scheme, bool) state" where
  "optimizeSocket P socket_fd rcvbuf_override = do {
     let rcvbuf = (if rcvbuf_override > 0 then rcvbuf_override else 65536);
     r1 \<leftarrow> ext (p_setsockopt P socket_fd ''TCP_NODELAY'' 1);
     r2 \<leftarrow> ext (p_setsockopt P socket_fd ''SO_RCVBUF'' rcvbuf);
     r3 \<leftarrow> ext (p_setsockopt P socket_fd ''SO_SNDBUF'' 65536);
     r4 \<leftarrow> ext (p_setsockopt P socket_fd ''SO_RCVTIMEO'' 300);
     r5 \<leftarrow> ext (p_setsockopt P socket_fd ''SO_SNDTIMEO'' 300);
     r6 \<leftarrow> ext (p_setsockopt P socket_fd ''SO_KEEPALIVE'' 1);
     let attempted = 6;
     let applied = length (filter (\<lambda>r. r = 0) [r1, r2, r3, r4, r5, r6]);
     ret (applied > 0 \<or> attempted = (0 :: nat)) }"

definition optimizeSSHSocket :: "('w, 'r) platform \<Rightarrow> int \<Rightarrow> (('w, 'z) wstate_scheme, bool) state" where
  "optimizeSSHSocket P socket_fd = do {
     success \<leftarrow> optimizeSocket P socket_fd 0;
     r1 \<leftarrow> ext (p_setsockopt P socket_fd ''TCP_KEEPIDLE'' 60);
     let success = (if r1 < 0 then False else success);
     r2 \<leftarrow> ext (p_setsockopt P socket_fd ''TCP_KEEPINTVL'' 10);
     let success = (if r2 < 0 then False else success);
     r3 \<leftarrow> ext (p_setsockopt P socket_fd ''TCP_KEEPCNT'' 6);
     let success = (if r3 < 0 then False else success);
     ret success }"

end
