(* ===== verification/Ssh_Session.thy ===== *)
theory Ssh_Session
  imports Host_Key Forward_Accept Network_Optimizer
begin

text \<open>
  \<open>ssh_session.h\<close> and \<open>ssh_session.cpp\<close>: the life cycle of the SSH connection (TCP connect,
  handshake, host-key verification, authentication, keep-alive, reverse listeners, teardown) and the
  polling for forwarded channels. The object's fields extend the configuration state; the global
  \<open>gLastCleanupCompletedMs\<close> is a field too, and \<open>mismatchCalls\<close> collects the calls of the user's
  host-key callback with their arguments. \<open>pdMS_TO_TICKS\<close> is the identity at the 1 kHz tick of the
  Arduino core.
\<close>

record listener_entry =
  le_listener :: ssh_listener
  le_mapping :: tunnel_config
  le_boundPort :: int

record 'w session_state = "'w config_state" +
  session :: ssh_session_ptr
  socketfd :: int
  sessionMutex :: bool
  hasConfig :: bool
  listeners :: "listener_entry list"
  boundPort :: int
  keepAliveFailures :: int
  sessionConnectedMs :: u32
  lastKeepaliveOkMs :: u32
  lastKeepaliveAttemptMs :: u32
  lastChannelUnknownLogMs :: u32
  channelUnknownTotal :: u32
  lastAcceptError :: int
  consecutiveFatalAcceptErrors :: int
  libssh2Initialized :: bool
  acceptDiag :: accept_tracker
  gLastCleanupCompletedMs :: u32
  mismatchCalls :: "(host_key_callback \<times> string \<times> string \<times> string \<times> nat) list"

type_synonym ('w, 'z, 'a) session_op = "(('w, 'z) session_state_scheme, 'a) state"

definition pdMS_TO_TICKS :: "u32 \<Rightarrow> u32" where
  "pdMS_TO_TICKS ms = ms"

section \<open>Locking and life cycle\<close>

definition session_lock :: "('w, 'r) platform \<Rightarrow> u32 \<Rightarrow> ('w, 'z, bool) session_op" where
  "session_lock P ticks = do {
     m \<leftarrow> gets sessionMutex;
     if \<not> m then ret False
     else do {
       let waitTicks = (if ticks = 0 then 1 else ticks);
       ext (p_xSemaphoreTake P SessionMutex waitTicks) } }"

definition session_unlock :: "('w, 'r) platform \<Rightarrow> ('w, 'z, unit) session_op" where
  "session_unlock P = do {
     m \<leftarrow> gets sessionMutex;
     whenM m (ext (p_xSemaphoreGive P SessionMutex)) }"

definition session_init :: "('w, 'r) platform \<Rightarrow> ('w, 'z, bool) session_op" where
  "session_init P = do {
     m \<leftarrow> gets sessionMutex;
     ok \<leftarrow> (if \<not> m then do {
         created \<leftarrow> ext (p_xSemaphoreCreateMutex P SessionMutex);
         modify (\<lambda>s. s\<lparr>sessionMutex := created\<rparr>);
         ret created }
       else ret True);
     if \<not> ok then ret False
     else do {
       inited \<leftarrow> gets libssh2Initialized;
       if \<not> inited then do {
         rc \<leftarrow> ext (libssh2_init P);
         if rc \<noteq> 0 then ret False
         else do {
           modify (\<lambda>s. s\<lparr>libssh2Initialized := True\<rparr>);
           ret True } }
       else ret True } }"

definition isConnected :: "('w, 'z) session_state_scheme \<Rightarrow> bool" where
  "isConnected s \<longleftrightarrow> session s \<noteq> NULL \<and> socketfd s \<ge> 0"

definition resetAcceptState :: "('w, 'r) platform \<Rightarrow> ('w, 'z, unit) session_op" where
  "resetAcceptState P = do {
     modify (\<lambda>s. s\<lparr>lastAcceptError := 0, consecutiveFatalAcceptErrors := 0\<rparr>);
     whenM (TUNNEL_DIAG_LOG_ONLY P) (modify (\<lambda>s. s\<lparr>acceptDiag := tracker_reset (acceptDiag s)\<rparr>)) }"

section \<open>Listeners\<close>

definition cancelListener :: "('w, 'r) platform \<Rightarrow> listener_entry \<Rightarrow> ('w, 'z, unit) session_op" where
  "cancelListener P entry =
     (if le_listener entry = NULL then ret ()
      else do {
        locked \<leftarrow> session_lock P (pdMS_TO_TICKS 500);
        whenM locked (do {
          ext (libssh2_channel_forward_cancel P (le_listener entry));
          session_unlock P }) })"

definition cancelAllListeners :: "('w, 'r) platform \<Rightarrow> ('w, 'z, unit) session_op" where
  "cancelAllListeners P = do {
     es \<leftarrow> gets listeners;
     for_each (cancelListener P) es;
     modify (\<lambda>s. s\<lparr>listeners := [], boundPort := -1\<rparr>) }"

text \<open>At most \<open>n\<close> more attempts; the last value reported as the bound port is kept.\<close>

fun listen_attempts ::
  "('w, 'r) platform \<Rightarrow> string \<Rightarrow> int \<Rightarrow> int \<Rightarrow> nat \<Rightarrow> int \<Rightarrow> ('w, 'z, ssh_listener \<times> int) session_op" where
  "listen_attempts P bindHost bindPort maxlisten 0 boundResult = ret (NULL, boundResult)"
| "listen_attempts P bindHost bindPort maxlisten (Suc n) boundResult = do {
     locked \<leftarrow> session_lock P (pdMS_TO_TICKS 500);
     if \<not> locked then do {
       ext (p_vTaskDelay P (pdMS_TO_TICKS 10));
       listen_attempts P bindHost bindPort maxlisten n boundResult }
     else do {
       sess \<leftarrow> gets session;
       (h, b) \<leftarrow> ext (libssh2_channel_forward_listen_ex P sess bindHost bindPort maxlisten);
       session_unlock P;
       if h = NULL then do {
         ext (p_vTaskDelay P (pdMS_TO_TICKS 10));
         listen_attempts P bindHost bindPort maxlisten n b }
       else ret (h, b) } }"

definition createListenerForMapping ::
  "('w, 'r) platform \<Rightarrow> tunnel_config \<Rightarrow> ('w, 'z, listener_entry option) session_op" where
  "createListenerForMapping P mapping = do {
     cfg \<leftarrow> gets hasConfig;
     conn \<leftarrow> gets connectionConfig;
     let maxlisten = (if cfg then max 1 (maxChannels conn) else 8);
     let bindHost = c_str (remoteBindHost mapping);
     let bindPort = remoteBindPort mapping;
     (h, boundPortResult) \<leftarrow> listen_attempts P bindHost bindPort maxlisten 50 0;
     if h = NULL then do {
       locked \<leftarrow> session_lock P (pdMS_TO_TICKS 100);
       whenM locked (do {
         sess \<leftarrow> gets session;
         ext (libssh2_session_last_error P sess);
         session_unlock P });
       ret None }
     else ret (Some \<lparr>le_listener = h, le_mapping = mapping, le_boundPort = boundPortResult\<rparr>) }"

fun createListeners_loop :: "('w, 'r) platform \<Rightarrow> tunnel_config list \<Rightarrow> ('w, 'z, bool) session_op" where
  "createListeners_loop P [] = ret True"
| "createListeners_loop P (m # ms) = do {
     r \<leftarrow> createListenerForMapping P m;
     case r of
       None \<Rightarrow> do { cancelAllListeners P; ret False }
     | Some entry \<Rightarrow> do {
         modify (\<lambda>s. s\<lparr>listeners := listeners s @ [entry],
                       boundPort := (if boundPort s < 0 then le_boundPort entry else boundPort s)\<rparr>);
         createListeners_loop P ms } }"

definition createListeners :: "('w, 'r) platform \<Rightarrow> ('w, 'z, bool) session_op" where
  "createListeners P = do {
     cancelAllListeners P;
     modify (\<lambda>s. s\<lparr>boundPort := -1\<rparr>);
     mappings \<leftarrow> gets tunnelMappings;
     if mappings = [] then ret False
     else do {
       conn \<leftarrow> gets connectionConfig;
       let desired = min (maxReverseListeners conn) (int (length mappings));
       if desired \<le> 0 then ret False
       else do {
         ok \<leftarrow> createListeners_loop P (take (nat desired) mappings);
         if \<not> ok then ret False
         else do {
           es \<leftarrow> gets listeners;
           ret (es \<noteq> []) } } } }"

section \<open>Teardown\<close>

fun free_retry :: "('w, 'r) platform \<Rightarrow> ssh_session_ptr \<Rightarrow> nat \<Rightarrow> int \<Rightarrow> ('w, 'z, int) session_op" where
  "free_retry P sess 0 freeRc = ret freeRc"
| "free_retry P sess (Suc n) freeRc =
     (if freeRc = LIBSSH2_ERROR_EAGAIN then do {
        ext (p_vTaskDelay P (pdMS_TO_TICKS 1));
        rc \<leftarrow> ext (libssh2_session_free P sess);
        free_retry P sess n rc }
      else ret freeRc)"

definition cleanupSession :: "('w, 'r) platform \<Rightarrow> ('w, 'z, unit) session_op" where
  "cleanupSession P = do {
     cleanupStartedMs \<leftarrow> millis P;
     cancelAllListeners P;
     sess \<leftarrow> gets session;
     whenM (sess \<noteq> NULL) (do {
       locked \<leftarrow> session_lock P (pdMS_TO_TICKS 2000);
       disconnectRc \<leftarrow> ext (libssh2_session_disconnect P sess);
       freeRc \<leftarrow> ext (libssh2_session_free P sess);
       fd \<leftarrow> gets socketfd;
       freeRc \<leftarrow> (if freeRc = LIBSSH2_ERROR_EAGAIN \<and> fd \<ge> 0 then do {
           ext (p_shutdown P fd SHUT_RDWR);
           ext (p_close P fd);
           modify (\<lambda>s. s\<lparr>socketfd := -1\<rparr>);
           free_retry P sess 8 freeRc }
         else ret freeRc);
       whenM (freeRc = 0) (modify (\<lambda>s. s\<lparr>session := NULL\<rparr>));
       whenM locked (session_unlock P) });
     fd \<leftarrow> gets socketfd;
     whenM (fd \<ge> 0) (do {
       ext (p_shutdown P fd SHUT_RDWR);
       ext (p_close P fd);
       modify (\<lambda>s. s\<lparr>socketfd := -1\<rparr>) });
     modify (\<lambda>s. s\<lparr>keepAliveFailures := 0, sessionConnectedMs := 0, lastKeepaliveOkMs := 0,
       lastKeepaliveAttemptMs := 0, lastChannelUnknownLogMs := 0, channelUnknownTotal := 0\<rparr>);
     resetAcceptState P;
     t \<leftarrow> millis P;
     modify (\<lambda>s. s\<lparr>gLastCleanupCompletedMs := t\<rparr>) }"

definition session_disconnect :: "('w, 'r) platform \<Rightarrow> ('w, 'z, unit) session_op" where
  "session_disconnect P = do { cancelAllListeners P; cleanupSession P }"

definition session_delete :: "('w, 'r) platform \<Rightarrow> ('w, 'z, unit) session_op" where
  "session_delete P = do {
     session_disconnect P;
     m \<leftarrow> gets sessionMutex;
     whenM m (do {
       ext (p_vSemaphoreDelete P SessionMutex);
       modify (\<lambda>s. s\<lparr>sessionMutex := False\<rparr>) }) }"

section \<open>Connection steps\<close>

definition tcpConnect :: "('w, 'r) platform \<Rightarrow> ssh_server_config \<Rightarrow> ('w, 'z, bool) session_op" where
  "tcpConnect P cfg = do {
     fd \<leftarrow> ext (p_socket P);
     modify (\<lambda>s. s\<lparr>socketfd := fd\<rparr>);
     if fd = -1 then ret False
     else do {
       optimizeSSHSocket P fd;
       he \<leftarrow> ext (p_gethostbyname P (c_str (sc_host cfg)));
       if \<not> he then do {
         ext (p_close P fd);
         modify (\<lambda>s. s\<lparr>socketfd := -1\<rparr>);
         ret False }
       else do {
         (rc, err) \<leftarrow> ext (p_connect P fd (c_str (sc_host cfg)) (sc_port cfg));
         if rc \<noteq> 0 then do {
           ext (p_close P fd);
           modify (\<lambda>s. s\<lparr>socketfd := -1\<rparr>);
           ret False }
         else ret True } } }"

definition handshake :: "('w, 'r) platform \<Rightarrow> ('w, 'z, bool) session_op" where
  "handshake P = do {
     sess \<leftarrow> ext (libssh2_session_init P);
     modify (\<lambda>s. s\<lparr>session := sess\<rparr>);
     if sess = NULL then ret False
     else do {
       locked \<leftarrow> session_lock P (pdMS_TO_TICKS 5000);
       if \<not> locked then do {
         ext (libssh2_session_free P sess);
         modify (\<lambda>s. s\<lparr>session := NULL\<rparr>);
         ret False }
       else do {
         fd \<leftarrow> gets socketfd;
         rc \<leftarrow> ext (libssh2_session_handshake P sess fd);
         if rc \<noteq> 0 then do {
           ext (libssh2_session_free P sess);
           modify (\<lambda>s. s\<lparr>session := NULL\<rparr>);
           session_unlock P;
           ret False }
         else do {
           session_unlock P;
           ret True } } } }"

definition configureKeepalive :: "('w, 'r) platform \<Rightarrow> connection_config \<Rightarrow> ('w, 'z, bool) session_op" where
  "configureKeepalive P conn =
     (if \<not> libssh2KeepAliveEnabled conn then ret True
      else do {
        locked \<leftarrow> session_lock P (pdMS_TO_TICKS 200);
        if locked then do {
          sess \<leftarrow> gets session;
          ext (libssh2_keepalive_config P sess (libssh2KeepAliveIntervalSec conn));
          session_unlock P;
          ret True }
        else ret False })"

definition verifyHostKey :: "('w, 'r) platform \<Rightarrow> ssh_server_config \<Rightarrow> ('w, 'z, bool) session_op" where
  "verifyHostKey P cfg =
     (if \<not> verifyHostKeyEnabled cfg then ret True
      else do {
        locked \<leftarrow> session_lock P (pdMS_TO_TICKS 200);
        if \<not> locked then ret False
        else do {
          sess \<leftarrow> gets session;
          (host_key, host_key_type) \<leftarrow> ext (libssh2_session_hostkey P sess);
          fingerprint_raw \<leftarrow> ext (libssh2_hostkey_hash_sha256 P sess);
          session_unlock P;
          if host_key = None \<or> host_key = Some [] then ret False
          else (case fingerprint_raw of
            None \<Rightarrow> ret False
          | Some raw \<Rightarrow>
              (let fp = take 32 raw in
               if length (hostKeyType cfg) > 0 \<and> hostKeyType cfg \<noteq> keyTypeStr host_key_type
               then ret False
               else if length (expectedHostKeyFingerprint cfg) = 0 then ret True
               else let expectedRaw = expectedRaw_of (expectedHostKeyFingerprint cfg) in
                 if \<not> fingerprintsMatch expectedRaw fp then do {
                   (case onHostKeyMismatch cfg of
                      None \<Rightarrow> ret ()
                    | Some cb \<Rightarrow> modify (\<lambda>s. s\<lparr>mismatchCalls := mismatchCalls s @
                        [(cb, expectedRaw,
                          if fst (expected_form expectedRaw) then ''SHA256:'' @ encodeFingerprintBase64 fp
                          else encodeFingerprintHex fp,
                          keyTypeStr host_key_type, hostKeyMismatchContext cfg)]\<rparr>));
                   ret False }
                 else ret True)) } })"

definition auth_password :: "('w, 'r) platform \<Rightarrow> ssh_server_config \<Rightarrow> ('w, 'z, bool) session_op" where
  "auth_password P cfg = do {
     locked \<leftarrow> session_lock P (pdMS_TO_TICKS 1000);
     if locked then do {
       sess \<leftarrow> gets session;
       authRc \<leftarrow> ext (libssh2_userauth_password P sess (c_str (sc_username cfg)) (c_str (sc_password cfg)));
       session_unlock P;
       ret (authRc = 0) }
     else ret False }"

definition auth_key :: "('w, 'r) platform \<Rightarrow> ssh_server_config \<Rightarrow> ('w, 'z, bool) session_op" where
  "auth_key P cfg = do {
     cfgp \<leftarrow> gets hasConfig;
     whenM cfgp (do { diagnoseSSHKeys P; ret () });
     if length (privateKeyData cfg) > 0 then do {
       valid \<leftarrow> (if cfgp then validateSSHKeys P else ret True);
       if \<not> valid then ret False
       else do {
         let passphrase = (if length (sc_password cfg) > 0 then Some (c_str (sc_password cfg)) else None);
         locked \<leftarrow> session_lock P (pdMS_TO_TICKS 1000);
         if locked then do {
           sess \<leftarrow> gets session;
           authResult \<leftarrow> ext (libssh2_userauth_publickey_frommemory P sess (sc_username cfg)
             (if publicKeyData cfg = [] then None else Some (publicKeyData cfg))
             (privateKeyData cfg) passphrase);
           whenM (authResult \<noteq> 0) (do { ext (libssh2_session_last_error P sess); ret () });
           session_unlock P;
           ret (authResult = 0) }
         else ret False } }
     else ret False }"

definition authenticate :: "('w, 'r) platform \<Rightarrow> ssh_server_config \<Rightarrow> ('w, 'z, bool) session_op" where
  "authenticate P cfg = do {
     locked \<leftarrow> session_lock P (pdMS_TO_TICKS 500);
     if \<not> locked then ret False
     else do {
       sess \<leftarrow> gets session;
       userauthlist \<leftarrow> ext (libssh2_userauth_list P sess (sc_username cfg));
       session_unlock P;
       if \<not> userauthlist then do {
         locked2 \<leftarrow> session_lock P (pdMS_TO_TICKS 200);
         whenM locked2 (do {
           ext (libssh2_session_last_error P sess);
           session_unlock P });
         ret False }
       else if \<not> useSSHKey cfg then auth_password P cfg
       else auth_key P cfg } }"

definition connect_steps :: "('w, 'r) platform \<Rightarrow> ('w, 'z, bool) session_op" where
  "connect_steps P = do {
     cfg \<leftarrow> gets sshConfig;
     conn \<leftarrow> gets connectionConfig;
     tcp \<leftarrow> tcpConnect P cfg;
     if \<not> tcp then ret False
     else do {
       hs \<leftarrow> handshake P;
       if \<not> hs then do { cleanupSession P; ret False }
       else do {
         hk \<leftarrow> verifyHostKey P cfg;
         if \<not> hk then do { cleanupSession P; ret False }
         else do {
           auth \<leftarrow> authenticate P cfg;
           if \<not> auth then do { cleanupSession P; ret False }
           else do {
             configureKeepalive P conn;
             ls \<leftarrow> createListeners P;
             if \<not> ls then do { cleanupSession P; ret False }
             else do {
               sess \<leftarrow> gets session;
               ext (libssh2_session_set_blocking P sess False);
               t \<leftarrow> millis P;
               modify (\<lambda>s. s\<lparr>sessionConnectedMs := t, lastKeepaliveOkMs := t,
                 lastKeepaliveAttemptMs := 0, lastChannelUnknownLogMs := 0, channelUnknownTotal := 0\<rparr>);
               ret True } } } } } }"

definition session_connect :: "('w, 'r) platform \<Rightarrow> ('w, 'z, bool) session_op" where
  "session_connect P = do {
     modify (\<lambda>s. s\<lparr>hasConfig := True\<rparr>);
     resetAcceptState P;
     connectStartedMs \<leftarrow> millis P;
     sess \<leftarrow> gets session;
     if sess \<noteq> NULL then do {
       cleanupSession P;
       sess2 \<leftarrow> gets session;
       if sess2 \<noteq> NULL then ret False else connect_steps P }
     else connect_steps P }"

section \<open>Keep-alive and health\<close>

definition sendKeepalive :: "('w, 'r) platform \<Rightarrow> ('w, 'z, bool) session_op" where
  "sendKeepalive P = do {
     sess \<leftarrow> gets session;
     if sess = NULL then ret False
     else do {
       nowMs \<leftarrow> millis P;
       modify (\<lambda>s. s\<lparr>lastKeepaliveAttemptMs := nowMs\<rparr>);
       locked \<leftarrow> session_lock P (pdMS_TO_TICKS 200);
       if \<not> locked then ret True
       else do {
         rc \<leftarrow> ext (libssh2_keepalive_send P sess);
         whenM (rc \<noteq> 0 \<and> rc \<noteq> LIBSSH2_ERROR_EAGAIN)
           (do { ext (libssh2_session_last_error P sess); ret () });
         session_unlock P;
         if rc = 0 then do {
           modify (\<lambda>s. s\<lparr>keepAliveFailures := 0, lastKeepaliveOkMs := nowMs\<rparr>);
           ret True }
         else do {
           fd \<leftarrow> gets socketfd;
           whenM (fd \<ge> 0) (do { ext (p_getsockopt_error P fd); ret () });
           if rc = LIBSSH2_ERROR_SOCKET_SEND then do {
             modify (\<lambda>s. s\<lparr>keepAliveFailures := keepAliveFailures s + 1\<rparr>);
             n \<leftarrow> gets keepAliveFailures;
             if n \<ge> 3 then do {
               modify (\<lambda>s. s\<lparr>keepAliveFailures := 0\<rparr>);
               ret False }
             else ret True }
           else do {
             whenM (rc \<noteq> LIBSSH2_ERROR_EAGAIN) (modify (\<lambda>s. s\<lparr>keepAliveFailures := 0\<rparr>));
             ret True } } } } }"

definition checkConnection :: "('w, 'r) platform \<Rightarrow> ('w, 'z, bool) session_op" where
  "checkConnection P = do {
     sess \<leftarrow> gets session;
     fd \<leftarrow> gets socketfd;
     if sess = NULL \<or> fd < 0 then ret False
     else do {
       (retval, err) \<leftarrow> ext (p_getsockopt_error P fd);
       ret (\<not> (retval \<noteq> 0 \<or> err \<noteq> 0)) } }"

section \<open>Accepting channels\<close>

definition isFatalAcceptError :: "int \<Rightarrow> bool" where
  "isFatalAcceptError err = isFatal err LIBSSH2_ERROR_EAGAIN LIBSSH2_ERROR_CHANNEL_UNKNOWN
     LIBSSH2_ERROR_CHANNEL_CLOSED LIBSSH2_ERROR_SOCKET_SEND LIBSSH2_ERROR_SOCKET_DISCONNECT"

definition hasFatalAcceptFailure :: "('w, 'z) session_state_scheme \<Rightarrow> bool" where
  "hasFatalAcceptFailure s = shouldReconnectAfterConsecutiveErrors (consecutiveFatalAcceptErrors s)
     (lastAcceptError s) LIBSSH2_ERROR_EAGAIN LIBSSH2_ERROR_CHANNEL_UNKNOWN
     LIBSSH2_ERROR_CHANNEL_CLOSED LIBSSH2_ERROR_SOCKET_SEND LIBSSH2_ERROR_SOCKET_DISCONNECT"

definition recordAcceptSuccess :: "('w, 'z, unit) session_op" where
  "recordAcceptSuccess = modify (\<lambda>s. s\<lparr>lastAcceptError := 0, consecutiveFatalAcceptErrors := 0\<rparr>)"

definition recordAcceptNoChannel :: "int \<Rightarrow> ('w, 'z, unit) session_op" where
  "recordAcceptNoChannel err = modify (\<lambda>s. s\<lparr>lastAcceptError := err,
     consecutiveFatalAcceptErrors :=
       (if isFatalAcceptError err then consecutiveFatalAcceptErrors s + 1 else 0)\<rparr>)"

definition getActiveListenerCount :: "('w, 'z) session_state_scheme \<Rightarrow> nat" where
  "getActiveListenerCount s = length (filter (\<lambda>e. le_listener e \<noteq> NULL) (listeners s))"

text \<open>What the diagnostics build does after a poll that returned no channel.\<close>

definition accept_diag_no_channel :: "('w, 'r) platform \<Rightarrow> int \<Rightarrow> ('w, 'z, unit) session_op" where
  "accept_diag_no_channel P acceptErr = whenM (TUNNEL_DIAG_LOG_ONLY P) (do {
     t \<leftarrow> millis P;
     modify (\<lambda>s. s\<lparr>acceptDiag := recordNoChannel acceptErr (acceptErr = LIBSSH2_ERROR_EAGAIN) (acceptDiag s)\<rparr>);
     now \<leftarrow> millis P;
     d \<leftarrow> gets acceptDiag;
     whenM (idleSummaryDue now 1000 d) (modify (\<lambda>s. s\<lparr>acceptDiag := markIdleSummary now (acceptDiag s)\<rparr>)) })"

fun acceptChannel_loop ::
  "('w, 'r) platform \<Rightarrow> listener_entry list \<Rightarrow> ('w, 'z, ssh_channel \<times> tunnel_config option) session_op" where
  "acceptChannel_loop P [] = ret (NULL, None)"
| "acceptChannel_loop P (entry # es) =
     (if le_listener entry = NULL then acceptChannel_loop P es
      else do {
        whenM (TUNNEL_DIAG_LOG_ONLY P) (do {
          pollNow \<leftarrow> millis P;
          modify (\<lambda>s. s\<lparr>acceptDiag := recordPoll pollNow (acceptDiag s)\<rparr>) });
        locked \<leftarrow> session_lock P (pdMS_TO_TICKS 50);
        if \<not> locked then do {
          whenM (TUNNEL_DIAG_LOG_ONLY P) (do {
            t \<leftarrow> millis P;
            modify (\<lambda>s. s\<lparr>acceptDiag := recordLockUnavailable t (acceptDiag s)\<rparr>) });
          acceptChannel_loop P es }
        else do {
          ch \<leftarrow> ext (libssh2_channel_forward_accept P (le_listener entry));
          sess \<leftarrow> gets session;
          acceptErr \<leftarrow> (if ch \<noteq> NULL then ret 0 else ext (libssh2_session_last_errno P sess));
          whenM (acceptErr = LIBSSH2_ERROR_CHANNEL_UNKNOWN)
            (do { ext (libssh2_session_last_error P sess); ret () });
          session_unlock P;
          if ch \<noteq> NULL then do {
            recordAcceptSuccess;
            whenM (TUNNEL_DIAG_LOG_ONLY P) (do {
              t \<leftarrow> millis P;
              modify (\<lambda>s. s\<lparr>acceptDiag := snd (recordAccept t (acceptDiag s))\<rparr>) });
            ret (ch, Some (le_mapping entry)) }
          else do {
            recordAcceptNoChannel acceptErr;
            whenM (acceptErr = LIBSSH2_ERROR_CHANNEL_UNKNOWN) (do {
              modify (\<lambda>s. s\<lparr>channelUnknownTotal := channelUnknownTotal s + 1\<rparr>);
              nowChu \<leftarrow> millis P;
              modify (\<lambda>s. if nowChu - lastChannelUnknownLogMs s \<ge> 1000
                         then s\<lparr>lastChannelUnknownLogMs := nowChu\<rparr> else s) });
            accept_diag_no_channel P acceptErr;
            acceptChannel_loop P es } } })"

text \<open>The mapping is \<open>None\<close> where the source leaves \<open>outMapping\<close> as it was.\<close>

definition acceptChannel :: "('w, 'r) platform \<Rightarrow> ('w, 'z, ssh_channel \<times> tunnel_config option) session_op" where
  "acceptChannel P = do {
     sess \<leftarrow> gets session;
     es \<leftarrow> gets listeners;
     if sess = NULL \<or> es = [] then ret (NULL, None)
     else acceptChannel_loop P es }"

end
