(* ===== verification/Byte_Queue_Spec.thy ===== *)
theory Byte_Queue_Spec
  imports Prelude
begin

text \<open>
  The contracts of the byte queues of the library. A \<open>pushback_source\<close> is read from its front
  and takes bytes back at its front (the two operations of \<open>PrependBuffer\<close> that
  \<open>DataRingBuffer\<close> relies on); a \<open>byte_fifo\<close> is also written at its end (the operations of
  \<open>DataRingBuffer\<close> that the transport pump relies on). The lemmas proved here once hold for
  every provider: a partial send followed by a put-back loses, duplicates and reorders nothing, and
  any history of operations delivers exactly the accepted bytes in order.
\<close>

locale pushback_source =
  fixes inv :: "'q \<Rightarrow> bool"
    and contents :: "'q \<Rightarrow> bytes"
    and read :: "nat \<Rightarrow> 'q \<Rightarrow> bytes \<times> 'q"
    and unread :: "bytes \<Rightarrow> 'q \<Rightarrow> nat \<times> 'q"
  assumes read_prefix: "inv q \<Longrightarrow> read n q = (bs, q') \<Longrightarrow> contents q = bs @ contents q'"
    and read_bound: "inv q \<Longrightarrow> read n q = (bs, q') \<Longrightarrow> length bs \<le> n"
    and read_progress: "inv q \<Longrightarrow> read n q = (bs, q') \<Longrightarrow> contents q \<noteq> [] \<Longrightarrow> 0 < n \<Longrightarrow> bs \<noteq> []"
    and inv_read: "inv q \<Longrightarrow> read n q = (bs, q') \<Longrightarrow> inv q'"
    and unread_all_or_nothing: "inv q \<Longrightarrow> unread bs q = (k, q') \<Longrightarrow>
      (k = length bs \<and> contents q' = bs @ contents q) \<or> (k = 0 \<and> contents q' = contents q)"
    and inv_unread: "inv q \<Longrightarrow> unread bs q = (k, q') \<Longrightarrow> inv q'"
begin

lemma read_take: "inv q \<Longrightarrow> read n q = (bs, q') \<Longrightarrow> bs = take (length bs) (contents q)"
  by (simp add: read_prefix)

lemma read_empty: "inv q \<Longrightarrow> contents q = [] \<Longrightarrow> read n q = (bs, q') \<Longrightarrow> bs = [] \<and> contents q' = []"
  using read_prefix by fastforce

text \<open>The put-back protocol of the pump: \<open>k\<close> of the bytes read went out, the rest goes back.\<close>

lemma partial_send_putback:
  assumes "inv q" and r: "read n q = (bs, q1)" and k: "k \<le> length bs"
    and u: "unread (drop k bs) q1 = (m, q2)" and full: "m = length (drop k bs)"
  shows "contents q = take k bs @ contents q2 \<and> inv q2"
proof -
  have inv1: "inv q1" using assms(1) r by (rule inv_read)
  have "contents q2 = drop k bs @ contents q1"
    using unread_all_or_nothing [OF inv1 u] full by auto
  moreover have "contents q = bs @ contents q1" using assms(1) r by (rule read_prefix)
  ultimately have "contents q = take k bs @ contents q2"
    by (metis append_assoc append_take_drop_id)
  then show ?thesis using inv_unread [OF inv1 u] by simp
qed

end

locale byte_fifo = pushback_source inv contents read unread
  for inv :: "'q \<Rightarrow> bool"
    and contents :: "'q \<Rightarrow> bytes"
    and read :: "nat \<Rightarrow> 'q \<Rightarrow> bytes \<times> 'q"
    and unread :: "bytes \<Rightarrow> 'q \<Rightarrow> nat \<times> 'q" +
  fixes put :: "bytes \<Rightarrow> 'q \<Rightarrow> nat \<times> 'q"
  assumes put_append: "inv q \<Longrightarrow> put bs q = (k, q') \<Longrightarrow> contents q' = contents q @ take k bs"
    and put_bound: "inv q \<Longrightarrow> put bs q = (k, q') \<Longrightarrow> k \<le> length bs"
    and inv_put: "inv q \<Longrightarrow> put bs q = (k, q') \<Longrightarrow> inv q'"

text \<open>
  A history of queue operations: bytes offered for writing, and reads of which a number of bytes
  is consumed while the rest is put back.
\<close>

datatype queue_op = Offer bytes | Consume nat nat

text \<open>Reads of at most \<open>c\<close> bytes.\<close>

primrec read_within :: "nat \<Rightarrow> queue_op \<Rightarrow> bool" where
  "read_within c (Offer bs) \<longleftrightarrow> True"
| "read_within c (Consume n k) \<longleftrightarrow> n \<le> c"

text \<open>
  One operation: the new queue, the bytes accepted, the bytes delivered and the bytes lost
  because a put-back was refused.
\<close>

definition queue_step ::
  "(nat \<Rightarrow> 'q \<Rightarrow> bytes \<times> 'q) \<Rightarrow> (bytes \<Rightarrow> 'q \<Rightarrow> nat \<times> 'q) \<Rightarrow> (bytes \<Rightarrow> 'q \<Rightarrow> nat \<times> 'q) \<Rightarrow>
   queue_op \<Rightarrow> 'q \<Rightarrow> 'q \<times> bytes \<times> bytes \<times> bytes" where
  "queue_step rd unrd wr op q = (case op of
     Offer bs \<Rightarrow> (case wr bs q of (k, q') \<Rightarrow> (q', take k bs, [], []))
   | Consume n k \<Rightarrow> (case rd n q of (bs, q1) \<Rightarrow>
       (if k < length bs
        then (case unrd (drop k bs) q1 of (m, q2) \<Rightarrow>
                (q2, [], take k bs, if m = length (drop k bs) then [] else drop k bs))
        else (q1, [], bs, []))))"

fun queue_run ::
  "(nat \<Rightarrow> 'q \<Rightarrow> bytes \<times> 'q) \<Rightarrow> (bytes \<Rightarrow> 'q \<Rightarrow> nat \<times> 'q) \<Rightarrow> (bytes \<Rightarrow> 'q \<Rightarrow> nat \<times> 'q) \<Rightarrow>
   queue_op list \<Rightarrow> 'q \<Rightarrow> 'q \<times> bytes \<times> bytes \<times> bytes" where
  "queue_run rd unrd wr [] q = (q, [], [], [])"
| "queue_run rd unrd wr (x # xs) q =
     (case queue_step rd unrd wr x q of (q1, acc, del, lost) \<Rightarrow>
      case queue_run rd unrd wr xs q1 of (q2, acc', del', lost') \<Rightarrow>
        (q2, acc @ acc', del @ del', lost @ lost'))"

context byte_fifo
begin

lemma queue_step_stream:
  assumes "inv q" and "queue_step read unread put x q = (q', acc, del, lost)" and "lost = []"
  shows "inv q' \<and> contents q @ acc = del @ contents q'"
proof (cases x)
  case (Offer bs)
  obtain k q1 where w: "put bs q = (k, q1)" by fastforce
  show ?thesis
    using assms(2) Offer w put_append [OF assms(1) w] inv_put [OF assms(1) w]
    by (auto simp: queue_step_def)
next
  case (Consume n k)
  obtain bs q1 where r: "read n q = (bs, q1)" by fastforce
  have c: "contents q = bs @ contents q1" and i1: "inv q1"
    using read_prefix [OF assms(1) r] inv_read [OF assms(1) r] by auto
  show ?thesis
  proof (cases "k < length bs")
    case True
    obtain m q2 where u: "unread (drop k bs) q1 = (m, q2)" by fastforce
    have full: "m = length (drop k bs)"
      using assms(2,3) Consume r u True by (auto simp: queue_step_def split: if_splits)
    show ?thesis
      using partial_send_putback [OF assms(1) r less_imp_le [OF True] u full] assms(2) Consume r u True
      by (auto simp: queue_step_def)
  next
    case False
    then show ?thesis using assms(2) Consume r c i1 by (auto simp: queue_step_def)
  qed
qed

lemma queue_run_stream:
  assumes "inv q" and "queue_run read unread put xs q = (q', acc, del, lost)" and "lost = []"
  shows "inv q' \<and> contents q @ acc = del @ contents q'"
  using assms
proof (induction xs arbitrary: q acc del lost)
  case Nil
  then show ?case by simp
next
  case (Cons x xs)
  obtain q1 a1 d1 l1 where s: "queue_step read unread put x q = (q1, a1, d1, l1)"
    by (metis prod_cases4)
  obtain a2 d2 l2 where r: "queue_run read unread put xs q1 = (q', a2, d2, l2)"
    and eq: "acc = a1 @ a2" "del = d1 @ d2" "lost = l1 @ l2"
    using Cons.prems(2) s by (auto split: prod.splits)
  have step: "inv q1" "contents q @ a1 = d1 @ contents q1"
    using queue_step_stream [OF Cons.prems(1) s] eq Cons.prems(3) by auto
  have rest: "inv q'" "contents q1 @ a2 = d2 @ contents q'"
    using Cons.IH [OF step(1) r] eq Cons.prems(3) by auto
  have "contents q @ acc = (d1 @ contents q1) @ a2"
    using eq step(2) by (metis append_assoc)
  also have "\<dots> = del @ contents q'" using eq rest(2) by simp
  finally show ?case using rest(1) by simp
qed

end

text \<open>A queue that takes back everything a read of at most \<open>cap q\<close> bytes delivered.\<close>

locale lossless_fifo = byte_fifo inv contents read unread put
  for inv :: "'q \<Rightarrow> bool"
    and contents :: "'q \<Rightarrow> bytes"
    and read :: "nat \<Rightarrow> 'q \<Rightarrow> bytes \<times> 'q"
    and unread :: "bytes \<Rightarrow> 'q \<Rightarrow> nat \<times> 'q"
    and put :: "bytes \<Rightarrow> 'q \<Rightarrow> nat \<times> 'q" +
  fixes cap :: "'q \<Rightarrow> nat"
  assumes unread_accepted: "inv q \<Longrightarrow> read n q = (bs, q') \<Longrightarrow> n \<le> cap q \<Longrightarrow> k \<le> length bs \<Longrightarrow>
      fst (unread (drop k bs) q') = length (drop k bs)"
    and cap_read: "inv q \<Longrightarrow> read n q = (bs, q') \<Longrightarrow> cap q' = cap q"
    and cap_unread: "inv q \<Longrightarrow> unread bs q = (k, q') \<Longrightarrow> cap q' = cap q"
    and cap_put: "inv q \<Longrightarrow> put bs q = (k, q') \<Longrightarrow> cap q' = cap q"
begin

lemma step_lossless:
  assumes "inv q" and "read_within (cap q) x" and "queue_step read unread put x q = (q', acc, del, lost)"
  shows "lost = [] \<and> cap q' = cap q"
proof (cases x)
  case (Offer bs)
  then show ?thesis
    using assms cap_put [OF assms(1), of bs] by (cases "put bs q") (auto simp: queue_step_def)
next
  case (Consume n k)
  obtain bs q1 where r: "read n q = (bs, q1)" by fastforce
  obtain m q2 where u: "unread (drop k bs) q1 = (m, q2)" by fastforce
  have "m = length (drop k bs)" if "k \<le> length bs"
    using unread_accepted [OF assms(1) r _ that] assms(2) Consume u by simp
  then show ?thesis
    using assms(3) Consume r u cap_read [OF assms(1) r] cap_unread [OF inv_read [OF assms(1) r] u]
    by (auto simp: queue_step_def split: if_splits)
qed

lemma run_lossless:
  assumes "inv q" and "list_all (read_within (cap q)) xs"
    and "queue_run read unread put xs q = (q', acc, del, lost)"
  shows "lost = [] \<and> inv q' \<and> contents q @ acc = del @ contents q'"
proof -
  have "lost = []"
    using assms
  proof (induction xs arbitrary: q acc del lost)
    case Nil
    then show ?case by simp
  next
    case (Cons x xs)
    obtain q1 a1 e1 l1 where s: "queue_step read unread put x q = (q1, a1, e1, l1)"
      by (metis prod_cases4)
    obtain a2 e2 l2 where r: "queue_run read unread put xs q1 = (q', a2, e2, l2)" and l: "lost = l1 @ l2"
      using Cons.prems(3) s by (auto split: prod.splits)
    have 1: "l1 = []" "cap q1 = cap q"
      using step_lossless [OF Cons.prems(1) _ s] Cons.prems(2) by auto
    have i1: "inv q1" using queue_step_stream [OF Cons.prems(1) s 1(1)] by simp
    show ?case using Cons.IH [OF i1 _ r] Cons.prems(2) 1 l by simp
  qed
  with queue_run_stream [OF assms(1,3)] show ?thesis by simp
qed

end

end
