(* ===== verification/Prepend_Buffer.thy ===== *)
theory Prepend_Buffer
  imports Byte_Queue_Spec
begin

text \<open>
  \<open>src/src/prepend_buffer.h\<close>: the put-back area of a ring buffer. The storage is an area of
  bytes owned by the caller (\<open>None\<close> for a null pointer), with the fields \<open>cap_\<close>, \<open>len_\<close> and
  \<open>off_\<close> of the class; \<open>memmove\<close> and \<open>memcpy\<close> are writes into that area. The invariant says that
  the read position lies inside the stored bytes and these inside the storage, and
  \<open>pb_contents\<close> is the byte list a reader will see.
\<close>

record prepend_buffer =
  pb_buf :: "bytes option"
  pb_cap :: nat
  pb_len :: nat
  pb_off :: nat

definition pb_default :: prepend_buffer where
  "pb_default = \<lparr>pb_buf = None, pb_cap = 0, pb_len = 0, pb_off = 0\<rparr>"

definition pb_make :: "bytes option \<Rightarrow> nat \<Rightarrow> prepend_buffer" where
  "pb_make storage capacity = \<lparr>pb_buf = storage, pb_cap = capacity, pb_len = 0, pb_off = 0\<rparr>"

definition pb_reset :: "bytes option \<Rightarrow> nat \<Rightarrow> prepend_buffer \<Rightarrow> prepend_buffer" where
  "pb_reset storage capacity p = p\<lparr>pb_buf := storage, pb_cap := capacity, pb_len := 0, pb_off := 0\<rparr>"

definition pb_empty :: "prepend_buffer \<Rightarrow> bool" where
  "pb_empty p \<longleftrightarrow> pb_len p \<le> pb_off p"

definition pb_pending :: "prepend_buffer \<Rightarrow> nat" where
  "pb_pending p = (if pb_len p > pb_off p then sz_sub (pb_len p) (pb_off p) else 0)"

definition pb_capacity :: "prepend_buffer \<Rightarrow> nat" where
  "pb_capacity p = pb_cap p"

definition pb_isBound :: "prepend_buffer \<Rightarrow> bool" where
  "pb_isBound p \<longleftrightarrow> pb_buf p \<noteq> None"

definition pb_clear :: "prepend_buffer \<Rightarrow> prepend_buffer" where
  "pb_clear p = p\<lparr>pb_len := 0, pb_off := 0\<rparr>"

text \<open>\<open>data\<close> is \<open>None\<close> for a null pointer, otherwise an area of at least \<open>len\<close> readable bytes.\<close>

definition pb_writeToFront :: "bytes option \<Rightarrow> nat \<Rightarrow> prepend_buffer \<Rightarrow> nat \<times> prepend_buffer" where
  "pb_writeToFront data len p =
     (case (pb_buf p, data) of
        (Some buf, Some d) \<Rightarrow>
          (if len = 0 then (0, p)
           else let pendingLen = pb_pending p in
             if len > sz_sub (pb_cap p) pendingLen then (0, p)
             else let
                 buf1 = (if pendingLen > 0
                         then mem_write buf len (take pendingLen (drop (pb_off p) buf)) else buf);
                 buf2 = mem_write buf1 0 (take len d)
               in (len, p\<lparr>pb_buf := Some buf2, pb_len := sz_add len pendingLen, pb_off := 0\<rparr>))
      | _ \<Rightarrow> (0, p))"

text \<open>
  \<open>out\<close> tells whether the destination pointer is non-null; the bytes copied to it are returned,
  and their number is the return value of the C++ method.
\<close>

definition pb_read :: "bool \<Rightarrow> nat \<Rightarrow> prepend_buffer \<Rightarrow> bytes \<times> prepend_buffer" where
  "pb_read out len p =
     (case pb_buf p of
        None \<Rightarrow> ([], p)
      | Some buf \<Rightarrow>
          (if \<not> out \<or> len = 0 \<or> pb_len p \<le> pb_off p then ([], p)
           else let
               avail = sz_sub (pb_len p) (pb_off p);
               copy = (if avail < len then avail else len);
               p1 = p\<lparr>pb_off := sz_add (pb_off p) copy\<rparr>
             in (take copy (drop (pb_off p) buf),
                 if pb_off p1 \<ge> pb_len p1 then p1\<lparr>pb_len := 0, pb_off := 0\<rparr> else p1)))"

section \<open>Invariant and contents\<close>

definition pb_inv :: "prepend_buffer \<Rightarrow> bool" where
  "pb_inv p \<longleftrightarrow> pb_off p \<le> pb_len p \<and> pb_len p \<le> pb_cap p \<and> pb_cap p < 2 ^ 32
     \<and> (case pb_buf p of None \<Rightarrow> pb_len p = 0 | Some buf \<Rightarrow> length buf = pb_cap p)"

definition pb_contents :: "prepend_buffer \<Rightarrow> bytes" where
  "pb_contents p = (case pb_buf p of None \<Rightarrow> [] | Some buf \<Rightarrow> take (pb_len p - pb_off p) (drop (pb_off p) buf))"

lemma pb_pending_eq: "pb_inv p \<Longrightarrow> pb_pending p = length (pb_contents p)"
  by (auto simp: pb_inv_def pb_pending_def pb_contents_def split: option.splits)

lemma pb_pending_le_cap: "pb_inv p \<Longrightarrow> pb_pending p \<le> pb_cap p"
  by (auto simp: pb_inv_def pb_pending_def)

lemma pb_empty_iff: "pb_inv p \<Longrightarrow> pb_empty p \<longleftrightarrow> pb_contents p = []"
  by (auto simp: pb_inv_def pb_empty_def pb_contents_def split: option.splits)

lemma pb_inv_reset:
  "n < 2 ^ 32 \<Longrightarrow> (\<forall>b. storage = Some b \<longrightarrow> length b = n) \<Longrightarrow> pb_inv (pb_reset storage n p)"
  by (auto simp: pb_inv_def pb_reset_def split: option.splits)

lemma pb_contents_reset: "pb_contents (pb_reset storage n p) = []"
  by (simp add: pb_contents_def pb_reset_def split: option.splits)

lemma pb_inv_default: "pb_inv pb_default"
  by (simp add: pb_inv_def pb_default_def)

lemma pb_inv_clear: "pb_inv p \<Longrightarrow> pb_inv (pb_clear p)"
  by (auto simp: pb_inv_def pb_clear_def split: option.splits)

lemma pb_contents_clear: "pb_contents (pb_clear p) = []"
  by (simp add: pb_contents_def pb_clear_def split: option.splits)

lemma pb_clear_frame:
  "pb_isBound (pb_clear p) = pb_isBound p" "pb_cap (pb_clear p) = pb_cap p"
  by (simp_all add: pb_clear_def pb_isBound_def)

lemmas pb_defs = pb_inv_def pb_contents_def pb_pending_def

section \<open>The two operations\<close>

lemma pb_fits_iff: "pb_inv p \<Longrightarrow> len > sz_sub (pb_cap p) (pb_pending p) \<longleftrightarrow> len + pb_pending p > pb_cap p"
  using pb_pending_le_cap [of p] by (auto simp: pb_inv_def)

lemma pb_writeToFront_reject:
  assumes "pb_inv p" and "\<not> (pb_isBound p \<and> data \<noteq> None \<and> 0 < len \<and> len + pb_pending p \<le> pb_cap p)"
  shows "pb_writeToFront data len p = (0, p)"
  using assms pb_fits_iff [OF assms(1), of len]
  by (auto simp: pb_writeToFront_def pb_isBound_def Let_def split: option.splits)

lemma pb_writeToFront_accept:
  assumes inv: "pb_inv p" and "pb_isBound p" and "0 < len" and fits: "len + pb_pending p \<le> pb_cap p"
    and d: "len \<le> length d"
  obtains p' where "pb_writeToFront (Some d) len p = (len, p')" and "pb_inv p'"
    and "pb_contents p' = take len d @ pb_contents p" and "pb_cap p' = pb_cap p"
    and "pb_isBound p'"
proof -
  obtain buf where buf: "pb_buf p = Some buf" "length buf = pb_cap p"
    using assms by (auto simp: pb_inv_def pb_isBound_def split: option.splits)
  let ?n = "pb_pending p"
  let ?old = "take ?n (drop (pb_off p) buf)"
  let ?buf1 = "if 0 < ?n then mem_write buf len ?old else buf"
  let ?buf2 = "mem_write ?buf1 0 (take len d)"
  let ?p = "p\<lparr>pb_buf := Some ?buf2, pb_len := sz_add len ?n, pb_off := 0\<rparr>"
  have old: "?old = pb_contents p" "length ?old = ?n"
    using buf inv by (auto simp: pb_defs)
  have sum: "sz_add len ?n = len + ?n" using inv fits by (auto simp: pb_inv_def)
  have l1: "length ?buf1 = pb_cap p" using buf fits old(2) by auto
  have "pb_writeToFront (Some d) len p = (len, ?p)"
    using buf assms pb_fits_iff [OF inv, of len] by (simp add: pb_writeToFront_def Let_def)
  moreover have "pb_inv ?p"
    using inv fits sum l1 d by (auto simp: pb_inv_def)
  moreover have "pb_contents ?p = take len d @ pb_contents p"
  proof (cases "?n = 0")
    case True
    then have "pb_contents p = []" using old by simp
    then show ?thesis using True sum d by (simp add: pb_contents_def mem_write_def)
  next
    case False
    have "drop len (mem_write buf len ?old) = ?old @ drop (len + ?n) buf"
      using buf fits old(2) by (simp add: mem_write_def)
    then show ?thesis
      using False sum d old by (simp add: pb_contents_def mem_write_def)
  qed
  ultimately show thesis using that [of ?p] by (simp add: pb_isBound_def)
qed

lemma pb_read_spec:
  assumes "pb_inv p"
  shows "fst (pb_read True len p) = take len (pb_contents p)
    \<and> pb_contents (snd (pb_read True len p)) = drop len (pb_contents p)
    \<and> pb_inv (snd (pb_read True len p))"
proof -
  have copy: "pb_off p + min (pb_len p - pb_off p) len < 2 ^ 32"
    using assms by (auto simp: pb_inv_def min_def)
  show ?thesis
    using assms copy
    by (auto simp: pb_read_def pb_defs Let_def min_def drop_take add.commute split: option.splits if_splits)
qed

lemma pb_read_cap: "pb_cap (snd (pb_read out len p)) = pb_cap p"
  by (auto simp: pb_read_def Let_def split: option.splits)

lemma pb_writeToFront_cap: "pb_cap (snd (pb_writeToFront data len p)) = pb_cap p"
  by (auto simp: pb_writeToFront_def Let_def split: option.splits)

lemma pb_read_isBound: "pb_isBound (snd (pb_read out len p)) = pb_isBound p"
  by (auto simp: pb_read_def pb_isBound_def Let_def split: option.splits)

lemma pb_writeToFront_isBound: "pb_isBound (snd (pb_writeToFront data len p)) = pb_isBound p"
  by (auto simp: pb_writeToFront_def pb_isBound_def Let_def split: option.splits)

lemmas pb_frame = pb_read_cap pb_writeToFront_cap pb_read_isBound pb_writeToFront_isBound

section \<open>The contract\<close>

definition pb_unread :: "bytes \<Rightarrow> prepend_buffer \<Rightarrow> nat \<times> prepend_buffer" where
  "pb_unread bs p = pb_writeToFront (Some bs) (length bs) p"

lemma pb_unread_cases:
  assumes "pb_inv p"
  shows "(pb_unread bs p = (0, p) \<and> (bs = [] \<or> \<not> pb_isBound p \<or> pb_cap p < length bs + pb_pending p))
    \<or> (\<exists>p'. pb_unread bs p = (length bs, p') \<and> pb_inv p' \<and> pb_contents p' = bs @ pb_contents p)"
proof (cases "pb_isBound p \<and> bs \<noteq> [] \<and> length bs + pb_pending p \<le> pb_cap p")
  case True
  then show ?thesis
    using pb_writeToFront_accept [OF assms, of "length bs" bs] by (auto simp: pb_unread_def)
next
  case False
  then show ?thesis
    using pb_writeToFront_reject [OF assms, of "Some bs" "length bs"] by (auto simp: pb_unread_def)
qed

interpretation prepend: pushback_source pb_inv pb_contents "pb_read True" pb_unread
proof unfold_locales
  fix q n bs q' k
  assume inv: "pb_inv q"
  show "pb_contents q = bs @ pb_contents q'" if "pb_read True n q = (bs, q')"
    using pb_read_spec [OF inv, of n] that by simp
  show "length bs \<le> n" if "pb_read True n q = (bs, q')"
    using pb_read_spec [OF inv, of n] that by simp
  show "bs \<noteq> []" if "pb_read True n q = (bs, q')" and "pb_contents q \<noteq> []" and "0 < n"
    using pb_read_spec [OF inv, of n] that by auto
  show "pb_inv q'" if "pb_read True n q = (bs, q')"
    using pb_read_spec [OF inv, of n] that by simp
  show "k = length bs \<and> pb_contents q' = bs @ pb_contents q \<or> k = 0 \<and> pb_contents q' = pb_contents q"
    if "pb_unread bs q = (k, q')"
    using pb_unread_cases [OF inv, of bs] that by auto
  show "pb_inv q'" if "pb_unread bs q = (k, q')"
    using pb_unread_cases [OF inv, of bs] inv that by auto
qed

section \<open>Properties\<close>

text \<open>
  C19: Bytes that fit into the put-back area are taken completely, are the next ones a read delivers,
  and leave the bytes that were pending before unchanged behind them. The area is never overrun:
  afterwards it still has the length of the storage.
\<close>

theorem pb_putback_roundtrip:
  assumes "pb_inv p" and "pb_isBound p" and "0 < length bs" and "length bs + pb_pending p \<le> pb_cap p"
    and "pb_writeToFront (Some bs) (length bs) p = (k, p1)"
  shows "k = length bs \<and> pb_inv p1 \<and> pb_pending p1 = length bs + pb_pending p
    \<and> fst (pb_read True (length bs) p1) = bs
    \<and> pb_contents (snd (pb_read True (length bs) p1)) = pb_contents p"
proof -
  obtain p' where p': "pb_writeToFront (Some bs) (length bs) p = (length bs, p')" "pb_inv p'"
    "pb_contents p' = bs @ pb_contents p"
    using pb_writeToFront_accept [OF assms(1-4) order_refl] by auto
  then show ?thesis
    using assms(1,5) pb_read_spec [OF p'(2), of "length bs"] by (simp add: pb_pending_eq)
qed

theorem pb_putback_roundtrip_witness:
  "pb_writeToFront (Some [1, 2]) 2 (pb_make (Some [0, 0, 0, 0]) 4)
     = (2, \<lparr>pb_buf = Some [1, 2, 0, 0], pb_cap = 4, pb_len = 2, pb_off = 0\<rparr>)
   \<and> pb_inv \<lparr>pb_buf = Some [1, 2, 0, 0], pb_cap = 4, pb_len = 2, pb_off = 0\<rparr>
   \<and> fst (pb_read True 2 \<lparr>pb_buf = Some [1, 2, 0, 0], pb_cap = 4, pb_len = 2, pb_off = 0\<rparr>) = [1, 2]"
proof -
  let ?p = "pb_make (Some [0, 0, 0, 0]) 4"
  have w: "pb_writeToFront (Some [1, 2]) (length [1 :: u8, 2]) ?p
      = (2, \<lparr>pb_buf = Some [1, 2, 0, 0], pb_cap = 4, pb_len = 2, pb_off = 0\<rparr>)"
    by (simp add: pb_make_def pb_writeToFront_def pb_pending_def mem_write_def sz_sub_def sz_add_def)
  have h: "pb_inv ?p" "pb_isBound ?p" "length [1 :: u8, 2] + pb_pending ?p \<le> pb_cap ?p"
    by (simp_all add: pb_make_def pb_inv_def pb_isBound_def pb_pending_def)
  from pb_putback_roundtrip [OF h(1,2) _ h(3) w] w show ?thesis by (simp add: numeral_2_eq_2)
qed

end
