(* ===== verification/Ring_Buffer.thy ===== *)
theory Ring_Buffer
  imports Prepend_Buffer Platform
begin

text \<open>
  \<open>src/src/ring_buffer.h\<close>: \<open>DataRingBuffer\<close>, a FreeRTOS byte ring buffer with a put-back area in
  front of it. The FreeRTOS ring is a parameter: the fields \<open>xRingbuffer...\<close> of the platform.
  What its documentation promises of a \<open>RINGBUF_TYPE_BYTEBUF\<close> ring is the locale
  \<open>freertos_bytebuf\<close>; in it the ring buffer is shown to be a \<open>byte_fifo\<close>.
\<close>

record 'r data_ring_buffer =
  handle :: "'r option"
  capacity :: nat
  tag :: string
  ringStorage :: bool
  ringStruct :: bool
  prependStorage :: bool
  prepend :: prepend_buffer

section \<open>Construction and destruction\<close>

definition psramAlloc :: "('w, 'r) platform \<Rightarrow> nat \<Rightarrow> (('w, 'z) wstate_scheme, bool) state" where
  "psramAlloc P sz = do {
     ptr \<leftarrow> ext (p_heap_caps_malloc P MALLOC_CAP_SPIRAM sz);
     if \<not> ptr then ext (p_malloc P sz) else ret ptr }"

definition psramFree :: "('w, 'r) platform \<Rightarrow> bool \<Rightarrow> (('w, 'z) wstate_scheme, unit) state" where
  "psramFree P ptr = whenM ptr (ext (p_free P))"

definition drb_new ::
  "('w, 'r) platform \<Rightarrow> nat \<Rightarrow> string \<Rightarrow> (('w, 'z) wstate_scheme, 'r data_ring_buffer) state" where
  "drb_new P sz tagName = do {
     storage \<leftarrow> psramAlloc P sz;
     struct \<leftarrow> psramAlloc P (sizeof_StaticRingbuffer P);
     let h = (if storage \<and> struct then xRingbufferCreateStatic P sz else None);
     pstorage \<leftarrow> psramAlloc P (SSH_TUNNEL_PREPEND_CAPACITY P);
     if h = None \<or> \<not> pstorage then do {
       psramFree P storage;
       psramFree P struct;
       psramFree P pstorage;
       ret \<lparr>handle = None, capacity = sz, tag = tagName, ringStorage = False, ringStruct = False,
            prependStorage = False, prepend = pb_default\<rparr>
     } else
       ret \<lparr>handle = h, capacity = sz, tag = tagName, ringStorage = storage, ringStruct = struct,
            prependStorage = pstorage,
            prepend = pb_reset (Some (replicate (SSH_TUNNEL_PREPEND_CAPACITY P) 0))
                        (SSH_TUNNEL_PREPEND_CAPACITY P) pb_default\<rparr> }"

definition drb_delete ::
  "('w, 'r) platform \<Rightarrow> 'r data_ring_buffer \<Rightarrow> (('w, 'z) wstate_scheme, unit) state" where
  "drb_delete P d = do {
     psramFree P (ringStorage d);
     psramFree P (ringStruct d);
     psramFree P (prependStorage d) }"

section \<open>Operations\<close>

text \<open>The loop of \<open>write\<close>: every round that continues has sent at least one byte.\<close>

function drb_write_loop ::
  "('w, 'r) platform \<Rightarrow> bytes \<Rightarrow> nat \<Rightarrow> nat \<Rightarrow> 'r \<Rightarrow> nat \<times> 'r" where
  "drb_write_loop P data len written h =
     (if written < len then
        let freeSpace = xRingbufferGetCurFreeSize P h in
        if freeSpace = 0 then (written, h)
        else let
            rest = len - written;
            chunk = (if rest > freeSpace then freeSpace else rest)
          in if chunk = 0 then (written, h)
             else (case xRingbufferSend P (take chunk (drop written data)) h of
                 (ok, h') \<Rightarrow>
                   if \<not> ok then (written, h')
                   else drb_write_loop P data len (written + chunk) h')
      else (written, h))"
  by pat_completeness auto
termination
  by (relation "measure (\<lambda>(P, data, len, written, h). len - written)") (auto split: if_splits)

declare drb_write_loop.simps [simp del]

definition drb_write ::
  "('w, 'r) platform \<Rightarrow> bytes option \<Rightarrow> nat \<Rightarrow> 'r data_ring_buffer \<Rightarrow> nat \<times> 'r data_ring_buffer" where
  "drb_write P data len d =
     (case (handle d, data) of
        (Some h, Some bs) \<Rightarrow>
          (if len = 0 then (0, d)
           else case drb_write_loop P bs len 0 h of
             (written, h') \<Rightarrow> (written, d\<lparr>handle := Some h'\<rparr>))
      | _ \<Rightarrow> (0, d))"

definition drb_writeToFront ::
  "bytes option \<Rightarrow> nat \<Rightarrow> 'r data_ring_buffer \<Rightarrow> nat \<times> 'r data_ring_buffer" where
  "drb_writeToFront data len d =
     (case pb_writeToFront data len (prepend d) of (n, p) \<Rightarrow> (n, d\<lparr>prepend := p\<rparr>))"

text \<open>The part of \<open>read\<close> that takes from the FreeRTOS ring.\<close>

definition drb_read_ring ::
  "('w, 'r) platform \<Rightarrow> nat \<Rightarrow> 'r data_ring_buffer \<Rightarrow> bytes \<times> 'r data_ring_buffer" where
  "drb_read_ring P remaining d =
     (case handle d of
        None \<Rightarrow> ([], d)
      | Some h \<Rightarrow>
          (case xRingbufferReceiveUpTo P remaining h of
             (None, h') \<Rightarrow> ([], d\<lparr>handle := Some h'\<rparr>)
           | (Some item, h') \<Rightarrow>
               (let toCopy = (if length item > remaining then remaining else length item)
                in (take toCopy item, d\<lparr>handle := Some (vRingbufferReturnItem P h')\<rparr>))))"

definition drb_read ::
  "('w, 'r) platform \<Rightarrow> bool \<Rightarrow> nat \<Rightarrow> 'r data_ring_buffer \<Rightarrow> bytes \<times> 'r data_ring_buffer" where
  "drb_read P out len d =
     (if \<not> out \<or> len = 0 then ([], d)
      else let
          (front, p) = (if \<not> pb_empty (prepend d) then pb_read out len (prepend d)
                        else ([], prepend d));
          d1 = d\<lparr>prepend := p\<rparr>
        in if \<not> pb_empty (prepend d) \<and> length front \<ge> len then (front, d1)
           else (case drb_read_ring P (len - length front) d1 of
                   (item, d2) \<Rightarrow> (front @ item, d2)))"

partial_function (option) drb_clear_loop ::
  "('w, 'r) platform \<Rightarrow> nat \<Rightarrow> 'r \<Rightarrow> 'r option" where
  "drb_clear_loop P cap h =
     (case xRingbufferReceiveUpTo P cap h of
        (None, h') \<Rightarrow> Some h'
      | (Some item, h') \<Rightarrow> drb_clear_loop P cap (vRingbufferReturnItem P h'))"

definition drb_clear ::
  "('w, 'r) platform \<Rightarrow> 'r data_ring_buffer \<Rightarrow> 'r data_ring_buffer option" where
  "drb_clear P d =
     (let d1 = d\<lparr>prepend := pb_clear (prepend d)\<rparr> in
      case handle d1 of
        None \<Rightarrow> Some d1
      | Some h \<Rightarrow> map_option (\<lambda>h'. d1\<lparr>handle := Some h'\<rparr>) (drb_clear_loop P (capacity d1) h))"

definition drb_size :: "('w, 'r) platform \<Rightarrow> 'r data_ring_buffer \<Rightarrow> nat" where
  "drb_size P d =
     (let prependRemain = pb_pending (prepend d) in
      case handle d of
        None \<Rightarrow> prependRemain
      | Some h \<Rightarrow>
          (let freeSpace = xRingbufferGetCurFreeSize P h;
               ringUsed = (if freeSpace > capacity d then 0 else capacity d - freeSpace)
           in sz_add prependRemain ringUsed))"

definition drb_available :: "('w, 'r) platform \<Rightarrow> 'r data_ring_buffer \<Rightarrow> nat" where
  "drb_available P d = (case handle d of None \<Rightarrow> 0 | Some h \<Rightarrow> xRingbufferGetCurFreeSize P h)"

definition drb_empty :: "('w, 'r) platform \<Rightarrow> 'r data_ring_buffer \<Rightarrow> bool" where
  "drb_empty P d \<longleftrightarrow> drb_size P d = 0"

definition drb_full :: "('w, 'r) platform \<Rightarrow> 'r data_ring_buffer \<Rightarrow> bool" where
  "drb_full P d \<longleftrightarrow> drb_available P d = 0"

definition drb_capacityBytes :: "'r data_ring_buffer \<Rightarrow> nat" where
  "drb_capacityBytes d = capacity d"

definition drb_unread :: "bytes \<Rightarrow> 'r data_ring_buffer \<Rightarrow> nat \<times> 'r data_ring_buffer" where
  "drb_unread bs d = drb_writeToFront (Some bs) (length bs) d"

section \<open>The contract of a FreeRTOS byte ring\<close>

locale freertos_bytebuf =
  fixes P :: "('w, 'r) platform"
    and rb_inv :: "'r \<Rightarrow> bool"
    and rb_contents :: "'r \<Rightarrow> bytes"
    and rb_cap :: "'r \<Rightarrow> nat"
  assumes rb_create: "xRingbufferCreateStatic P n = Some h \<Longrightarrow> n < 2 ^ 31 \<Longrightarrow>
      rb_inv h \<and> rb_contents h = [] \<and> rb_cap h = n"
    and rb_bounded: "rb_inv h \<Longrightarrow> length (rb_contents h) \<le> rb_cap h \<and> rb_cap h < 2 ^ 31"
    and rb_free: "rb_inv h \<Longrightarrow> xRingbufferGetCurFreeSize P h = rb_cap h - length (rb_contents h)"
    and rb_send_fits: "rb_inv h \<Longrightarrow> length bs \<le> rb_cap h - length (rb_contents h) \<Longrightarrow>
      \<exists>h'. xRingbufferSend P bs h = (True, h') \<and> rb_inv h' \<and> rb_cap h' = rb_cap h
        \<and> rb_contents h' = rb_contents h @ bs"
    and rb_receive_empty: "rb_inv h \<Longrightarrow> rb_contents h = [] \<Longrightarrow>
      xRingbufferReceiveUpTo P n h = (None, h)"
    and rb_receive: "rb_inv h \<Longrightarrow> rb_contents h \<noteq> [] \<Longrightarrow> 0 < n \<Longrightarrow>
      \<exists>item h'. xRingbufferReceiveUpTo P n h = (Some item, h') \<and> item \<noteq> [] \<and> length item \<le> n
        \<and> rb_inv (vRingbufferReturnItem P h') \<and> rb_cap (vRingbufferReturnItem P h') = rb_cap h
        \<and> rb_contents h = item @ rb_contents (vRingbufferReturnItem P h')"

text \<open>Well-formedness and contents of a \<open>DataRingBuffer\<close>, over the ring's own.\<close>

definition drb_inv ::
  "('r \<Rightarrow> bool) \<Rightarrow> ('r \<Rightarrow> nat) \<Rightarrow> 'r data_ring_buffer \<Rightarrow> bool" where
  "drb_inv rb_inv rb_cap d \<longleftrightarrow> pb_inv (prepend d) \<and> pb_cap (prepend d) < 2 ^ 31
     \<and> (case handle d of None \<Rightarrow> \<not> pb_isBound (prepend d)
        | Some h \<Rightarrow> rb_inv h \<and> rb_cap h = capacity d \<and> pb_isBound (prepend d))"

definition drb_contents :: "('r \<Rightarrow> bytes) \<Rightarrow> 'r data_ring_buffer \<Rightarrow> bytes" where
  "drb_contents rb_contents d =
     pb_contents (prepend d) @ (case handle d of None \<Rightarrow> [] | Some h \<Rightarrow> rb_contents h)"

section \<open>The ring buffer over a correct FreeRTOS ring\<close>

context freertos_bytebuf
begin

lemma write_loop_spec:
  assumes "rb_inv h" and "written \<le> len" and "len \<le> length data"
  shows "\<exists>h'. drb_write_loop P data len written h
      = (written + min (len - written) (rb_cap h - length (rb_contents h)), h')
    \<and> rb_inv h' \<and> rb_cap h' = rb_cap h
    \<and> rb_contents h' = rb_contents h
        @ take (min (len - written) (rb_cap h - length (rb_contents h))) (drop written data)"
proof -
  define free where "free = rb_cap h - length (rb_contents h)"
  define chunk where "chunk = min (len - written) free"
  have f: "xRingbufferGetCurFreeSize P h = free" using rb_free [OF assms(1)] by (simp add: free_def)
  have if_chunk: "(if len - written > free then free else len - written) = chunk"
    by (simp add: chunk_def min_def)
  have "\<exists>h'. drb_write_loop P data len written h = (written + chunk, h')
    \<and> rb_inv h' \<and> rb_cap h' = rb_cap h \<and> rb_contents h' = rb_contents h @ take chunk (drop written data)"
  proof (cases "chunk = 0")
    case True
    then have "written = len \<or> free = 0" using assms(2) by (auto simp: chunk_def min_def split: if_splits)
    then show ?thesis
      using assms f True by (subst drb_write_loop.simps) auto
  next
    case False
    then have pos: "written < len" "free \<noteq> 0"
      by (auto simp: chunk_def min_def split: if_splits)
    have len_chunk: "length (take chunk (drop written data)) = chunk"
      using assms(3) by (simp add: chunk_def)
    obtain h1 where send: "xRingbufferSend P (take chunk (drop written data)) h = (True, h1)"
      and h1: "rb_inv h1" "rb_cap h1 = rb_cap h"
        "rb_contents h1 = rb_contents h @ take chunk (drop written data)"
      using rb_send_fits [OF assms(1), of "take chunk (drop written data)"] len_chunk
      by (auto simp: chunk_def free_def)
    have f1: "xRingbufferGetCurFreeSize P h1 = free - chunk"
      using rb_free [OF h1(1)] h1 len_chunk by (simp add: free_def)
    have "drb_write_loop P data len written h = drb_write_loop P data len (written + chunk) h1"
      using pos f send False
      by (subst drb_write_loop.simps) (simp only: Let_def if_chunk if_True if_False simp_thms prod.case)
    also have "\<dots> = (written + chunk, h1)"
    proof (cases "written + chunk < len")
      case True
      then have "free - chunk = 0" by (auto simp: chunk_def min_def split: if_splits)
      then show ?thesis using f1 by (subst drb_write_loop.simps) simp
    qed (subst drb_write_loop.simps, simp)
    finally show ?thesis using h1 by auto
  qed
  then show ?thesis by (simp add: chunk_def free_def)
qed

abbreviation inv :: "'r data_ring_buffer \<Rightarrow> bool" where
  "inv \<equiv> drb_inv rb_inv rb_cap"

abbreviation contents :: "'r data_ring_buffer \<Rightarrow> bytes" where
  "contents \<equiv> drb_contents rb_contents"

lemma write_spec:
  assumes "inv d" and "len \<le> length bs" and "drb_write P (Some bs) len d = (k, d')"
  shows "k = min len (drb_available P d) \<and> inv d' \<and> contents d' = contents d @ take k bs
    \<and> capacity d' = capacity d \<and> prepend d' = prepend d"
proof (cases "handle d")
  case None
  then show ?thesis using assms by (auto simp: drb_write_def drb_available_def)
next
  case (Some h)
  have h: "rb_inv h" "rb_cap h = capacity d" using assms(1) Some by (auto simp: drb_inv_def)
  show ?thesis
    using write_loop_spec [OF h(1), of 0 len bs] assms Some h rb_free [OF h(1)]
    by (cases "len = 0") (auto simp: drb_write_def drb_available_def drb_inv_def drb_contents_def)
qed

lemma read_ring_spec:
  assumes "inv d" and "0 < n" and "drb_read_ring P n d = (bs, d')"
  shows "inv d' \<and> prepend d' = prepend d \<and> capacity d' = capacity d \<and> length bs \<le> n
    \<and> contents d = pb_contents (prepend d) @ bs @ drop (length (pb_contents (prepend d))) (contents d')
    \<and> (bs = [] \<longrightarrow> contents d' = pb_contents (prepend d))"
proof (cases "handle d")
  case None
  then show ?thesis using assms by (auto simp: drb_read_ring_def drb_contents_def)
next
  case (Some h)
  have h: "rb_inv h" "rb_cap h = capacity d" using assms(1) Some by (auto simp: drb_inv_def)
  show ?thesis
  proof (cases "rb_contents h = []")
    case True
    then show ?thesis
      using assms Some h rb_receive_empty [OF h(1) True, of n]
      by (auto simp: drb_read_ring_def drb_contents_def drb_inv_def)
  next
    case False
    then show ?thesis
      using assms Some h rb_receive [OF h(1) False assms(2)]
      by (auto simp: drb_read_ring_def drb_contents_def drb_inv_def)
  qed
qed

lemma read_front:
  assumes "inv d" and "pb_read True n (prepend d) = (front, p)"
  shows "front = take n (pb_contents (prepend d)) \<and> inv (d\<lparr>prepend := p\<rparr>)
    \<and> pb_contents p = drop n (pb_contents (prepend d))
    \<and> pb_cap p = pb_cap (prepend d) \<and> pb_isBound p = pb_isBound (prepend d)"
proof -
  have "pb_inv (prepend d)" using assms(1) by (simp add: drb_inv_def)
  from pb_read_spec [OF this, of n] assms show ?thesis
    using pb_frame(1,3) [of True n "prepend d"]
    by (simp add: drb_inv_def split: option.splits)
qed

lemma read_spec:
  assumes "inv d" and "drb_read P True n d = (bs, d')"
  shows "contents d = bs @ contents d' \<and> length bs \<le> n \<and> inv d' \<and> capacity d' = capacity d
    \<and> (contents d \<noteq> [] \<longrightarrow> 0 < n \<longrightarrow> bs \<noteq> [])
    \<and> pb_contents (prepend d') = drop n (pb_contents (prepend d))
    \<and> pb_cap (prepend d') = pb_cap (prepend d) \<and> pb_isBound (prepend d') = pb_isBound (prepend d)"
proof (cases "n = 0")
  case True
  then show ?thesis using assms by (simp add: drb_read_def)
next
  case False
  have pinv: "pb_inv (prepend d)" using assms(1) by (simp add: drb_inv_def)
  obtain front p where f: "pb_read True n (prepend d) = (front, p)" by fastforce
  note front = read_front [OF assms(1) f]
  consider (empty) "pb_contents (prepend d) = []"
    | (enough) "pb_contents (prepend d) \<noteq> []" "n \<le> length front"
    | (both) "pb_contents (prepend d) \<noteq> []" "length front < n"
    by linarith
  then show ?thesis
  proof cases
    case empty
    then have r: "drb_read_ring P n d = (bs, d')"
      using assms(2) False pb_empty_iff [OF pinv] by (simp add: drb_read_def split: prod.splits)
    show ?thesis
      using read_ring_spec [OF assms(1) _ r] False empty by (simp add: drb_contents_def)
  next
    case enough
    then have "bs = front" "d' = d\<lparr>prepend := p\<rparr>"
      using assms(2) False f pb_empty_iff [OF pinv] by (auto simp: drb_read_def)
    then show ?thesis using front enough False by (simp add: drb_contents_def)
  next
    case both
    then obtain item where r: "drb_read_ring P (n - length front) (d\<lparr>prepend := p\<rparr>) = (item, d')"
      and bs: "bs = front @ item"
      using assms(2) False f pb_empty_iff [OF pinv] by (auto simp: drb_read_def split: prod.splits)
    have p: "pb_contents p = []" "front = pb_contents (prepend d)" using front both by auto
    show ?thesis
      using read_ring_spec [of "d\<lparr>prepend := p\<rparr>", OF _ _ r] front both p bs
      by (simp add: drb_contents_def) linarith
  qed
qed

lemma unread_spec:
  assumes "inv d" and "drb_unread bs d = (k, d')"
  shows "inv d' \<and> capacity d' = capacity d \<and> handle d' = handle d
    \<and> ((k = length bs \<and> contents d' = bs @ contents d) \<or> (k = 0 \<and> d' = d))"
proof -
  have pinv: "pb_inv (prepend d)" using assms(1) by (simp add: drb_inv_def)
  have "pb_cap (snd (pb_unread bs (prepend d))) = pb_cap (prepend d)"
    "pb_isBound (snd (pb_unread bs (prepend d))) = pb_isBound (prepend d)"
    by (auto simp: pb_unread_def pb_writeToFront_def pb_isBound_def Let_def split: option.splits)
  then show ?thesis
    using pb_unread_cases [OF pinv, of bs] assms
    by (auto simp: drb_unread_def drb_writeToFront_def pb_unread_def drb_inv_def drb_contents_def
             split: option.splits)
qed

text \<open>The put-back area takes everything a read of at most its capacity delivered.\<close>

lemma unread_after_read:
  assumes "inv d" and r: "drb_read P True n d = (bs, d1)" and "k \<le> length bs"
    and cap: "n \<le> pb_cap (prepend d)"
  shows "fst (drb_unread (drop k bs) d1) = length (drop k bs)"
proof (cases "drop k bs = []")
  case True
  then show ?thesis
    by (simp add: drb_unread_def drb_writeToFront_def pb_writeToFront_def split: option.splits prod.splits)
next
  case False
  note spec = read_spec [OF assms(1) r]
  have pinv: "pb_inv (prepend d)" "pb_inv (prepend d1)" using assms(1) spec by (auto simp: drb_inv_def)
  have bound: "pb_isBound (prepend d1)"
  proof (rule ccontr)
    assume "\<not> pb_isBound (prepend d1)"
    then have "\<not> pb_isBound (prepend d)" using spec by simp
    then have "contents d = []"
      using assms(1)
      by (simp add: drb_inv_def drb_contents_def pb_contents_def pb_isBound_def split: option.splits)
    with spec False show False by simp
  qed
  have "length bs + pb_pending (prepend d1) \<le> pb_cap (prepend d1)"
  proof (cases "n \<le> length (pb_contents (prepend d))")
    case True
    then show ?thesis
      using spec pb_pending_eq [OF pinv(1)] pb_pending_eq [OF pinv(2)] pb_pending_le_cap [OF pinv(1)]
      by simp linarith
  next
    case False
    then show ?thesis using spec pb_pending_eq [OF pinv(2)] cap by simp
  qed
  then have "length (drop k bs) + pb_pending (prepend d1) \<le> pb_cap (prepend d1)" by simp
  with pb_unread_cases [OF pinv(2), of "drop k bs"] bound False show ?thesis
    by (auto simp: drb_unread_def drb_writeToFront_def pb_unread_def split: prod.splits)
qed

lemma size_spec: "inv d \<Longrightarrow> drb_size P d = length (contents d)"
proof (cases "handle d")
  case None
  then show "inv d \<Longrightarrow> ?thesis"
    by (simp add: drb_size_def drb_contents_def drb_inv_def pb_pending_eq)
next
  case (Some h)
  assume inv: "inv d"
  then have h: "rb_inv h" "rb_cap h = capacity d" "pb_inv (prepend d)" "pb_cap (prepend d) < 2 ^ 31"
    using Some by (auto simp: drb_inv_def)
  note b = rb_bounded [OF h(1)]
  have used: "capacity d - xRingbufferGetCurFreeSize P h = length (rb_contents h)"
    using rb_free [OF h(1)] h(2) b by simp
  have "pb_pending (prepend d) + length (rb_contents h) < 2 ^ 32"
    using pb_pending_le_cap [OF h(3)] h(4) b by simp
  with used rb_free [OF h(1)] h Some show ?thesis
    by (auto simp: drb_size_def drb_contents_def pb_pending_eq Let_def)
qed

lemma empty_spec: "inv d \<Longrightarrow> drb_empty P d \<longleftrightarrow> contents d = []"
  by (simp add: drb_empty_def size_spec)

lemma available_spec:
  "inv d \<Longrightarrow> handle d \<noteq> None \<Longrightarrow>
     drb_available P d + length (contents d) = capacity d + pb_pending (prepend d)"
  using rb_free
  by (auto simp: drb_available_def drb_inv_def drb_contents_def pb_pending_eq dest!: rb_bounded)

text \<open>\<open>clear\<close> returns: every round of its loop removes at least one byte from the ring.\<close>

lemma clear_loop_spec:
  assumes "rb_inv h" and "0 < rb_cap h"
  shows "\<exists>h'. drb_clear_loop P (rb_cap h) h = Some h' \<and> rb_inv h' \<and> rb_cap h' = rb_cap h \<and> rb_contents h' = []"
  using assms
proof (induction "length (rb_contents h)" arbitrary: h rule: less_induct)
  case less
  show ?case
  proof (cases "rb_contents h = []")
    case True
    then show ?thesis
      using less.prems rb_receive_empty [OF less.prems(1) True]
      by (subst drb_clear_loop.simps) simp
  next
    case False
    then obtain item h1 where r: "xRingbufferReceiveUpTo P (rb_cap h) h = (Some item, h1)" "item \<noteq> []"
      and h1: "rb_inv (vRingbufferReturnItem P h1)" "rb_cap (vRingbufferReturnItem P h1) = rb_cap h"
        "rb_contents h = item @ rb_contents (vRingbufferReturnItem P h1)"
      using rb_receive [OF less.prems(1) False less.prems(2)] by auto
    then have "length (rb_contents (vRingbufferReturnItem P h1)) < length (rb_contents h)" by simp
    from less.hyps [OF this h1(1)] less.prems(2) h1(2) r(1) show ?thesis
      by (subst drb_clear_loop.simps) simp
  qed
qed

lemma clear_spec:
  assumes "inv d" and "0 < capacity d"
  shows "\<exists>d'. drb_clear P d = Some d' \<and> inv d' \<and> contents d' = [] \<and> capacity d' = capacity d"
proof (cases "handle d")
  case None
  then show ?thesis
    using assms
    by (simp add: drb_clear_def drb_inv_def drb_contents_def pb_inv_clear pb_contents_clear pb_clear_frame)
next
  case (Some h)
  then have h: "rb_inv h" "rb_cap h = capacity d" using assms(1) by (auto simp: drb_inv_def)
  then obtain h' where "drb_clear_loop P (capacity d) h = Some h'" "rb_inv h'" "rb_cap h' = capacity d"
    "rb_contents h' = []"
    using clear_loop_spec [OF h(1)] assms(2) by auto
  with Some assms(1) show ?thesis
    by (simp add: drb_clear_def drb_inv_def drb_contents_def pb_inv_clear pb_contents_clear pb_clear_frame)
qed

end

text \<open>A \<open>DataRingBuffer\<close> over a correct FreeRTOS ring is a byte queue with put-back.\<close>

sublocale freertos_bytebuf \<subseteq> fifo: lossless_fifo
  "drb_inv rb_inv rb_cap" "drb_contents rb_contents" "drb_read P True" drb_unread
  "\<lambda>bs. drb_write P (Some bs) (length bs)" "\<lambda>d. pb_cap (prepend d)"
proof unfold_locales
  fix q :: "'r data_ring_buffer" and n bs q' k
  assume i: "drb_inv rb_inv rb_cap q"
  note r = read_spec [OF i, of n bs q'] and u = unread_spec [OF i, of bs k q']
    and w = write_spec [OF i order_refl, of bs k q']
  show "drb_contents rb_contents q = bs @ drb_contents rb_contents q'" if "drb_read P True n q = (bs, q')"
    using r that by simp
  show "length bs \<le> n" if "drb_read P True n q = (bs, q')"
    using r that by simp
  show "bs \<noteq> []" if "drb_read P True n q = (bs, q')" "drb_contents rb_contents q \<noteq> []" "0 < n"
    using r that by simp
  show "drb_inv rb_inv rb_cap q'" if "drb_read P True n q = (bs, q')"
    using r that by simp
  show "k = length bs \<and> drb_contents rb_contents q' = bs @ drb_contents rb_contents q
      \<or> k = 0 \<and> drb_contents rb_contents q' = drb_contents rb_contents q" if "drb_unread bs q = (k, q')"
    using u that by auto
  show "drb_inv rb_inv rb_cap q'" if "drb_unread bs q = (k, q')"
    using u that by simp
  show "drb_contents rb_contents q' = drb_contents rb_contents q @ take k bs"
    if "drb_write P (Some bs) (length bs) q = (k, q')"
    using w that by simp
  show "k \<le> length bs" if "drb_write P (Some bs) (length bs) q = (k, q')"
    using w that by simp
  show "drb_inv rb_inv rb_cap q'" if "drb_write P (Some bs) (length bs) q = (k, q')"
    using w that by simp
  show "fst (drb_unread (drop k bs) q') = length (drop k bs)"
    if "drb_read P True n q = (bs, q')" "n \<le> pb_cap (prepend q)" "k \<le> length bs"
    using unread_after_read [OF i] that by blast
  show "pb_cap (prepend q') = pb_cap (prepend q)" if "drb_read P True n q = (bs, q')"
    using r that by simp
  show "pb_cap (prepend q') = pb_cap (prepend q)" if "drb_unread bs q = (k, q')"
    using that pb_writeToFront_cap [of "Some bs" "length bs" "prepend q"]
    by (cases "pb_writeToFront (Some bs) (length bs) (prepend q)")
      (auto simp: drb_unread_def drb_writeToFront_def)
  show "pb_cap (prepend q') = pb_cap (prepend q)" if "drb_write P (Some bs) (length bs) q = (k, q')"
    using w that by simp
qed

section \<open>Construction\<close>

context freertos_bytebuf
begin

lemma new_spec:
  assumes "sz < 2 ^ 31" and "SSH_TUNNEL_PREPEND_CAPACITY P < 2 ^ 31"
  shows "wp (drb_new P sz t)
    (\<lambda>d _. drb_inv rb_inv rb_cap d \<and> drb_contents rb_contents d = [] \<and> capacity d = sz
       \<and> (handle d \<noteq> None \<longrightarrow> pb_cap (prepend d) = SSH_TUNNEL_PREPEND_CAPACITY P)) s"
  using assms rb_create
  by (auto simp: drb_new_def psramAlloc_def psramFree_def wp_simps Let_def drb_inv_def drb_contents_def
      pb_inv_default pb_default_def pb_isBound_def pb_reset_def pb_inv_def pb_contents_def
      split: prod.splits option.splits)

lemma history_lossless:
  assumes "drb_inv rb_inv rb_cap d" and "list_all (read_within (pb_cap (prepend d))) ops"
    and "queue_run (drb_read P True) drb_unread (\<lambda>bs. drb_write P (Some bs) (length bs)) ops d = (d', acc, del, lost)"
  shows "lost = [] \<and> drb_inv rb_inv rb_cap d'
    \<and> drb_contents rb_contents d @ acc = del @ drb_contents rb_contents d'"
  by (rule fifo.run_lossless [OF assms])

end

end
