(* ===== verification/Channel_Policies.thy ===== *)
theory Channel_Policies
  imports Prelude
begin

text \<open>
  The host-testable policy headers of the channel layer: \<open>channel_close_progress.h\<close> (which part
  of the two-step libssh2 teardown has succeeded), \<open>channel_memory_guard.h\<close> (is there memory for
  the buffers of one more channel), \<open>channel_slot_alloc.h\<close> (the first reusable slot) and
  \<open>channel_timeout.h\<close> (has a channel been idle too long). Times are 32-bit \<open>millis()\<close> values and
  differences wrap.
\<close>

section \<open>channel\_close\_progress\<close>

record progress =
  closeComplete :: bool
  freeComplete :: bool

definition progress_init :: progress where
  "progress_init = \<lparr>closeComplete = False, freeComplete = False\<rparr>"

definition recordCloseResult :: "progress \<Rightarrow> int \<Rightarrow> int \<Rightarrow> bool \<times> progress" where
  "recordCloseResult p rc eagainCode =
     (if rc = eagainCode then (False, p) else (True, p\<lparr>closeComplete := True\<rparr>))"

definition readyForFree :: "progress \<Rightarrow> bool" where
  "readyForFree p \<longleftrightarrow> closeComplete p"

definition recordFreeResult :: "progress \<Rightarrow> int \<Rightarrow> int \<Rightarrow> bool \<times> progress" where
  "recordFreeResult p rc eagainCode =
     (if rc = eagainCode then (False, p) else (True, p\<lparr>freeComplete := True\<rparr>))"

definition readyForFinalize :: "progress \<Rightarrow> bool" where
  "readyForFinalize p \<longleftrightarrow> closeComplete p \<and> freeComplete p"

section \<open>channel\_memory\_guard\<close>

record requirements =
  totalBytes :: nat
  largestBlockBytes :: nat

definition mem_requirements :: "nat \<Rightarrow> nat \<Rightarrow> nat \<Rightarrow> requirements" where
  "mem_requirements ringBufferBytes prependBufferBytes reserveBytes =
     \<lparr>totalBytes = sz_add (sz_add (sz_mul ringBufferBytes 2) (sz_mul prependBufferBytes 2)) reserveBytes,
      largestBlockBytes = (if ringBufferBytes > prependBufferBytes then ringBufferBytes
                           else prependBufferBytes)\<rparr>"

definition hasCapacity :: "nat \<Rightarrow> nat \<Rightarrow> requirements \<Rightarrow> bool" where
  "hasCapacity totalFreeBytes largestFreeBlockBytes required \<longleftrightarrow>
     totalFreeBytes \<ge> totalBytes required \<and> largestFreeBlockBytes \<ge> largestBlockBytes required"

definition hasContiguousCapacity :: "nat \<Rightarrow> requirements \<Rightarrow> bool" where
  "hasContiguousCapacity largestFreeBlockBytes required \<longleftrightarrow>
     largestFreeBlockBytes \<ge> totalBytes required"

section \<open>channel\_slot\_alloc\<close>

definition FINALIZE_COOLDOWN_MS :: u32 where
  "FINALIZE_COOLDOWN_MS = 50"

text \<open>
  The template's slot type is represented by its two accessors. The loop runs over the indices
  \<open>i..<n\<close>; a null array is \<open>None\<close>.
\<close>

fun findFreeSlot_loop ::
  "('s \<Rightarrow> bool) \<Rightarrow> ('s \<Rightarrow> u32) \<Rightarrow> u32 \<Rightarrow> u32 \<Rightarrow> int \<Rightarrow> 's list \<Rightarrow> int" where
  "findFreeSlot_loop act lastFin now cooldown_ms i [] = -1"
| "findFreeSlot_loop act lastFin now cooldown_ms i (s # ss) =
     (if act s then findFreeSlot_loop act lastFin now cooldown_ms (i + 1) ss
      else if lastFin s \<noteq> 0 \<and> now - lastFin s < cooldown_ms
      then findFreeSlot_loop act lastFin now cooldown_ms (i + 1) ss
      else i)"

definition findFreeSlot ::
  "('s \<Rightarrow> bool) \<Rightarrow> ('s \<Rightarrow> u32) \<Rightarrow> 's list option \<Rightarrow> int \<Rightarrow> u32 \<Rightarrow> u32 \<Rightarrow> int" where
  "findFreeSlot act lastFin slots n now cooldown_ms =
     (case slots of None \<Rightarrow> -1
      | Some ss \<Rightarrow> if n \<le> 0 then -1
                  else findFreeSlot_loop act lastFin now cooldown_ms 0 (take (nat n) ss))"

section \<open>channel\_timeout\<close>

definition expired :: "u32 \<Rightarrow> u32 \<Rightarrow> u32 \<Rightarrow> bool" where
  "expired now lastActivity timeoutMs \<longleftrightarrow>
     timeoutMs > 0 \<and> lastActivity > 0 \<and> now - lastActivity > timeoutMs"

section \<open>Slot selection\<close>

text \<open>What makes a slot selectable.\<close>

definition reusable :: "('s \<Rightarrow> bool) \<Rightarrow> ('s \<Rightarrow> u32) \<Rightarrow> u32 \<Rightarrow> u32 \<Rightarrow> 's \<Rightarrow> bool" where
  "reusable act lastFin now cooldown_ms s \<longleftrightarrow>
     \<not> act s \<and> (lastFin s = 0 \<or> cooldown_ms \<le> now - lastFin s)"

lemma findFreeSlot_loop_spec:
  "(case List.extract (reusable act lastFin now c) ss of
      None \<Rightarrow> findFreeSlot_loop act lastFin now c i ss = -1
    | Some (pre, s, post) \<Rightarrow> findFreeSlot_loop act lastFin now c i ss = i + int (length pre))"
  by (induction ss arbitrary: i)
    (auto simp: extract_Nil_code extract_Cons_code reusable_def not_less split: option.splits if_splits)

lemma findFreeSlot_sound:
  assumes "findFreeSlot act lastFin (Some ss) n now c = i" and "0 \<le> i" and "n \<le> int (length ss)"
  shows "i < n \<and> reusable act lastFin now c (ss ! nat i)
    \<and> (\<forall>j < nat i. \<not> reusable act lastFin now c (ss ! j))"
proof -
  have n: "0 < n" using assms(1,2) by (auto simp: findFreeSlot_def split: if_splits)
  let ?ss = "take (nat n) ss"
  have loop: "findFreeSlot_loop act lastFin now c 0 ?ss = i"
    using assms(1) n by (simp add: findFreeSlot_def)
  obtain pre s post where e: "List.extract (reusable act lastFin now c) ?ss = Some (pre, s, post)"
    using findFreeSlot_loop_spec [of act lastFin now c 0 ?ss] loop assms(2)
    by (cases "List.extract (reusable act lastFin now c) ?ss") auto
  then have i: "i = int (length pre)"
    using findFreeSlot_loop_spec [of act lastFin now c 0 ?ss] loop by simp
  from e have split: "?ss = pre @ s # post"
    and s: "reusable act lastFin now c s" and pre: "\<forall>x\<in>set pre. \<not> reusable act lastFin now c x"
    by (auto simp: extract_Some_iff)
  have len: "length pre < nat n" using arg_cong [OF split, of length] assms(3) by simp
  have "ss ! j = (pre @ s # post) ! j" if "j < nat n" for j
    using that arg_cong [OF split, of "\<lambda>xs. xs ! j"] by simp
  then show ?thesis using i s pre len by (auto simp: nth_append)
qed

lemma findFreeSlot_none_iff:
  assumes "n \<le> int (length ss)"
  shows "findFreeSlot act lastFin (Some ss) n now c = -1
    \<longleftrightarrow> (\<forall>s\<in>set (take (nat n) ss). \<not> reusable act lastFin now c s)"
proof (cases "0 < n")
  case True
  then show ?thesis
    using findFreeSlot_loop_spec [of act lastFin now c 0 "take (nat n) ss"]
    by (auto simp: findFreeSlot_def extract_None_iff extract_Some_iff split: option.splits)
qed (simp add: findFreeSlot_def)

section \<open>Properties\<close>

text \<open>
  Slot allocation returns the first slot that is not active and past its cool-down, and -1
  exactly when there is none among the first \<open>n\<close> slots.
\<close>

theorem findFreeSlot_correct:
  assumes "n \<le> int (length ss)"
  shows "(findFreeSlot act lastFin (Some ss) n now c = -1
      \<and> (\<forall>s\<in>set (take (nat n) ss). \<not> reusable act lastFin now c s))
    \<or> (\<exists>i < nat n. findFreeSlot act lastFin (Some ss) n now c = int i \<and> reusable act lastFin now c (ss ! i)
      \<and> (\<forall>j < i. \<not> reusable act lastFin now c (ss ! j)))"
proof (cases "findFreeSlot act lastFin (Some ss) n now c = -1")
  case True
  then show ?thesis using findFreeSlot_none_iff [OF assms] by simp
next
  case False
  then have "0 \<le> findFreeSlot act lastFin (Some ss) n now c"
    using findFreeSlot_loop_spec [of act lastFin now c 0 "take (nat n) ss"]
    by (auto simp: findFreeSlot_def split: option.splits if_splits)
  from findFreeSlot_sound [OF refl this assms] this show ?thesis
    by (intro disjI2 exI [of _ "nat (findFreeSlot act lastFin (Some ss) n now c)"]) auto
qed

theorem findFreeSlot_correct_witness:
  "findFreeSlot fst snd (Some [(True, 0), (False, 980), (False, 900)]) 3 1000 FINALIZE_COOLDOWN_MS = 2
   \<and> reusable fst snd (1000 :: u32) FINALIZE_COOLDOWN_MS (False, 900)"
  using findFreeSlot_correct [of 3 "[(True, 0), (False, 980), (False, 900)]" fst snd 1000 FINALIZE_COOLDOWN_MS]
  by (auto simp: findFreeSlot_def FINALIZE_COOLDOWN_MS_def reusable_def)

text \<open>
  With a timeout and a known last activity, a channel counts as expired exactly when more than
  the timeout has passed, also across the wrap of the 32-bit clock (for real elapsed times below the
  clock's period).
\<close>

theorem expired_iff_elapsed:
  assumes "0 < timeoutMs" and "0 < lastActivity" and "d < 2 ^ 32" and "now = lastActivity + of_nat d"
  shows "expired now lastActivity timeoutMs \<longleftrightarrow> unat timeoutMs < d"
proof -
  have "unat (of_nat d :: u32) = d" using assms(3) by (simp add: unat_of_nat)
  then show ?thesis using assms by (simp add: expired_def word_less_nat_alt)
qed

theorem expired_iff_elapsed_witness:
  "expired 20 4294967266 49 \<and> \<not> expired 20 4294967266 50"
  using expired_iff_elapsed [of 49 4294967266 50 20] expired_iff_elapsed [of 50 4294967266 50 20] by simp

end
