(* ===== verification/Circuit_Breaker.thy ===== *)
theory Circuit_Breaker
  imports Prelude
begin

text \<open>
  \<open>src/src/circuit_breaker.h\<close>: the per-mapping circuit breaker of the local endpoints. The table
  of at most eight entries is a list; a pointer into it is an index, the null pointer \<open>None\<close>. The
  reference definition \<open>health_of\<close> reads the state of a port off the whole history of reports, and
  \<open>health_refines\<close> shows that the table computes it.
\<close>

record mapping_health =
  mh_remoteBindPort :: int
  consecutiveFails :: u16
  backoffUntilMs :: u32

record circuit_breaker =
  health :: "mapping_health list"
  totalTrips :: u32

definition MAX_MAPPING_HEALTH :: nat where
  "MAX_MAPPING_HEALTH = 8"

definition FAIL_THRESHOLD :: u16 where
  "FAIL_THRESHOLD = 3"

definition BACKOFF_BASE_MS :: u32 where
  "BACKOFF_BASE_MS = 1000"

definition BACKOFF_CAP_MS :: u32 where
  "BACKOFF_CAP_MS = 60000"

definition unused_health :: mapping_health where
  "unused_health = \<lparr>mh_remoteBindPort = 0, consecutiveFails = 0, backoffUntilMs = 0\<rparr>"

definition cb_new :: circuit_breaker where
  "cb_new = \<lparr>health = replicate MAX_MAPPING_HEALTH unused_health, totalTrips = 0\<rparr>"

section \<open>Operations\<close>

text \<open>The first index from \<open>i\<close> on whose entry has the given port.\<close>

fun index_of_port :: "int \<Rightarrow> mapping_health list \<Rightarrow> nat option" where
  "index_of_port p [] = None"
| "index_of_port p (h # hs) =
     (if mh_remoteBindPort h = p then Some 0 else map_option Suc (index_of_port p hs))"

definition cb_find :: "circuit_breaker \<Rightarrow> int \<Rightarrow> mapping_health option" where
  "cb_find c port =
     (if port = 0 then None else map_option (\<lambda>i. health c ! i) (index_of_port port (health c)))"

definition findOrAlloc :: "int \<Rightarrow> circuit_breaker \<Rightarrow> nat option \<times> circuit_breaker" where
  "findOrAlloc port c =
     (case index_of_port port (health c) of
        Some i \<Rightarrow> (Some i, c)
      | None \<Rightarrow>
          (case index_of_port 0 (health c) of
             Some i \<Rightarrow> (Some i, c\<lparr>health := (health c)[i := \<lparr>mh_remoteBindPort = port,
                          consecutiveFails = 0, backoffUntilMs = 0\<rparr>]\<rparr>)
           | None \<Rightarrow> (None, c)))"

definition isBackedOff :: "circuit_breaker \<Rightarrow> int \<Rightarrow> u32 \<Rightarrow> bool" where
  "isBackedOff c port now =
     (case cb_find c port of
        None \<Rightarrow> False
      | Some h \<Rightarrow> if backoffUntilMs h = 0 then False else sint (now - backoffUntilMs h) < 0)"

definition backoff_delay :: "u16 \<Rightarrow> u32" where
  "backoff_delay fails =
     (let exp = uint fails - uint FAIL_THRESHOLD;
          exp = (if exp > 16 then 16 else exp);
          delay = push_bit (nat exp) BACKOFF_BASE_MS
      in if delay > BACKOFF_CAP_MS then BACKOFF_CAP_MS else delay)"

definition recordFailure :: "int \<Rightarrow> u32 \<Rightarrow> circuit_breaker \<Rightarrow> bool \<times> circuit_breaker" where
  "recordFailure port now c =
     (if port = 0 then (False, c)
      else case findOrAlloc port c of
        (None, c1) \<Rightarrow> (False, c1)
      | (Some i, c1) \<Rightarrow>
          (let h = health c1 ! i;
               wasOpen = (backoffUntilMs h \<noteq> 0 \<and> sint (now - backoffUntilMs h) < 0);
               h1 = (if consecutiveFails h < 100
                     then h\<lparr>consecutiveFails := consecutiveFails h + 1\<rparr> else h)
           in if consecutiveFails h1 \<ge> FAIL_THRESHOLD then
                let h2 = h1\<lparr>backoffUntilMs := now + backoff_delay (consecutiveFails h1)\<rparr>;
                    c2 = c1\<lparr>health := (health c1)[i := h2]\<rparr>
                in if \<not> wasOpen then (True, c2\<lparr>totalTrips := totalTrips c2 + 1\<rparr>)
                   else (False, c2)
              else (False, c1\<lparr>health := (health c1)[i := h1]\<rparr>)))"

definition recordSuccess :: "int \<Rightarrow> circuit_breaker \<Rightarrow> circuit_breaker" where
  "recordSuccess port c =
     (if port = 0 then c
      else case findOrAlloc port c of
        (None, c1) \<Rightarrow> c1
      | (Some i, c1) \<Rightarrow>
          c1\<lparr>health := (health c1)[i := (health c1 ! i)\<lparr>consecutiveFails := 0, backoffUntilMs := 0\<rparr>]\<rparr>)"

section \<open>Histories\<close>

datatype report = Failed int u32 | Succeeded int

fun cb_step :: "report \<Rightarrow> circuit_breaker \<Rightarrow> circuit_breaker" where
  "cb_step (Failed p t) c = snd (recordFailure p t c)"
| "cb_step (Succeeded p) c = recordSuccess p c"

fun report_port :: "report \<Rightarrow> int" where
  "report_port (Failed p t) = p"
| "report_port (Succeeded p) = p"

text \<open>The times of the failures of a port since its last success, oldest first.\<close>

fun fail_times :: "int \<Rightarrow> report list \<Rightarrow> u32 list" where
  "fail_times p [] = []"
| "fail_times p (Failed q t # rs) = (if p = q \<and> Succeeded p \<notin> set rs then t # fail_times p rs else fail_times p rs)"
| "fail_times p (Succeeded q # rs) = fail_times p rs"

text \<open>The back-off after the \<open>n\<close>-th consecutive failure, in milliseconds.\<close>

definition backoff_ms :: "nat \<Rightarrow> nat" where
  "backoff_ms n = min 60000 (1000 * 2 ^ (n - 3))"

definition health_of :: "int \<Rightarrow> report list \<Rightarrow> u16 \<times> u32" where
  "health_of p rs =
     (let ts = fail_times p rs; n = length ts in
      (of_nat (min 100 n), if n \<ge> 3 then last ts + of_nat (backoff_ms n) else 0))"

definition tracked :: "circuit_breaker \<Rightarrow> int \<Rightarrow> u16 \<times> u32" where
  "tracked c p = (case cb_find c p of None \<Rightarrow> (0, 0) | Some h \<Rightarrow> (consecutiveFails h, backoffUntilMs h))"

section \<open>The table\<close>

text \<open>
  The table keeps its size, no port has two entries, the failure counter saturates at 100 and an
  entry has a back-off time only above the threshold.
\<close>

definition health_ok :: "mapping_health \<Rightarrow> bool" where
  "health_ok h \<longleftrightarrow> consecutiveFails h \<le> 100
     \<and> (consecutiveFails h < FAIL_THRESHOLD \<longrightarrow> backoffUntilMs h = 0)"

definition used_ports :: "circuit_breaker \<Rightarrow> int list" where
  "used_ports c = filter (\<lambda>p. p \<noteq> 0) (map mh_remoteBindPort (health c))"

definition cb_inv :: "circuit_breaker \<Rightarrow> bool" where
  "cb_inv c \<longleftrightarrow> length (health c) = MAX_MAPPING_HEALTH \<and> distinct (used_ports c)
     \<and> (\<forall>h\<in>set (health c). health_ok h)"

lemma index_of_port_find:
  "map_option (\<lambda>i. hs ! i) (index_of_port p hs) = List.find (\<lambda>h. mh_remoteBindPort h = p) hs"
  by (induction hs) (auto simp: option.map_comp comp_def)

lemma cb_find_eq:
  "cb_find c p = (if p = 0 then None else List.find (\<lambda>h. mh_remoteBindPort h = p) (health c))"
  by (simp add: cb_find_def index_of_port_find)

lemma index_of_port_None: "index_of_port p hs = None \<longleftrightarrow> p \<notin> mh_remoteBindPort ` set hs"
  by (induction hs) auto

lemma index_of_port_Some:
  "index_of_port p hs = Some i \<Longrightarrow> i < length hs \<and> mh_remoteBindPort (hs ! i) = p"
  by (induction hs arbitrary: i) (auto split: if_splits)

text \<open>Writing an entry of port \<open>p\<close> at the first index of \<open>p\<close>, or of a free entry.\<close>

lemma find_update_same:
  "index_of_port p hs = Some i \<Longrightarrow> mh_remoteBindPort h = p \<Longrightarrow>
   List.find (\<lambda>h. mh_remoteBindPort h = q) (hs[i := h])
     = (if q = p then Some h else List.find (\<lambda>h. mh_remoteBindPort h = q) hs)"
  by (induction hs arbitrary: i) (auto split: if_splits nat.splits)

lemma find_update_free:
  "index_of_port 0 hs = Some i \<Longrightarrow> p \<notin> mh_remoteBindPort ` set hs \<Longrightarrow> mh_remoteBindPort h = p \<Longrightarrow> q \<noteq> 0 \<Longrightarrow>
   List.find (\<lambda>h. mh_remoteBindPort h = q) (hs[i := h])
     = (if q = p then Some h else List.find (\<lambda>h. mh_remoteBindPort h = q) hs)"
  by (induction hs arbitrary: i) (auto split: if_splits nat.splits)

lemma index_update_free:
  "index_of_port 0 hs = Some i \<Longrightarrow> p \<notin> mh_remoteBindPort ` set hs \<Longrightarrow> mh_remoteBindPort h = p \<Longrightarrow>
   index_of_port p (hs[i := h]) = Some i"
  by (induction hs arbitrary: i) (auto split: if_splits nat.splits)

lemma used_ports_free:
  fixes p :: int
  assumes "index_of_port 0 hs = Some i" and "p \<notin> mh_remoteBindPort ` set hs" and "mh_remoteBindPort h = p" and "p \<noteq> 0"
  defines "used \<equiv> \<lambda>hs. filter (\<lambda>p. p \<noteq> 0) (map mh_remoteBindPort hs)"
  shows "set (used (hs[i := h])) = insert p (set (used hs))"
    and "distinct (used hs) \<Longrightarrow> distinct (used (hs[i := h]))"
proof -
  have i: "i < length hs" "mh_remoteBindPort (hs ! i) = 0" using index_of_port_Some [OF assms(1)] by auto
  have new: "used (hs[i := h]) = used (take i hs) @ p # used (drop (Suc i) hs)"
    using i assms(3,4) by (simp add: used_def upd_conv_take_nth_drop)
  have old: "used hs = used (take i hs) @ used (drop (Suc i) hs)"
    using i by (subst id_take_nth_drop [OF i(1)]) (simp add: used_def)
  have "p \<notin> set (used hs)" using assms(2) by (auto simp: used_def)
  then show "set (used (hs[i := h])) = insert p (set (used hs))"
    "distinct (used hs) \<Longrightarrow> distinct (used (hs[i := h]))"
    unfolding new old by auto
qed

lemma findOrAlloc_Some:
  assumes "cb_inv c" and "p \<noteq> 0" and "findOrAlloc p c = (Some i, c1)"
  shows "cb_inv c1" and "index_of_port p (health c1) = Some i" and "tracked c1 q = tracked c q"
    and "set (used_ports c1) = insert p (set (used_ports c))" and "totalTrips c1 = totalTrips c"
proof -
  consider (found) "index_of_port p (health c) = Some i" "c1 = c"
    | (fresh) "p \<notin> mh_remoteBindPort ` set (health c)" "index_of_port 0 (health c) = Some i"
      "c1 = c\<lparr>health := (health c)[i := \<lparr>mh_remoteBindPort = p, consecutiveFails = 0, backoffUntilMs = 0\<rparr>]\<rparr>"
    using assms(3) index_of_port_None [of p "health c"]
    by (simp add: findOrAlloc_def split: option.splits)
  note cs = this
  show "index_of_port p (health c1) = Some i"
    by (cases rule: cs) (auto simp: index_update_free)
  show "tracked c1 q = tracked c q"
  proof (cases rule: cs)
    case fresh
    then have "List.find (\<lambda>h. mh_remoteBindPort h = p) (health c) = None"
      by (auto simp: find_None_iff)
    then show ?thesis using fresh by (auto simp: tracked_def cb_find_eq find_update_free)
  qed simp
  show "set (used_ports c1) = insert p (set (used_ports c))"
  proof (cases rule: cs)
    case found
    then have "p \<in> mh_remoteBindPort ` set (health c)"
      using index_of_port_None [of p "health c"] by auto
    then show ?thesis using found assms(2) by (auto simp: used_ports_def)
  next
    case fresh
    then show ?thesis using used_ports_free(1) [OF fresh(2,1) _ assms(2)] by (simp add: used_ports_def)
  qed
  show "cb_inv c1"
  proof (cases rule: cs)
    case fresh
    let ?h = "\<lparr>mh_remoteBindPort = p, consecutiveFails = 0, backoffUntilMs = 0\<rparr> :: mapping_health"
    have "distinct (used_ports c1)"
      using assms(1) used_ports_free(2) [OF fresh(2,1) _ assms(2), of ?h] fresh(3)
      by (simp add: cb_inv_def used_ports_def)
    moreover have "health_ok h" if "h \<in> set (health c1)" for h
      using that assms(1) fresh(3) set_update_subset_insert [of "health c" i ?h]
      by (auto simp: cb_inv_def health_ok_def)
    ultimately show ?thesis using assms(1) fresh(3) by (simp add: cb_inv_def)
  qed (use assms in simp)
  show "totalTrips c1 = totalTrips c"
    by (cases rule: cs) auto
qed

lemma findOrAlloc_None:
  assumes "cb_inv c" and "p \<noteq> 0" and "findOrAlloc p c = (None, c1)"
  shows "c1 = c" and "p \<notin> set (used_ports c)" and "card (set (used_ports c)) = MAX_MAPPING_HEALTH"
proof -
  have np: "p \<notin> mh_remoteBindPort ` set (health c)" and n0: "0 \<notin> mh_remoteBindPort ` set (health c)"
    and "c1 = c"
    using assms(3) index_of_port_None [of _ "health c"]
    by (simp_all add: findOrAlloc_def split: option.splits)
  then show "c1 = c" "p \<notin> set (used_ports c)" by (auto simp: used_ports_def)
  have "used_ports c = map mh_remoteBindPort (health c)"
    using n0 by (auto simp: used_ports_def filter_id_conv image_iff)
  then show "card (set (used_ports c)) = MAX_MAPPING_HEALTH"
    using assms(1) by (metis cb_inv_def distinct_card length_map)
qed

lemma entry_update:
  assumes "cb_inv c" and "p \<noteq> 0" and "index_of_port p (health c) = Some i"
    and "mh_remoteBindPort h = p" and "health_ok h"
  shows "cb_inv (c\<lparr>health := (health c)[i := h]\<rparr>)"
    and "tracked (c\<lparr>health := (health c)[i := h]\<rparr>) q
      = (if q = p then (consecutiveFails h, backoffUntilMs h) else tracked c q)"
    and "used_ports (c\<lparr>health := (health c)[i := h]\<rparr>) = used_ports c"
proof -
  have i: "i < length (health c)" "mh_remoteBindPort (health c ! i) = p"
    using index_of_port_Some [OF assms(3)] by auto
  have "map mh_remoteBindPort ((health c)[i := h]) = map mh_remoteBindPort (health c)"
    using i assms(4) by (simp add: map_update list_update_same_conv)
  then show u: "used_ports (c\<lparr>health := (health c)[i := h]\<rparr>) = used_ports c"
    by (simp add: used_ports_def)
  show "cb_inv (c\<lparr>health := (health c)[i := h]\<rparr>)"
    using assms(1,5) u set_update_subset_insert [of "health c" i h] by (auto simp: cb_inv_def)
  show "tracked (c\<lparr>health := (health c)[i := h]\<rparr>) q
      = (if q = p then (consecutiveFails h, backoffUntilMs h) else tracked c q)"
    using assms(2,4) find_update_same [OF assms(3,4)] by (simp add: tracked_def cb_find_eq)
qed

lemma tracked_entry:
  "p \<noteq> 0 \<Longrightarrow> index_of_port p (health c) = Some i \<Longrightarrow>
     tracked c p = (consecutiveFails (health c ! i), backoffUntilMs (health c ! i))"
  by (simp add: tracked_def cb_find_def)

section \<open>The operations on tracked ports\<close>

lemma cb_inv_new: "cb_inv cb_new"
  by (simp add: cb_inv_def cb_new_def used_ports_def unused_health_def health_ok_def)

lemma tracked_new: "tracked cb_new p = (0, 0)"
  by (simp add: tracked_def cb_find_eq cb_new_def unused_health_def find_None_iff
      MAX_MAPPING_HEALTH_def numeral_eq_Suc)

definition health_after_failure :: "u32 \<Rightarrow> u16 \<times> u32 \<Rightarrow> u16 \<times> u32" where
  "health_after_failure now hu =
     (let f = (if fst hu < 100 then fst hu + 1 else fst hu)
      in (f, if f \<ge> FAIL_THRESHOLD then now + backoff_delay f else snd hu))"

definition room_for :: "int \<Rightarrow> circuit_breaker \<Rightarrow> bool" where
  "room_for p c \<longleftrightarrow> fst (findOrAlloc p c) \<noteq> None"

lemma health_ok_failure:
  assumes "health_ok h"
  shows "health_ok (h\<lparr>consecutiveFails := fst (health_after_failure t (consecutiveFails h, backoffUntilMs h)),
    backoffUntilMs := snd (health_after_failure t (consecutiveFails h, backoffUntilMs h))\<rparr>)"
proof (cases "consecutiveFails h < 100")
  case True
  then have "consecutiveFails h + 1 \<le> 100" by (rule inc_le)
  moreover have "backoffUntilMs h = 0" if "consecutiveFails h + 1 < FAIL_THRESHOLD"
  proof -
    have "consecutiveFails h < consecutiveFails h + 1"
      using unat_inc_below [OF True] by (simp add: word_less_nat_alt)
    then show ?thesis using that assms by (auto simp: health_ok_def)
  qed
  ultimately show ?thesis using True by (auto simp: health_ok_def health_after_failure_def Let_def not_le)
next
  case False
  then show ?thesis using assms by (auto simp: health_ok_def health_after_failure_def FAIL_THRESHOLD_def)
qed

lemma recordFailure_spec:
  assumes "cb_inv c" and "p \<noteq> 0" and "room_for p c"
  shows "cb_inv (snd (recordFailure p t c))"
    and "tracked (snd (recordFailure p t c)) q
      = (if q = p then health_after_failure t (tracked c p) else tracked c q)"
    and "set (used_ports (snd (recordFailure p t c))) = insert p (set (used_ports c))"
    and "fst (recordFailure p t c) \<longleftrightarrow>
      \<not> isBackedOff c p t \<and> fst (health_after_failure t (tracked c p)) \<ge> FAIL_THRESHOLD"
    and "totalTrips (snd (recordFailure p t c))
      = totalTrips c + (if fst (recordFailure p t c) then 1 else 0)"
proof -
  obtain i c1 where a: "findOrAlloc p c = (Some i, c1)" 
    using assms(3) by (cases "findOrAlloc p c") (auto simp: room_for_def)
  note fa = findOrAlloc_Some [OF assms(1,2) a]
  define h where "h = health c1 ! i"
  define hu where "hu = health_after_failure t (consecutiveFails h, backoffUntilMs h)"
  define h' where "h' = h\<lparr>consecutiveFails := fst hu, backoffUntilMs := snd hu\<rparr>"
  have tr: "tracked c p = (consecutiveFails h, backoffUntilMs h)"
    using tracked_entry [OF assms(2) fa(2)] fa(3) by (simp add: h_def)
  have i: "i < length (health c1)" "mh_remoteBindPort h = p"
    using index_of_port_Some [OF fa(2)] by (auto simp: h_def)
  then have "health_ok h" using fa(1) by (auto simp: cb_inv_def h_def)
  then have ok: "health_ok h'" using health_ok_failure by (simp add: h'_def hu_def)
  have bo: "isBackedOff c p t \<longleftrightarrow> backoffUntilMs h \<noteq> 0 \<and> sint (t - backoffUntilMs h) < 0"
    using tr by (auto simp: isBackedOff_def tracked_def split: option.splits)
  have r: "recordFailure p t c = (fst hu \<ge> FAIL_THRESHOLD \<and> \<not> isBackedOff c p t,
      c1\<lparr>health := (health c1)[i := h'],
         totalTrips := totalTrips c1 + (if fst hu \<ge> FAIL_THRESHOLD \<and> \<not> isBackedOff c p t then 1 else 0)\<rparr>)"
  proof -
    have eta: "h\<lparr>backoffUntilMs := 0\<rparr> = h"
      "h\<lparr>consecutiveFails := f, backoffUntilMs := 0\<rparr> = h\<lparr>consecutiveFails := f\<rparr>"
      if "backoffUntilMs h = 0" for f
      using that by (cases h; simp)+
    show ?thesis
      using assms(2) a bo
      by (auto simp: eta recordFailure_def Let_def hu_def h'_def health_after_failure_def simp flip: h_def)
  qed
  note upd = entry_update [OF fa(1) assms(2) fa(2) _ ok]
  have t: "tracked (c\<lparr>totalTrips := n\<rparr>) = tracked c" "used_ports (c\<lparr>totalTrips := n\<rparr>) = used_ports c"
    "cb_inv (c\<lparr>totalTrips := n\<rparr>) = cb_inv c" for c n
    by (auto simp: tracked_def cb_find_def used_ports_def cb_inv_def)
  have p': "mh_remoteBindPort h' = p" using i by (simp add: h'_def)
  show "cb_inv (snd (recordFailure p t c))"
    using upd(1) [OF p'] by (simp add: r t)
  show "tracked (snd (recordFailure p t c)) q
      = (if q = p then health_after_failure t (tracked c p) else tracked c q)"
    using upd(2) [OF p'] by (simp add: r t fa(3) tr hu_def h'_def)
  show "set (used_ports (snd (recordFailure p t c))) = insert p (set (used_ports c))"
    using upd(3) [OF p'] by (simp add: r t fa(4))
  show "fst (recordFailure p t c) \<longleftrightarrow>
      \<not> isBackedOff c p t \<and> fst (health_after_failure t (tracked c p)) \<ge> FAIL_THRESHOLD"
    by (auto simp: r hu_def tr)
  show "totalTrips (snd (recordFailure p t c)) = totalTrips c + (if fst (recordFailure p t c) then 1 else 0)"
    by (simp add: r fa(5))
qed

lemma recordSuccess_spec:
  assumes "cb_inv c" and "p \<noteq> 0" and "room_for p c"
  shows "cb_inv (recordSuccess p c)"
    and "tracked (recordSuccess p c) q = (if q = p then (0, 0) else tracked c q)"
    and "set (used_ports (recordSuccess p c)) = insert p (set (used_ports c))"
proof -
  obtain i c1 where a: "findOrAlloc p c = (Some i, c1)" 
    using assms(3) by (cases "findOrAlloc p c") (auto simp: room_for_def)
  note fa = findOrAlloc_Some [OF assms(1,2) a]
  define h where "h = (health c1 ! i)\<lparr>consecutiveFails := 0, backoffUntilMs := 0\<rparr>"
  have h: "mh_remoteBindPort h = p" "health_ok h"
    using index_of_port_Some [OF fa(2)] by (auto simp: h_def health_ok_def)
  have r: "recordSuccess p c = c1\<lparr>health := (health c1)[i := h]\<rparr>"
    using assms(2) a by (simp add: recordSuccess_def h_def)
  note upd = entry_update [OF fa(1) assms(2) fa(2) h]
  show "cb_inv (recordSuccess p c)" using upd(1) by (simp add: r)
  show "tracked (recordSuccess p c) q = (if q = p then (0, 0) else tracked c q)"
    using upd(2) by (simp add: r fa(3)) (simp add: h_def)
  show "set (used_ports (recordSuccess p c)) = insert p (set (used_ports c))"
    using upd(3) by (simp add: r fa(4))
qed

lemma cb_step_no_room:
  assumes "cb_inv c" and "report_port r = 0 \<or> \<not> room_for (report_port r) c"
  shows "cb_step r c = c"
  using assms findOrAlloc_None(1) [OF assms(1), of "report_port r"]
  by (cases r; cases "findOrAlloc (report_port r) c")
    (auto simp: recordFailure_def recordSuccess_def room_for_def)

lemma cb_step_inv: "cb_inv c \<Longrightarrow> cb_inv (cb_step r c)"
  using recordFailure_spec(1) recordSuccess_spec(1) cb_step_no_room [of c r]
  by (cases "report_port r = 0 \<or> \<not> room_for (report_port r) c"; cases r) auto

section \<open>The table computes the history\<close>

lemma backoff_ms_cap: "9 \<le> n \<Longrightarrow> backoff_ms n = 60000"
proof -
  assume "9 \<le> n"
  then have "(2::nat) ^ 6 \<le> 2 ^ (n - 3)" by (intro power_increasing) auto
  then show ?thesis by (simp add: backoff_ms_def)
qed

lemma backoff_delay_eq:
  assumes "3 \<le> unat f"
  shows "backoff_delay f = of_nat (backoff_ms (unat f))"
proof -
  define k where "k = unat f - 3"
  have e: "uint f - uint FAIL_THRESHOLD = int k"
    using assms by (simp add: FAIL_THRESHOLD_def k_def of_nat_diff)
  have d: "backoff_delay f = (if push_bit (min k 16) (1000 :: u32) > 60000 then 60000 else push_bit (min k 16) 1000)"
    unfolding backoff_delay_def e Let_def BACKOFF_BASE_MS_def BACKOFF_CAP_MS_def by (auto simp: min_def)
  have u: "unat f = k + 3" using assms by (simp add: k_def)
  show ?thesis
  proof (cases "k < 6")
    case True
    then have "k \<in> {0, 1, 2, 3, 4, 5}" by auto
    then show ?thesis unfolding d u by (auto simp: backoff_ms_def push_bit_eq_mult)
  next
    case False
    then have "6 \<le> min k 16" "min k 16 \<le> 16" by auto
    then have "min k 16 \<in> {6, 7, 8, 9, 10, 11, 12, 13, 14, 15, 16}"
      unfolding insert_iff empty_iff by presburger
    then have "push_bit (min k 16) (1000 :: u32) > 60000" by (auto simp: push_bit_eq_mult)
    then show ?thesis using False unfolding d u by (simp add: backoff_ms_cap)
  qed
qed

lemma fail_times_snoc:
  "fail_times p (rs @ [Failed q t]) = (if p = q then fail_times p rs @ [t] else fail_times p rs)"
  "fail_times p (rs @ [Succeeded q]) = (if p = q then [] else fail_times p rs)"
  by (induction p rs rule: fail_times.induct) auto

lemma health_of_failure:
  "health_of p (rs @ [Failed p t]) = health_after_failure t (health_of p rs)"
proof -
  define n where "n = length (fail_times p rs)"
  have u: "unat (of_nat (min 100 m) :: u16) = min 100 m" for m
    by (simp add: unat_of_nat min_def)
  have f: "fst (health_after_failure t (health_of p rs)) = of_nat (min 100 (Suc n))"
  proof (cases "100 \<le> n")
    case True
    then show ?thesis by (simp add: health_after_failure_def health_of_def Let_def flip: n_def)
  next
    case False
    then have "(of_nat n :: u16) < 100" using u [of n] by (simp add: word_less_nat_alt min_def)
    then show ?thesis
      using False
      by (cases "n = 99") (simp_all add: health_after_failure_def health_of_def Let_def min_def flip: n_def)
  qed
  have "backoff_ms (min 100 (Suc n)) = backoff_ms (Suc n)"
    by (cases "Suc n \<le> 100") (simp_all add: min_def backoff_ms_cap)
  then have "backoff_delay (of_nat (min 100 (Suc n))) = of_nat (backoff_ms (Suc n))" if "3 \<le> Suc n"
    using that backoff_delay_eq [of "of_nat (min 100 (Suc n))"] by (simp only: u)
  moreover have "FAIL_THRESHOLD \<le> of_nat (min 100 (Suc n)) \<longleftrightarrow> 3 \<le> Suc n"
    unfolding word_le_nat_alt u by (simp add: FAIL_THRESHOLD_def)
  ultimately have "snd (health_after_failure t (health_of p rs))
      = (if 3 \<le> Suc n then t + of_nat (backoff_ms (Suc n)) else 0)"
    using f by (auto simp: health_after_failure_def health_of_def Let_def simp flip: n_def)
  with f show ?thesis
    by (simp add: health_of_def fail_times_snoc Let_def prod_eq_iff flip: n_def)
qed

lemma health_refines:
  fixes rs :: "report list"
  assumes "card (report_port ` set rs - {0}) \<le> MAX_MAPPING_HEALTH"
  defines "c \<equiv> fold cb_step rs cb_new"
  shows "cb_inv c \<and> set (used_ports c) = report_port ` set rs - {0}
    \<and> (\<forall>p. p \<noteq> 0 \<longrightarrow> tracked c p = health_of p rs)"
  using assms(1) unfolding c_def
proof (induction rs rule: rev_induct)
  case Nil
  have "used_ports cb_new = []"
    by (simp add: used_ports_def cb_new_def unused_health_def)
  then show ?case by (simp add: cb_inv_new tracked_new health_of_def)
next
  case (snoc r rs)
  let ?c = "fold cb_step rs cb_new"
  let ?P = "report_port ` set rs - {0}"
  have P: "report_port ` set (rs @ [r]) - {0} = (if report_port r = 0 then ?P else insert (report_port r) ?P)"
    by auto
  have "card ?P \<le> card (report_port ` set (rs @ [r]) - {0})" by (intro card_mono) auto
  then have IH: "cb_inv ?c" "set (used_ports ?c) = ?P" "\<And>p. p \<noteq> 0 \<Longrightarrow> tracked ?c p = health_of p rs"
    using snoc by auto
  show ?case
  proof (cases "report_port r = 0")
    case True
    then have "cb_step r ?c = ?c" using cb_step_no_room [OF IH(1)] by simp
    moreover have "health_of p (rs @ [r]) = health_of p rs" if "p \<noteq> 0" for p
      using True that by (cases r) (auto simp: health_of_def fail_times_snoc)
    ultimately show ?thesis using IH True P by simp
  next
    case False
    have room: "room_for (report_port r) ?c"
    proof (rule ccontr)
      assume "\<not> ?thesis"
      then obtain c1 where "findOrAlloc (report_port r) ?c = (None, c1)"
        by (cases "findOrAlloc (report_port r) ?c") (auto simp: room_for_def)
      from findOrAlloc_None [OF IH(1) False this]
      have "report_port r \<notin> ?P" "card ?P = MAX_MAPPING_HEALTH" by (simp_all only: IH(2) simp_thms)
      then have "card (insert (report_port r) ?P) = Suc MAX_MAPPING_HEALTH"
        by (metis card_insert_disjoint finite_Diff finite_imageI finite_set)
      moreover have "report_port ` set (rs @ [r]) - {0} = insert (report_port r) ?P" using P False by (simp only: if_False)
      ultimately show False using snoc.prems by (simp only: Suc_n_not_le_n)
    qed
    show ?thesis
    proof (cases r)
      case (Failed q t)
      note spec = recordFailure_spec(1-3) [OF IH(1) False room, of t]
      have "health_of p (rs @ [r]) = (if p = q then health_after_failure t (health_of q rs) else health_of p rs)" for p
        using Failed by (simp add: health_of_failure) (simp add: health_of_def fail_times_snoc)
      then show ?thesis using spec IH False P Failed by simp
    next
      case (Succeeded q)
      note spec = recordSuccess_spec [OF IH(1) False room]
      have "health_of p (rs @ [r]) = (if p = q then (0, 0) else health_of p rs)" for p
        using Succeeded by (simp add: health_of_def fail_times_snoc)
      then show ?thesis using spec IH False P Succeeded by simp
    qed
  qed
qed

section \<open>The length of a back-off\<close>

text \<open>
  With a back-off of \<open>d\<close> milliseconds started at \<open>t\<close>, the port is refused for the first \<open>d\<close>
  milliseconds, and again, because the difference is read as a signed number, from \<open>2 ^ 31 + d\<close>
  milliseconds on until the clock has wrapped.
\<close>

lemma signed_elapsed:
  fixes now t :: u32 and d :: nat
  assumes "d < 2 ^ 31"
  shows "sint (now - (t + of_nat d)) < 0
    \<longleftrightarrow> unat (now - t) < d \<or> 2 ^ 31 + d \<le> unat (now - t)"
proof -
  define e where "e = unat (now - t)"
  have d: "unat (of_nat d :: u32) = d" using assms by (simp add: unat_of_nat)
  have e: "e < 2 ^ 32" unfolding e_def using unsigned_less [of "now - t"] by simp
  have "now - (t + of_nat d) = (now - t) - of_nat d" by simp
  then have "unat (now - (t + of_nat d)) = (if d \<le> e then e - d else e + 2 ^ 32 - d)"
    using unat_sub_if' [of "now - t" "of_nat d :: u32"] d by (simp only: e_def) simp
  then show ?thesis using assms e by (auto simp: sint_neg_iff e_def)
qed

lemma isBackedOff_tracked:
  "isBackedOff c p now \<longleftrightarrow> snd (tracked c p) \<noteq> 0 \<and> sint (now - snd (tracked c p)) < 0"
  by (auto simp: isBackedOff_def tracked_def split: option.splits)

lemma backoff_ms_bound: "backoff_ms n < 2 ^ 31"
  by (simp add: backoff_ms_def min_def)

section \<open>Properties\<close>

text \<open>
  C21: The table computes the history. After any sequence of failure and success reports about at most
  eight different ports, the failure counter and the back-off time the table has for a port are the
  ones read off the history: the number of failures since the last success (saturating at 100) and,
  from the third on, the time of the last failure plus 1 s doubled per further failure up to 60 s.
\<close>

theorem breaker_refines_history:
  fixes rs :: "report list"
  assumes "card (report_port ` set rs - {0}) \<le> MAX_MAPPING_HEALTH"
  shows "\<forall>p. p \<noteq> 0 \<longrightarrow> tracked (fold cb_step rs cb_new) p = health_of p rs"
  using health_refines [OF assms] by simp

theorem breaker_refines_history_witness:
  "tracked (fold cb_step [Failed 80 1, Failed 80 2, Succeeded 22, Failed 80 3, Failed 80 4] cb_new) 80 = (4, 2004)"
proof -
  let ?rs = "[Failed 80 1, Failed 80 2, Succeeded 22, Failed 80 3, Failed 80 4]"
  have "report_port ` set ?rs - {0} = {80, 22}" by auto
  then have "card (report_port ` set ?rs - {0}) \<le> MAX_MAPPING_HEALTH" by (simp add: MAX_MAPPING_HEALTH_def)
  from breaker_refines_history [OF this] show ?thesis
    by (simp add: health_of_def backoff_ms_def)
qed

text \<open>
  C22: After the \<open>n\<close>-th consecutive failure (\<open>n \<ge> 3\<close>) at time \<open>t\<close> the port is backed off for exactly
  the prescribed number of milliseconds, and then again from \<open>2 ^ 31\<close> milliseconds after the end of
  that time on until the 32-bit clock has gone round: the signed comparison takes a time so far in
  the past for the future. (An end time that is 0 on the clock means no back-off.)
\<close>

theorem breaker_backoff_window:
  fixes rs :: "report list" and p :: int and t now :: u32
  defines "n \<equiv> length (fail_times p (rs @ [Failed p t]))"
  assumes "card (report_port ` set (rs @ [Failed p t]) - {0}) \<le> MAX_MAPPING_HEALTH" and "p \<noteq> 0" and "3 \<le> n"
    and "t + of_nat (backoff_ms n) \<noteq> 0"
  shows "isBackedOff (fold cb_step (rs @ [Failed p t]) cb_new) p now \<longleftrightarrow>
    unat (now - t) < backoff_ms n \<or> 2 ^ 31 + backoff_ms n \<le> unat (now - t)"
proof -
  have "tracked (fold cb_step (rs @ [Failed p t]) cb_new) p = health_of p (rs @ [Failed p t])"
    using health_refines [OF assms(2)] assms(3) by blast
  moreover have "snd (health_of p (rs @ [Failed p t])) = t + of_nat (backoff_ms n)"
    using assms(4) by (simp add: health_of_def Let_def fail_times_snoc n_def)
  ultimately show ?thesis
    unfolding isBackedOff_tracked using assms(5) signed_elapsed [OF backoff_ms_bound] by simp
qed

theorem breaker_backoff_window_witness:
  "isBackedOff (fold cb_step [Failed 80 1, Failed 80 2, Failed 80 3] cb_new) 80 1002
   \<and> \<not> isBackedOff (fold cb_step [Failed 80 1, Failed 80 2, Failed 80 3] cb_new) 80 1003
   \<and> isBackedOff (fold cb_step [Failed 80 1, Failed 80 2, Failed 80 3] cb_new) 80 2147484651"
proof -
  have c: "card (report_port ` set ([Failed 80 1, Failed 80 2] @ [Failed 80 3]) - {0}) \<le> MAX_MAPPING_HEALTH"
    by (simp add: MAX_MAPPING_HEALTH_def)
  have n: "length (fail_times 80 ([Failed 80 1, Failed 80 2] @ [Failed 80 3])) = 3" by simp
  note w = breaker_backoff_window [OF c]
  show ?thesis
    using w [of 1002] w [of 1003] w [of 2147484651] n by (simp add: backoff_ms_def)
qed

text \<open>
  A failure report announces a trip exactly when the port is not backed off at that time and
  this failure brings its counter to the threshold or above; the trip counter counts these announcements.
\<close>

theorem breaker_trip_iff:
  assumes "cb_inv c" and "p \<noteq> 0" and "room_for p c"
  shows "(fst (recordFailure p t c) \<longleftrightarrow> \<not> isBackedOff c p t \<and> 2 \<le> unat (fst (tracked c p)))
    \<and> totalTrips (snd (recordFailure p t c)) = totalTrips c + (if fst (recordFailure p t c) then 1 else 0)"
proof -
  have "fst (health_after_failure t (tracked c p)) \<ge> FAIL_THRESHOLD \<longleftrightarrow> 2 \<le> unat (fst (tracked c p))"
    using unat_inc_below [of "fst (tracked c p)" 100]
    by (auto simp: health_after_failure_def Let_def FAIL_THRESHOLD_def word_le_nat_alt word_less_nat_alt)
  then show ?thesis using recordFailure_spec(4,5) [OF assms, of t] by simp
qed

theorem breaker_trip_iff_witness:
  "fst (recordFailure 80 3 (fold cb_step [Failed 80 1, Failed 80 2] cb_new))"
proof -
  let ?c = "fold cb_step [Failed 80 1, Failed 80 2] cb_new"
  have r: "cb_inv ?c \<and> set (used_ports ?c) = {80} \<and> (\<forall>p. p \<noteq> 0 \<longrightarrow> tracked ?c p = health_of p [Failed 80 1, Failed 80 2])"
    using health_refines [of "[Failed 80 1, Failed 80 2]"] by (simp add: MAX_MAPPING_HEALTH_def)
  have "room_for 80 ?c"
    using findOrAlloc_None(2) [of ?c 80] r by (cases "findOrAlloc 80 ?c") (auto simp: room_for_def)
  with breaker_trip_iff [of ?c 80 3] r show ?thesis
    by (simp add: isBackedOff_tracked health_of_def)
qed

end
