(* ===== verification/Ssh_Channel.thy ===== *)
theory Ssh_Channel
  imports Ssh_Session Ring_Buffer Channel_Policies Circuit_Breaker
begin

text \<open>
  \<open>ssh_channel.h\<close> and \<open>ssh_channel.cpp\<close>: the channel manager, a fixed array of slots, each of which
  ties one forwarded SSH channel to one local socket through two ring buffers. The slot array is
  \<open>None\<close> before \<open>init\<close>; the ring buffers of a slot are owned by it and are \<open>None\<close> where the source
  has a null pointer. The fields that only the build with HTTP diagnostics has are in theory \<open>Pump_Instrument\<close>.
\<close>

datatype close_reason = Unknown | RemoteClosed | LocalClosed | ErrorReason | Timeout | Manual

datatype slot_state = Open | Draining | Closed

definition SSH_TUNNEL_ENDPOINT_HOST_MAX :: nat where
  "SSH_TUNNEL_ENDPOINT_HOST_MAX = 64"

record endpoint_info =
  ep_remoteHost :: string
  ep_remotePort :: int
  ep_localHost :: string
  ep_localPort :: int

definition endpoint_zero :: endpoint_info where
  "endpoint_zero = \<lparr>ep_remoteHost = '''', ep_remotePort = 0, ep_localHost = '''', ep_localPort = 0\<rparr>"

record 'r channel_slot =
  sshChannel :: ssh_channel
  localSocket :: int
  active :: bool
  endpoint :: endpoint_info
  toLocal :: "'r data_ring_buffer option"
  toRemote :: "'r data_ring_buffer option"
  chstate :: slot_state
  localEof :: bool
  remoteEof :: bool
  localShutdownSent :: bool
  closeStartMs :: u32
  eofSentMs :: u32
  closeReason :: close_reason
  sshCloseProgress :: progress
  localReadPaused :: bool
  sshReadPaused :: bool
  totalBytesReceived :: u32
  totalBytesSent :: u32
  totalBytesDropped :: u32
  lastActivity :: u32
  lastSuccessfulWrite :: u32
  lastSuccessfulRead :: u32
  consecutiveErrors :: int
  eagainCount :: int
  firstEagainMs :: u32
  firstLocalSendEagainMs :: u32
  lastFinalizeMs :: u32

definition slot_default :: "'r channel_slot" where
  "slot_default = \<lparr>sshChannel = NULL, localSocket = -1, active = False, endpoint = endpoint_zero,
     toLocal = None, toRemote = None, chstate = Closed, localEof = False, remoteEof = False,
     localShutdownSent = False, closeStartMs = 0, eofSentMs = 0, closeReason = Unknown,
     sshCloseProgress = progress_init, localReadPaused = False, sshReadPaused = False,
     totalBytesReceived = 0, totalBytesSent = 0, totalBytesDropped = 0, lastActivity = 0,
     lastSuccessfulWrite = 0, lastSuccessfulRead = 0, consecutiveErrors = 0, eagainCount = 0,
     firstEagainMs = 0, firstLocalSendEagainMs = 0, lastFinalizeMs = 0\<rparr>"

record ('w, 'r) channel_state = "'w session_state" +
  slots :: "'r channel_slot list option"
  maxSlots :: int
  activeCount :: int
  ringBufferSize :: nat
  cm_channelTimeoutMs :: u32
  completedBytesReceived :: u32
  completedBytesSent :: u32
  completedBytesDropped :: u32
  breaker :: circuit_breaker

type_synonym ('w, 'r, 'z, 'a) channel_op = "(('w, 'r, 'z) channel_state_scheme, 'a) state"

section \<open>Slot access\<close>

definition getSlot :: "int \<Rightarrow> ('w, 'r, 'z) channel_state_scheme \<Rightarrow> 'r channel_slot" where
  "getSlot i s = the (slots s) ! nat i"

definition upd_slot ::
  "int \<Rightarrow> ('r channel_slot \<Rightarrow> 'r channel_slot) \<Rightarrow> ('w, 'r, 'z) channel_state_scheme \<Rightarrow> ('w, 'r, 'z) channel_state_scheme" where
  "upd_slot i f s = s\<lparr>slots := map_option (\<lambda>ss. ss[nat i := f (ss ! nat i)]) (slots s)\<rparr>"

definition modify_slot ::
  "int \<Rightarrow> ('r channel_slot \<Rightarrow> 'r channel_slot) \<Rightarrow> ('w, 'r, 'z, unit) channel_op" where
  "modify_slot i f = modify (upd_slot i f)"

definition ring_size :: "('w, 'r) platform \<Rightarrow> 'r data_ring_buffer option \<Rightarrow> nat" where
  "ring_size P r = (case r of None \<Rightarrow> 0 | Some d \<Rightarrow> drb_size P d)"

definition delete_ring ::
  "('w, 'r) platform \<Rightarrow> 'r data_ring_buffer option \<Rightarrow> (('w, 'z) wstate_scheme, unit) state" where
  "delete_ring P r = (case r of None \<Rightarrow> ret () | Some d \<Rightarrow> drb_delete P d)"

section \<open>Life cycle\<close>

definition safeMalloc :: "('w, 'r) platform \<Rightarrow> nat \<Rightarrow> (('w, 'z) wstate_scheme, bool) state" where
  "safeMalloc P sz = ext (p_malloc P sz)"

definition channels_destroy :: "('w, 'r) platform \<Rightarrow> ('w, 'r, 'z, unit) channel_op" where
  "channels_destroy P = do {
     ss \<leftarrow> gets slots;
     if ss = None then ret ()
     else do {
       n \<leftarrow> gets maxSlots;
       for_each (\<lambda>i. do {
         slot \<leftarrow> gets (getSlot i);
         whenM (active slot) (do {
           whenM (localSocket slot \<ge> 0) (do {
             ext (p_close P (localSocket slot));
             modify_slot i (\<lambda>sl. sl\<lparr>localSocket := -1\<rparr>) });
           delete_ring P (toLocal slot);
           modify_slot i (\<lambda>sl. sl\<lparr>toLocal := None\<rparr>);
           delete_ring P (toRemote slot);
           modify_slot i (\<lambda>sl. sl\<lparr>toRemote := None\<rparr>);
           modify_slot i (\<lambda>sl. sl\<lparr>active := False\<rparr>) }) }) [0..n - 1];
       ext (p_free P);
       modify (\<lambda>s. s\<lparr>slots := None, maxSlots := 0, activeCount := 0\<rparr>) } }"

text \<open>
  The size of the slot array is computed in 32 bits. For a number of channels at which it wraps (more than 16 million slots of 256 bytes) the source would initialise slots
  behind the array; here the list has all its slots.
\<close>

definition channels_init ::
  "('w, 'r) platform \<Rightarrow> int \<Rightarrow> nat \<Rightarrow> u32 \<Rightarrow> ('w, 'r, 'z, bool) channel_op" where
  "channels_init P maxChan ringSize timeoutMs = do {
     ss \<leftarrow> gets slots;
     whenM (ss \<noteq> None) (channels_destroy P);
     modify (\<lambda>s. s\<lparr>maxSlots := maxChan, ringBufferSize := ringSize, cm_channelTimeoutMs := timeoutMs,
       activeCount := 0, completedBytesReceived := 0, completedBytesSent := 0,
       completedBytesDropped := 0\<rparr>);
     ok \<leftarrow> safeMalloc P (sz_mul (sizeof_ChannelSlot P) (nat (maxChan mod 2 ^ 32)));
     if \<not> ok then do {
       modify (\<lambda>s. s\<lparr>slots := None, maxSlots := 0\<rparr>);
       ret False }
     else do {
       modify (\<lambda>s. s\<lparr>slots := Some (replicate (nat maxChan) slot_default)\<rparr>);
       ret True } }"

section \<open>Closing\<close>

definition beginClose :: "('w, 'r) platform \<Rightarrow> int \<Rightarrow> close_reason \<Rightarrow> ('w, 'r, 'z, unit) channel_op" where
  "beginClose P slotIndex reason = do {
     n \<leftarrow> gets maxSlots;
     if slotIndex < 0 \<or> slotIndex \<ge> n then ret ()
     else do {
       slot \<leftarrow> gets (getSlot slotIndex);
       if \<not> active slot \<or> chstate slot = Draining \<or> chstate slot = Closed then ret ()
       else do {
         now \<leftarrow> millis P;
         modify_slot slotIndex (\<lambda>sl. sl\<lparr>chstate := Draining, closeStartMs := now, closeReason := reason\<rparr>) } } }"

definition archiveSlotStats :: "int \<Rightarrow> ('w, 'r, 'z, unit) channel_op" where
  "archiveSlotStats i = modify (\<lambda>s. s\<lparr>
     completedBytesReceived := completedBytesReceived s + totalBytesReceived (getSlot i s),
     completedBytesSent := completedBytesSent s + totalBytesSent (getSlot i s),
     completedBytesDropped := completedBytesDropped s + totalBytesDropped (getSlot i s)\<rparr>)"

definition reset_slot :: "'r channel_slot \<Rightarrow> 'r channel_slot" where
  "reset_slot sl = slot_default\<lparr>lastFinalizeMs := lastFinalizeMs sl\<rparr>"

definition resetSlot :: "int \<Rightarrow> ('w, 'r, 'z, unit) channel_op" where
  "resetSlot index = do {
     n \<leftarrow> gets maxSlots;
     if index < 0 \<or> index \<ge> n then ret ()
     else modify_slot index reset_slot }"

text \<open>
  The libssh2 part of \<open>finalizeClose\<close> (close, then free, each retried on a later call after
  \<open>EAGAIN\<close>): true when the slot no longer has an SSH channel.
\<close>

definition finalize_ssh :: "('w, 'r) platform \<Rightarrow> int \<Rightarrow> ('w, 'r, 'z, bool) channel_op" where
  "finalize_ssh P i = do {
     slot \<leftarrow> gets (getSlot i);
     if sshChannel slot = NULL then ret True
     else do {
       closed \<leftarrow> (if \<not> closeComplete (sshCloseProgress slot) then do {
           closeRc \<leftarrow> ext (libssh2_channel_close P (sshChannel slot));
           let (ok, p) = recordCloseResult (sshCloseProgress slot) closeRc LIBSSH2_ERROR_EAGAIN;
           modify_slot i (\<lambda>sl. sl\<lparr>sshCloseProgress := p\<rparr>);
           ret ok }
         else ret True);
       if \<not> closed then ret False
       else do {
         slot \<leftarrow> gets (getSlot i);
         freed \<leftarrow> (if readyForFree (sshCloseProgress slot) then do {
             freeRc \<leftarrow> ext (libssh2_channel_free P (sshChannel slot));
             let (ok, p) = recordFreeResult (sshCloseProgress slot) freeRc LIBSSH2_ERROR_EAGAIN;
             modify_slot i (\<lambda>sl. sl\<lparr>sshCloseProgress := p\<rparr>);
             ret ok }
           else ret True);
         if \<not> freed then ret False
         else do {
           slot \<leftarrow> gets (getSlot i);
           if \<not> readyForFinalize (sshCloseProgress slot) then ret False
           else do {
             modify_slot i (\<lambda>sl. sl\<lparr>sshChannel := NULL\<rparr>);
             ret True } } } } }"

text \<open>Closing the local socket of a slot.\<close>

definition close_local :: "('w, 'r) platform \<Rightarrow> int \<Rightarrow> ('w, 'r, 'z, unit) channel_op" where
  "close_local P i = do {
     slot \<leftarrow> gets (getSlot i);
     whenM (localSocket slot \<ge> 0) (do {
       ext (p_close P (localSocket slot));
       modify_slot i (\<lambda>sl. sl\<lparr>localSocket := -1\<rparr>) }) }"

definition count_buffered_dropped :: "('w, 'r) platform \<Rightarrow> int \<Rightarrow> ('w, 'r, 'z, unit) channel_op" where
  "count_buffered_dropped P i = modify_slot i (\<lambda>sl. sl\<lparr>totalBytesDropped := totalBytesDropped sl
     + of_nat (sz_add (ring_size P (toLocal sl)) (ring_size P (toRemote sl)))\<rparr>)"

definition free_rings :: "('w, 'r) platform \<Rightarrow> int \<Rightarrow> ('w, 'r, 'z, unit) channel_op" where
  "free_rings P i = do {
     slot \<leftarrow> gets (getSlot i);
     delete_ring P (toLocal slot);
     modify_slot i (\<lambda>sl. sl\<lparr>toLocal := None\<rparr>);
     delete_ring P (toRemote slot);
     modify_slot i (\<lambda>sl. sl\<lparr>toRemote := None\<rparr>) }"

text \<open>The rest of \<open>finalizeClose\<close>, once the slot has no SSH channel any more.\<close>

definition finalize_local :: "('w, 'r) platform \<Rightarrow> int \<Rightarrow> ('w, 'r, 'z, unit) channel_op" where
  "finalize_local P slotIndex = do {
     close_local P slotIndex;
     count_buffered_dropped P slotIndex;
     free_rings P slotIndex;
     archiveSlotStats slotIndex;
     modify_slot slotIndex (\<lambda>sl. sl\<lparr>active := False, chstate := Closed\<rparr>);
     now \<leftarrow> millis P;
     modify_slot slotIndex (\<lambda>sl. sl\<lparr>lastFinalizeMs := now\<rparr>);
     modify (\<lambda>s. s\<lparr>activeCount := activeCount s - 1\<rparr>) }"

definition finalizeClose :: "('w, 'r) platform \<Rightarrow> int \<Rightarrow> ('w, 'r, 'z, bool) channel_op" where
  "finalizeClose P slotIndex = do {
     n \<leftarrow> gets maxSlots;
     if slotIndex < 0 \<or> slotIndex \<ge> n then ret True
     else do {
       slot \<leftarrow> gets (getSlot slotIndex);
       if \<not> active slot then ret True
       else do {
         released \<leftarrow> finalize_ssh P slotIndex;
         if \<not> released then ret False
         else do {
           finalize_local P slotIndex;
           ret True } } } }"

definition abandonSlot :: "('w, 'r) platform \<Rightarrow> int \<Rightarrow> close_reason \<Rightarrow> ('w, 'r, 'z, unit) channel_op" where
  "abandonSlot P slotIndex reason = do {
     n \<leftarrow> gets maxSlots;
     if slotIndex < 0 \<or> slotIndex \<ge> n then ret ()
     else do {
       slot \<leftarrow> gets (getSlot slotIndex);
       if \<not> active slot then ret ()
       else do {
         count_buffered_dropped P slotIndex;
         close_local P slotIndex;
         free_rings P slotIndex;
         modify_slot slotIndex (\<lambda>sl. sl\<lparr>sshChannel := NULL\<rparr>);
         archiveSlotStats slotIndex;
         modify (\<lambda>s. if activeCount s > 0 then s\<lparr>activeCount := activeCount s - 1\<rparr> else s);
         resetSlot slotIndex } } }"

section \<open>Allocation and binding\<close>

definition allocateSlot :: "('w, 'r) platform \<Rightarrow> ('w, 'r, 'z, int) channel_op" where
  "allocateSlot P = do {
     ss \<leftarrow> gets slots;
     if ss = None then ret (-1)
     else do {
       now \<leftarrow> millis P;
       n \<leftarrow> gets maxSlots;
       let idx = findFreeSlot active lastFinalizeMs ss n now FINALIZE_COOLDOWN_MS;
       if idx \<ge> 0 then ret idx
       else do {
         timeoutMs \<leftarrow> gets cm_channelTimeoutMs;
         for_break (\<lambda>i. do {
           slot \<leftarrow> gets (getSlot i);
           if active slot \<and> expired now (lastActivity slot) timeoutMs
           then do { beginClose P i Timeout; ret False }
           else ret True }) [0..n - 1];
         ret (-1) } } }"

definition connectToLocalEndpoint ::
  "('w, 'r) platform \<Rightarrow> tunnel_config \<Rightarrow> ('w, 'r, 'z, int) channel_op" where
  "connectToLocalEndpoint P mapping = do {
     fd \<leftarrow> ext (p_socket P);
     if fd < 0 then ret (-1)
     else do {
       let failed = do { ext (p_close P fd); ret (-1) };
       pton \<leftarrow> ext (p_inet_pton P (c_str (localHost mapping)));
       if pton \<noteq> 1 then failed
       else do {
         flags \<leftarrow> ext (p_fcntl_getfl P fd);
         if flags < 0 then failed
         else do {
           setfl \<leftarrow> ext (p_fcntl_setfl_nonblock P fd flags);
           if setfl < 0 then failed
           else do {
             (connectResult, errno) \<leftarrow> ext (p_connect P fd (c_str (localHost mapping)) (localPort mapping));
             if connectResult < 0 \<and> errno \<noteq> EINPROGRESS then failed
             else do {
               ok \<leftarrow> (if connectResult \<noteq> 0 then do {
                   (sel, writable) \<leftarrow> ext (p_select_writable P fd 200000);
                   if sel < 0 then ret False
                   else if sel = 0 \<or> \<not> writable then ret False
                   else do {
                     (rc, sockErr) \<leftarrow> ext (p_getsockopt_error P fd);
                     if rc \<noteq> 0 then ret False
                     else if sockErr \<noteq> 0 then ret False
                     else ret True } }
                 else ret True);
               if \<not> ok then failed
               else do {
                 optimizeSocket P fd 0;
                 ret fd } } } } } } }"

definition snapshot_endpoint :: "tunnel_config \<Rightarrow> endpoint_info" where
  "snapshot_endpoint mapping =
     \<lparr>ep_remoteHost = take (SSH_TUNNEL_ENDPOINT_HOST_MAX - 1) (c_str (remoteBindHost mapping)),
      ep_remotePort = remoteBindPort mapping,
      ep_localHost = take (SSH_TUNNEL_ENDPOINT_HOST_MAX - 1) (c_str (localHost mapping)),
      ep_localPort = localPort mapping\<rparr>"

definition heap_guard :: "('w, 'r) platform \<Rightarrow> nat \<Rightarrow> (('w, 'z) wstate_scheme, bool) state" where
  "heap_guard P ringSize = do {
     let required = mem_requirements ringSize (SSH_TUNNEL_PREPEND_CAPACITY P) 8192;
     totalPsram \<leftarrow> ext (p_heap_caps_get_free_size P MALLOC_CAP_SPIRAM);
     largestPsram \<leftarrow> ext (p_heap_caps_get_largest_free_block P MALLOC_CAP_SPIRAM);
     if totalPsram > 0 then ret (hasContiguousCapacity largestPsram required)
     else do {
       totalInternal \<leftarrow> ext (p_heap_caps_get_free_size P MALLOC_CAP_8BIT);
       largestInternal \<leftarrow> ext (p_heap_caps_get_largest_free_block P MALLOC_CAP_8BIT);
       ret (hasCapacity totalInternal largestInternal required) } }"

fun decimal :: "nat \<Rightarrow> string" where
  "decimal n = (if n < 10 then [char_of (48 + n)] else decimal (n div 10) @ [char_of (48 + n mod 10)])"

declare decimal.simps [simp del]

text \<open>The tags of slots from 8 on are printed into 16-byte buffers.\<close>

definition ring_tag :: "int \<Rightarrow> string \<Rightarrow> string" where
  "ring_tag i suffix =
     (let t = ''ch'' @ decimal (nat i) @ suffix in if i < 8 then t else take 15 t)"

definition bindChannel ::
  "('w, 'r) platform \<Rightarrow> int \<Rightarrow> ssh_channel \<Rightarrow> tunnel_config \<Rightarrow> ('w, 'r, 'z, bool) channel_op" where
  "bindChannel P slotIndex ch mapping = do {
     n \<leftarrow> gets maxSlots;
     if slotIndex < 0 \<or> slotIndex \<ge> n then ret False
     else do {
       slot \<leftarrow> gets (getSlot slotIndex);
       if active slot then ret False
       else do {
         fd \<leftarrow> connectToLocalEndpoint P mapping;
         if fd < 0 then do {
           now \<leftarrow> millis P;
           modify (\<lambda>s. s\<lparr>breaker := snd (recordFailure (remoteBindPort mapping) now (breaker s))\<rparr>);
           ret False }
         else do {
           modify (\<lambda>s. s\<lparr>breaker := recordSuccess (remoteBindPort mapping) (breaker s)\<rparr>);
           ringSize \<leftarrow> gets ringBufferSize;
           room \<leftarrow> heap_guard P ringSize;
           if \<not> room then do { ext (p_close P fd); ret False }
           else do {
             tl \<leftarrow> drb_new P ringSize (ring_tag slotIndex ''_toLocal'');
             tr \<leftarrow> drb_new P ringSize (ring_tag slotIndex ''_toRemote'');
             if drb_capacityBytes tl = 0 \<or> drb_capacityBytes tr = 0 then do {
               drb_delete P tl;
               drb_delete P tr;
               ext (p_close P fd);
               ret False }
             else do {
               resetSlot slotIndex;
               now \<leftarrow> millis P;
               modify_slot slotIndex (\<lambda>sl. sl\<lparr>sshChannel := ch, localSocket := fd, active := True,
                 chstate := Open, toLocal := Some tl, toRemote := Some tr, lastActivity := now,
                 lastSuccessfulWrite := now, lastSuccessfulRead := now,
                 endpoint := snapshot_endpoint mapping\<rparr>);
               ext (libssh2_channel_set_blocking P ch False);
               modify (\<lambda>s. s\<lparr>activeCount := activeCount s + 1\<rparr>);
               ret True } } } } } }"

section \<open>Queries\<close>

definition shouldAcceptNew :: "('w, 'r, 'z) channel_state_scheme \<Rightarrow> bool" where
  "shouldAcceptNew s =
     (if activeCount s \<ge> maxSlots s then False
      else if activeCount s \<le> maxSlots s - 2 then True
      else \<not> list_ex (\<lambda>i. active (getSlot i s) \<and> consecutiveErrors (getSlot i s) > 5) [0..maxSlots s - 1])"

definition total_over_active ::
  "('r channel_slot \<Rightarrow> u32) \<Rightarrow> u32 \<Rightarrow> ('w, 'r, 'z) channel_state_scheme \<Rightarrow> u32" where
  "total_over_active f completed s =
     foldl (\<lambda>total i. if active (getSlot i s) then total + f (getSlot i s) else total) completed [0..maxSlots s - 1]"

definition getTotalBytesReceived :: "('w, 'r, 'z) channel_state_scheme \<Rightarrow> u32" where
  "getTotalBytesReceived s = total_over_active totalBytesReceived (completedBytesReceived s) s"

definition getTotalBytesSent :: "('w, 'r, 'z) channel_state_scheme \<Rightarrow> u32" where
  "getTotalBytesSent s = total_over_active totalBytesSent (completedBytesSent s) s"

definition getTotalBytesDropped :: "('w, 'r, 'z) channel_state_scheme \<Rightarrow> u32" where
  "getTotalBytesDropped s = total_over_active totalBytesDropped (completedBytesDropped s) s"

definition isMappingBackedOff :: "int \<Rightarrow> u32 \<Rightarrow> ('w, 'r, 'z) channel_state_scheme \<Rightarrow> bool" where
  "isMappingBackedOff port now s = isBackedOff (breaker s) port now"

end
