(* ===== verification/Ssh_Transport.thy ===== *)
theory Ssh_Transport
  imports Ssh_Channel
begin

text \<open>
  \<open>ssh_transport.h\<close> and \<open>ssh_transport.cpp\<close>: the pump that moves data between the SSH channels and
  the local sockets, in four phases per cycle. The shared work buffer is not live across statements
  (each chunk is read into it and handed on at once), so a chunk is passed as a value; the pointers
  \<open>rxBuf_\<close> and \<open>txBuf_\<close> are booleans. \<open>pendingCloseEvents\<close> is the used part of the event array. The
  plain build is modelled here; theory \<open>Pump_Builds\<close> adds the switches \<open>TUNNEL_INSTRUMENT\<close> and \<open>TUNNEL_DIAG_LOG_ONLY\<close>.
\<close>

record close_event =
  ce_slot :: int
  ce_reason :: close_reason

record ('w, 'r) pump_state = "('w, 'r) channel_state" +
  pumpAttached :: bool
  rxBuf :: bool
  txBuf :: bool
  bufSize :: nat
  tp_channelTimeoutMs :: u32
  roundRobinOffset :: u32
  lastBytesMoved :: u32
  pendingCloseEvents :: "close_event list"
  sessionDegraded :: bool

type_synonym ('w, 'r, 'z, 'a) pump_op = "(('w, 'r, 'z) pump_state_scheme, 'a) state"

definition BACKPRESSURE_HIGH_PCT :: nat where "BACKPRESSURE_HIGH_PCT = 75"
definition BACKPRESSURE_LOW_PCT :: nat where "BACKPRESSURE_LOW_PCT = 25"
definition MAX_WRITE_PER_CHANNEL :: nat where "MAX_WRITE_PER_CHANNEL = 16384"
definition DRAIN_TIMEOUT_MS :: u32 where "DRAIN_TIMEOUT_MS = 15000"
definition HARD_ABANDON_TIMEOUT_MS :: u32 where "HARD_ABANDON_TIMEOUT_MS = 30000"
definition HALF_CLOSE_TIMEOUT_MS :: u32 where "HALF_CLOSE_TIMEOUT_MS = 5000"
definition EAGAIN_STALL_TIMEOUT_MS :: u32 where "EAGAIN_STALL_TIMEOUT_MS = 3000"
definition LOCAL_SEND_STALL_TIMEOUT_MS :: u32 where "LOCAL_SEND_STALL_TIMEOUT_MS = 8000"
definition EOF_GRACE_MS :: u32 where "EOF_GRACE_MS = 200"
definition MAX_CLOSE_EVENTS :: nat where "MAX_CLOSE_EVENTS = 32"

section \<open>Ring access\<close>

datatype direction = ToLocal | ToRemote

primrec ring_of :: "direction \<Rightarrow> 'r channel_slot \<Rightarrow> 'r data_ring_buffer option" where
  "ring_of ToLocal sl = toLocal sl"
| "ring_of ToRemote sl = toRemote sl"

primrec set_ring :: "direction \<Rightarrow> 'r data_ring_buffer option \<Rightarrow> 'r channel_slot \<Rightarrow> 'r channel_slot" where
  "set_ring ToLocal r sl = sl\<lparr>toLocal := r\<rparr>"
| "set_ring ToRemote r sl = sl\<lparr>toRemote := r\<rparr>"

text \<open>A call on a ring buffer of slot \<open>i\<close>; on a null pointer nothing happens and \<open>d\<close> is returned.\<close>

definition on_ring ::
  "int \<Rightarrow> direction \<Rightarrow> 'a \<Rightarrow> ('r data_ring_buffer \<Rightarrow> 'a \<times> 'r data_ring_buffer) \<Rightarrow> ('w, 'r, 'z, 'a) channel_op" where
  "on_ring i dir dflt f = do {
     slot \<leftarrow> gets (getSlot i);
     (case ring_of dir slot of
        None \<Rightarrow> ret dflt
      | Some d \<Rightarrow> (case f d of (a, d') \<Rightarrow> do {
          modify_slot i (set_ring dir (Some d'));
          ret a })) }"

definition ring_write ::
  "('w, 'r) platform \<Rightarrow> int \<Rightarrow> direction \<Rightarrow> bytes \<Rightarrow> nat \<Rightarrow> ('w, 'r, 'z, nat) channel_op" where
  "ring_write P i dir bs len = on_ring i dir 0 (drb_write P (Some bs) len)"

definition ring_read ::
  "('w, 'r) platform \<Rightarrow> int \<Rightarrow> direction \<Rightarrow> nat \<Rightarrow> ('w, 'r, 'z, bytes) channel_op" where
  "ring_read P i dir len = on_ring i dir [] (drb_read P True len)"

definition restore_drb ::
  "('w, 'r) platform \<Rightarrow> bytes \<Rightarrow> 'r data_ring_buffer \<Rightarrow> nat \<times> 'r data_ring_buffer" where
  "restore_drb P bs d =
     (if length bs = 0 then (0, d)
      else case drb_writeToFront (Some bs) (length bs) d of
        (restored, d') \<Rightarrow>
          if restored = length bs then (restored, d') else drb_write P (Some bs) (length bs) d')"

definition restoreUnsent ::
  "('w, 'r) platform \<Rightarrow> int \<Rightarrow> direction \<Rightarrow> bytes \<Rightarrow> ('w, 'r, 'z, nat) channel_op" where
  "restoreUnsent P i dir bs = on_ring i dir 0 (restore_drb P bs)"

definition accountRestoreDrop :: "int \<Rightarrow> nat \<Rightarrow> nat \<Rightarrow> ('w, 'r, 'z, unit) channel_op" where
  "accountRestoreDrop i expected restored =
     (if restored \<ge> expected then ret ()
      else modify_slot i (\<lambda>sl. sl\<lparr>totalBytesDropped := totalBytesDropped sl + of_nat (expected - restored)\<rparr>))"

text \<open>\<open>!ring || ring->empty()\<close>\<close>

definition ring_empty :: "('w, 'r) platform \<Rightarrow> 'r data_ring_buffer option \<Rightarrow> bool" where
  "ring_empty P r = (case r of None \<Rightarrow> True | Some d \<Rightarrow> drb_empty P d)"

definition ring_available :: "('w, 'r) platform \<Rightarrow> 'r data_ring_buffer option \<Rightarrow> nat" where
  "ring_available P r = (case r of None \<Rightarrow> 0 | Some d \<Rightarrow> drb_available P d)"

definition ring_capacity :: "'r data_ring_buffer option \<Rightarrow> nat" where
  "ring_capacity r = (case r of None \<Rightarrow> 0 | Some d \<Rightarrow> drb_capacityBytes d)"

text \<open>\<open>capacityBytes() * PCT / 100\<close> in \<open>size_t\<close> arithmetic.\<close>

definition pct_of :: "nat \<Rightarrow> nat \<Rightarrow> nat" where
  "pct_of cap pct = sz_mul cap pct div 100"

definition add_moved :: "nat \<Rightarrow> ('w, 'r, 'z, unit) pump_op" where
  "add_moved n = modify (\<lambda>s. s\<lparr>lastBytesMoved := lastBytesMoved s + of_nat n\<rparr>)"

text \<open>\<open>(n + roundRobinOffset_) % maxSlots\<close> in unsigned arithmetic.\<close>

definition rr_index :: "u32 \<Rightarrow> int \<Rightarrow> int \<Rightarrow> int" where
  "rr_index off n maxs = uint ((word_of_int n + off) mod word_of_int maxs)"

definition pump_order :: "('w, 'r, 'z) pump_state_scheme \<Rightarrow> int list" where
  "pump_order s = map (\<lambda>n. rr_index (roundRobinOffset s) n (maxSlots s)) [0..maxSlots s - 1]"

section \<open>Life cycle\<close>

definition pump_init :: "('w, 'r) platform \<Rightarrow> nat \<Rightarrow> u32 \<Rightarrow> ('w, 'r, 'z, bool) pump_op" where
  "pump_init P bufferSz timeoutMs = do {
     modify (\<lambda>s. s\<lparr>bufSize := bufferSz, tp_channelTimeoutMs := timeoutMs\<rparr>);
     ok \<leftarrow> safeMalloc P bufferSz;
     modify (\<lambda>s. s\<lparr>rxBuf := ok, txBuf := ok\<rparr>);
     ret ok }"

definition pump_attach :: "bool \<Rightarrow> ('w, 'r, 'z, unit) pump_op" where
  "pump_attach ok = modify (\<lambda>s. s\<lparr>pumpAttached := ok\<rparr>)"

definition pump_delete :: "('w, 'r) platform \<Rightarrow> ('w, 'r, 'z, unit) pump_op" where
  "pump_delete P = do {
     b \<leftarrow> gets rxBuf;
     whenM b (ext (p_free P));
     modify (\<lambda>s. s\<lparr>rxBuf := False, txBuf := False\<rparr>) }"

definition hasAnyBackpressure :: "('w, 'r, 'z) pump_state_scheme \<Rightarrow> bool" where
  "hasAnyBackpressure s \<longleftrightarrow> pumpAttached s \<and>
     list_ex (\<lambda>i. active (getSlot i s) \<and> (localReadPaused (getSlot i s) \<or> sshReadPaused (getSlot i s))) [0..maxSlots s - 1]"

definition consumeCloseEvents :: "nat \<Rightarrow> ('w, 'r, 'z, close_event list) pump_op" where
  "consumeCloseEvents maxEvents = do {
     es \<leftarrow> gets pendingCloseEvents;
     modify (\<lambda>s. s\<lparr>pendingCloseEvents := []\<rparr>);
     ret (take maxEvents es) }"

definition push_close_event :: "int \<Rightarrow> close_reason \<Rightarrow> ('w, 'r, 'z, unit) pump_op" where
  "push_close_event i reason = modify (\<lambda>s.
     if length (pendingCloseEvents s) < MAX_CLOSE_EVENTS
     then s\<lparr>pendingCloseEvents := pendingCloseEvents s @ [\<lparr>ce_slot = i, ce_reason = reason\<rparr>]\<rparr> else s)"

section \<open>Phase 1: SSH channels to toLocal rings\<close>

text \<open>What both read paths do with \<open>rc > 0\<close> bytes from the SSH channel.\<close>

definition store_received :: "('w, 'r) platform \<Rightarrow> int \<Rightarrow> bytes \<Rightarrow> int \<Rightarrow> ('w, 'r, 'z, unit) pump_op" where
  "store_received P i bs rc = do {
     written \<leftarrow> ring_write P i ToLocal bs (nat rc);
     modify_slot i (\<lambda>sl. sl\<lparr>totalBytesReceived := totalBytesReceived sl + of_nat written,
       totalBytesDropped := totalBytesDropped sl + (of_int rc - of_nat written)\<rparr>);
     add_moved written;
     now \<leftarrow> millis P;
     modify_slot i (\<lambda>sl. sl\<lparr>lastSuccessfulRead := now, lastActivity := now, eagainCount := 0,
       firstEagainMs := 0, consecutiveErrors := 0\<rparr>) }"

definition channel_error :: "('w, 'r) platform \<Rightarrow> int \<Rightarrow> ('w, 'r, 'z, unit) channel_op" where
  "channel_error P i = do {
     modify_slot i (\<lambda>sl. sl\<lparr>consecutiveErrors := consecutiveErrors sl + 1\<rparr>);
     slot \<leftarrow> gets (getSlot i);
     whenM (consecutiveErrors slot > 3 \<and> chstate slot = Open) (beginClose P i ErrorReason) }"

text \<open>The small read of a paused channel.\<close>

definition pump_paused :: "('w, 'r) platform \<Rightarrow> int \<Rightarrow> ('w, 'r, 'z, bool) pump_op" where
  "pump_paused P i = do {
     slot \<leftarrow> gets (getSlot i);
     let avail = ring_available P (toLocal slot);
     if toLocal slot \<noteq> None \<and> avail > 0 then do {
       let pumpSize = (if avail < 64 then avail else 64);
       (rc, bs) \<leftarrow> ext (libssh2_channel_read P (sshChannel slot) pumpSize);
       (if rc > 0 then store_received P i bs rc
        else if rc = 0 then modify_slot i (\<lambda>sl. sl\<lparr>remoteEof := True\<rparr>)
        else if rc \<noteq> LIBSSH2_ERROR_EAGAIN then channel_error P i
        else ret ());
       ret True }
     else ret False }"

fun read_chunks :: "('w, 'r) platform \<Rightarrow> int \<Rightarrow> nat \<Rightarrow> bool \<Rightarrow> ('w, 'r, 'z, bool) pump_op" where
  "read_chunks P i 0 anyRead = ret anyRead"
| "read_chunks P i (Suc n) anyRead = do {
     slot \<leftarrow> gets (getSlot i);
     let freeSpace = ring_available P (toLocal slot);
     if freeSpace = 0 then do {
       modify_slot i (\<lambda>sl. sl\<lparr>sshReadPaused := True\<rparr>);
       ret anyRead }
     else do {
       bsz \<leftarrow> gets bufSize;
       let readSize = (if freeSpace < bsz then freeSpace else bsz);
       (rc, bs) \<leftarrow> ext (libssh2_channel_read P (sshChannel slot) readSize);
       if rc > 0 then do {
         store_received P i bs rc;
         slot \<leftarrow> gets (getSlot i);
         if ring_size P (toLocal slot) > pct_of (ring_capacity (toLocal slot)) BACKPRESSURE_HIGH_PCT
         then do { modify_slot i (\<lambda>sl. sl\<lparr>sshReadPaused := True\<rparr>); ret True }
         else read_chunks P i n True }
       else if rc = LIBSSH2_ERROR_EAGAIN then ret True
       else if rc = 0 then do { modify_slot i (\<lambda>sl. sl\<lparr>remoteEof := True\<rparr>); ret True }
       else do { channel_error P i; ret True } } }"

definition check_eof_flag :: "('w, 'r) platform \<Rightarrow> int \<Rightarrow> ('w, 'r, 'z, unit) pump_op" where
  "check_eof_flag P i = do {
     slot \<leftarrow> gets (getSlot i);
     whenM (\<not> remoteEof slot \<and> sshChannel slot \<noteq> NULL) (do {
       e \<leftarrow> ext (libssh2_channel_eof P (sshChannel slot));
       whenM (e \<noteq> 0) (modify_slot i (\<lambda>sl. sl\<lparr>remoteEof := True\<rparr>)) }) }"

definition read_open_channel :: "('w, 'r) platform \<Rightarrow> int \<Rightarrow> ('w, 'r, 'z, bool) pump_op" where
  "read_open_channel P i = do {
     slot \<leftarrow> gets (getSlot i);
     if toLocal slot = None then ret False
     else do {
       anyRead \<leftarrow> read_chunks P i 4 False;
       check_eof_flag P i;
       ret anyRead } }"

text \<open>One round of the phase-1 loop; the result says whether a read was done.\<close>

definition pump_channel :: "('w, 'r) platform \<Rightarrow> int \<Rightarrow> ('w, 'r, 'z, bool) pump_op" where
  "pump_channel P i = do {
     slot \<leftarrow> gets (getSlot i);
     if \<not> active slot \<or> sshChannel slot = NULL then ret False
     else if remoteEof slot then do {
       ext (libssh2_channel_read P (sshChannel slot) 64);
       ret True }
     else if sshReadPaused slot then
       (if toLocal slot \<noteq> None
           \<and> ring_size P (toLocal slot) < pct_of (ring_capacity (toLocal slot)) BACKPRESSURE_LOW_PCT
        then do {
          modify_slot i (\<lambda>sl. sl\<lparr>sshReadPaused := False\<rparr>);
          read_open_channel P i }
        else pump_paused P i)
     else read_open_channel P i }"

fun pump_channels :: "('w, 'r) platform \<Rightarrow> int list \<Rightarrow> bool \<Rightarrow> ('w, 'r, 'z, bool) pump_op" where
  "pump_channels P [] anyRead = ret anyRead"
| "pump_channels P (i # is) anyRead = do {
     r \<leftarrow> pump_channel P i;
     pump_channels P is (anyRead \<or> r) }"

definition pumpSshTransport :: "('w, 'r) platform \<Rightarrow> ('w, 'r, 'z, unit) pump_op" where
  "pumpSshTransport P = do {
     locked \<leftarrow> session_lock P (pdMS_TO_TICKS 50);
     if \<not> locked then ret ()
     else do {
       order \<leftarrow> gets pump_order;
       anyRead \<leftarrow> pump_channels P order False;
       n \<leftarrow> gets maxSlots;
       whenM (\<not> anyRead) (for_break (\<lambda>i. do {
         slot \<leftarrow> gets (getSlot i);
         if active slot \<and> sshChannel slot \<noteq> NULL \<and> remoteEof slot then do {
           ext (libssh2_channel_read P (sshChannel slot) 1);
           ret False }
         else ret True }) [0..n - 1]);
       session_unlock P } }"

section \<open>Phase 2: toLocal rings to local sockets\<close>

definition restore_and_account :: "('w, 'r) platform \<Rightarrow> int \<Rightarrow> direction \<Rightarrow> bytes \<Rightarrow> ('w, 'r, 'z, unit) channel_op" where
  "restore_and_account P i dir bs = do {
     restored \<leftarrow> restoreUnsent P i dir bs;
     accountRestoreDrop i (length bs) restored }"

text \<open>One chunk; the result is \<open>False\<close> where the source leaves the attempt loop.\<close>

definition drain_local_chunk :: "('w, 'r) platform \<Rightarrow> int \<Rightarrow> ('w, 'r, 'z, bool) pump_op" where
  "drain_local_chunk P i = do {
     slot \<leftarrow> gets (getSlot i);
     if ring_empty P (toLocal slot) then ret False
     else do {
       bsz \<leftarrow> gets bufSize;
       let avail = ring_size P (toLocal slot);
       let toDrain = (if avail < bsz then avail else bsz);
       chunk \<leftarrow> ring_read P i ToLocal toDrain;
       let got = length chunk;
       if got = 0 then ret False
       else do {
         (sent, errno) \<leftarrow> ext (p_send P (localSocket slot) chunk);
         if sent > 0 then do {
           add_moved (nat sent);
           now \<leftarrow> millis P;
           modify_slot i (\<lambda>sl. sl\<lparr>lastActivity := now, firstLocalSendEagainMs := 0\<rparr>);
           if nat sent < got then do {
             restore_and_account P i ToLocal (drop (nat sent) chunk);
             ret False }
           else ret True }
         else if sent < 0 \<and> errno \<noteq> EAGAIN \<and> errno \<noteq> EWOULDBLOCK then do {
           modify_slot i (\<lambda>sl. sl\<lparr>totalBytesDropped := totalBytesDropped sl + of_nat got, localEof := True\<rparr>);
           ret False }
         else do {
           restore_and_account P i ToLocal chunk;
           slot \<leftarrow> gets (getSlot i);
           whenM (firstLocalSendEagainMs slot = 0) (do {
             now \<leftarrow> millis P;
             modify_slot i (\<lambda>sl. sl\<lparr>firstLocalSendEagainMs := now\<rparr>) });
           ret False } } } }"

fun drain_local_chunks :: "('w, 'r) platform \<Rightarrow> int \<Rightarrow> nat \<Rightarrow> ('w, 'r, 'z, unit) pump_op" where
  "drain_local_chunks P i 0 = ret ()"
| "drain_local_chunks P i (Suc n) = do {
     go \<leftarrow> drain_local_chunk P i;
     if go then drain_local_chunks P i n else ret () }"

definition check_local_stall :: "('w, 'r) platform \<Rightarrow> int \<Rightarrow> ('w, 'r, 'z, unit) channel_op" where
  "check_local_stall P i = do {
     slot \<leftarrow> gets (getSlot i);
     whenM (firstLocalSendEagainMs slot > 0 \<and> toLocal slot \<noteq> None \<and> \<not> ring_empty P (toLocal slot)) (do {
       now \<leftarrow> millis P;
       whenM (now - firstLocalSendEagainMs slot > LOCAL_SEND_STALL_TIMEOUT_MS) (do {
         whenM (chstate slot = Open) (beginClose P i ErrorReason);
         now2 \<leftarrow> millis P;
         modify_slot i (\<lambda>sl. sl\<lparr>firstLocalSendEagainMs := now2\<rparr>) }) }) }"

definition drain_local_channel :: "('w, 'r) platform \<Rightarrow> int \<Rightarrow> ('w, 'r, 'z, unit) pump_op" where
  "drain_local_channel P i = do {
     slot \<leftarrow> gets (getSlot i);
     if \<not> active slot \<or> localSocket slot < 0 \<or> toLocal slot = None then ret ()
     else do {
       drain_local_chunks P i 4;
       check_local_stall P i } }"

definition drainSshToLocal :: "('w, 'r) platform \<Rightarrow> ('w, 'r, 'z, unit) pump_op" where
  "drainSshToLocal P = do {
     n \<leftarrow> gets maxSlots;
     if n = 0 then ret ()
     else do {
       order \<leftarrow> gets pump_order;
       for_each (drain_local_channel P) order } }"

section \<open>Phase 3: local sockets to toRemote rings to SSH\<close>

text \<open>
  The write loop of step A. Every round that continues has written at least one byte of the
  budget, so \<open>fuel = budget\<close> rounds suffice (shown below).
\<close>

definition write_chunk :: "('w, 'r) platform \<Rightarrow> int \<Rightarrow> nat \<Rightarrow> ('w, 'r, 'z, nat option) pump_op" where
  "write_chunk P i budget = do {
     bsz \<leftarrow> gets bufSize;
     let chunkSize = (if budget < bsz then budget else bsz);
     chunk \<leftarrow> ring_read P i ToRemote chunkSize;
     let got = length chunk;
     if got = 0 then ret None
     else do {
       slot \<leftarrow> gets (getSlot i);
       written \<leftarrow> ext (libssh2_channel_write P (sshChannel slot) chunk);
       if written > 0 then do {
         modify_slot i (\<lambda>sl. sl\<lparr>totalBytesSent := totalBytesSent sl + of_int written\<rparr>);
         add_moved (nat written);
         now \<leftarrow> millis P;
         modify_slot i (\<lambda>sl. sl\<lparr>lastSuccessfulWrite := now, lastActivity := now, eagainCount := 0,
           firstEagainMs := 0, consecutiveErrors := 0\<rparr>);
         if nat written < got then do {
           restore_and_account P i ToRemote (drop (nat written) chunk);
           ret None }
         else ret (Some (sz_sub budget (nat written))) }
       else if written = LIBSSH2_ERROR_EAGAIN then do {
         restore_and_account P i ToRemote chunk;
         modify_slot i (\<lambda>sl. sl\<lparr>eagainCount := eagainCount sl + 1\<rparr>);
         slot \<leftarrow> gets (getSlot i);
         whenM (firstEagainMs slot = 0) (do {
           now \<leftarrow> millis P;
           modify_slot i (\<lambda>sl. sl\<lparr>firstEagainMs := now\<rparr>) });
         ret None }
       else do {
         restore_and_account P i ToRemote chunk;
         channel_error P i;
         ret None } } }"

fun write_loop :: "('w, 'r) platform \<Rightarrow> int \<Rightarrow> nat \<Rightarrow> nat \<Rightarrow> ('w, 'r, 'z, unit) pump_op" where
  "write_loop P i fuel budget =
     (if fuel = 0 then ret ()
      else do {
        slot \<leftarrow> gets (getSlot i);
        if budget > 0 \<and> \<not> ring_empty P (toRemote slot) then do {
          r \<leftarrow> write_chunk P i budget;
          (case r of None \<Rightarrow> ret () | Some b \<Rightarrow> write_loop P i (fuel - 1) b) }
        else ret () })"

declare write_loop.simps [simp del]

definition check_write_stall :: "('w, 'r) platform \<Rightarrow> int \<Rightarrow> ('w, 'r, 'z, unit) channel_op" where
  "check_write_stall P i = do {
     slot \<leftarrow> gets (getSlot i);
     whenM (firstEagainMs slot > 0) (do {
       now \<leftarrow> millis P;
       whenM (now - firstEagainMs slot > EAGAIN_STALL_TIMEOUT_MS) (do {
         whenM (chstate slot = Open) (beginClose P i ErrorReason);
         now2 \<leftarrow> millis P;
         modify_slot i (\<lambda>sl. sl\<lparr>firstEagainMs := now2\<rparr>) }) }) }"

definition write_channel :: "('w, 'r) platform \<Rightarrow> int \<Rightarrow> ('w, 'r, 'z, unit) pump_op" where
  "write_channel P i = do {
     slot \<leftarrow> gets (getSlot i);
     whenM (toRemote slot \<noteq> None \<and> \<not> ring_empty P (toRemote slot)) (do {
       locked \<leftarrow> session_lock P (pdMS_TO_TICKS 20);
       whenM locked (do {
         write_loop P i MAX_WRITE_PER_CHANNEL MAX_WRITE_PER_CHANNEL;
         session_unlock P;
         check_write_stall P i }) }) }"

definition update_backpressure :: "('w, 'r) platform \<Rightarrow> 'r channel_slot \<Rightarrow> 'r channel_slot" where
  "update_backpressure P sl =
     (case toRemote sl of
        None \<Rightarrow> sl
      | Some d \<Rightarrow>
          (let used = drb_size P d; cap = drb_capacityBytes d in
           if localReadPaused sl then
             (if used < pct_of cap BACKPRESSURE_LOW_PCT then sl\<lparr>localReadPaused := False\<rparr> else sl)
           else if used > pct_of cap BACKPRESSURE_HIGH_PCT then sl\<lparr>localReadPaused := True\<rparr>
           else sl))"

fun recv_chunks :: "('w, 'r) platform \<Rightarrow> int \<Rightarrow> nat \<Rightarrow> ('w, 'r, 'z, unit) pump_op" where
  "recv_chunks P i 0 = ret ()"
| "recv_chunks P i (Suc n) = do {
     slot \<leftarrow> gets (getSlot i);
     if localEof slot \<or> localReadPaused slot then ret ()
     else do {
       let freeSpace = ring_available P (toRemote slot);
       if freeSpace = 0 then modify_slot i (\<lambda>sl. sl\<lparr>localReadPaused := True\<rparr>)
       else do {
         bsz \<leftarrow> gets bufSize;
         let readSize = (if freeSpace < bsz then freeSpace else bsz);
         (recvd, bs, errno) \<leftarrow> ext (p_recv P (localSocket slot) readSize);
         if recvd > 0 then do {
           written \<leftarrow> ring_write P i ToRemote bs (nat recvd);
           modify_slot i (\<lambda>sl. sl\<lparr>totalBytesDropped := totalBytesDropped sl + (of_int recvd - of_nat written)\<rparr>);
           now \<leftarrow> millis P;
           modify_slot i (\<lambda>sl. sl\<lparr>lastActivity := now\<rparr>);
           add_moved written;
           recv_chunks P i n }
         else if recvd = 0 then modify_slot i (\<lambda>sl. sl\<lparr>localEof := True\<rparr>)
         else if errno \<noteq> EAGAIN \<and> errno \<noteq> EWOULDBLOCK then modify_slot i (\<lambda>sl. sl\<lparr>localEof := True\<rparr>)
         else ret () } } }"

definition recv_channel :: "('w, 'r) platform \<Rightarrow> int \<Rightarrow> ('w, 'r, 'z, unit) pump_op" where
  "recv_channel P i = do {
     slot \<leftarrow> gets (getSlot i);
     whenM (\<not> localEof slot \<and> \<not> localReadPaused slot \<and> localSocket slot \<ge> 0 \<and> toRemote slot \<noteq> None
            \<and> eofSentMs slot = 0)
       (recv_chunks P i 3) }"

definition drain_remote_channel :: "('w, 'r) platform \<Rightarrow> int \<Rightarrow> ('w, 'r, 'z, unit) pump_op" where
  "drain_remote_channel P i = do {
     slot \<leftarrow> gets (getSlot i);
     if \<not> active slot \<or> sshChannel slot = NULL then ret ()
     else if eofSentMs slot > 0 then ret ()
     else do {
       write_channel P i;
       modify_slot i (update_backpressure P);
       recv_channel P i } }"

definition drainLocalToSsh :: "('w, 'r) platform \<Rightarrow> ('w, 'r, 'z, unit) pump_op" where
  "drainLocalToSsh P = do {
     n \<leftarrow> gets maxSlots;
     if n = 0 then ret ()
     else do {
       order \<leftarrow> gets pump_order;
       for_each (drain_remote_channel P) order;
       modify (\<lambda>s. s\<lparr>roundRobinOffset := roundRobinOffset s + 1\<rparr>) } }"

section \<open>Phase 4: closes\<close>

definition shutdown_local :: "('w, 'r) platform \<Rightarrow> int \<Rightarrow> ('w, 'r, 'z, unit) channel_op" where
  "shutdown_local P i = do {
     slot \<leftarrow> gets (getSlot i);
     whenM (remoteEof slot \<and> \<not> localShutdownSent slot \<and> localSocket slot \<ge> 0 \<and> ring_empty P (toRemote slot)) (do {
       ext (p_shutdown P (localSocket slot) SHUT_WR);
       modify_slot i (\<lambda>sl. sl\<lparr>localShutdownSent := True\<rparr>) }) }"

definition check_open :: "('w, 'r) platform \<Rightarrow> u32 \<Rightarrow> int \<Rightarrow> ('w, 'r, 'z, unit) pump_op" where
  "check_open P now i = do {
     slot \<leftarrow> gets (getSlot i);
     if \<not> active slot \<or> chstate slot \<noteq> Open then ret ()
     else if remoteEof slot \<and> localEof slot then beginClose P i RemoteClosed
     else if localEof slot \<and> \<not> remoteEof slot \<and> ring_empty P (toRemote slot) then beginClose P i LocalClosed
     else if consecutiveErrors slot > 5 then beginClose P i ErrorReason
     else do {
       shutdown_local P i;
       timeoutMs \<leftarrow> gets tp_channelTimeoutMs;
       if remoteEof slot \<and> \<not> localEof slot \<and> lastActivity slot > 0
          \<and> now - lastActivity slot > HALF_CLOSE_TIMEOUT_MS \<and> ring_empty P (toRemote slot)
       then beginClose P i RemoteClosed
       else if expired now (lastActivity slot) timeoutMs then beginClose P i Timeout
       else ret () } }"

text \<open>
  The decision about a draining channel: hard abandon, or to which of the two bounded work lists
  it is added.
\<close>

datatype drain_decision = HardAbandon | ToClose | ToSendEof | KeepWaiting

definition drain_decide :: "('w, 'r) platform \<Rightarrow> u32 \<Rightarrow> 'r channel_slot \<Rightarrow> drain_decision" where
  "drain_decide P now slot =
     (let ringsEmpty = (ring_empty P (toLocal slot) \<and> ring_empty P (toRemote slot));
          timedOut = (now - closeStartMs slot > DRAIN_TIMEOUT_MS);
          tooManyErrors = (consecutiveErrors slot > 3)
      in if now - closeStartMs slot > HARD_ABANDON_TIMEOUT_MS then HardAbandon
         else if timedOut then ToClose
         else if tooManyErrors then ToClose
         else if ringsEmpty then
           (if eofSentMs slot = 0 then ToSendEof
            else if now - eofSentMs slot \<ge> EOF_GRACE_MS then ToClose
            else KeepWaiting)
         else KeepWaiting)"

definition push_bounded :: "nat \<Rightarrow> int \<Rightarrow> int list \<Rightarrow> int list" where
  "push_bounded arrSize i xs = (if length xs < arrSize then xs @ [i] else xs)"

fun check_draining ::
  "('w, 'r) platform \<Rightarrow> u32 \<Rightarrow> nat \<Rightarrow> int list \<Rightarrow> int list \<times> int list \<Rightarrow> ('w, 'r, 'z, int list \<times> int list) pump_op" where
  "check_draining P now arrSize [] work = ret work"
| "check_draining P now arrSize (i # is) (toSendEof, toClose) = do {
     slot \<leftarrow> gets (getSlot i);
     if \<not> active slot \<or> chstate slot \<noteq> Draining then check_draining P now arrSize is (toSendEof, toClose)
     else (case drain_decide P now slot of
         HardAbandon \<Rightarrow> do {
           abandonSlot P i (closeReason slot);
           modify (\<lambda>s. s\<lparr>sessionDegraded := True\<rparr>);
           push_close_event i (closeReason slot);
           check_draining P now arrSize is (toSendEof, toClose) }
       | ToClose \<Rightarrow> check_draining P now arrSize is (toSendEof, push_bounded arrSize i toClose)
       | ToSendEof \<Rightarrow> check_draining P now arrSize is (push_bounded arrSize i toSendEof, toClose)
       | KeepWaiting \<Rightarrow> check_draining P now arrSize is (toSendEof, toClose)) }"

fun pump_after_eof :: "('w, 'r) platform \<Rightarrow> int \<Rightarrow> nat \<Rightarrow> ('w, 'r, 'z, unit) channel_op" where
  "pump_after_eof P i 0 = ret ()"
| "pump_after_eof P i (Suc n) = do {
     slot \<leftarrow> gets (getSlot i);
     (pr, bs) \<leftarrow> ext (libssh2_channel_read P (sshChannel slot) 512);
     whenM (pr > 0 \<and> toLocal slot \<noteq> None) (do { ring_write P i ToLocal bs (nat pr); ret () });
     if pr = LIBSSH2_ERROR_EAGAIN \<or> pr \<le> 0 then ret () else pump_after_eof P i n }"

definition send_eof :: "('w, 'r) platform \<Rightarrow> int \<Rightarrow> ('w, 'r, 'z, unit) channel_op" where
  "send_eof P i = do {
     slot \<leftarrow> gets (getSlot i);
     if sshChannel slot = NULL then ret ()
     else do {
       rc \<leftarrow> ext (libssh2_channel_send_eof P (sshChannel slot));
       if rc = LIBSSH2_ERROR_EAGAIN then ret ()
       else do {
         pump_after_eof P i 4;
         now \<leftarrow> millis P;
         modify_slot i (\<lambda>sl. sl\<lparr>eofSentMs := now\<rparr>) } } }"

definition finalize_one :: "('w, 'r) platform \<Rightarrow> int \<Rightarrow> ('w, 'r, 'z, unit) pump_op" where
  "finalize_one P i = do {
     slot \<leftarrow> gets (getSlot i);
     let reason = closeReason slot;
     ok \<leftarrow> finalizeClose P i;
     whenM ok (push_close_event i reason) }"

definition checkCloses :: "('w, 'r) platform \<Rightarrow> ('w, 'r, 'z, unit) pump_op" where
  "checkCloses P = do {
     n \<leftarrow> gets maxSlots;
     now \<leftarrow> millis P;
     for_each (check_open P now) [0..n - 1];
     now \<leftarrow> millis P;
     let arrSize = nat (if n < 32 then n else 32);
     (toSendEof, toClose) \<leftarrow> check_draining P now arrSize [0..n - 1] ([], []);
     whenM (toSendEof \<noteq> []) (do {
       locked \<leftarrow> session_lock P (pdMS_TO_TICKS 100);
       whenM locked (do {
         for_each (send_eof P) toSendEof;
         session_unlock P }) });
     whenM (toClose \<noteq> []) (do {
       locked \<leftarrow> session_lock P (pdMS_TO_TICKS 200);
       whenM locked (do {
         for_each (finalize_one P) toClose;
         session_unlock P }) }) }"

section \<open>The pump cycle\<close>

definition pumpAll :: "('w, 'r) platform \<Rightarrow> ('w, 'r, 'z, bool) pump_op" where
  "pumpAll P = do {
     ready \<leftarrow> gets (\<lambda>s. pumpAttached s \<and> rxBuf s \<and> txBuf s);
     if \<not> ready then ret False
     else do {
       modify (\<lambda>s. s\<lparr>lastBytesMoved := 0\<rparr>);
       pumpSshTransport P;
       drainSshToLocal P;
       drainLocalToSsh P;
       checkCloses P;
       gets (\<lambda>s. lastBytesMoved s > 0) } }"

end
