(* ===== verification/Ssh_Tunnel.thy ===== *)
theory Ssh_Tunnel
  imports Ssh_Transport
begin

text \<open>
  \<open>ssh_tunnel.h\<close> and \<open>ssh_tunnel.cpp\<close>: the facade that owns the session, the channel manager and the
  pump, queues accepted channels for which there is no slot yet, retries closes that could not be
  done at once, and reconnects. The two fixed queues are the lists of their used entries (the loops
  over them compact in place, which keeps the entries that are kept in order). The user's event
  handlers are represented by which of them are registered, and \<open>events\<close> lists the calls made.
\<close>

datatype tunnel_state = TUNNEL_DISCONNECTED | TUNNEL_CONNECTING | TUNNEL_CONNECTED | TUNNEL_ERROR

record event_handlers =
  onSessionConnected :: bool
  onSessionDisconnected :: bool
  onChannelOpened :: bool
  onChannelClosed :: bool
  onError :: bool

datatype tunnel_event =
    SessionConnected | SessionDisconnected | ChannelOpened int | ChannelClosed int close_reason
  | ErrorEvent int string

datatype pending_action = Bind | Close

record pending_channel =
  pc_channel :: ssh_channel
  pc_mapping :: tunnel_config
  queuedAtMs :: u32
  pc_action :: pending_action

record ('w, 'r) tunnel = "('w, 'r) pump_state" +
  tstate :: tunnel_state
  lastKeepAlive :: u32
  lastConnectionAttempt :: u32
  reconnectAttempts :: int
  socketHealthFailures :: int
  statsMutex :: bool
  bytesReceived :: u32
  bytesSent :: u32
  bytesDropped :: u32
  pendingQueue :: "pending_channel list"
  deferredCloseQueue :: "pending_channel list"
  eventHandlers :: event_handlers
  events :: "tunnel_event list"

type_synonym ('w, 'r, 'z, 'a) tunnel_op = "(('w, 'r, 'z) tunnel_scheme, 'a) state"

definition MAX_PENDING :: nat where "MAX_PENDING = 8"
definition MAX_DEFERRED_CLOSE :: nat where "MAX_DEFERRED_CLOSE = 4"
definition PENDING_TIMEOUT_MS :: u32 where "PENDING_TIMEOUT_MS = 5000"
definition CLOSE_RETRY_TIMEOUT_MS :: u32 where "CLOSE_RETRY_TIMEOUT_MS = 5000"

text \<open>
  The tunnel object as its constructor leaves it (the default member initialisers of the classes it
  is made of), beside a configuration with its defaults; \<open>cfgMutex\<close> tells whether the configuration
  could create its mutex.
\<close>

definition tunnel_new :: "'w \<Rightarrow> bool \<Rightarrow> ('w, 'r) tunnel" where
  "tunnel_new w cfgMutex = \<lparr>world = w, configMutex = cfgMutex, sshConfig = ssh_server_default,
     tunnelMappings = [], connectionConfig = connection_default, debugConfig = debug_default,
     session = NULL, socketfd = -1, sessionMutex = False, hasConfig = False, listeners = [],
     boundPort = -1, keepAliveFailures = 0, sessionConnectedMs = 0, lastKeepaliveOkMs = 0,
     lastKeepaliveAttemptMs = 0, lastChannelUnknownLogMs = 0, channelUnknownTotal = 0,
     lastAcceptError = 0, consecutiveFatalAcceptErrors = 0, libssh2Initialized = False,
     acceptDiag = tracker_new, gLastCleanupCompletedMs = 0, mismatchCalls = [],
     slots = None, maxSlots = 0, activeCount = 0, ringBufferSize = 32 * 1024,
     cm_channelTimeoutMs = 30000, completedBytesReceived = 0, completedBytesSent = 0,
     completedBytesDropped = 0, breaker = cb_new,
     pumpAttached = False, rxBuf = False, txBuf = False, bufSize = 0, tp_channelTimeoutMs = 30000,
     roundRobinOffset = 0, lastBytesMoved = 0, pendingCloseEvents = [], sessionDegraded = False,
     tstate = TUNNEL_DISCONNECTED, lastKeepAlive = 0, lastConnectionAttempt = 0,
     reconnectAttempts = 0, socketHealthFailures = 0, statsMutex = False, bytesReceived = 0,
     bytesSent = 0, bytesDropped = 0, pendingQueue = [], deferredCloseQueue = [],
     eventHandlers = \<lparr>onSessionConnected = False, onSessionDisconnected = False,
       onChannelOpened = False, onChannelClosed = False, onError = False\<rparr>, events = []\<rparr>"

section \<open>Events\<close>

definition emit :: "(event_handlers \<Rightarrow> bool) \<Rightarrow> tunnel_event \<Rightarrow> ('w, 'r, 'z, unit) tunnel_op" where
  "emit h e = modify (\<lambda>s. if h (eventHandlers s) then s\<lparr>events := events s @ [e]\<rparr> else s)"

definition emitSessionConnected :: "('w, 'r, 'z, unit) tunnel_op" where
  "emitSessionConnected = emit onSessionConnected SessionConnected"

definition emitSessionDisconnected :: "('w, 'r, 'z, unit) tunnel_op" where
  "emitSessionDisconnected = emit onSessionDisconnected SessionDisconnected"

definition emitChannelOpened :: "int \<Rightarrow> ('w, 'r, 'z, unit) tunnel_op" where
  "emitChannelOpened i = emit onChannelOpened (ChannelOpened i)"

definition emitChannelClosed :: "int \<Rightarrow> close_reason \<Rightarrow> ('w, 'r, 'z, unit) tunnel_op" where
  "emitChannelClosed i reason = emit onChannelClosed (ChannelClosed i reason)"

definition emitErrorEvent :: "int \<Rightarrow> string \<Rightarrow> ('w, 'r, 'z, unit) tunnel_op" where
  "emitErrorEvent code detail = emit onError (ErrorEvent code detail)"

definition setEventHandlers :: "event_handlers \<Rightarrow> ('w, 'r, 'z, unit) tunnel_op" where
  "setEventHandlers hs = modify (\<lambda>s. s\<lparr>eventHandlers := hs\<rparr>)"

section \<open>Closing and binding accepted channels\<close>

datatype bind_result = Bound | BindFailed | LockUnavailable

definition close_and_free :: "('w, 'r) platform \<Rightarrow> ssh_channel \<Rightarrow> (('w, 'z) wstate_scheme, unit) state" where
  "close_and_free P ch = do {
     ext (libssh2_channel_close P ch);
     ext (libssh2_channel_free P ch);
     ret () }"

definition closeAcceptedChannel ::
  "('w, 'r) platform \<Rightarrow> ssh_channel \<Rightarrow> u32 \<Rightarrow> ('w, 'z, bool) session_op" where
  "closeAcceptedChannel P ch lockTicks =
     (if ch = NULL then ret True
      else do {
        locked \<leftarrow> session_lock P lockTicks;
        if locked then do {
          close_and_free P ch;
          session_unlock P;
          ret True }
        else ret False })"

definition bindAcceptedChannel ::
  "('w, 'r) platform \<Rightarrow> int \<Rightarrow> ssh_channel \<Rightarrow> tunnel_config \<Rightarrow> u32 \<Rightarrow> ('w, 'r, 'z, bind_result) channel_op" where
  "bindAcceptedChannel P slot ch mapping lockTicks = do {
     locked \<leftarrow> session_lock P lockTicks;
     if \<not> locked then ret LockUnavailable
     else do {
       bound \<leftarrow> bindChannel P slot ch mapping;
       session_unlock P;
       ret (if bound then Bound else BindFailed) } }"

definition enqueueDeferredClose ::
  "('w, 'r) platform \<Rightarrow> ssh_channel \<Rightarrow> tunnel_config \<Rightarrow> ('w, 'r, 'z, bool) tunnel_op" where
  "enqueueDeferredClose P ch mapping =
     (if ch = NULL then ret True
      else do {
        closed \<leftarrow> closeAcceptedChannel P ch (pdMS_TO_TICKS 200);
        if closed then ret True
        else do {
          q \<leftarrow> gets deferredCloseQueue;
          if length q \<ge> MAX_DEFERRED_CLOSE then ret False
          else do {
            now \<leftarrow> millis P;
            modify (\<lambda>s. s\<lparr>deferredCloseQueue := deferredCloseQueue s @
              [\<lparr>pc_channel = ch, pc_mapping = mapping, queuedAtMs = now, pc_action = Close\<rparr>]\<rparr>);
            ret True } } })"

definition enqueuePending :: "('w, 'r) platform \<Rightarrow> ssh_channel \<Rightarrow> tunnel_config \<Rightarrow> ('w, 'r, 'z, unit) tunnel_op" where
  "enqueuePending P ch mapping = do {
     now \<leftarrow> millis P;
     modify (\<lambda>s. s\<lparr>pendingQueue := pendingQueue s @
       [\<lparr>pc_channel = ch, pc_mapping = mapping, queuedAtMs = now, pc_action = Bind\<rparr>]\<rparr>) }"

section \<open>Queue maintenance\<close>

text \<open>Each loop returns the entries it keeps.\<close>

definition force_close :: "('w, 'r) platform \<Rightarrow> ssh_channel \<Rightarrow> u32 \<Rightarrow> ('w, 'z, bool) session_op" where
  "force_close P ch ticks = do {
     locked \<leftarrow> session_lock P ticks;
     if locked then do { close_and_free P ch; session_unlock P; ret True } else ret False }"

definition retry_close :: "('w, 'r) platform \<Rightarrow> u32 \<Rightarrow> pending_channel \<Rightarrow> ('w, 'z, pending_channel list) session_op" where
  "retry_close P now pending =
     (if now - queuedAtMs pending > CLOSE_RETRY_TIMEOUT_MS then do {
        freed \<leftarrow> force_close P (pc_channel pending) (pdMS_TO_TICKS 100);
        ret (if freed then [] else [pending]) }
      else do {
        closed \<leftarrow> closeAcceptedChannel P (pc_channel pending) (pdMS_TO_TICKS 200);
        ret (if closed then [] else [pending]) })"

definition drop_pending :: "('w, 'r) platform \<Rightarrow> pending_channel \<Rightarrow> ('w, 'z, pending_channel list) session_op" where
  "drop_pending P pending = do {
     closed \<leftarrow> closeAcceptedChannel P (pc_channel pending) (pdMS_TO_TICKS 200);
     ret (if closed then [] else [pending\<lparr>pc_action := Close\<rparr>]) }"

definition try_bind_pending :: "('w, 'r) platform \<Rightarrow> pending_channel \<Rightarrow> ('w, 'r, 'z, pending_channel list) tunnel_op" where
  "try_bind_pending P pending = do {
     slot \<leftarrow> allocateSlot P;
     if slot \<ge> 0 then do {
       r \<leftarrow> bindAcceptedChannel P slot (pc_channel pending) (pc_mapping pending) (pdMS_TO_TICKS 200);
       (case r of
          Bound \<Rightarrow> do { emitChannelOpened slot; ret [] }
        | LockUnavailable \<Rightarrow> ret [pending]
        | BindFailed \<Rightarrow> drop_pending P pending) }
     else ret [pending] }"

definition drain_pending_entry :: "('w, 'r) platform \<Rightarrow> u32 \<Rightarrow> pending_channel \<Rightarrow> ('w, 'r, 'z, pending_channel list) tunnel_op" where
  "drain_pending_entry P now pending =
     (if pc_channel pending = NULL then ret []
      else if pc_action pending = Close then retry_close P now pending
      else if now - queuedAtMs pending > PENDING_TIMEOUT_MS then drop_pending P pending
      else try_bind_pending P pending)"

fun keep_entries :: "('e \<Rightarrow> ('s, 'e list) state) \<Rightarrow> 'e list \<Rightarrow> ('s, 'e list) state" where
  "keep_entries f [] = ret []"
| "keep_entries f (x # xs) = do {
     k \<leftarrow> f x;
     ks \<leftarrow> keep_entries f xs;
     ret (k @ ks) }"

definition drainPendingQueue :: "('w, 'r) platform \<Rightarrow> ('w, 'r, 'z, unit) tunnel_op" where
  "drainPendingQueue P = do {
     now \<leftarrow> millis P;
     q \<leftarrow> gets pendingQueue;
     kept \<leftarrow> keep_entries (drain_pending_entry P now) q;
     modify (\<lambda>s. s\<lparr>pendingQueue := kept\<rparr>) }"

definition drain_deferred_entry :: "('w, 'r) platform \<Rightarrow> u32 \<Rightarrow> pending_channel \<Rightarrow> ('w, 'z, pending_channel list) session_op" where
  "drain_deferred_entry P now pending =
     (if pc_channel pending = NULL then ret [] else retry_close P now pending)"

definition drainDeferredCloseQueue :: "('w, 'r) platform \<Rightarrow> ('w, 'r, 'z, unit) tunnel_op" where
  "drainDeferredCloseQueue P = do {
     now \<leftarrow> millis P;
     q \<leftarrow> gets deferredCloseQueue;
     kept \<leftarrow> keep_entries (drain_deferred_entry P now) q;
     modify (\<lambda>s. s\<lparr>deferredCloseQueue := kept\<rparr>) }"

definition clean_expired_entry :: "('w, 'r) platform \<Rightarrow> u32 \<Rightarrow> pending_channel \<Rightarrow> ('w, 'z, pending_channel list) session_op" where
  "clean_expired_entry P now pending =
     (if pc_channel pending = NULL then ret []
      else if pc_action pending = Bind \<and> now - queuedAtMs pending > PENDING_TIMEOUT_MS
      then drop_pending P pending
      else ret [pending])"

definition cleanExpiredPending :: "('w, 'r) platform \<Rightarrow> ('w, 'r, 'z, unit) tunnel_op" where
  "cleanExpiredPending P = do {
     now \<leftarrow> millis P;
     q \<leftarrow> gets pendingQueue;
     kept \<leftarrow> keep_entries (clean_expired_entry P now) q;
     modify (\<lambda>s. s\<lparr>pendingQueue := kept\<rparr>) }"

definition close_entries :: "('w, 'r) platform \<Rightarrow> pending_channel list \<Rightarrow> ('w, 'z, unit) session_op" where
  "close_entries P q = for_each (\<lambda>e. whenM (pc_channel e \<noteq> NULL) (close_and_free P (pc_channel e))) q"

definition clearPendingQueue :: "('w, 'r) platform \<Rightarrow> ('w, 'r, 'z, bool) tunnel_op" where
  "clearPendingQueue P = do {
     q \<leftarrow> gets pendingQueue;
     if q = [] then ret True
     else do {
       locked \<leftarrow> session_lock P (pdMS_TO_TICKS 500);
       if \<not> locked then ret False
       else do {
         close_entries P q;
         session_unlock P;
         modify (\<lambda>s. s\<lparr>pendingQueue := []\<rparr>);
         ret True } } }"

definition clearDeferredCloseQueue :: "('w, 'r) platform \<Rightarrow> ('w, 'r, 'z, bool) tunnel_op" where
  "clearDeferredCloseQueue P = do {
     q \<leftarrow> gets deferredCloseQueue;
     if q = [] then ret True
     else do {
       locked \<leftarrow> session_lock P (pdMS_TO_TICKS 500);
       if \<not> locked then ret False
       else do {
         close_entries P q;
         session_unlock P;
         modify (\<lambda>s. s\<lparr>deferredCloseQueue := []\<rparr>);
         ret True } } }"

section \<open>Statistics\<close>

definition updateStats :: "('w, 'r) platform \<Rightarrow> ('w, 'r, 'z, unit) tunnel_op" where
  "updateStats P = do {
     m \<leftarrow> gets statsMutex;
     taken \<leftarrow> (if \<not> m then ret False else ext (p_xSemaphoreTake P StatsMutex (pdMS_TO_TICKS 5)));
     if \<not> taken then ret ()
     else do {
       modify (\<lambda>s. s\<lparr>bytesReceived := getTotalBytesReceived s, bytesSent := getTotalBytesSent s,
         bytesDropped := getTotalBytesDropped s\<rparr>);
       ext (p_xSemaphoreGive P StatsMutex) } }"

section \<open>Error state and disconnection\<close>

definition abandon_all :: "('w, 'r) platform \<Rightarrow> close_reason \<Rightarrow> ('w, 'r, 'z, unit) channel_op" where
  "abandon_all P reason = do {
     n \<leftarrow> gets maxSlots;
     for_each (\<lambda>i. abandonSlot P i reason) [0..n - 1] }"

definition drop_queues :: "('w, 'r, 'z, unit) tunnel_op" where
  "drop_queues = modify (\<lambda>s. s\<lparr>pendingQueue := [], deferredCloseQueue := []\<rparr>)"

definition close_reason_or_error :: "close_reason \<Rightarrow> close_reason" where
  "close_reason_or_error r = (if r = Unknown then ErrorReason else r)"

definition enterErrorState :: "('w, 'r) platform \<Rightarrow> ('w, 'r, 'z, unit) tunnel_op" where
  "enterErrorState P = do {
     clearPendingQueue P;
     clearDeferredCloseQueue P;
     locked \<leftarrow> session_lock P (pdMS_TO_TICKS 500);
     n \<leftarrow> gets maxSlots;
     (if locked then do {
        for_each (\<lambda>i. do {
          slot \<leftarrow> gets (getSlot i);
          whenM (active slot) (do {
            let cr = close_reason_or_error (closeReason slot);
            finalizeClose P i;
            emitChannelClosed i cr }) }) [0..n - 1];
        session_unlock P }
      else for_each (\<lambda>i. do {
          slot \<leftarrow> gets (getSlot i);
          whenM (active slot) (do {
            let cr = close_reason_or_error (closeReason slot);
            abandonSlot P i cr;
            emitChannelClosed i cr }) }) [0..n - 1]);
     session_disconnect P;
     abandon_all P ErrorReason;
     drop_queues;
     updateStats P;
     modify (\<lambda>s. s\<lparr>tstate := TUNNEL_ERROR, socketHealthFailures := 0\<rparr>);
     now \<leftarrow> millis P;
     modify (\<lambda>s. s\<lparr>lastConnectionAttempt := now\<rparr>);
     emitSessionDisconnected }"

definition tunnel_disconnect :: "('w, 'r) platform \<Rightarrow> ('w, 'r, 'z, unit) tunnel_op" where
  "tunnel_disconnect P = do {
     clearPendingQueue P;
     clearDeferredCloseQueue P;
     conn \<leftarrow> gets isConnected;
     locked \<leftarrow> (if conn then session_lock P (pdMS_TO_TICKS 2000) else ret False);
     n \<leftarrow> gets maxSlots;
     for_each (\<lambda>i. do {
       slot \<leftarrow> gets (getSlot i);
       whenM (active slot) (do {
         (if locked then do { finalizeClose P i; ret () } else abandonSlot P i Manual);
         emitChannelClosed i Manual }) }) [0..n - 1];
     whenM locked (session_unlock P);
     session_disconnect P;
     abandon_all P Manual;
     drop_queues;
     updateStats P;
     st \<leftarrow> gets tstate;
     whenM (st = TUNNEL_CONNECTED) emitSessionDisconnected;
     modify (\<lambda>s. s\<lparr>socketHealthFailures := 0, tstate := TUNNEL_DISCONNECTED\<rparr>) }"

section \<open>Connecting\<close>

definition tunnel_init :: "('w, 'r) platform \<Rightarrow> ('w, 'r, 'z, bool) tunnel_op" where
  "tunnel_init P = do {
     m \<leftarrow> gets statsMutex;
     ok \<leftarrow> (if \<not> m then do {
         created \<leftarrow> ext (p_xSemaphoreCreateMutex P StatsMutex);
         modify (\<lambda>s. s\<lparr>statsMutex := created\<rparr>);
         ret created }
       else ret True);
     if \<not> ok then ret False
     else do {
       sok \<leftarrow> session_init P;
       if \<not> sok then ret False
       else do {
         conn \<leftarrow> gets connectionConfig;
         let bufSz = (if bufferSize conn > 0 then nat (bufferSize conn) else 4096);
         if bufSz > SSH_TUNNEL_PREPEND_CAPACITY P then ret False
         else do {
           let perDirectionSize = (if tunnelRingBufferSize conn < 8192 then 8192 else tunnelRingBufferSize conn);
           cok \<leftarrow> channels_init P (maxChannels conn) perDirectionSize (channelTimeoutMs conn);
           if \<not> cok then ret False
           else do {
             pok \<leftarrow> pump_init P bufSz (channelTimeoutMs conn);
             if \<not> pok then ret False
             else do {
               pump_attach True;
               modify (\<lambda>s. s\<lparr>tstate := TUNNEL_DISCONNECTED, bytesReceived := 0, bytesSent := 0,
                 bytesDropped := 0\<rparr>);
               ret True } } } } } }"

definition connectSSH :: "('w, 'r) platform \<Rightarrow> ('w, 'r, 'z, bool) tunnel_op" where
  "connectSSH P = do {
     st \<leftarrow> gets tstate;
     if st = TUNNEL_CONNECTED then ret True
     else do {
       modify (\<lambda>s. s\<lparr>tstate := TUNNEL_CONNECTING\<rparr>);
       now \<leftarrow> millis P;
       modify (\<lambda>s. s\<lparr>lastConnectionAttempt := now\<rparr>);
       ok \<leftarrow> session_connect P;
       if \<not> ok then do {
         modify (\<lambda>s. s\<lparr>tstate := TUNNEL_ERROR\<rparr>);
         emitErrorEvent (-1) ''SSH connection failed'';
         ret False }
       else do {
         modify (\<lambda>s. s\<lparr>tstate := TUNNEL_CONNECTED, reconnectAttempts := 0, socketHealthFailures := 0\<rparr>);
         t \<leftarrow> millis P;
         modify (\<lambda>s. s\<lparr>lastKeepAlive := t\<rparr>);
         emitSessionConnected;
         ret True } } }"

definition requestReconnect :: "('w, 'r) platform \<Rightarrow> ('w, 'r, 'z, unit) tunnel_op" where
  "requestReconnect P = do {
     st \<leftarrow> gets tstate;
     if st = TUNNEL_CONNECTED \<or> st = TUNNEL_CONNECTING \<or> st = TUNNEL_ERROR then ret ()
     else do {
       now \<leftarrow> millis P;
       modify (\<lambda>s. s\<lparr>reconnectAttempts := 0, lastConnectionAttempt := now, tstate := TUNNEL_ERROR\<rparr>) } }"

text \<open>The doubling loop: at most \<open>n\<close> doublings, none from 60 s on.\<close>

fun backoff_double :: "nat \<Rightarrow> u32 \<Rightarrow> u32" where
  "backoff_double 0 delay = delay"
| "backoff_double (Suc n) delay = (if delay < 60000 then backoff_double n (delay * 2) else delay)"

definition reconnect_delay :: "int \<Rightarrow> int \<Rightarrow> u32" where
  "reconnect_delay baseDelay attempts =
     (let delay = backoff_double (nat attempts) (word_of_int baseDelay)
      in if delay > 60000 then 60000 else delay)"

definition reconnect_now :: "('w, 'r) platform \<Rightarrow> ('w, 'r, 'z, unit) tunnel_op" where
  "reconnect_now P = do {
     clearPendingQueue P;
     clearDeferredCloseQueue P;
     session_disconnect P;
     abandon_all P ErrorReason;
     drop_queues;
     modify (\<lambda>s. s\<lparr>reconnectAttempts := reconnectAttempts s + 1\<rparr>);
     ok \<leftarrow> connectSSH P;
     whenM ok (modify (\<lambda>s. s\<lparr>reconnectAttempts := 0\<rparr>)) }"

definition handleReconnection :: "('w, 'r) platform \<Rightarrow> ('w, 'r, 'z, unit) tunnel_op" where
  "handleReconnection P = do {
     maxAttempts \<leftarrow> gets (\<lambda>s. maxReconnectAttempts (connectionConfig s));
     attempts \<leftarrow> gets reconnectAttempts;
     wait \<leftarrow> (if attempts \<ge> maxAttempts then do {
         now \<leftarrow> millis P;
         lastAttempt \<leftarrow> gets lastConnectionAttempt;
         if now - lastAttempt < 60000 then ret True
         else do {
           modify (\<lambda>s. s\<lparr>reconnectAttempts := 0\<rparr>);
           ret False } }
       else ret False);
     if wait then ret ()
     else do {
       now \<leftarrow> millis P;
       baseDelay \<leftarrow> gets (\<lambda>s. reconnectDelayMs (connectionConfig s));
       attempts \<leftarrow> gets reconnectAttempts;
       lastAttempt \<leftarrow> gets lastConnectionAttempt;
       if now - lastAttempt < reconnect_delay baseDelay attempts then ret ()
       else reconnect_now P } }"

section \<open>Accepting connections\<close>

definition reject_backed_off :: "('w, 'r) platform \<Rightarrow> ssh_channel \<Rightarrow> tunnel_config \<Rightarrow> ('w, 'r, 'z, unit) tunnel_op" where
  "reject_backed_off P ch mapping = do {
     closed \<leftarrow> closeAcceptedChannel P ch (pdMS_TO_TICKS 200);
     whenM (\<not> closed) (do { enqueueDeferredClose P ch mapping; ret () }) }"

definition reject_queue_full :: "('w, 'r) platform \<Rightarrow> ssh_channel \<Rightarrow> tunnel_config \<Rightarrow> ('w, 'r, 'z, unit) tunnel_op" where
  "reject_queue_full P ch mapping = do {
     closed \<leftarrow> closeAcceptedChannel P ch (pdMS_TO_TICKS 500);
     whenM (\<not> closed) (do {
       queued \<leftarrow> enqueueDeferredClose P ch mapping;
       whenM (\<not> queued) (do { force_close P ch (pdMS_TO_TICKS 1000); ret () }) }) }"

definition bind_new :: "('w, 'r) platform \<Rightarrow> int \<Rightarrow> ssh_channel \<Rightarrow> tunnel_config \<Rightarrow> ('w, 'r, 'z, bool) tunnel_op" where
  "bind_new P slot ch mapping = do {
     r \<leftarrow> bindAcceptedChannel P slot ch mapping (pdMS_TO_TICKS 200);
     (case r of
        Bound \<Rightarrow> do { emitChannelOpened slot; ret True }
      | LockUnavailable \<Rightarrow> do {
          q \<leftarrow> gets pendingQueue;
          if length q < MAX_PENDING then do { enqueuePending P ch mapping; ret False }
          else do { enqueueDeferredClose P ch mapping; ret False } }
      | BindFailed \<Rightarrow> do { enqueueDeferredClose P ch mapping; ret False }) }"

definition handleNewConnection :: "('w, 'r) platform \<Rightarrow> ('w, 'r, 'z, bool) tunnel_op" where
  "handleNewConnection P = do {
     (ch, outMapping) \<leftarrow> acceptChannel P;
     let mapping = (case outMapping of None \<Rightarrow> tunnel_default | Some m \<Rightarrow> m);
     if ch = NULL then do {
       fatal \<leftarrow> gets hasFatalAcceptFailure;
       whenM fatal (enterErrorState P);
       ret False }
     else do {
       now \<leftarrow> millis P;
       backedOff \<leftarrow> gets (isMappingBackedOff (remoteBindPort mapping) now);
       if backedOff then do { reject_backed_off P ch mapping; ret False }
       else do {
         slot \<leftarrow> allocateSlot P;
         if slot \<ge> 0 then bind_new P slot ch mapping
         else do {
           q \<leftarrow> gets pendingQueue;
           if length q < MAX_PENDING then do { enqueuePending P ch mapping; ret False }
           else do { reject_queue_full P ch mapping; ret False } } } } }"

text \<open>
  \<open>while (handleNewConnection()) {}\<close> with a bound on the rounds. Every round that continues has
  bound one more slot, so one more round than there are slots is enough.
\<close>

fun accept_loop :: "('w, 'r) platform \<Rightarrow> nat \<Rightarrow> ('w, 'r, 'z, bool) tunnel_op" where
  "accept_loop P 0 = ret False"
| "accept_loop P (Suc fuel) = do {
     more \<leftarrow> handleNewConnection P;
     if more then accept_loop P fuel else ret True }"

section \<open>The main loop\<close>

definition check_socket_health :: "('w, 'r) platform \<Rightarrow> ('w, 'r, 'z, bool) tunnel_op" where
  "check_socket_health P = do {
     ok \<leftarrow> checkConnection P;
     if \<not> ok then do {
       modify (\<lambda>s. s\<lparr>socketHealthFailures := socketHealthFailures s + 1\<rparr>);
       n \<leftarrow> gets socketHealthFailures;
       if n \<ge> 3 then do { enterErrorState P; ret False } else ret True }
     else do {
       modify (\<lambda>s. s\<lparr>socketHealthFailures := 0\<rparr>);
       ret True } }"

definition keepalive_step :: "('w, 'r) platform \<Rightarrow> ('w, 'r, 'z, bool) tunnel_op" where
  "keepalive_step P = do {
     now \<leftarrow> millis P;
     interval \<leftarrow> gets (\<lambda>s. keepAliveIntervalSec (connectionConfig s) * 1000);
     lastKA \<leftarrow> gets lastKeepAlive;
     if interval > 0 \<and> now - lastKA \<ge> word_of_int interval then do {
       ok \<leftarrow> sendKeepalive P;
       if \<not> ok then do { enterErrorState P; ret False }
       else do { modify (\<lambda>s. s\<lparr>lastKeepAlive := now\<rparr>); ret True } }
     else ret True }"

definition pump_and_report :: "('w, 'r) platform \<Rightarrow> ('w, 'r, 'z, bool) tunnel_op" where
  "pump_and_report P = do {
     pumpAll P;
     es \<leftarrow> consumeCloseEvents MAX_CLOSE_EVENTS;
     for_each (\<lambda>e. emitChannelClosed (ce_slot e) (ce_reason e)) es;
     degraded \<leftarrow> gets sessionDegraded;
     if degraded then do {
       modify (\<lambda>s. s\<lparr>sessionDegraded := False\<rparr>);
       enterErrorState P;
       ret False }
     else ret True }"

definition queue_step_tail :: "('w, 'r) platform \<Rightarrow> ('w, 'r, 'z, unit) tunnel_op" where
  "queue_step_tail P = do {
     q \<leftarrow> gets pendingQueue;
     whenM (q \<noteq> []) (do { cleanExpiredPending P; drainPendingQueue P });
     d \<leftarrow> gets deferredCloseQueue;
     whenM (d \<noteq> []) (drainDeferredCloseQueue P);
     updateStats P }"

definition tunnel_loop :: "('w, 'r) platform \<Rightarrow> ('w, 'r, 'z, unit) tunnel_op" where
  "tunnel_loop P = do {
     st \<leftarrow> gets tstate;
     if st = TUNNEL_ERROR then handleReconnection P
     else if st = TUNNEL_DISCONNECTED then ret ()
     else do {
       conn \<leftarrow> gets isConnected;
       if \<not> conn then enterErrorState P
       else do {
         healthy \<leftarrow> check_socket_health P;
         if \<not> healthy then ret ()
         else do {
           alive \<leftarrow> keepalive_step P;
           if \<not> alive then ret ()
           else do {
             d \<leftarrow> gets deferredCloseQueue;
             whenM (d \<noteq> []) (drainDeferredCloseQueue P);
             n \<leftarrow> gets maxSlots;
             accept_loop P (Suc (nat n));
             ok \<leftarrow> pump_and_report P;
             if \<not> ok then ret () else queue_step_tail P } } } } }"

definition tunnel_delete :: "('w, 'r) platform \<Rightarrow> ('w, 'r, 'z, unit) tunnel_op" where
  "tunnel_delete P = do {
     tunnel_disconnect P;
     m \<leftarrow> gets statsMutex;
     whenM m (do {
       ext (p_vSemaphoreDelete P StatsMutex);
       modify (\<lambda>s. s\<lparr>statsMutex := False\<rparr>) }) }"

section \<open>Queries and dynamic mappings\<close>

definition tunnel_isConnected :: "('w, 'r, 'z) tunnel_scheme \<Rightarrow> bool" where
  "tunnel_isConnected s \<longleftrightarrow> tstate s = TUNNEL_CONNECTED \<and> isConnected s"

primrec stateString :: "tunnel_state \<Rightarrow> string" where
  "stateString TUNNEL_DISCONNECTED = ''Disconnected''"
| "stateString TUNNEL_CONNECTING = ''Connecting''"
| "stateString TUNNEL_CONNECTED = ''Connected''"
| "stateString TUNNEL_ERROR = ''Error''"

definition getStateString :: "('w, 'r, 'z) tunnel_scheme \<Rightarrow> string" where
  "getStateString s = stateString (tstate s)"

definition addReverseTunnel :: "('w, 'r) platform \<Rightarrow> tunnel_config \<Rightarrow> ('w, 'r, 'z, bool) tunnel_op" where
  "addReverseTunnel P mapping = do { addTunnelMapping_cfg P mapping; ret True }"

fun find_mapping :: "string \<Rightarrow> int \<Rightarrow> nat \<Rightarrow> tunnel_config list \<Rightarrow> nat option" where
  "find_mapping rHost rPort i [] = None"
| "find_mapping rHost rPort i (m # ms) =
     (if remoteBindHost m = rHost \<and> remoteBindPort m = rPort then Some i
      else find_mapping rHost rPort (i + 1) ms)"

definition removeReverseTunnel :: "('w, 'r) platform \<Rightarrow> string \<Rightarrow> int \<Rightarrow> ('w, 'r, 'z, bool) tunnel_op" where
  "removeReverseTunnel P rHost rPort = do {
     ms \<leftarrow> gets tunnelMappings;
     (case find_mapping rHost rPort 0 ms of
        None \<Rightarrow> ret False
      | Some i \<Rightarrow> do { removeTunnelMapping P i; ret True }) }"

end
