(* ===== verification/Channel_Invariant.thy ===== *)
theory Channel_Invariant
  imports Ssh_Channel
begin

text \<open>
  The invariant of the channel manager and its preservation by every operation of \<open>ssh_session\<close> and
  \<open>ssh_channel\<close>. A locale states which predicates the session's operations cannot affect, so that
  invariants of the layers above need no session proofs of their own.
\<close>

section \<open>Predicates that do not look at the session\<close>

text \<open>
  \<open>poll_frame\<close>: predicates that look neither at the world nor at the bookkeeping of the session. Every
  operation on an established session keeps them.
\<close>

locale poll_frame =
  fixes J :: "('w, 'z) session_state_scheme \<Rightarrow> bool"
  assumes frame_world [simp]: "J (s\<lparr>world := w\<rparr>) = J s"
    and frame_poll [simp]: "J (s\<lparr>keepAliveFailures := n\<rparr>) = J s"
      "J (s\<lparr>sessionConnectedMs := t\<rparr>) = J s" "J (s\<lparr>lastKeepaliveOkMs := t\<rparr>) = J s"
      "J (s\<lparr>lastKeepaliveAttemptMs := t\<rparr>) = J s" "J (s\<lparr>lastChannelUnknownLogMs := t\<rparr>) = J s"
      "J (s\<lparr>channelUnknownTotal := t\<rparr>) = J s" "J (s\<lparr>lastAcceptError := n\<rparr>) = J s"
      "J (s\<lparr>consecutiveFatalAcceptErrors := n\<rparr>) = J s" "J (s\<lparr>acceptDiag := d\<rparr>) = J s"
      "J (s\<lparr>gLastCleanupCompletedMs := t\<rparr>) = J s" "J (s\<lparr>mismatchCalls := cs\<rparr>) = J s"
begin

lemma keeps_ext: "keeps J (ext f)"
  by (auto simp: keeps_def wp_simps split: prod.splits)

lemma keeps_upd: "(\<And>s. J (f s) = J s) \<Longrightarrow> keeps J (modify f)"
  by (simp add: keeps_def wp_simps)

lemmas prims = keeps_intros keeps_ext keeps_upd

lemma keeps_locking: "keeps J (session_lock P t)" "keeps J (session_unlock P)"
  "keeps J (lockConfig P)" "keeps J (unlockConfig P)"
  unfolding session_lock_def session_unlock_def lockConfig_def unlockConfig_def
  by (intro prims)+

lemmas prims2 = prims keeps_locking

lemma keeps_resetAcceptState: "keeps J (resetAcceptState P)"
  unfolding resetAcceptState_def by (intro prims2; simp)

lemma keeps_free_retry: "keeps J (free_retry P sess n rc)"
  by (induction n arbitrary: rc) (auto intro!: prims2)

lemma keeps_optimize: "keeps J (optimizeSocket P fd n)" "keeps J (optimizeSSHSocket P fd)"
  unfolding optimizeSSHSocket_def optimizeSocket_def by (intro prims2)+

lemma keeps_cancelListener: "keeps J (cancelListener P e)"
  unfolding cancelListener_def by (intro prims2)

lemma keeps_listen_attempts: "keeps J (listen_attempts P h p m n b)"
  by (induction n arbitrary: b) (auto intro!: prims2)

lemma keeps_createListenerForMapping: "keeps J (createListenerForMapping P m)"
  unfolding createListenerForMapping_def by (intro prims2 keeps_listen_attempts)

lemma keeps_verifyHostKey: "keeps J (verifyHostKey P cfg)"
  unfolding verifyHostKey_def by (intro prims2; simp)

lemma keeps_authenticate: "keeps J (authenticate P cfg)"
  unfolding authenticate_def auth_password_def auth_key_def diagnoseSSHKeys_def validateSSHKeys_def
  by (intro prims2)

lemma keeps_configureKeepalive: "keeps J (configureKeepalive P conn)"
  unfolding configureKeepalive_def by (intro prims2)

lemma keeps_sendKeepalive: "keeps J (sendKeepalive P)"
  unfolding sendKeepalive_def by (intro prims2; simp)

lemma keeps_checkConnection: "keeps J (checkConnection P)"
  unfolding checkConnection_def by (intro prims2)

lemma keeps_acceptChannel_loop: "keeps J (acceptChannel_loop P es)"
  by (induction es)
    (auto intro!: prims2 split: if_splits
      simp: recordAcceptSuccess_def recordAcceptNoChannel_def accept_diag_no_channel_def)

lemma keeps_acceptChannel: "keeps J (acceptChannel P)"
  unfolding acceptChannel_def by (intro prims2 keeps_acceptChannel_loop)

end

text \<open>\<open>session_frame\<close>: predicates that do not look at the session at all.\<close>

locale session_frame = poll_frame J
  for J :: "('w, 'z) session_state_scheme \<Rightarrow> bool" +
  assumes frame_session [simp]: "J (s\<lparr>session := p\<rparr>) = J s" "J (s\<lparr>socketfd := fd\<rparr>) = J s"
      "J (s\<lparr>sessionMutex := b\<rparr>) = J s" "J (s\<lparr>hasConfig := b\<rparr>) = J s" "J (s\<lparr>listeners := ls\<rparr>) = J s"
      "J (s\<lparr>boundPort := n\<rparr>) = J s" "J (s\<lparr>libssh2Initialized := b\<rparr>) = J s"
begin

lemma keeps_cancelAllListeners: "keeps J (cancelAllListeners P)"
  unfolding cancelAllListeners_def by (intro prims2 keeps_cancelListener; simp)

lemma keeps_cleanupSession: "keeps J (cleanupSession P)"
  unfolding cleanupSession_def
  by (intro prims2 keeps_cancelAllListeners keeps_resetAcceptState keeps_free_retry; simp)

lemma keeps_session_disconnect: "keeps J (session_disconnect P)"
  unfolding session_disconnect_def by (intro prims2 keeps_cancelAllListeners keeps_cleanupSession)

lemma keeps_session_init: "keeps J (session_init P)"
  unfolding session_init_def by (intro prims2; simp)

lemma keeps_createListeners_loop: "keeps J (createListeners_loop P ms)"
  by (induction ms) (auto intro!: prims2 keeps_createListenerForMapping keeps_cancelAllListeners)

lemma keeps_createListeners: "keeps J (createListeners P)"
  unfolding createListeners_def
  by (intro prims2 keeps_cancelAllListeners keeps_createListeners_loop; simp)

lemma keeps_tcpConnect: "keeps J (tcpConnect P cfg)"
  unfolding tcpConnect_def by (intro prims2 keeps_optimize; simp)

lemma keeps_handshake: "keeps J (handshake P)"
  unfolding handshake_def by (intro prims2; simp)

lemma keeps_connect_steps: "keeps J (connect_steps P)"
  unfolding connect_steps_def
  by (intro prims2 keeps_tcpConnect keeps_handshake keeps_verifyHostKey keeps_authenticate
      keeps_configureKeepalive keeps_createListeners keeps_cleanupSession; simp)

lemma keeps_session_connect: "keeps J (session_connect P)"
  unfolding session_connect_def
  by (intro prims2 keeps_resetAcceptState keeps_cleanupSession keeps_connect_steps; simp)

end

section \<open>Predicates that do not look at the circuit breaker either\<close>

locale channel_frame = poll_frame J
  for J :: "('w, 'r, 'z) channel_state_scheme \<Rightarrow> bool" +
  assumes frame_breaker [simp]: "J (s\<lparr>breaker := c\<rparr>) = J s"
begin

lemma keeps_delete_ring: "keeps J (delete_ring P r)"
  unfolding delete_ring_def drb_delete_def psramFree_def by (intro prims)

lemma keeps_drb_delete: "keeps J (drb_delete P d)"
  unfolding drb_delete_def psramFree_def by (intro prims)

lemma keeps_drb_new: "keeps J (drb_new P n t)"
  unfolding drb_new_def psramAlloc_def psramFree_def by (intro prims)

lemma keeps_connectToLocalEndpoint: "keeps J (connectToLocalEndpoint P m)"
  unfolding connectToLocalEndpoint_def Let_def by (intro prims keeps_optimize)

lemma keeps_heap_guard: "keeps J (heap_guard P n)"
  unfolding heap_guard_def by (intro prims)

lemma keeps_safeMalloc: "keeps J (safeMalloc P n)"
  unfolding safeMalloc_def by (intro prims)

end

section \<open>The invariant of the channel manager\<close>

text \<open>
  An active slot has both ring buffers (of which \<open>R\<close> holds), an open local socket and is not closed;
  a free slot holds no resources. The active counter counts the active slots.
\<close>

definition ring_sat :: "('r data_ring_buffer \<Rightarrow> bool) \<Rightarrow> 'r data_ring_buffer option \<Rightarrow> bool" where
  "ring_sat R r \<longleftrightarrow> r \<noteq> None \<and> R (the r)"

definition slot_used :: "('r data_ring_buffer \<Rightarrow> bool) \<Rightarrow> 'r channel_slot \<Rightarrow> bool" where
  "slot_used R sl \<longleftrightarrow> active sl \<and> ring_sat R (toLocal sl) \<and> ring_sat R (toRemote sl)
     \<and> chstate sl \<noteq> Closed \<and> localSocket sl \<ge> 0"

definition slot_free :: "'r channel_slot \<Rightarrow> bool" where
  "slot_free sl \<longleftrightarrow> \<not> active sl \<and> toLocal sl = None \<and> toRemote sl = None \<and> chstate sl = Closed
     \<and> localSocket sl < 0 \<and> sshChannel sl = NULL"

definition slot_ok :: "('r data_ring_buffer \<Rightarrow> bool) \<Rightarrow> 'r channel_slot \<Rightarrow> bool" where
  "slot_ok R sl \<longleftrightarrow> (if active sl then slot_used R sl else slot_free sl)"

lemmas slot_defs = slot_ok_def slot_used_def slot_free_def

definition active_total :: "'r channel_slot list \<Rightarrow> int" where
  "active_total ss = sum_list (map (\<lambda>sl. of_bool (active sl)) ss)"

primrec slots_ok :: "('r data_ring_buffer \<Rightarrow> bool) \<Rightarrow> 'r channel_slot list option \<Rightarrow> int \<Rightarrow> int \<Rightarrow> bool" where
  "slots_ok R None n k \<longleftrightarrow> n = 0 \<and> k = 0"
| "slots_ok R (Some ss) n k \<longleftrightarrow> length ss = nat n \<and> k = active_total ss \<and> (\<forall>sl\<in>set ss. slot_ok R sl)"

definition chan_inv :: "('r data_ring_buffer \<Rightarrow> bool) \<Rightarrow> ('w, 'r, 'z) channel_state_scheme \<Rightarrow> bool" where
  "chan_inv R s \<longleftrightarrow> slots_ok R (slots s) (maxSlots s) (activeCount s) \<and> ringBufferSize s < 2 ^ 31"

lemma active_total_bounds: "0 \<le> active_total ss" "active_total ss \<le> int (length ss)"
  by (induction ss) (auto simp: active_total_def)

lemma active_total_update:
  "i < length ss \<Longrightarrow> active_total (ss[i := sl]) = active_total ss - of_bool (active (ss ! i)) + of_bool (active sl)"
  by (simp add: active_total_def sum_list_map_update)

interpretation chan: channel_frame "chan_inv R" for R
  by unfold_locales (simp_all add: chan_inv_def)

definition in_range :: "int \<Rightarrow> ('w, 'r, 'z) channel_state_scheme \<Rightarrow> bool" where
  "in_range i s \<longleftrightarrow> 0 \<le> i \<and> i < maxSlots s"

lemma chan_inv_slot:
  assumes "chan_inv R s" and "in_range i s"
  shows "\<exists>ss. slots s = Some ss \<and> nat i < length ss \<and> getSlot i s = ss ! nat i" and "slot_ok R (getSlot i s)"
proof -
  obtain ss where ss: "slots s = Some ss" "nat i < length ss" "\<forall>sl\<in>set ss. slot_ok R sl"
    using assms by (cases "slots s") (auto simp: chan_inv_def in_range_def)
  then show "\<exists>ss. slots s = Some ss \<and> nat i < length ss \<and> getSlot i s = ss ! nat i" "slot_ok R (getSlot i s)"
    by (auto simp: getSlot_def)
qed

lemma chan_inv_upd:
  assumes "chan_inv R s"
    and "\<And>ss. slots s = Some ss \<Longrightarrow> nat i < length ss \<Longrightarrow> slot_ok R (getSlot i s) \<Longrightarrow>
      slot_ok R (f (getSlot i s)) \<and> active (f (getSlot i s)) = active (getSlot i s)"
  shows "chan_inv R (upd_slot i f s)"
proof (cases "slots s")
  case None
  then show ?thesis using assms(1) by (simp add: chan_inv_def upd_slot_def)
next
  case (Some ss)
  show ?thesis
  proof (cases "nat i < length ss")
    case True
    have f: "slot_ok R (f (ss ! nat i))" "active (f (ss ! nat i)) = active (ss ! nat i)"
      using assms True Some by (auto simp: chan_inv_def getSlot_def)
    moreover have "\<forall>sl\<in>set (ss[nat i := f (ss ! nat i)]). slot_ok R sl"
      using assms(1) Some f(1) set_update_subset_insert [of ss "nat i" "f (ss ! nat i)"]
      by (auto simp: chan_inv_def)
    ultimately show ?thesis
      using assms(1) Some True by (simp add: chan_inv_def upd_slot_def active_total_update)
  next
    case False
    then have "ss[nat i := f (ss ! nat i)] = ss" by (simp add: list_update_beyond)
    then show ?thesis using assms(1) Some by (simp add: chan_inv_def upd_slot_def)
  qed
qed

lemma slots_ok_update:
  assumes "slots_ok R (Some ss) n k" and "i < length ss" and "slot_ok R sl"
  shows "slots_ok R (Some (ss[i := sl])) n (k - of_bool (active (ss ! i)) + of_bool (active sl))"
  using assms set_update_subset_insert [of ss i sl] by (auto simp: active_total_update)

text \<open>Updates of the fields that the invariant does not look at.\<close>

definition neutral :: "('r data_ring_buffer \<Rightarrow> bool) \<Rightarrow> ('r channel_slot \<Rightarrow> 'r channel_slot) \<Rightarrow> bool" where
  "neutral R f \<longleftrightarrow> (\<forall>sl. active (f sl) = active sl \<and> (slot_ok R sl \<longrightarrow> slot_ok R (f sl)))"

lemma keeps_neutral: "neutral R f \<Longrightarrow> keeps (chan_inv R) (modify_slot i f)"
  unfolding modify_slot_def by (intro chan.prims keeps_modify chan_inv_upd) (auto simp: neutral_def)

section \<open>Slot algebra\<close>

text \<open>
  A slot that exists can be read back after an update; updates of one slot compose, and they commute
  with updates of the other fields.
\<close>

definition has_slot :: "int \<Rightarrow> ('w, 'r, 'z) channel_state_scheme \<Rightarrow> bool" where
  "has_slot i s \<longleftrightarrow> (\<exists>ss. slots s = Some ss \<and> nat i < length ss)"

lemma getSlot_upd [simp]: "has_slot i s \<Longrightarrow> getSlot i (upd_slot i f s) = f (getSlot i s)"
  by (auto simp: has_slot_def getSlot_def upd_slot_def)

lemma getSlot_other:
  "0 \<le> i \<Longrightarrow> 0 \<le> j \<Longrightarrow> j \<noteq> i \<Longrightarrow> getSlot j (upd_slot i f s) = getSlot j s"
  by (cases "slots s") (auto simp: getSlot_def upd_slot_def nth_list_update)

lemma has_slot_upd [simp]: "has_slot j (upd_slot i f s) = has_slot j s"
  by (cases "slots s") (simp_all add: has_slot_def upd_slot_def)

lemma upd_upd [simp]: "upd_slot i g (upd_slot i f s) = upd_slot i (\<lambda>sl. g (f sl)) s"
proof (cases "slots s")
  case (Some ss)
  then show ?thesis
    by (cases "nat i < length ss") (simp_all add: upd_slot_def list_update_beyond)
qed (simp add: upd_slot_def)

lemma upd_slot_cong: "has_slot i s \<Longrightarrow> f (getSlot i s) = g (getSlot i s) \<Longrightarrow> upd_slot i f s = upd_slot i g s"
  by (auto simp: has_slot_def getSlot_def upd_slot_def)

lemma upd_slot_frame [simp]:
  "upd_slot i f (s\<lparr>world := w\<rparr>) = (upd_slot i f s)\<lparr>world := w\<rparr>"
  "upd_slot i f (s\<lparr>activeCount := n\<rparr>) = (upd_slot i f s)\<lparr>activeCount := n\<rparr>"
  "upd_slot i f (s\<lparr>completedBytesReceived := x\<rparr>) = (upd_slot i f s)\<lparr>completedBytesReceived := x\<rparr>"
  "upd_slot i f (s\<lparr>completedBytesSent := x\<rparr>) = (upd_slot i f s)\<lparr>completedBytesSent := x\<rparr>"
  "upd_slot i f (s\<lparr>completedBytesDropped := x\<rparr>) = (upd_slot i f s)\<lparr>completedBytesDropped := x\<rparr>"
  "upd_slot i f (s\<lparr>breaker := c\<rparr>) = (upd_slot i f s)\<lparr>breaker := c\<rparr>"
  by (simp_all add: upd_slot_def)

lemma getSlot_frame [simp]:
  "getSlot i (s\<lparr>world := w\<rparr>) = getSlot i s" "getSlot i (s\<lparr>activeCount := n\<rparr>) = getSlot i s"
  "getSlot i (s\<lparr>completedBytesReceived := x\<rparr>) = getSlot i s" "getSlot i (s\<lparr>completedBytesSent := x\<rparr>) = getSlot i s"
  "getSlot i (s\<lparr>completedBytesDropped := x\<rparr>) = getSlot i s" "getSlot i (s\<lparr>breaker := c\<rparr>) = getSlot i s"
  by (simp_all add: getSlot_def)

lemma has_slot_frame [simp]:
  "has_slot i (s\<lparr>world := w\<rparr>) = has_slot i s" "has_slot i (s\<lparr>activeCount := n\<rparr>) = has_slot i s"
  "has_slot i (s\<lparr>completedBytesReceived := x\<rparr>) = has_slot i s" "has_slot i (s\<lparr>completedBytesSent := x\<rparr>) = has_slot i s"
  "has_slot i (s\<lparr>completedBytesDropped := x\<rparr>) = has_slot i s" "has_slot i (s\<lparr>breaker := c\<rparr>) = has_slot i s"
  by (simp_all add: has_slot_def)

lemma upd_slot_fields [simp]:
  "world (upd_slot i f s) = world s" "maxSlots (upd_slot i f s) = maxSlots s"
  "activeCount (upd_slot i f s) = activeCount s"
  "completedBytesReceived (upd_slot i f s) = completedBytesReceived s"
  "completedBytesSent (upd_slot i f s) = completedBytesSent s"
  "completedBytesDropped (upd_slot i f s) = completedBytesDropped s"
  "breaker (upd_slot i f s) = breaker s" "ringBufferSize (upd_slot i f s) = ringBufferSize s"
  "cm_channelTimeoutMs (upd_slot i f s) = cm_channelTimeoutMs s"
  by (simp_all add: upd_slot_def)

lemma has_slot_in_range: "chan_inv R s \<Longrightarrow> in_range i s \<Longrightarrow> has_slot i s"
  using chan_inv_slot(1) [of R s i] by (auto simp: has_slot_def)

text \<open>\<open>s'\<close> differs from \<open>s\<close> in the slot array only at \<open>i\<close>, where \<open>R\<close> relates old and new.\<close>

definition slot_changed ::
  "int \<Rightarrow> ('r channel_slot \<Rightarrow> 'r channel_slot \<Rightarrow> bool) \<Rightarrow> ('w, 'r, 'z) channel_state_scheme \<Rightarrow> ('w, 'r, 'z) channel_state_scheme \<Rightarrow> bool" where
  "slot_changed i R s s' \<longleftrightarrow> has_slot i s \<and> slots s' = slots (upd_slot i (\<lambda>_. getSlot i s') s)
     \<and> maxSlots s' = maxSlots s \<and> ringBufferSize s' = ringBufferSize s \<and> R (getSlot i s) (getSlot i s')"

lemma slot_changed_refl: "has_slot i s \<Longrightarrow> R (getSlot i s) (getSlot i s) \<Longrightarrow> slot_changed i R s s"
  by (auto simp: slot_changed_def has_slot_def getSlot_def upd_slot_def)

lemma slot_changed_has_slot: "slot_changed i R s s' \<Longrightarrow> has_slot i s'"
  by (auto simp: slot_changed_def has_slot_def upd_slot_def)

lemma slot_changed_upd:
  assumes "slot_changed i R s s'" and "R' (getSlot i s) (g (getSlot i s'))"
  shows "slot_changed i R' s (upd_slot i g s')"
proof -
  define x where "x = getSlot i s'"
  have h: "has_slot i s'" by (rule slot_changed_has_slot [OF assms(1)])
  obtain ss where ss: "slots s = Some ss" "nat i < length ss"
    using assms(1) by (auto simp: slot_changed_def has_slot_def)
  have "slots s' = Some (ss[nat i := x])"
    using assms(1) ss by (simp add: slot_changed_def upd_slot_def x_def)
  then have "slots (upd_slot i g s') = slots (upd_slot i (\<lambda>_. g x) s)"
    using ss by (simp add: upd_slot_def)
  then show ?thesis
    using assms h by (simp add: slot_changed_def x_def)
qed

lemma slot_changed_frame [simp]:
  "slot_changed i R s (s'\<lparr>world := w\<rparr>) = slot_changed i R s s'"
  "slot_changed i R s (s'\<lparr>activeCount := n\<rparr>) = slot_changed i R s s'"
  "slot_changed i R s (s'\<lparr>completedBytesReceived := x\<rparr>) = slot_changed i R s s'"
  "slot_changed i R s (s'\<lparr>completedBytesSent := x\<rparr>) = slot_changed i R s s'"
  "slot_changed i R s (s'\<lparr>completedBytesDropped := x\<rparr>) = slot_changed i R s s'"
  by (simp_all add: slot_changed_def)

lemma slot_changed_other:
  assumes "slot_changed i R s s'" and "0 \<le> i" and "0 \<le> j" and "j \<noteq> i"
  shows "getSlot j s' = getSlot j s"
proof -
  have "getSlot j s' = getSlot j (upd_slot i (\<lambda>_. getSlot i s') s)"
    using assms(1) by (simp add: slot_changed_def getSlot_def)
  then show ?thesis using assms by (simp add: getSlot_other)
qed

lemma slot_changed_mono: "slot_changed i R s s' \<Longrightarrow> (\<And>a b. R a b \<Longrightarrow> R' a b) \<Longrightarrow> slot_changed i R' s s'"
  by (simp add: slot_changed_def)

section \<open>Closing\<close>

lemma keeps_beginClose:
  fixes P :: "('w, 'r) platform"
  shows "keeps (chan_inv R :: ('w, 'r, 'z) channel_state_scheme \<Rightarrow> bool) (beginClose P i r)"
proof (rule keepsI)
  fix s :: "('w, 'r, 'z) channel_state_scheme"
  assume inv: "chan_inv R s"
  have "chan_inv R (upd_slot i (\<lambda>sl. sl\<lparr>chstate := Draining, closeStartMs := t, closeReason := r\<rparr>) (s\<lparr>world := w\<rparr>))"
    if "active (getSlot i s)" for t w
    using inv that by (intro chan_inv_upd) (auto simp: slot_defs getSlot_def)
  then show "wp (beginClose P i r) (\<lambda>_. chan_inv R) s"
    using inv by (auto simp: beginClose_def modify_slot_def wp_simps split: prod.splits)
qed

lemma keeps_finalize_ssh: "keeps (chan_inv R) (finalize_ssh P i)"
  unfolding finalize_ssh_def
  by (intro chan.prims keeps_neutral; (simp add: neutral_def slot_defs)?)

text \<open>What the libssh2 part changes, and that success means the SSH channel is gone.\<close>

definition ssh_part_changed :: "'r channel_slot \<Rightarrow> 'r channel_slot \<Rightarrow> bool" where
  "ssh_part_changed sl sl' \<longleftrightarrow>
     sl'\<lparr>sshCloseProgress := progress_init, sshChannel := NULL\<rparr>
       = sl\<lparr>sshCloseProgress := progress_init, sshChannel := NULL\<rparr>"

definition counters :: "('w, 'r, 'z) channel_state_scheme \<Rightarrow> int \<times> u32 \<times> u32 \<times> u32" where
  "counters s = (activeCount s, completedBytesReceived s, completedBytesSent s, completedBytesDropped s)"

lemma counters_upd_slot [simp]: "counters (upd_slot i f s) = counters s"
  "counters (s\<lparr>world := w\<rparr>) = counters s"
  by (simp_all add: counters_def)

lemma ssh_part_changed_self: "ssh_part_changed sl sl"
  by (simp add: ssh_part_changed_def)

lemma ssh_part_changed_step [simp]:
  "ssh_part_changed sl (sl'\<lparr>sshCloseProgress := p\<rparr>) = ssh_part_changed sl sl'"
  "ssh_part_changed sl (sl'\<lparr>sshChannel := c\<rparr>) = ssh_part_changed sl sl'"
  by (simp_all add: ssh_part_changed_def)

lemma ssh_part_changed_fields:
  assumes "ssh_part_changed sl sl'"
  shows "active sl' = active sl" "toLocal sl' = toLocal sl" "toRemote sl' = toRemote sl"
    "localSocket sl' = localSocket sl" "chstate sl' = chstate sl"
    "totalBytesReceived sl' = totalBytesReceived sl" "totalBytesSent sl' = totalBytesSent sl"
    "totalBytesDropped sl' = totalBytesDropped sl"
  using assms by (cases sl; cases sl'; simp add: ssh_part_changed_def)+

lemma finalize_ssh_effect:
  fixes s :: "('w, 'r, 'z) channel_state_scheme"
  assumes "has_slot i s"
  shows "wp (finalize_ssh P i) (\<lambda>ok s'. (ok \<longrightarrow> sshChannel (getSlot i s') = NULL) \<and>
    slot_changed i ssh_part_changed s s' \<and> counters s' = counters s) s"
proof (rule wp_conj)
  define R where "R s' \<longleftrightarrow> slot_changed i ssh_part_changed s s' \<and> counters s' = counters s" for s'
  have R0: "R s" using assms by (simp add: R_def slot_changed_refl ssh_part_changed_self)
  have ext: "keeps R (ext f)" for f :: "'w \<Rightarrow> int \<times> 'w"
    by (auto simp: keeps_def wp_simps R_def split: prod.splits)
  have upd: "keeps R (modify_slot i (\<lambda>sl. sl\<lparr>sshCloseProgress := p\<rparr>))"
    "keeps R (modify_slot i (\<lambda>sl. sl\<lparr>sshChannel := c\<rparr>))" for p c
    by (auto simp: keeps_def wp_simps R_def modify_slot_def intro!: slot_changed_upd)
      (simp_all add: slot_changed_def)
  have "keeps R (finalize_ssh P i)"
    unfolding finalize_ssh_def by (intro keeps_intros ext upd)
  from keepsD [OF this R0]
  show "wp (finalize_ssh P i) (\<lambda>_ s'. slot_changed i ssh_part_changed s s' \<and> counters s' = counters s) s"
    by (simp add: R_def)
  show "wp (finalize_ssh P i) (\<lambda>ok s'. ok \<longrightarrow> sshChannel (getSlot i s') = NULL) s"
    using assms
    by (simp add: finalize_ssh_def wp_simps modify_slot_def recordCloseResult_def
        recordFreeResult_def Let_def split: prod.splits)
qed

text \<open>The rest of \<open>finalizeClose\<close>, and \<open>abandonSlot\<close>, on an active slot.\<close>

definition buffered :: "('w, 'r) platform \<Rightarrow> 'r channel_slot \<Rightarrow> u32" where
  "buffered P sl = of_nat (sz_add (ring_size P (toLocal sl)) (ring_size P (toRemote sl)))"

definition archived :: "('w, 'r) platform \<Rightarrow> 'r channel_slot \<Rightarrow> int \<times> u32 \<times> u32 \<times> u32 \<Rightarrow> int \<times> u32 \<times> u32 \<times> u32" where
  "archived P sl = (\<lambda>(n, r, t, d). (n - 1, r + totalBytesReceived sl, t + totalBytesSent sl,
     d + (totalBytesDropped sl + buffered P sl)))"

lemma wp_delete_ring: "(\<And>w. Q () (s\<lparr>world := w\<rparr>)) \<Longrightarrow> wp (delete_ring P r) Q s"
  using world_self [of s]
  by (auto simp: delete_ring_def drb_delete_def psramFree_def wp_simps split: option.splits prod.splits)
    (metis world_self)+

definition released :: "'r channel_slot \<Rightarrow> 'r channel_slot \<Rightarrow> bool" where
  "released sl sl' \<longleftrightarrow> slot_free sl'"

lemma finalizeClose_effect:
  fixes s :: "('w, 'r, 'z) channel_state_scheme"
  assumes "has_slot i s" and "in_range i s" and "active (getSlot i s)"
  shows "wp (finalizeClose P i) (\<lambda>ok s'.
      if ok then slot_changed i released s s' \<and> counters s' = archived P (getSlot i s) (counters s)
      else slot_changed i ssh_part_changed s s' \<and> counters s' = counters s) s"
proof -
  have tail: "wp (finalize_local P i)
     (\<lambda>_ s'. slot_changed i released s s' \<and> counters s' = archived P (getSlot i s) (counters s)) s1"
    if c: "slot_changed i ssh_part_changed s s1" "counters s1 = counters s" "sshChannel (getSlot i s1) = NULL"
    for s1 :: "('w, 'r, 'z) channel_state_scheme"
  proof -
    note h = slot_changed_has_slot [OF c(1)]
    have sl: "buffered P (getSlot i s1) = buffered P (getSlot i s)"
      "totalBytesReceived (getSlot i s1) = totalBytesReceived (getSlot i s)"
      "totalBytesSent (getSlot i s1) = totalBytesSent (getSlot i s)"
      "totalBytesDropped (getSlot i s1) = totalBytesDropped (getSlot i s)"
      using c(1) by (auto simp: slot_changed_def buffered_def ssh_part_changed_fields)
    show ?thesis
      using c h sl
      by (auto simp: finalize_local_def close_local_def count_buffered_dropped_def free_rings_def archiveSlotStats_def
         modify_slot_def wp_simps counters_def archived_def released_def slot_defs slot_defs buffered_def
         split: prod.splits intro!: wp_delete_ring slot_changed_upd [OF c(1)])
  qed
  show ?thesis
    using assms
    by (auto simp: finalizeClose_def wp_simps in_range_def intro!: wp_mono [OF finalize_ssh_effect] wp_mono [OF tail])
qed

lemma chan_inv_changed:
  assumes "chan_inv R s" and "slot_changed i (\<lambda>_. slot_ok R) s s'"
    and "activeCount s' = activeCount s - of_bool (active (getSlot i s)) + of_bool (active (getSlot i s'))"
  shows "chan_inv R s'"
proof -
  obtain ss where ss: "slots s = Some ss" "nat i < length ss" "getSlot i s = ss ! nat i"
    using assms(2) by (auto simp: slot_changed_def has_slot_def getSlot_def)
  then have "slots s' = Some (ss[nat i := getSlot i s'])" "slot_ok R (getSlot i s')" "maxSlots s' = maxSlots s"
    "ringBufferSize s' = ringBufferSize s"
    using assms(2) by (simp_all add: slot_changed_def upd_slot_def)
  with slots_ok_update [of R ss "maxSlots s" "activeCount s" "nat i" "getSlot i s'"] assms(1,3) ss
  show ?thesis by (simp add: chan_inv_def)
qed

lemma abandonSlot_effect:
  assumes "has_slot i s" and "in_range i s" and "active (getSlot i s)" and "0 < activeCount s"
  shows "wp (abandonSlot P i r) (\<lambda>_ s'. slot_changed i released s s'
    \<and> counters s' = archived P (getSlot i s) (counters s)) s"
  using assms
  by (auto simp: abandonSlot_def close_local_def count_buffered_dropped_def free_rings_def archiveSlotStats_def
      resetSlot_def modify_slot_def wp_simps counters_def archived_def released_def slot_defs slot_defs buffered_def
      in_range_def reset_slot_def slot_default_def
      split: prod.splits intro!: wp_delete_ring slot_changed_upd [OF slot_changed_refl [where R = "\<lambda>_ _. True"]])

section \<open>Preservation by the manager's operations\<close>

lemma active_slot_counted:
  "chan_inv R s \<Longrightarrow> in_range i s \<Longrightarrow> active (getSlot i s) \<Longrightarrow> 0 < activeCount s"
proof -
  assume inv: "chan_inv R s" and r: "in_range i s" and act: "active (getSlot i s)"
  obtain ss where ss: "slots s = Some ss" "nat i < length ss" "getSlot i s = ss ! nat i"
    using chan_inv_slot(1) [OF inv r] by blast
  have "active_total (ss[nat i := slot_default]) = active_total ss - 1"
    using ss act by (simp add: active_total_update slot_default_def)
  with active_total_bounds(1) [of "ss[nat i := slot_default]"] inv ss show ?thesis
    by (simp add: chan_inv_def)
qed

lemma ssh_part_changed_ok: "ssh_part_changed sl sl' \<Longrightarrow> active sl \<Longrightarrow> slot_ok R sl \<Longrightarrow> slot_ok R sl'"
  using ssh_part_changed_fields [of sl sl'] by (simp add: slot_defs)

lemma keeps_finalizeClose:
  fixes P :: "('w, 'r) platform"
  shows "keeps (chan_inv R :: ('w, 'r, 'z) channel_state_scheme \<Rightarrow> bool) (finalizeClose P i)"
proof (rule keepsI)
  fix s :: "('w, 'r, 'z) channel_state_scheme"
  assume inv: "chan_inv R s"
  show "wp (finalizeClose P i) (\<lambda>_. chan_inv R) s"
  proof (cases "in_range i s \<and> active (getSlot i s)")
    case True
    have h: "has_slot i s" "slot_ok R (getSlot i s)"
      using has_slot_in_range [OF inv] chan_inv_slot(2) [OF inv] True by auto
    show ?thesis
    proof (rule wp_mono [OF finalizeClose_effect])
      fix ok s'
      assume e: "if ok then slot_changed i released s s' \<and> counters s' = archived P (getSlot i s) (counters s)
        else slot_changed i ssh_part_changed s s' \<and> counters s' = counters s"
      show "chan_inv R s'"
      proof (cases ok)
        case True
        with e show ?thesis
          using \<open>in_range i s \<and> active (getSlot i s)\<close>
          by (auto intro!: chan_inv_changed [OF inv] elim!: slot_changed_mono
             simp: released_def slot_defs counters_def archived_def slot_changed_def)
      next
        case False
        with e have c: "slot_changed i ssh_part_changed s s'" "activeCount s' = activeCount s"
          by (auto simp: counters_def)
        then have "ssh_part_changed (getSlot i s) (getSlot i s')" by (simp add: slot_changed_def)
        with h have "slot_ok R (getSlot i s')" "active (getSlot i s') = active (getSlot i s)"
          using ssh_part_changed_ok ssh_part_changed_fields(1) \<open>in_range i s \<and> active (getSlot i s)\<close> by blast+
        with c show ?thesis
          by (intro chan_inv_changed [OF inv]) (auto simp: slot_changed_def)
      qed
    qed (use True h in auto)
  next
    case False
    then show ?thesis using inv by (auto simp: finalizeClose_def wp_simps in_range_def)
  qed
qed

lemma keeps_abandonSlot:
  fixes P :: "('w, 'r) platform"
  shows "keeps (chan_inv R :: ('w, 'r, 'z) channel_state_scheme \<Rightarrow> bool) (abandonSlot P i r)"
proof (rule keepsI)
  fix s :: "('w, 'r, 'z) channel_state_scheme"
  assume inv: "chan_inv R s"
  show "wp (abandonSlot P i r) (\<lambda>_. chan_inv R) s"
  proof (cases "in_range i s \<and> active (getSlot i s)")
    case True
    show ?thesis
    proof (rule wp_mono [OF abandonSlot_effect])
      fix s'
      assume "slot_changed i released s s' \<and> counters s' = archived P (getSlot i s) (counters s)"
      then show "chan_inv R s'"
        using True inv
        by (auto intro!: chan_inv_changed [OF inv] elim!: slot_changed_mono
             simp: released_def slot_defs counters_def archived_def slot_changed_def)
    qed (use True has_slot_in_range [OF inv] active_slot_counted [OF inv] in auto)
  next
    case False
    then show ?thesis using inv by (auto simp: abandonSlot_def wp_simps in_range_def)
  qed
qed

lemma keeps_allocateSlot: "keeps (chan_inv R) (allocateSlot P)"
  unfolding allocateSlot_def by (intro chan.prims keeps_beginClose)

text \<open>Filling an inactive slot.\<close>

lemma chan_inv_occupy:
  fixes s :: "('w, 'r, 'z) channel_state_scheme"
  assumes "chan_inv R s" and "in_range i s" and "\<not> active (getSlot i s)"
    and "\<And>sl. slot_ok R (f sl) \<and> active (f sl)"
  shows "chan_inv R ((upd_slot i f s)\<lparr>activeCount := activeCount s + 1\<rparr>)"
proof (rule chan_inv_changed [OF assms(1)])
  have h: "has_slot i s" by (rule has_slot_in_range [OF assms(1,2)])
  show "slot_changed i (\<lambda>_. slot_ok R) s ((upd_slot i f s)\<lparr>activeCount := activeCount s + 1\<rparr>)"
    using assms(4) by (auto intro!: slot_changed_upd slot_changed_refl [where R = "\<lambda>_ _. True"] h)
  show "activeCount ((upd_slot i f s)\<lparr>activeCount := activeCount s + 1\<rparr>) = activeCount s
    - of_bool (active (getSlot i s)) + of_bool (active (getSlot i ((upd_slot i f s)\<lparr>activeCount := activeCount s + 1\<rparr>)))"
    using assms(3,4) h by simp
qed

text \<open>A slot that is in range and free, a condition that binding keeps until it fills the slot.\<close>

definition free_at :: "('r data_ring_buffer \<Rightarrow> bool) \<Rightarrow> int \<Rightarrow> ('w, 'r, 'z) channel_state_scheme \<Rightarrow> bool" where
  "free_at R i s \<longleftrightarrow> chan_inv R s \<and> in_range i s \<and> \<not> active (getSlot i s)"

interpretation free_at: channel_frame "free_at R i" for R i
  by unfold_locales (simp_all add: free_at_def chan_inv_def in_range_def getSlot_def)

lemma wp_keep: "keeps J m \<Longrightarrow> J s \<Longrightarrow> (\<And>a s'. J s' \<Longrightarrow> Q a s') \<Longrightarrow> wp m Q s"
  by (blast intro: wp_mono dest: keepsD)

lemma bind_slot:
  assumes "free_at R i s" and "R tL" and "R tR" and "0 \<le> fd"
  shows "chan_inv R ((upd_slot i (\<lambda>sl. reset_slot sl\<lparr>sshChannel := ch, localSocket := fd, active := True,
    chstate := Open, toLocal := Some tL, toRemote := Some tR, lastActivity := now,
    lastSuccessfulWrite := now, lastSuccessfulRead := now, endpoint := e\<rparr>) s)\<lparr>activeCount := activeCount s + 1\<rparr>)"
  using assms by (intro chan_inv_occupy) (auto simp: free_at_def slot_defs ring_sat_def)

lemma chan_inv_world_count [simp]:
  "chan_inv R (s\<lparr>world := w, activeCount := n\<rparr>) = chan_inv R (s\<lparr>activeCount := n\<rparr>)"
  by (simp add: chan_inv_def)

lemma bind_tail:
  fixes s :: "('w, 'r, 'z) channel_state_scheme"
  assumes "free_at R i s" and "R tL" and "R tR" and "0 \<le> fd"
  shows "wp (do {
      resetSlot i;
      now \<leftarrow> millis P;
      modify_slot i (\<lambda>sl. sl\<lparr>sshChannel := ch, localSocket := fd, active := True,
        chstate := Open, toLocal := Some tL, toRemote := Some tR, lastActivity := now,
        lastSuccessfulWrite := now, lastSuccessfulRead := now, endpoint := e\<rparr>);
      ext (libssh2_channel_set_blocking P ch False);
      modify (\<lambda>s. s\<lparr>activeCount := activeCount s + 1\<rparr>);
      ret True }) (\<lambda>_. chan_inv R) s"
  using bind_slot [OF assms] assms(1)
  by (auto simp: wp_simps resetSlot_def modify_slot_def free_at_def in_range_def split: prod.splits)

lemma keeps_bindChannel:
  fixes P :: "('w, 'r) platform"
  assumes ctor: "\<And>n t (s :: ('w, 'r, 'z) channel_state_scheme). n < 2 ^ 31 \<Longrightarrow> wp (drb_new P n t) (\<lambda>d _. R d) s"
  shows "keeps (chan_inv R :: ('w, 'r, 'z) channel_state_scheme \<Rightarrow> bool) (bindChannel P i ch m)"
proof (rule keepsI)
  fix s :: "('w, 'r, 'z) channel_state_scheme"
  assume inv: "chan_inv R s"
  note keep = wp_keep [where J = "free_at R i"]
  have new: "wp (drb_new P n t) Q s1"
    if "free_at R i s1" "n < 2 ^ 31" "\<And>d s'. free_at R i s' \<Longrightarrow> R d \<Longrightarrow> Q d s'"
    for n t Q and s1 :: "('w, 'r, 'z) channel_state_scheme"
    by (rule wp_mono [OF wp_conj [OF keepsD [OF free_at.keeps_drb_new that(1)] ctor [OF that(2)]]])
      (use that(3) in blast)
  have size: "ringBufferSize s1 < 2 ^ 31" if "free_at R i s1" for s1 :: "('w, 'r, 'z) channel_state_scheme"
    using that by (simp add: free_at_def chan_inv_def)
  have done1: "free_at R i s1 \<Longrightarrow> chan_inv R s1" for s1 :: "('w, 'r, 'z) channel_state_scheme"
    by (simp add: free_at_def)
  have "wp (bindChannel P i ch m) (\<lambda>_. chan_inv R) s" if f: "free_at R i s"
    unfolding bindChannel_def wp_bind wp_gets
    using f
    apply (auto simp only: wp_if wp_bind wp_gets wp_modify wp_return wp_let Let_def done1 size if_True if_False
        intro!: keep [OF free_at.keeps_connectToLocalEndpoint] keep [OF free_at.keeps_ext]
          keep [OF free_at.keeps_heap_guard] keep [OF free_at.keeps_drb_delete] new
        split: if_splits)
        apply (simp_all add: done1 size [simplified])
    subgoal for fd _ _ _ tL _ tR s4
      using bind_tail [of R i s4 tL tR fd P "snapshot_endpoint m" ch] by (auto simp: wp_bind)
    done
  then show "wp (bindChannel P i ch m) (\<lambda>_. chan_inv R) s"
    using inv by (cases "in_range i s \<and> \<not> active (getSlot i s)")
      (auto simp: free_at_def bindChannel_def wp_simps in_range_def)
qed

section \<open>Initialisation\<close>

interpretation ring_size_fixed: channel_frame "\<lambda>s. ringBufferSize s = n" for n
  by unfold_locales simp_all

lemma keeps_ring_size_slot: "keeps (\<lambda>s. ringBufferSize s = n) (modify_slot i f)"
  by (simp add: keeps_def modify_slot_def wp_simps)

lemma channels_destroy_effect:
  assumes "slots s \<noteq> None"
  shows "wp (channels_destroy P) (\<lambda>_ s'. slots s' = None \<and> maxSlots s' = 0 \<and> activeCount s' = 0
    \<and> ringBufferSize s' = ringBufferSize s) s"
  using assms unfolding channels_destroy_def
  by (auto simp: wp_simps
      intro!: wp_keep [OF keeps_for_each, where J = "\<lambda>s1. ringBufferSize s1 = ringBufferSize s"] keeps_ring_size_slot
        ring_size_fixed.prims ring_size_fixed.keeps_delete_ring split: prod.splits)

lemma channels_init_effect:
  assumes "n < 2 ^ 31"
  shows "wp (channels_init P m n t) (\<lambda>ok s'. chan_inv R s' \<and> activeCount s' = 0 \<and> counters s' = (0, 0, 0, 0)
    \<and> (if ok then slots s' = Some (replicate (nat m) slot_default) \<and> maxSlots s' = m else slots s' = None)) s"
  using assms
  by (auto simp: channels_init_def wp_simps safeMalloc_def chan_inv_def counters_def active_total_def sum_list_replicate slot_defs
      slot_default_def split: prod.splits intro!: wp_mono [OF channels_destroy_effect])

end
