(* ===== verification/Pump_Frame.thy ===== *)
theory Pump_Frame
  imports Ssh_Transport Channel_Invariant
begin

text \<open>
  The interface between the channel manager and the transport pump, as seen by an invariant: the
  locale \<open>manager_frame\<close> lists what the pump does to slots (bookkeeping updates, ring operations,
  closing), \<open>pump_steps\<close> adds the pump's own fields and treats every step but the writes to SSH channels,
  \<open>pump_frame\<close> adds the count of sent bytes, and in it every phase of the pump is shown to
  keep the invariant.
\<close>

section \<open>What the pump does to a slot\<close>

text \<open>Updates of counters, time stamps and flags: everything but the resources of the slot and the count of sent bytes.\<close>

definition bookkeeping :: "('r channel_slot \<Rightarrow> 'r channel_slot) \<Rightarrow> bool" where
  "bookkeeping f \<longleftrightarrow> (\<forall>sl. active (f sl) = active sl \<and> toLocal (f sl) = toLocal sl
     \<and> toRemote (f sl) = toRemote sl \<and> chstate (f sl) = chstate sl
     \<and> localSocket (f sl) = localSocket sl \<and> sshChannel (f sl) = sshChannel sl
     \<and> totalBytesSent (f sl) = totalBytesSent sl)"

locale manager_frame = channel_frame J
  for J :: "('w, 'r, 'z) channel_state_scheme \<Rightarrow> bool" +
  fixes P :: "('w, 'r) platform"
  assumes keeps_book: "bookkeeping f \<Longrightarrow> keeps J (modify_slot i f)"
    and keeps_ring_write: "keeps J (ring_write P i dir bs n)"
    and keeps_ring_read: "keeps J (ring_read P i dir n)"
    and keeps_restoreUnsent: "keeps J (restoreUnsent P i dir bs)"
    and keeps_begin: "keeps J (beginClose P i r)"
    and keeps_final: "keeps J (finalizeClose P i)"
    and keeps_abandon: "keeps J (abandonSlot P i r)"
    and keeps_bind: "keeps J (bindChannel P i ch m)"
begin

lemmas slot_ops = prims2 keeps_book keeps_ring_write keeps_ring_read keeps_restoreUnsent
  keeps_begin keeps_final keeps_abandon keeps_bind

lemma keeps_accountRestoreDrop: "keeps J (accountRestoreDrop i n k)"
  unfolding accountRestoreDrop_def by (intro slot_ops; simp add: bookkeeping_def)

lemma keeps_restore_and_account: "keeps J (restore_and_account P i dir bs)"
  unfolding restore_and_account_def by (intro slot_ops keeps_accountRestoreDrop)

lemma keeps_channel_error: "keeps J (channel_error P i)"
  unfolding channel_error_def by (intro slot_ops; simp add: bookkeeping_def)

lemma keeps_check_local_stall: "keeps J (check_local_stall P i)"
  unfolding check_local_stall_def by (intro slot_ops; simp add: bookkeeping_def)

lemma keeps_check_write_stall: "keeps J (check_write_stall P i)"
  unfolding check_write_stall_def by (intro slot_ops; simp add: bookkeeping_def)

lemma keeps_shutdown_local: "keeps J (shutdown_local P i)"
  unfolding shutdown_local_def by (intro slot_ops; simp add: bookkeeping_def)

lemma keeps_pump_after_eof: "keeps J (pump_after_eof P i n)"
  by (induction n) (auto intro!: slot_ops)

lemma keeps_send_eof: "keeps J (send_eof P i)"
  unfolding send_eof_def by (intro slot_ops keeps_pump_after_eof; simp add: bookkeeping_def)

lemma keeps_allocate: "keeps J (allocateSlot P)"
  unfolding allocateSlot_def by (intro slot_ops)

end

section \<open>The pump\<close>

lemma keeps_case_decision:
  "keeps J a \<Longrightarrow> keeps J b \<Longrightarrow> keeps J c \<Longrightarrow> keeps J d \<Longrightarrow>
   keeps J (case x of HardAbandon \<Rightarrow> a | ToClose \<Rightarrow> b | ToSendEof \<Rightarrow> c | KeepWaiting \<Rightarrow> d)"
  by (simp split: drain_decision.split)

locale pump_steps = manager_frame J P
  for J :: "('w, 'r, 'z) pump_state_scheme \<Rightarrow> bool" and P :: "('w, 'r) platform" +
  assumes frame_moved [simp]: "J (s\<lparr>lastBytesMoved := n\<rparr>) = J s"
    and frame_offset [simp]: "J (s\<lparr>roundRobinOffset := o1\<rparr>) = J s"
    and frame_degraded [simp]: "J (s\<lparr>sessionDegraded := b\<rparr>) = J s"
    and keeps_push_close_event: "keeps J (push_close_event i r)"
begin

lemmas pump_ops = slot_ops keeps_push_close_event keeps_accountRestoreDrop keeps_restore_and_account
  keeps_channel_error keeps_check_local_stall keeps_check_write_stall keeps_shutdown_local
  keeps_pump_after_eof keeps_send_eof

lemma keeps_add_moved: "keeps J (add_moved n)"
  unfolding add_moved_def by (intro pump_ops; simp)

lemma keeps_store_received: "keeps J (store_received P i bs rc)"
  unfolding store_received_def by (intro pump_ops keeps_add_moved; simp add: bookkeeping_def)

lemma keeps_pump_paused: "keeps J (pump_paused P i)"
  unfolding pump_paused_def Let_def by (intro pump_ops keeps_store_received; simp add: bookkeeping_def)

lemma keeps_read_chunks: "keeps J (read_chunks P i n b)"
  by (induction n arbitrary: b)
    (auto simp: Let_def bookkeeping_def intro!: pump_ops keeps_store_received)

lemma keeps_check_eof_flag: "keeps J (check_eof_flag P i)"
  unfolding check_eof_flag_def by (intro pump_ops; simp add: bookkeeping_def)

lemma keeps_read_open_channel: "keeps J (read_open_channel P i)"
  unfolding read_open_channel_def by (intro pump_ops keeps_read_chunks keeps_check_eof_flag)

lemma keeps_pump_channel: "keeps J (pump_channel P i)"
  unfolding pump_channel_def
  by (intro pump_ops keeps_read_open_channel keeps_pump_paused; simp add: bookkeeping_def)

lemma keeps_pump_channels: "keeps J (pump_channels P is b)"
  by (induction "is" arbitrary: b) (auto intro!: pump_ops keeps_pump_channel)

lemma keeps_pumpSshTransport: "keeps J (pumpSshTransport P)"
  unfolding pumpSshTransport_def by (intro pump_ops keeps_pump_channels)

lemma keeps_drain_local_chunk: "keeps J (drain_local_chunk P i)"
  unfolding drain_local_chunk_def Let_def
  by (intro pump_ops keeps_add_moved; simp add: bookkeeping_def)

lemma keeps_drain_local_chunks: "keeps J (drain_local_chunks P i n)"
  by (induction n) (auto intro!: pump_ops keeps_drain_local_chunk)

lemma keeps_drain_local_channel: "keeps J (drain_local_channel P i)"
  unfolding drain_local_channel_def by (intro pump_ops keeps_drain_local_chunks)

lemma keeps_drainSshToLocal: "keeps J (drainSshToLocal P)"
  unfolding drainSshToLocal_def by (intro pump_ops keeps_drain_local_channel)

lemma bookkeeping_backpressure: "bookkeeping (update_backpressure P)"
  by (auto simp: bookkeeping_def update_backpressure_def Let_def split: option.splits)

lemma keeps_recv_chunks: "keeps J (recv_chunks P i n)"
  by (induction n) (auto simp: Let_def bookkeeping_def intro!: pump_ops keeps_add_moved)

lemma keeps_recv_channel: "keeps J (recv_channel P i)"
  unfolding recv_channel_def by (intro pump_ops keeps_recv_chunks)

lemma keeps_check_open: "keeps J (check_open P now i)"
  unfolding check_open_def by (intro pump_ops)

lemma keeps_check_draining: "keeps J (check_draining P now n is work)"
  by (induction "is" arbitrary: work)
    (auto intro!: pump_ops keeps_case_decision)

lemma keeps_finalize_one: "keeps J (finalize_one P i)"
  unfolding finalize_one_def Let_def by (intro pump_ops)

lemma keeps_checkCloses: "keeps J (checkCloses P)"
  unfolding checkCloses_def Let_def
  by (intro pump_ops keeps_check_open keeps_check_draining keeps_finalize_one)

end

locale pump_frame = pump_steps J P
  for J :: "('w, 'r, 'z) pump_state_scheme \<Rightarrow> bool" and P :: "('w, 'r) platform" +
  assumes keeps_sent: "keeps J (modify_slot i (\<lambda>sl. sl\<lparr>totalBytesSent := totalBytesSent sl + n\<rparr>))"
begin

lemma keeps_write_chunk: "keeps J (write_chunk P i b)"
  unfolding write_chunk_def Let_def by (intro keeps_sent pump_ops keeps_add_moved; simp add: bookkeeping_def)

lemma keeps_write_loop: "keeps J (write_loop P i fuel b)"
  by (induction fuel arbitrary: b) (subst write_loop.simps; auto intro!: pump_ops keeps_write_chunk)+

lemma keeps_write_channel: "keeps J (write_channel P i)"
  unfolding write_channel_def by (intro pump_ops keeps_write_loop)

lemma keeps_drain_remote_channel: "keeps J (drain_remote_channel P i)"
  unfolding drain_remote_channel_def
  by (intro pump_ops keeps_write_channel keeps_recv_channel bookkeeping_backpressure)

lemma keeps_drainLocalToSsh: "keeps J (drainLocalToSsh P)"
  unfolding drainLocalToSsh_def by (intro pump_ops keeps_drain_remote_channel; simp)

lemma keeps_pumpAll: "keeps J (pumpAll P)"
  unfolding pumpAll_def
  by (intro pump_ops keeps_pumpSshTransport keeps_drainSshToLocal keeps_drainLocalToSsh keeps_checkCloses; simp)

end

section \<open>The invariant of the slots\<close>

text \<open>
  The slot invariant \<open>chan_inv R\<close> is such an invariant whenever the constructor and the operations of
  the ring buffer establish and keep \<open>R\<close>.
\<close>

definition ring_ops_keep :: "('w, 'r) platform \<Rightarrow> ('r data_ring_buffer \<Rightarrow> bool) \<Rightarrow> bool" where
  "ring_ops_keep P R \<longleftrightarrow> (\<forall>d. R d \<longrightarrow>
     (\<forall>bs n. R (snd (drb_write P (Some bs) n d)))
     \<and> (\<forall>n. R (snd (drb_read P True n d))) \<and> (\<forall>bs. R (snd (restore_drb P bs d))))"

lemma chan_inv_set_ring:
  assumes "chan_inv R s" and "ring_of dir (getSlot i s) = Some d" and "R d" "R d'"
  shows "chan_inv R (upd_slot i (set_ring dir (Some d')) s)"
  using assms
  by (intro chan_inv_upd; cases dir) (auto simp: slot_defs ring_sat_def split: if_splits)

lemma chan_inv_ring:
  assumes "chan_inv R s" and "has_slot i s" and "ring_of dir (getSlot i s) = Some d"
  shows "R d"
proof -
  obtain ss where ss: "slots s = Some ss" "nat i < length ss" using assms(2) by (auto simp: has_slot_def)
  then have "slot_ok R (getSlot i s)" using assms(1) by (auto simp: chan_inv_def getSlot_def)
  then show ?thesis using assms(3) by (cases dir) (auto simp: slot_defs ring_sat_def split: if_splits)
qed

lemma chan_inv_no_slot: "chan_inv R s \<Longrightarrow> \<not> has_slot i s \<Longrightarrow> chan_inv R (upd_slot i f s)"
  by (rule chan_inv_upd) (auto simp: has_slot_def)

lemma keeps_on_ring:
  fixes f :: "'r data_ring_buffer \<Rightarrow> 'a \<times> 'r data_ring_buffer"
  assumes "\<And>d. R d \<Longrightarrow> R (snd (f d))"
  shows "keeps (chan_inv R :: ('w, 'r, 'z) channel_state_scheme \<Rightarrow> bool) (on_ring i dir dflt f)"
proof (rule keepsI)
  fix s :: "('w, 'r, 'z) channel_state_scheme"
  assume inv: "chan_inv R s"
  have "chan_inv R (upd_slot i (set_ring dir (Some d')) s)"
    if "ring_of dir (getSlot i s) = Some d" "f d = (a, d')" for d a d'
  proof (cases "has_slot i s")
    case True
    then have "R d" using chan_inv_ring [OF inv] that by blast
    then show ?thesis using chan_inv_set_ring [OF inv that(1)] assms [of d] that(2) by simp
  qed (rule chan_inv_no_slot [OF inv])
  then show "wp (on_ring i dir dflt f) (\<lambda>_. chan_inv R) s"
    using inv by (auto simp: on_ring_def modify_slot_def wp_simps split: option.splits prod.splits)
qed

lemma keeps_bookkeeping: "bookkeeping f \<Longrightarrow> keeps (chan_inv R) (modify_slot i f)"
  by (rule keeps_neutral) (simp add: neutral_def bookkeeping_def slot_defs)

lemma keeps_sent_bytes: "keeps (chan_inv R) (modify_slot i (\<lambda>sl. sl\<lparr>totalBytesSent := totalBytesSent sl + n\<rparr>))"
  by (rule keeps_neutral) (simp add: neutral_def slot_defs)

lemma chan_inv_manager_frame:
  fixes P :: "('w, 'r) platform"
  assumes "ring_ops_keep P R"
    and "\<And>n t (s :: ('w, 'r, 'z) channel_state_scheme). n < 2 ^ 31 \<Longrightarrow> wp (drb_new P n t) (\<lambda>d _. R d) s"
  shows "manager_frame (chan_inv R :: ('w, 'r, 'z) channel_state_scheme \<Rightarrow> bool) P"
  using assms
  by unfold_locales
    (auto simp: ring_write_def ring_read_def restoreUnsent_def ring_ops_keep_def
      intro!: keeps_on_ring keeps_bookkeeping keeps_beginClose keeps_finalizeClose keeps_abandonSlot keeps_bindChannel)

end
