(* ===== verification/Circular_Ring.thy ===== *)
theory Circular_Ring
  imports Ring_Buffer
begin

text \<open>
  A reference byte ring that satisfies the FreeRTOS contract \<open>freertos_bytebuf\<close>: a circular array
  with a read index and a fill count, from which \<open>ReceiveUpTo\<close> hands out only the part up to the
  end of the array (the caller sees the wrapped rest with the next call, as on the device). It is
  the instance on which the witnesses of the development run.
\<close>

record cring =
  cr_mem :: bytes
  cr_rd :: nat
  cr_used :: nat

definition cr_create :: "nat \<Rightarrow> cring option" where
  "cr_create n = (if n = 0 then None else Some \<lparr>cr_mem = replicate n 0, cr_rd = 0, cr_used = 0\<rparr>)"

definition cr_free :: "cring \<Rightarrow> nat" where
  "cr_free r = length (cr_mem r) - cr_used r"

definition cr_put :: "u8 \<Rightarrow> cring \<Rightarrow> cring" where
  "cr_put b r = r\<lparr>cr_mem := (cr_mem r)[(cr_rd r + cr_used r) mod length (cr_mem r) := b],
                  cr_used := cr_used r + 1\<rparr>"

definition cr_send :: "bytes \<Rightarrow> cring \<Rightarrow> bool \<times> cring" where
  "cr_send bs r = (if length bs \<le> cr_free r then (True, fold cr_put bs r) else (False, r))"

definition cr_receive :: "nat \<Rightarrow> cring \<Rightarrow> bytes option \<times> cring" where
  "cr_receive n r =
     (let k = min (min n (cr_used r)) (length (cr_mem r) - cr_rd r) in
      if k = 0 then (None, r)
      else (Some (take k (drop (cr_rd r) (cr_mem r))),
            r\<lparr>cr_rd := (cr_rd r + k) mod length (cr_mem r), cr_used := cr_used r - k\<rparr>))"

definition cr_inv :: "cring \<Rightarrow> bool" where
  "cr_inv r \<longleftrightarrow> cr_rd r < length (cr_mem r) \<and> cr_used r \<le> length (cr_mem r) \<and> length (cr_mem r) < 2 ^ 31"

definition cr_contents :: "cring \<Rightarrow> bytes" where
  "cr_contents r = map (\<lambda>i. cr_mem r ! ((cr_rd r + i) mod length (cr_mem r))) [0..<cr_used r]"

definition cr_cap :: "cring \<Rightarrow> nat" where
  "cr_cap r = length (cr_mem r)"

lemma length_cr_contents [simp]: "length (cr_contents r) = cr_used r"
  by (simp add: cr_contents_def)

lemma cr_contents_empty_iff [simp]: "cr_contents r = [] \<longleftrightarrow> cr_used r = 0"
  by (simp add: cr_contents_def)

lemma index_distinct:
  fixes a i j n :: nat
  assumes "i < j" and "j < n" 
  shows "(a + i) mod n \<noteq> (a + j) mod n"
proof
  assume "(a + i) mod n = (a + j) mod n"
  then have "n dvd (a + j) - (a + i)" using assms(1) by (metis add_le_cancel_left less_imp_le mod_eq_dvd_iff_nat)
  then have "n dvd j - i" by simp
  moreover have "0 < j - i" "j - i < n" using assms by auto
  ultimately show False using nat_dvd_not_less by blast
qed

lemma cr_put_spec:
  assumes "cr_inv r" and "cr_used r < cr_cap r"
  shows "cr_inv (cr_put b r) \<and> cr_cap (cr_put b r) = cr_cap r
    \<and> cr_contents (cr_put b r) = cr_contents r @ [b] \<and> cr_used (cr_put b r) = cr_used r + 1"
proof -
  let ?n = "length (cr_mem r)"
  let ?w = "(cr_rd r + cr_used r) mod ?n"
  have n: "0 < ?n" using assms by (auto simp: cr_inv_def)
  have other: "(cr_rd r + i) mod ?n \<noteq> ?w" if "i < cr_used r" for i
    using index_distinct [of i "cr_used r" ?n "cr_rd r"] that assms by (simp add: cr_cap_def)
  have "cr_contents (cr_put b r) = cr_contents r @ [b]"
    using other n
    by (auto simp: cr_contents_def cr_put_def intro!: map_cong)
      (metis nth_list_update_neq)
  then show ?thesis using assms by (auto simp: cr_inv_def cr_put_def cr_cap_def)
qed

lemma fold_cr_put_spec:
  assumes "cr_inv r" and "length bs \<le> cr_cap r - cr_used r"
  shows "cr_inv (fold cr_put bs r) \<and> cr_cap (fold cr_put bs r) = cr_cap r
    \<and> cr_contents (fold cr_put bs r) = cr_contents r @ bs"
  using assms
proof (induction bs arbitrary: r)
  case Nil
  then show ?case by simp
next
  case (Cons b bs)
  have p: "cr_inv (cr_put b r)" "cr_cap (cr_put b r) = cr_cap r"
    "cr_contents (cr_put b r) = cr_contents r @ [b]" "cr_used (cr_put b r) = cr_used r + 1"
    using cr_put_spec [OF Cons.prems(1), of b] Cons.prems(2) by auto
  show ?case using Cons.IH [OF p(1)] p Cons.prems(2) by simp
qed

lemma cr_receive_spec:
  assumes "cr_inv r" and "0 < cr_used r" and "0 < n"
  shows "\<exists>item r'. cr_receive n r = (Some item, r') \<and> item \<noteq> [] \<and> length item \<le> n
    \<and> cr_inv r' \<and> cr_cap r' = cr_cap r \<and> cr_contents r = item @ cr_contents r'"
proof -
  let ?m = "length (cr_mem r)"
  define k where "k = min (min n (cr_used r)) (?m - cr_rd r)"
  let ?item = "take k (drop (cr_rd r) (cr_mem r))"
  let ?r = "r\<lparr>cr_rd := (cr_rd r + k) mod ?m, cr_used := cr_used r - k\<rparr>"
  have k: "0 < k" "k \<le> n" "k \<le> cr_used r" "cr_rd r + k \<le> ?m"
    using assms by (auto simp: k_def cr_inv_def)
  have split: "[0..<cr_used r] = [0..<k] @ map ((+) k) [0..<cr_used r - k]"
    using k(3) by (intro nth_equalityI) (auto simp: nth_append)
  have "map (\<lambda>i. cr_mem r ! ((cr_rd r + i) mod ?m)) [0..<k] = ?item"
    using k(4) by (auto intro!: nth_equalityI)
  moreover have "map (\<lambda>i. cr_mem r ! ((cr_rd r + i) mod ?m)) (map ((+) k) [0..<cr_used r - k])
      = cr_contents ?r"
    by (auto simp: cr_contents_def mod_simps ac_simps)
  ultimately have "cr_contents r = ?item @ cr_contents ?r"
    using split by (simp add: cr_contents_def)
  moreover have "cr_receive n r = (Some ?item, ?r)"
    using k(1) by (simp add: cr_receive_def Let_def flip: k_def)
  moreover have "cr_inv ?r"
  proof -
    have "0 < ?m" using k(1,4) by linarith
    then have "(cr_rd r + k) mod ?m < ?m" by (rule mod_less_divisor)
    then show ?thesis using assms(1) by (auto simp: cr_inv_def)
  qed
  moreover have "length ?item = k" using k(4) by simp
  ultimately show ?thesis using k by (auto simp: cr_cap_def)
qed

lemma cr_receive_empty: "cr_used r = 0 \<Longrightarrow> cr_receive n r = (None, r)"
  by (simp add: cr_receive_def)

section \<open>A scripted world\<close>

text \<open>
  The rest of the reference platform: a clock that advances by \<open>rw_tick\<close> at every reading, scripts
  of answers for the calls whose outcome varies (with a benign default when a script has run out),
  and a record of what the program did: the bytes read from and written to every SSH channel and
  every local socket, the channels that reported EOF, the sockets on which a send failed, the
  shutdowns of sockets, the credentials sent, and how often the session mutex is held (\<open>rw_nested\<close> tells whether it was ever requested by
  its holder, which blocks until the timeout). The last three fields are for the variants of this platform that log reads and sends
  and that count memory.
\<close>

datatype pump_call = ReadOn ssh_channel | SendOn int

record ref_world =
  rw_clock :: u32
  rw_tick :: u32
  rw_lock :: "bool list"
  rw_alloc :: "bool list"
  rw_rc :: "int list"
  rw_read :: "(int \<times> bytes) list"
  rw_write :: "int list"
  rw_recv :: "(int \<times> bytes \<times> int) list"
  rw_send :: "(int \<times> int) list"
  rw_accept :: "ssh_channel list"
  rw_errno :: "int list"
  rw_chan_in :: "ssh_channel \<Rightarrow> bytes"
  rw_chan_out :: "ssh_channel \<Rightarrow> bytes"
  rw_sock_in :: "int \<Rightarrow> bytes"
  rw_sock_out :: "int \<Rightarrow> bytes"
  rw_eof :: "ssh_channel list"
  rw_dead :: "int list"
  rw_shut :: "(int \<times> shutdown_how) list"
  rw_creds :: "(string \<times> string) list"
  rw_held :: nat
  rw_nested :: bool
  rw_calls :: "pump_call list"
  rw_psram :: nat
  rw_internal :: nat

definition rw_init :: ref_world where
  "rw_init = \<lparr>rw_clock = 1000, rw_tick = 0, rw_lock = [], rw_alloc = [], rw_rc = [], rw_read = [],
    rw_write = [], rw_recv = [], rw_send = [], rw_accept = [], rw_errno = [], rw_chan_in = (\<lambda>_. []),
    rw_chan_out = (\<lambda>_. []), rw_sock_in = (\<lambda>_. []), rw_sock_out = (\<lambda>_. []), rw_eof = [], rw_dead = [],
    rw_shut = [], rw_creds = [], rw_held = 0, rw_nested = False, rw_calls = [], rw_psram = 0, rw_internal = 0\<rparr>"

fun pop :: "'a \<Rightarrow> 'a list \<Rightarrow> 'a \<times> 'a list" where
  "pop d [] = (d, [])"
| "pop d (x # xs) = (x, xs)"

definition rw_answer_rc :: "ref_world \<Rightarrow> int \<times> ref_world" where
  "rw_answer_rc w = (case pop 0 (rw_rc w) of (x, xs) \<Rightarrow> (x, w\<lparr>rw_rc := xs\<rparr>))"

definition rw_take :: "mutex_id \<Rightarrow> ref_world \<Rightarrow> bool \<times> ref_world" where
  "rw_take m w = (case pop True (rw_lock w) of (x, xs) \<Rightarrow>
     (if m \<noteq> SessionMutex then (x, w\<lparr>rw_lock := xs\<rparr>)
      else if 0 < rw_held w then (False, w\<lparr>rw_lock := xs, rw_nested := True\<rparr>)
      else (x, w\<lparr>rw_lock := xs, rw_held := (if x then 1 else 0)\<rparr>)))"

definition rw_give :: "mutex_id \<Rightarrow> ref_world \<Rightarrow> unit \<times> ref_world" where
  "rw_give m w = ((), if m = SessionMutex then w\<lparr>rw_held := rw_held w - 1\<rparr> else w)"

definition rw_answer_alloc :: "ref_world \<Rightarrow> bool \<times> ref_world" where
  "rw_answer_alloc w = (case pop True (rw_alloc w) of (x, xs) \<Rightarrow> (x, w\<lparr>rw_alloc := xs\<rparr>))"

definition rw_answer_read :: "ssh_channel \<Rightarrow> nat \<Rightarrow> ref_world \<Rightarrow> (int \<times> bytes) \<times> ref_world" where
  "rw_answer_read ch n w =
     (if ch \<in> set (rw_eof w) then ((0, []), w)
      else case pop (LIBSSH2_ERROR_EAGAIN, []) (rw_read w) of
        ((rc, bs), xs) \<Rightarrow>
          (if bs \<noteq> [] then ((int (length (take n bs)), take n bs),
              w\<lparr>rw_read := xs, rw_chan_in := (rw_chan_in w)(ch := rw_chan_in w ch @ take n bs)\<rparr>)
           else if rc < 0 then ((rc, []), w\<lparr>rw_read := xs\<rparr>)
           else ((0, []), w\<lparr>rw_read := xs, rw_eof := (if 0 < n then ch # rw_eof w else rw_eof w)\<rparr>)))"

definition rw_answer_write :: "ssh_channel \<Rightarrow> bytes \<Rightarrow> ref_world \<Rightarrow> int \<times> ref_world" where
  "rw_answer_write ch bs w = (case pop (int (length bs)) (rw_write w) of
     (k, xs) \<Rightarrow> (let n = min k (int (length bs)) in
       (n, w\<lparr>rw_write := xs, rw_chan_out := (rw_chan_out w)(ch := rw_chan_out w ch @ take (nat n) bs)\<rparr>)))"

definition rw_answer_recv :: "int \<Rightarrow> nat \<Rightarrow> ref_world \<Rightarrow> (int \<times> bytes \<times> int) \<times> ref_world" where
  "rw_answer_recv fd n w = (case pop (-1, [], EAGAIN) (rw_recv w) of
     ((rc, bs, e), xs) \<Rightarrow>
       (if bs \<noteq> [] then ((int (length (take n bs)), take n bs, e),
           w\<lparr>rw_recv := xs, rw_sock_in := (rw_sock_in w)(fd := rw_sock_in w fd @ take n bs)\<rparr>)
        else ((min rc 0, [], e), w\<lparr>rw_recv := xs\<rparr>)))"

definition rw_answer_send :: "int \<Rightarrow> bytes \<Rightarrow> ref_world \<Rightarrow> (int \<times> int) \<times> ref_world" where
  "rw_answer_send fd bs w = (case pop (int (length bs), 0) (rw_send w) of
     ((k, e), xs) \<Rightarrow> (let n = min k (int (length bs)) in
       ((n, e), w\<lparr>rw_send := xs, rw_sock_out := (rw_sock_out w)(fd := rw_sock_out w fd @ take (nat n) bs),
         rw_dead := (if n < 0 \<and> e \<noteq> EAGAIN then fd # rw_dead w else rw_dead w)\<rparr>)))"

definition rw_auth :: "string \<Rightarrow> string \<Rightarrow> ref_world \<Rightarrow> int \<times> ref_world" where
  "rw_auth user secret w = rw_answer_rc (w\<lparr>rw_creds := rw_creds w @ [(user, secret)]\<rparr>)"

definition ref_platform :: "(ref_world, cring) platform" where
  "ref_platform = \<lparr>
    SSH_TUNNEL_PREPEND_CAPACITY = 64,
    sizeof_StaticRingbuffer = 88,
    sizeof_ChannelSlot = 256,
    TUNNEL_DIAG_LOG_ONLY = False,
    p_millis = (\<lambda>w. (rw_clock w, w\<lparr>rw_clock := rw_clock w + rw_tick w\<rparr>)),
    p_vTaskDelay = (\<lambda>_ w. ((), w)),
    p_malloc = (\<lambda>_. rw_answer_alloc),
    p_heap_caps_malloc = (\<lambda>_ _. rw_answer_alloc),
    p_free = (\<lambda>w. ((), w)),
    p_heap_caps_get_free_size = (\<lambda>_ w. (1000000, w)),
    p_heap_caps_get_largest_free_block = (\<lambda>_ w. (1000000, w)),
    p_xSemaphoreCreateMutex = (\<lambda>_. rw_answer_alloc),
    p_xSemaphoreTake = (\<lambda>m _. rw_take m),
    p_xSemaphoreGive = rw_give,
    p_vSemaphoreDelete = (\<lambda>_ w. ((), w)),
    xRingbufferCreateStatic = cr_create,
    xRingbufferGetCurFreeSize = cr_free,
    xRingbufferSend = cr_send,
    xRingbufferReceiveUpTo = cr_receive,
    vRingbufferReturnItem = (\<lambda>r. r),
    p_socket = (\<lambda>w. (5, w)),
    p_close = (\<lambda>_ w. (0, w)),
    p_shutdown = (\<lambda>fd how w. (0, w\<lparr>rw_shut := rw_shut w @ [(fd, how)]\<rparr>)),
    p_inet_pton = (\<lambda>_ w. (1, w)),
    p_gethostbyname = (\<lambda>_ w. (True, w)),
    p_fcntl_getfl = (\<lambda>_ w. (0, w)),
    p_fcntl_setfl_nonblock = (\<lambda>_ _ w. (0, w)),
    p_connect = (\<lambda>_ _ _ w. case rw_answer_rc w of (r, w') \<Rightarrow> ((r, 111), w')),
    p_select_writable = (\<lambda>_ _ w. ((1, True), w)),
    p_getsockopt_error = (\<lambda>_ w. ((0, 0), w)),
    p_setsockopt = (\<lambda>_ _ _ w. (0, w)),
    p_recv = rw_answer_recv,
    p_send = rw_answer_send,
    libssh2_init = (\<lambda>w. (0, w)),
    libssh2_session_init = (\<lambda>w. (1, w)),
    libssh2_session_handshake = (\<lambda>_ _. rw_answer_rc),
    libssh2_session_set_blocking = (\<lambda>_ _ w. ((), w)),
    libssh2_session_disconnect = (\<lambda>_. rw_answer_rc),
    libssh2_session_free = (\<lambda>_. rw_answer_rc),
    libssh2_session_last_errno = (\<lambda>_ w. case pop LIBSSH2_ERROR_EAGAIN (rw_errno w) of
                                     (x, xs) \<Rightarrow> (x, w\<lparr>rw_errno := xs\<rparr>)),
    libssh2_session_last_error = (\<lambda>_ w. (0, w)),
    libssh2_session_hostkey = (\<lambda>_ w. ((Some [1, 2, 3], 1), w)),
    libssh2_hostkey_hash_sha256 = (\<lambda>_ w. (Some (map word_of_nat [0..<32]), w)),
    libssh2_keepalive_config = (\<lambda>_ _ w. ((), w)),
    libssh2_keepalive_send = (\<lambda>_. rw_answer_rc),
    libssh2_userauth_list = (\<lambda>_ _ w. (True, w)),
    libssh2_userauth_password = (\<lambda>_. rw_auth),
    libssh2_userauth_publickey_frommemory = (\<lambda>_ user _ key _. rw_auth user key),
    libssh2_channel_forward_listen_ex = (\<lambda>_ _ p _ w. ((1, p), w)),
    libssh2_channel_forward_cancel = (\<lambda>_ w. (0, w)),
    libssh2_channel_forward_accept = (\<lambda>_ w. case pop 0 (rw_accept w) of
                                        (x, xs) \<Rightarrow> (x, w\<lparr>rw_accept := xs\<rparr>)),
    libssh2_channel_set_blocking = (\<lambda>_ _ w. ((), w)),
    libssh2_channel_read = rw_answer_read,
    libssh2_channel_write = rw_answer_write,
    libssh2_channel_eof = (\<lambda>ch w. (if ch \<in> set (rw_eof w) then 1 else 0, w)),
    libssh2_channel_send_eof = (\<lambda>_. rw_answer_rc),
    libssh2_channel_close = (\<lambda>_. rw_answer_rc),
    libssh2_channel_free = (\<lambda>_. rw_answer_rc)\<rparr>"

interpretation circular: freertos_bytebuf ref_platform cr_inv cr_contents cr_cap
proof unfold_locales
  fix n h and bs :: bytes
  show "cr_inv h \<and> cr_contents h = [] \<and> cr_cap h = n"
    if "xRingbufferCreateStatic ref_platform n = Some h" and "n < 2 ^ 31"
    using that by (auto simp: ref_platform_def cr_create_def cr_inv_def cr_contents_def cr_cap_def
                        split: if_splits)
  assume inv: "cr_inv h"
  then show "length (cr_contents h) \<le> cr_cap h \<and> cr_cap h < 2 ^ 31"
    by (simp add: cr_inv_def cr_cap_def)
  show "xRingbufferGetCurFreeSize ref_platform h = cr_cap h - length (cr_contents h)"
    by (simp add: ref_platform_def cr_free_def cr_cap_def)
  show "\<exists>h'. xRingbufferSend ref_platform bs h = (True, h') \<and> cr_inv h' \<and> cr_cap h' = cr_cap h
        \<and> cr_contents h' = cr_contents h @ bs"
    if "length bs \<le> cr_cap h - length (cr_contents h)"
    using fold_cr_put_spec [OF inv, of bs] that
    by (simp add: ref_platform_def cr_send_def cr_free_def cr_cap_def)
  show "xRingbufferReceiveUpTo ref_platform n h = (None, h)" if "cr_contents h = []"
    using that by (simp add: ref_platform_def cr_receive_empty)
  show "\<exists>item h'. xRingbufferReceiveUpTo ref_platform n h = (Some item, h') \<and> item \<noteq> [] \<and> length item \<le> n
        \<and> cr_inv (vRingbufferReturnItem ref_platform h')
        \<and> cr_cap (vRingbufferReturnItem ref_platform h') = cr_cap h
        \<and> cr_contents h = item @ cr_contents (vRingbufferReturnItem ref_platform h')"
    if "cr_contents h \<noteq> []" and "0 < n"
    using cr_receive_spec [OF inv, of n] that by (simp add: ref_platform_def)
qed

section \<open>Properties of the ring buffer\<close>

text \<open>A ring of eight bytes with a put-back area of four, for the witnesses.\<close>

definition ring8 :: "cring data_ring_buffer" where
  "ring8 = \<lparr>handle = Some \<lparr>cr_mem = replicate 8 0, cr_rd = 6, cr_used = 0\<rparr>, capacity = 8, tag = ''ch0'',
     ringStorage = True, ringStruct = True, prependStorage = True,
     prepend = \<lparr>pb_buf = Some (replicate 4 0), pb_cap = 4, pb_len = 0, pb_off = 0\<rparr>\<rparr>"

lemma ring8_inv: "drb_inv cr_inv cr_cap ring8"
  by (simp add: ring8_def drb_inv_def pb_inv_def pb_isBound_def cr_inv_def cr_cap_def)

text \<open>
  C17: Any history of writes and of reads that consume part of what they got and put the rest back
  (each read at most as large as the put-back area) delivers exactly the accepted bytes, in order:
  the bytes delivered followed by those still buffered are the bytes buffered at the start followed
  by those accepted. No put-back is refused, also when bytes of an earlier one are still in the put-back area
  (the comment on \<open>DataRingBuffer::writeToFront\<close> says that it then returns 0, see \<open>Known_Defects\<close>).
\<close>

theorem ring_history_is_fifo:
  assumes "freertos_bytebuf P rb_inv rb_contents rb_cap" and "drb_inv rb_inv rb_cap d"
    and "list_all (read_within (pb_cap (prepend d))) ops"
    and "queue_run (drb_read P True) drb_unread (\<lambda>bs. drb_write P (Some bs) (length bs)) ops d = (d', acc, del, lost)"
  shows "lost = [] \<and> drb_inv rb_inv rb_cap d'
    \<and> drb_contents rb_contents d @ acc = del @ drb_contents rb_contents d'"
  by (rule freertos_bytebuf.history_lossless [OF assms])

theorem ring_history_is_fifo_witness:
  "\<exists>d' acc del lost. queue_run (drb_read ref_platform True) drb_unread
      (\<lambda>bs. drb_write ref_platform (Some bs) (length bs))
      [Offer [1, 2, 3, 4, 5], Consume 4 1, Offer [6, 7, 8, 9], Consume 3 2] ring8 = (d', acc, del, lost)
    \<and> list_all (read_within (pb_cap (prepend ring8)))
        [Offer [1, 2, 3, 4, 5], Consume 4 1, Offer [6, 7, 8, 9], Consume 3 2]
    \<and> lost = [] \<and> drb_inv cr_inv cr_cap d'
    \<and> drb_contents cr_contents ring8 @ acc = del @ drb_contents cr_contents d'"
proof -
  let ?ops = "[Offer [1, 2, 3, 4, 5], Consume 4 1, Offer [6, 7, 8, 9], Consume 3 2]"
  have ops: "list_all (read_within (pb_cap (prepend ring8))) ?ops" by (simp add: ring8_def)
  obtain d' acc del lost where r: "queue_run (drb_read ref_platform True) drb_unread
      (\<lambda>bs. drb_write ref_platform (Some bs) (length bs)) ?ops ring8 = (d', acc, del, lost)"
    by (rule prod_cases4)
  show ?thesis
    using ring_history_is_fifo [OF circular.freertos_bytebuf_axioms ring8_inv ops r] r ops by blast
qed

text \<open>
  C18: A write takes as many bytes as fit, min of the length and the free space, appends exactly these
  behind everything buffered (put-back bytes included), and the size grows by that number.
\<close>

theorem ring_write_exact:
  assumes "freertos_bytebuf P rb_inv rb_contents rb_cap" and "drb_inv rb_inv rb_cap d"
    and "len \<le> length bs" and "drb_write P (Some bs) len d = (k, d')"
  shows "k = min len (drb_available P d) \<and> drb_inv rb_inv rb_cap d'
    \<and> drb_contents rb_contents d' = drb_contents rb_contents d @ take k bs
    \<and> drb_size P d' = drb_size P d + k"
  using freertos_bytebuf.write_spec [OF assms] freertos_bytebuf.size_spec [OF assms(1)] assms(2,3) by auto

theorem ring_write_exact_witness:
  "\<exists>k d'. drb_write ref_platform (Some [1, 2, 3, 4, 5, 6, 7, 8, 9, 10]) 10 ring8 = (k, d') \<and> k = 8
    \<and> drb_contents cr_contents d' = [1, 2, 3, 4, 5, 6, 7, 8] \<and> drb_size ref_platform d' = 8"
proof -
  let ?bs = "[1, 2, 3, 4, 5, 6, 7, 8, 9, 10] :: bytes"
  obtain k d' where w: "drb_write ref_platform (Some ?bs) 10 ring8 = (k, d')" by (rule prod.exhaust)
  have "drb_available ref_platform ring8 = 8" "drb_contents cr_contents ring8 = []" "drb_size ref_platform ring8 = 0"
    by (simp_all add: ring8_def ref_platform_def drb_available_def cr_free_def drb_contents_def
        pb_contents_def cr_contents_def drb_size_def pb_pending_def sz_add_def)
  with ring_write_exact [OF circular.freertos_bytebuf_axioms ring8_inv _ w] w show ?thesis by simp
qed

text \<open>
  C23: Clearing returns (its loop ends, since every round takes at least one byte out of the ring) and
  leaves an empty buffer of the same capacity.
\<close>

theorem ring_clear_terminates:
  assumes "freertos_bytebuf P rb_inv rb_contents rb_cap" and "drb_inv rb_inv rb_cap d" and "0 < capacity d"
  shows "\<exists>d'. drb_clear P d = Some d' \<and> drb_inv rb_inv rb_cap d' \<and> drb_contents rb_contents d' = []
    \<and> drb_size P d' = 0 \<and> capacity d' = capacity d"
  using freertos_bytebuf.clear_spec [OF assms] freertos_bytebuf.size_spec [OF assms(1)] by fastforce

theorem ring_clear_terminates_witness:
  "\<exists>d'. drb_clear ref_platform ring8 = Some d' \<and> drb_size ref_platform d' = 0 \<and> capacity d' = 8"
  using ring_clear_terminates [OF circular.freertos_bytebuf_axioms ring8_inv] by (force simp: ring8_def)

end
