(* ===== verification/Tunnel_Invariant.thy ===== *)
theory Tunnel_Invariant
  imports Ssh_Tunnel Pump_Frame Circular_Ring
begin

text \<open>
  The invariant of the whole tunnel object and its preservation by every public operation. The
  locale \<open>ring_pred\<close> is what is needed of a predicate on ring buffers to be carried in the invariant;
  it is interpreted with the trivial predicate and, over a correct FreeRTOS ring, with the
  well-formedness of ring buffers.
\<close>

section \<open>The invariant\<close>

definition queue_ok :: "nat \<Rightarrow> pending_channel list \<Rightarrow> bool" where
  "queue_ok n q \<longleftrightarrow> length q \<le> n \<and> list_all (\<lambda>e. pc_channel e \<noteq> NULL) q"

definition tunnel_inv :: "('w, 'r) platform \<Rightarrow> ('r data_ring_buffer \<Rightarrow> bool) \<Rightarrow> ('w, 'r, 'z) tunnel_scheme \<Rightarrow> bool" where
  "tunnel_inv P R s \<longleftrightarrow> chan_inv R s \<and> queue_ok MAX_PENDING (pendingQueue s)
     \<and> queue_ok MAX_DEFERRED_CLOSE (deferredCloseQueue s) \<and> length (pendingCloseEvents s) \<le> MAX_CLOSE_EVENTS
     \<and> bufSize s \<le> SSH_TUNNEL_PREPEND_CAPACITY P"

text \<open>The channel manager does not touch the queues.\<close>

definition queues_are :: "pending_channel list \<Rightarrow> pending_channel list \<Rightarrow> close_event list \<Rightarrow> nat \<Rightarrow>
    ('w, 'r, 'z) tunnel_scheme \<Rightarrow> bool" where
  "queues_are p d e b s \<longleftrightarrow> pendingQueue s = p \<and> deferredCloseQueue s = d \<and> pendingCloseEvents s = e
     \<and> bufSize s = b"

interpretation queues: channel_frame "queues_are p d e b" for p d e b
  by unfold_locales (simp_all add: queues_are_def)

lemma queues_upd_slot [simp]: "queues_are p d e b (upd_slot i f s) = queues_are p d e b s"
  by (simp add: queues_are_def upd_slot_def)

lemma keeps_queues_slot: "keeps (queues_are p d e b) (modify_slot i f)"
  by (simp add: keeps_def modify_slot_def wp_simps)

lemma keeps_queues_modify: "(\<And>s. queues_are p d e b (f s) = queues_are p d e b s) \<Longrightarrow> keeps (queues_are p d e b) (modify f)"
  by (simp add: keeps_def wp_simps)

lemmas queues_ops = queues.prims2 keeps_queues_slot queues.keeps_delete_ring queues.keeps_drb_delete
  queues.keeps_drb_new queues.keeps_connectToLocalEndpoint queues.keeps_heap_guard

lemma keeps_queues_ring:
  "keeps (queues_are p d e b) (ring_write P i dir bs n)" "keeps (queues_are p d e b) (ring_read P i dir n)"
  "keeps (queues_are p d e b) (restoreUnsent P i dir bs)"
  unfolding ring_write_def ring_read_def restoreUnsent_def on_ring_def
  by (intro queues_ops)+

lemma keeps_queues_close:
  "keeps (queues_are p d e b) (beginClose P i r)" "keeps (queues_are p d e b) (finalizeClose P i)"
  "keeps (queues_are p d e b) (abandonSlot P i r)"
  unfolding beginClose_def finalizeClose_def finalize_ssh_def finalize_local_def abandonSlot_def close_local_def
    count_buffered_dropped_def free_rings_def archiveSlotStats_def resetSlot_def
  by (intro queues_ops keeps_queues_modify; simp add: queues_are_def)+

lemma keeps_queues_bind: "keeps (queues_are p d e b) (bindChannel P i ch m)"
  unfolding bindChannel_def resetSlot_def
  by (intro queues_ops keeps_queues_modify; simp add: queues_are_def)

lemma keeps_tunnel_inv:
  fixes m :: "('w, 'r, 'z, 'a) tunnel_op"
  assumes "keeps (chan_inv R) m" and "\<And>p d e b. keeps (queues_are p d e b) m"
  shows "keeps (tunnel_inv P R) m"
proof (rule keepsI)
  fix s :: "('w, 'r, 'z) tunnel_scheme"
  assume inv: "tunnel_inv P R s"
  then have "wp m (\<lambda>_ s'. chan_inv R s' \<and> queues_are (pendingQueue s) (deferredCloseQueue s) (pendingCloseEvents s) (bufSize s) s') s"
    by (intro wp_conj [OF keepsD [OF assms(1)] keepsD [OF assms(2)]]) (auto simp: tunnel_inv_def queues_are_def)
  then show "wp m (\<lambda>_. tunnel_inv P R) s"
    by (rule wp_mono) (use inv in \<open>auto simp: tunnel_inv_def queues_are_def\<close>)
qed

lemma drb_new_world:
  "wp (drb_new P n t) (\<lambda>d _. R d) s = wp (drb_new P n t) (\<lambda>d _. R d) (\<lparr>world = world s\<rparr> :: 'w wstate)"
  for P :: "('w, 'r) platform"
  by (simp add: drb_new_def psramAlloc_def psramFree_def wp_simps Let_def split: prod.splits)

section \<open>The pump keeps it\<close>

locale ring_pred =
  fixes P :: "('w, 'r) platform" and R :: "'r data_ring_buffer \<Rightarrow> bool"
  assumes ring_ops: "ring_ops_keep P R"
    and ring_ctor: "n < 2 ^ 31 \<Longrightarrow> wp (drb_new P n t) (\<lambda>d _. R d) (s :: 'w wstate)"
begin

lemma manager: "manager_frame (chan_inv R :: ('w, 'r, 'z) channel_state_scheme \<Rightarrow> bool) P"
  by (rule chan_inv_manager_frame [OF ring_ops]) (subst drb_new_world, rule ring_ctor)

lemma pump: "pump_frame (tunnel_inv P R :: ('w, 'r, 'z) tunnel_scheme \<Rightarrow> bool) P"
proof -
  have m: "manager_frame (chan_inv R :: ('w, 'r, 'z) tunnel_scheme \<Rightarrow> bool) P" by (rule manager)
  have push: "keeps (tunnel_inv P R :: ('w, 'r, 'z) tunnel_scheme \<Rightarrow> bool) (push_close_event i r)" for i r
    by (simp add: keeps_def wp_simps push_close_event_def tunnel_inv_def chan_inv_def)
  show ?thesis
    by unfold_locales
      (simp_all add: push, simp_all add: tunnel_inv_def chan_inv_def,
       (intro keeps_tunnel_inv keeps_queues_slot keeps_queues_ring keeps_queues_close keeps_queues_bind
         keeps_sent_bytes manager_frame.keeps_book [OF m] manager_frame.keeps_ring_write [OF m] manager_frame.keeps_ring_read [OF m]
         manager_frame.keeps_restoreUnsent [OF m] manager_frame.keeps_begin [OF m] manager_frame.keeps_final [OF m]
         manager_frame.keeps_abandon [OF m] manager_frame.keeps_bind [OF m]; assumption?)+)
qed

end

sublocale ring_pred \<subseteq> tun: pump_frame "tunnel_inv P R" P
  by (rule pump)

sublocale ring_pred \<subseteq> link: session_frame "tunnel_inv P R"
  by unfold_locales (simp_all add: tunnel_inv_def chan_inv_def)

section \<open>The tunnel operations keep it\<close>

interpretation ring_conf: session_frame "\<lambda>s. tunnelRingBufferSize (connectionConfig s) < 2 ^ 31"
  by unfold_locales simp_all

lemma keeps_case_bind_result:
  "keeps J a \<Longrightarrow> keeps J b \<Longrightarrow> keeps J c \<Longrightarrow>
   keeps J (case x of Bound \<Rightarrow> a | BindFailed \<Rightarrow> b | LockUnavailable \<Rightarrow> c)"
  by (simp split: bind_result.split)

lemma keeps_emit: "keeps (tunnel_inv P R) (emit h ev)"
  by (simp add: keeps_def wp_simps emit_def tunnel_inv_def chan_inv_def)

lemma tunnel_inv_frame [simp]:
  "tunnel_inv P R (s\<lparr>tstate := a\<rparr>) = tunnel_inv P R s" "tunnel_inv P R (s\<lparr>lastKeepAlive := t\<rparr>) = tunnel_inv P R s"
  "tunnel_inv P R (s\<lparr>lastConnectionAttempt := t\<rparr>) = tunnel_inv P R s"
  "tunnel_inv P R (s\<lparr>reconnectAttempts := n\<rparr>) = tunnel_inv P R s"
  "tunnel_inv P R (s\<lparr>socketHealthFailures := n\<rparr>) = tunnel_inv P R s"
  "tunnel_inv P R (s\<lparr>statsMutex := b\<rparr>) = tunnel_inv P R s" "tunnel_inv P R (s\<lparr>bytesReceived := w\<rparr>) = tunnel_inv P R s"
  "tunnel_inv P R (s\<lparr>bytesSent := w\<rparr>) = tunnel_inv P R s" "tunnel_inv P R (s\<lparr>bytesDropped := w\<rparr>) = tunnel_inv P R s"
  "tunnel_inv P R (s\<lparr>eventHandlers := h\<rparr>) = tunnel_inv P R s"
  by (simp_all add: tunnel_inv_def chan_inv_def)

context ring_pred
begin

lemmas tunnel_ops = tun.pump_ops tun.keeps_pumpAll tun.keeps_allocate keeps_emit
  tun.keeps_acceptChannel link.keeps_session_disconnect link.keeps_session_connect link.keeps_session_init
  tun.keeps_checkConnection tun.keeps_sendKeepalive keeps_case_bind_result

lemma keeps_close_and_free: "keeps (tunnel_inv P R) (close_and_free P ch)"
  unfolding close_and_free_def by (intro tunnel_ops)

lemma keeps_closeAcceptedChannel: "keeps (tunnel_inv P R) (closeAcceptedChannel P ch t)"
  unfolding closeAcceptedChannel_def by (intro tunnel_ops keeps_close_and_free)

lemma keeps_force_close: "keeps (tunnel_inv P R) (force_close P ch t)"
  unfolding force_close_def by (intro tunnel_ops keeps_close_and_free)

lemma keeps_bindAcceptedChannel: "keeps (tunnel_inv P R) (bindAcceptedChannel P i ch m t)"
  unfolding bindAcceptedChannel_def by (intro tunnel_ops)

lemma keeps_enqueueDeferredClose: "keeps (tunnel_inv P R) (enqueueDeferredClose P ch m)"
proof (cases "ch = NULL")
  case False
  show ?thesis
    unfolding enqueueDeferredClose_def using False
    by (intro keepsI)
      (auto simp: wp_simps tunnel_inv_def chan_inv_def queue_ok_def not_le Suc_le_eq
        intro!: wp_keep [OF keeps_closeAcceptedChannel] split: prod.splits)
qed (simp add: enqueueDeferredClose_def keeps_return)

lemma keeps_enqueuePending:
  "ch \<noteq> NULL \<Longrightarrow> tunnel_inv P R s \<Longrightarrow> length (pendingQueue s) < MAX_PENDING \<Longrightarrow>
     wp (enqueuePending P ch m) (\<lambda>_. tunnel_inv P R) s"
  by (auto simp: enqueuePending_def wp_simps tunnel_inv_def chan_inv_def queue_ok_def split: prod.splits)

text \<open>Each entry of a queue is dropped or kept, possibly with another action.\<close>

definition kept_or_dropped :: "pending_channel \<Rightarrow> pending_channel list \<Rightarrow> bool" where
  "kept_or_dropped e k \<longleftrightarrow> k = [] \<or> (\<exists>a. k = [e\<lparr>pc_action := a\<rparr>])"

lemma kept_self [simp]: "kept_or_dropped e []" "kept_or_dropped e [e]" "kept_or_dropped e [e\<lparr>pc_action := a\<rparr>]"
  by (auto simp: kept_or_dropped_def intro: exI [of _ "pc_action e"])

lemma wp_retry_close:
  "tunnel_inv P R s \<Longrightarrow> wp (retry_close P now e) (\<lambda>k s'. tunnel_inv P R s' \<and> kept_or_dropped e k) s"
  by (auto simp: retry_close_def wp_simps
      intro!: wp_keep [OF keeps_force_close] wp_keep [OF keeps_closeAcceptedChannel])

lemma wp_drop_pending:
  "tunnel_inv P R s \<Longrightarrow> wp (drop_pending P e) (\<lambda>k s'. tunnel_inv P R s' \<and> kept_or_dropped e k) s"
  by (auto simp: drop_pending_def wp_simps intro!: wp_keep [OF keeps_closeAcceptedChannel])

lemma wp_try_bind_pending:
  "tunnel_inv P R s \<Longrightarrow> wp (try_bind_pending P e) (\<lambda>k s'. tunnel_inv P R s' \<and> kept_or_dropped e k) s"
  by (auto simp: try_bind_pending_def wp_simps emitChannelOpened_def split: bind_result.split
      intro!: wp_keep [OF tun.keeps_allocate] wp_keep [OF keeps_bindAcceptedChannel] wp_keep [OF keeps_emit]
        wp_drop_pending)

lemma wp_drain_pending_entry:
  "tunnel_inv P R s \<Longrightarrow> wp (drain_pending_entry P now e) (\<lambda>k s'. tunnel_inv P R s' \<and> kept_or_dropped e k) s"
  by (auto simp: drain_pending_entry_def wp_simps intro!: wp_retry_close wp_drop_pending wp_try_bind_pending)

lemma wp_drain_deferred_entry:
  "tunnel_inv P R s \<Longrightarrow> wp (drain_deferred_entry P now e) (\<lambda>k s'. tunnel_inv P R s' \<and> kept_or_dropped e k) s"
  by (auto simp: drain_deferred_entry_def wp_simps intro!: wp_retry_close)

lemma wp_clean_expired_entry:
  "tunnel_inv P R s \<Longrightarrow> wp (clean_expired_entry P now e) (\<lambda>k s'. tunnel_inv P R s' \<and> kept_or_dropped e k) s"
  by (auto simp: clean_expired_entry_def wp_simps intro!: wp_drop_pending)

lemma wp_keep_entries:
  assumes "\<And>e s. tunnel_inv P R s \<Longrightarrow> wp (f e) (\<lambda>k s'. tunnel_inv P R s' \<and> kept_or_dropped e k) s"
    and "tunnel_inv P R s" and "queue_ok n q"
  shows "wp (keep_entries f q) (\<lambda>k s'. tunnel_inv P R s' \<and> queue_ok n k) s"
  using assms(2,3)
proof (induction q arbitrary: s n)
  case Nil
  then show ?case by (simp add: wp_simps)
next
  case (Cons e q)
  obtain n' where n: "n = Suc n'" "queue_ok n' q" "pc_channel e \<noteq> NULL"
    using Cons.prems(2) by (cases n) (auto simp: queue_ok_def)
  have tail: "wp (keep_entries f q) (\<lambda>ks s'. tunnel_inv P R s' \<and> queue_ok n (k @ ks)) s1"
    if "tunnel_inv P R s1" "kept_or_dropped e k" for s1 k
    using Cons.IH [OF that(1) n(2)]
    by (rule wp_mono) (use that(2) n in \<open>auto simp: kept_or_dropped_def queue_ok_def\<close>)
  show ?case
    using assms(1) [OF Cons.prems(1), of e]
    by (auto simp: wp_bind wp_return_fun elim!: wp_mono intro!: tail)
qed

lemma queue_loops:
  "keeps (tunnel_inv P R) (drainPendingQueue P)" "keeps (tunnel_inv P R) (drainDeferredCloseQueue P)"
  "keeps (tunnel_inv P R) (cleanExpiredPending P)"
  unfolding drainPendingQueue_def drainDeferredCloseQueue_def cleanExpiredPending_def
  by (auto intro!: keepsI wp_mono [OF wp_keep_entries] wp_drain_pending_entry wp_drain_deferred_entry
      wp_clean_expired_entry simp: wp_simps split: prod.splits)
    (auto simp: tunnel_inv_def chan_inv_def)

lemma keeps_close_entries: "keeps (tunnel_inv P R) (close_entries P q)"
  unfolding close_entries_def by (intro tunnel_ops keeps_close_and_free)

lemma keeps_empty_queues:
  "keeps (tunnel_inv P R) (modify (\<lambda>s. s\<lparr>pendingQueue := []\<rparr>))"
  "keeps (tunnel_inv P R) (modify (\<lambda>s. s\<lparr>deferredCloseQueue := []\<rparr>))"
  "keeps (tunnel_inv P R) drop_queues"
  by (auto simp: keeps_def wp_simps drop_queues_def tunnel_inv_def chan_inv_def queue_ok_def)

lemma keeps_clear_queues:
  "keeps (tunnel_inv P R) (clearPendingQueue P)" "keeps (tunnel_inv P R) (clearDeferredCloseQueue P)"
  unfolding clearPendingQueue_def clearDeferredCloseQueue_def
  by (intro tunnel_ops keeps_close_entries keeps_empty_queues(1,2))+

lemma keeps_updateStats: "keeps (tunnel_inv P R) (updateStats P)"
  unfolding updateStats_def by (intro tunnel_ops; simp)

lemma keeps_abandon_all: "keeps (tunnel_inv P R) (abandon_all P r)"
  unfolding abandon_all_def by (intro tunnel_ops)

lemmas teardown_ops = tunnel_ops keeps_clear_queues keeps_updateStats keeps_abandon_all keeps_empty_queues(3)

lemma keeps_enterErrorState: "keeps (tunnel_inv P R) (enterErrorState P)"
  unfolding enterErrorState_def emitChannelClosed_def emitSessionDisconnected_def
  by (intro teardown_ops; simp)

lemma keeps_tunnel_disconnect: "keeps (tunnel_inv P R) (tunnel_disconnect P)"
  unfolding tunnel_disconnect_def emitChannelClosed_def emitSessionDisconnected_def
  by (intro teardown_ops; simp)

lemma keeps_connectSSH: "keeps (tunnel_inv P R) (connectSSH P)"
  unfolding connectSSH_def emitErrorEvent_def emitSessionConnected_def
  by (intro teardown_ops; simp)

lemma keeps_requestReconnect: "keeps (tunnel_inv P R) (requestReconnect P)"
  unfolding requestReconnect_def by (intro teardown_ops; simp)

lemma keeps_handleReconnection: "keeps (tunnel_inv P R) (handleReconnection P)"
  unfolding handleReconnection_def reconnect_now_def
  by (intro teardown_ops keeps_connectSSH; simp)

lemma keeps_reject: "keeps (tunnel_inv P R) (reject_backed_off P ch m)" "keeps (tunnel_inv P R) (reject_queue_full P ch m)"
  unfolding reject_backed_off_def reject_queue_full_def
  by (intro tunnel_ops keeps_closeAcceptedChannel keeps_enqueueDeferredClose keeps_force_close)+

lemma wp_bind_new: "ch \<noteq> NULL \<Longrightarrow> tunnel_inv P R s \<Longrightarrow> wp (bind_new P i ch m) (\<lambda>_. tunnel_inv P R) s"
  by (auto simp: bind_new_def wp_simps wp_return_fun emitChannelOpened_def split: bind_result.split
      intro!: wp_keep [OF keeps_bindAcceptedChannel] wp_keep [OF keeps_emit]
        wp_keep [OF keeps_enqueueDeferredClose] keeps_enqueuePending)

lemma keeps_handleNewConnection: "keeps (tunnel_inv P R) (handleNewConnection P)"
  by (auto simp: handleNewConnection_def wp_simps wp_return_fun Let_def split: prod.splits
      intro!: keepsI wp_keep [OF tun.keeps_acceptChannel] wp_keep [OF keeps_enterErrorState]
        wp_keep [OF keeps_reject(1)] wp_keep [OF keeps_reject(2)] wp_keep [OF tun.keeps_allocate]
        wp_bind_new keeps_enqueuePending)

lemma keeps_accept_loop: "keeps (tunnel_inv P R) (accept_loop P n)"
  by (induction n) (auto intro!: tunnel_ops keeps_handleNewConnection)

lemma keeps_consumeCloseEvents: "keeps (tunnel_inv P R) (consumeCloseEvents n)"
  by (auto simp: keeps_def wp_simps consumeCloseEvents_def tunnel_inv_def chan_inv_def)

lemma keeps_tunnel_loop: "keeps (tunnel_inv P R) (tunnel_loop P)"
  unfolding tunnel_loop_def check_socket_health_def keepalive_step_def pump_and_report_def queue_step_tail_def
    emitChannelClosed_def
  by (intro teardown_ops keeps_handleReconnection keeps_enterErrorState keeps_accept_loop queue_loops
      keeps_consumeCloseEvents; simp)

lemma wp_channels_init:
  fixes s :: "('w, 'r, 'z) tunnel_scheme"
  assumes "tunnel_inv P R s" and "n < 2 ^ 31"
  shows "wp (channels_init P m n t) (\<lambda>_. tunnel_inv P R) s"
proof -
  have "keeps (queues_are p d e b :: ('w, 'r, 'z) tunnel_scheme \<Rightarrow> bool) (channels_init P m n t)" for p d e b
    unfolding channels_init_def channels_destroy_def safeMalloc_def
    by (intro queues_ops keeps_queues_modify; simp add: queues_are_def)
  then have "wp (channels_init P m n t) (\<lambda>_. queues_are (pendingQueue s) (deferredCloseQueue s) (pendingCloseEvents s) (bufSize s)) s"
    by (rule keepsD) (simp add: queues_are_def)
  then show ?thesis
    by (rule wp_mono [OF wp_conj [OF channels_init_effect [OF assms(2), where R = R]]])
      (use assms(1) in \<open>auto simp: tunnel_inv_def queues_are_def\<close>)
qed

lemma tunnel_inv_pump_fields [simp]:
  "tunnel_inv P R (s\<lparr>tp_channelTimeoutMs := t\<rparr>) = tunnel_inv P R s"
  "tunnel_inv P R (s\<lparr>rxBuf := b\<rparr>) = tunnel_inv P R s" "tunnel_inv P R (s\<lparr>txBuf := b\<rparr>) = tunnel_inv P R s"
  "tunnel_inv P R (s\<lparr>pumpAttached := b\<rparr>) = tunnel_inv P R s"
  by (simp_all add: tunnel_inv_def chan_inv_def)

lemma keeps_pump_init:
  "n \<le> SSH_TUNNEL_PREPEND_CAPACITY P \<Longrightarrow> keeps (tunnel_inv P R) (pump_init P n t)"
  unfolding pump_init_def
  by (intro keeps_bind keeps_modify tun.keeps_safeMalloc keeps_return) (simp_all add: tunnel_inv_def chan_inv_def)

lemma keeps_pump_attach: "keeps (tunnel_inv P R) (pump_attach b)"
  by (simp add: pump_attach_def keeps_def wp_simps)

lemma wp_tunnel_init:
  fixes s :: "('w, 'r, 'z) tunnel_scheme"
  assumes "tunnel_inv P R s" and "tunnelRingBufferSize (connectionConfig s) < 2 ^ 31"
  shows "wp (tunnel_init P) (\<lambda>_. tunnel_inv P R) s"
proof -
  define I where "I s' \<longleftrightarrow> tunnel_inv P R s' \<and> tunnelRingBufferSize (connectionConfig s') < 2 ^ 31"
    for s' :: "('w, 'r, 'z) tunnel_scheme"
  have sess: "keeps I (session_init P)"
    unfolding I_def
    by (rule keepsI, elim conjE,
        rule wp_conj [OF keepsD [OF link.keeps_session_init] keepsD [OF ring_conf.keeps_session_init]])
  have I: "I s" "\<And>s w. I (s\<lparr>world := w\<rparr>) = I s" "\<And>s b. I (s\<lparr>statsMutex := b\<rparr>) = I s"
    using assms by (simp_all add: I_def)
  have D: "I s' \<Longrightarrow> tunnel_inv P R s'" "I s' \<Longrightarrow> tunnelRingBufferSize (connectionConfig s') < 2 ^ 31"
    for s' :: "('w, 'r, 'z) tunnel_scheme"
    by (simp_all add: I_def)
  show ?thesis
    using I unfolding tunnel_init_def
    by (auto simp: wp_simps Let_def D D(2) [simplified] intro!: wp_keep [OF sess] wp_mono [OF wp_channels_init]
        wp_keep [OF keeps_pump_init] wp_keep [OF keeps_pump_attach] split: prod.splits)
qed

end

section \<open>Reachable states\<close>

text \<open>
  The tunnel object is constructed with an empty channel manager; then the user calls its public
  operations in any order. Between calls other tasks may change the world (sockets, clock, heap)
  and the configuration arbitrarily.
\<close>

definition after :: "('s, 'a) state \<Rightarrow> 's \<Rightarrow> 's" where
  "after m s = snd (run_state m s)"

inductive tunnel_reach :: "('w, 'r) platform \<Rightarrow> ('w, 'r) tunnel \<Rightarrow> bool" for P where
  new: "tunnel_reach P (tunnel_new w m)"
| init: "tunnel_reach P s \<Longrightarrow> tunnelRingBufferSize (connectionConfig s) < 2 ^ 31 \<Longrightarrow> tunnel_reach P (after (tunnel_init P) s)"
| connect: "tunnel_reach P s \<Longrightarrow> tunnel_reach P (after (connectSSH P) s)"
| loop: "tunnel_reach P s \<Longrightarrow> tunnel_reach P (after (tunnel_loop P) s)"
| disconnect: "tunnel_reach P s \<Longrightarrow> tunnel_reach P (after (tunnel_disconnect P) s)"
| reconnect: "tunnel_reach P s \<Longrightarrow> tunnel_reach P (after (requestReconnect P) s)"
| handlers: "tunnel_reach P s \<Longrightarrow> tunnel_reach P (after (setEventHandlers hs) s)"
| add: "tunnel_reach P s \<Longrightarrow> tunnel_reach P (after (addReverseTunnel P m) s)"
| remove: "tunnel_reach P s \<Longrightarrow> tunnel_reach P (after (removeReverseTunnel P h p) s)"
| others: "tunnel_reach P s \<Longrightarrow> tunnel_reach P (s\<lparr>world := w, sshConfig := c, tunnelMappings := ms,
    connectionConfig := cc, debugConfig := dc\<rparr>)"

lemma after_keeps: "keeps I m \<Longrightarrow> I s \<Longrightarrow> I (after m s)"
  by (simp add: after_def keeps_def wp_iff_run)

lemma tunnel_inv_config [simp]:
  "tunnel_inv P R (s\<lparr>sshConfig := c\<rparr>) = tunnel_inv P R s" "tunnel_inv P R (s\<lparr>tunnelMappings := ms\<rparr>) = tunnel_inv P R s"
  "tunnel_inv P R (s\<lparr>connectionConfig := cc\<rparr>) = tunnel_inv P R s" "tunnel_inv P R (s\<lparr>debugConfig := dc\<rparr>) = tunnel_inv P R s"
  "tunnel_inv P R (s\<lparr>world := w\<rparr>) = tunnel_inv P R s"
  by (simp_all add: tunnel_inv_def chan_inv_def)

context ring_pred
begin

lemma keeps_mappings:
  "keeps (tunnel_inv P R) (addReverseTunnel P m)" "keeps (tunnel_inv P R) (removeReverseTunnel P h p)"
  unfolding addReverseTunnel_def removeReverseTunnel_def addTunnelMapping_cfg_def locked_update_def
    removeTunnelMapping_def
  by (intro tunnel_ops; simp)+

lemma keeps_setEventHandlers: "keeps (tunnel_inv P R) (setEventHandlers hs)"
  by (simp add: keeps_def wp_simps setEventHandlers_def)

lemma reach_inv: "tunnel_reach P s \<Longrightarrow> tunnel_inv P R s"
proof (induction rule: tunnel_reach.induct)
  case (new w m)
  then show ?case by (simp add: tunnel_new_def tunnel_inv_def chan_inv_def queue_ok_def)
next
  case (init s)
  then show ?case using wp_tunnel_init [of s] by (simp add: after_def wp_iff_run)
qed (auto intro!: after_keeps keeps_connectSSH keeps_tunnel_loop keeps_tunnel_disconnect keeps_requestReconnect
      keeps_mappings keeps_setEventHandlers)

end

section \<open>Instances\<close>

interpretation any_ring: ring_pred P "\<lambda>_. True" for P :: "('w, 'r) platform"
  by unfold_locales (simp_all add: ring_ops_keep_def wp_def split: prod.splits)

text \<open>
  A ring buffer of a slot over a correct FreeRTOS ring: well-formed and, if its construction
  succeeded, with the full put-back area.
\<close>

definition ring_wf :: "('w, 'r) platform \<Rightarrow> ('r \<Rightarrow> bool) \<Rightarrow> ('r \<Rightarrow> nat) \<Rightarrow> 'r data_ring_buffer \<Rightarrow> bool" where
  "ring_wf P rb_inv rb_cap d \<longleftrightarrow> drb_inv rb_inv rb_cap d
     \<and> (handle d \<noteq> None \<longrightarrow> pb_cap (prepend d) = SSH_TUNNEL_PREPEND_CAPACITY P)"

locale ring_platform = freertos_bytebuf P rb_inv rb_contents rb_cap
  for P :: "('w, 'r) platform" and rb_inv :: "'r \<Rightarrow> bool" and rb_contents :: "'r \<Rightarrow> bytes" and rb_cap :: "'r \<Rightarrow> nat" +
  assumes prepend_small: "SSH_TUNNEL_PREPEND_CAPACITY P < 2 ^ 31"
begin

lemma write_loop_inv:
  "rb_inv h \<Longrightarrow> rb_inv (snd (drb_write_loop P bs n w h)) \<and> rb_cap (snd (drb_write_loop P bs n w h)) = rb_cap h"
proof (induction "n - w" arbitrary: w h rule: less_induct)
  case less
  define free where "free = xRingbufferGetCurFreeSize P h"
  define chunk where "chunk = (if n - w > free then free else n - w)"
  have free: "free = rb_cap h - length (rb_contents h)" using rb_free [OF less.prems] by (simp add: free_def)
  have loop: "drb_write_loop P bs n w h =
      (if w < n \<and> free \<noteq> 0 \<and> chunk \<noteq> 0 then
        case xRingbufferSend P (take chunk (drop w bs)) h of
          (ok, h') \<Rightarrow> if ok then drb_write_loop P bs n (w + chunk) h' else (w, h')
       else (w, h))"
    by (subst drb_write_loop.simps) (auto simp: Let_def chunk_def free_def split: prod.splits)
  obtain h' where send: "xRingbufferSend P (take chunk (drop w bs)) h = (True, h')" "rb_inv h'" "rb_cap h' = rb_cap h"
  proof -
    have "length (take chunk (drop w bs)) \<le> free" by (auto simp: chunk_def min_def)
    then show thesis using rb_send_fits [OF less.prems, of "take chunk (drop w bs)"] free that by auto
  qed
  show ?case
  proof (cases "w < n \<and> free \<noteq> 0 \<and> chunk \<noteq> 0")
    case True
    then have "n - (w + chunk) < n - w" by auto
    from less.hyps [OF this send(2)] show ?thesis using loop True send by simp
  next
    case False
    have "drb_write_loop P bs n w h = (w, h)" by (rule trans [OF loop if_not_P [OF False]])
    then show ?thesis using less.prems by simp
  qed
qed

lemma write_wf: "ring_wf P rb_inv rb_cap d \<Longrightarrow> ring_wf P rb_inv rb_cap (snd (drb_write P (Some bs) n d))"
  using write_loop_inv [of "the (handle d)" bs n 0]
  by (cases "handle d"; cases "drb_write_loop P bs n 0 (the (handle d))")
    (auto simp: ring_wf_def drb_inv_def drb_write_def)

lemma handle_iff_bound: "drb_inv rb_inv rb_cap d \<Longrightarrow> handle d \<noteq> None \<longleftrightarrow> pb_isBound (prepend d)"
  by (simp add: drb_inv_def split: option.splits)

lemma read_wf: "ring_wf P rb_inv rb_cap d \<Longrightarrow> ring_wf P rb_inv rb_cap (snd (drb_read P True n d))"
  using read_spec [of d n "fst (drb_read P True n d)" "snd (drb_read P True n d)"]
    handle_iff_bound [of d] handle_iff_bound [of "snd (drb_read P True n d)"]
  by (auto simp: ring_wf_def)

lemma unread_wf: "ring_wf P rb_inv rb_cap d \<Longrightarrow> ring_wf P rb_inv rb_cap (snd (drb_unread bs d))"
  using unread_spec [of d bs "fst (drb_unread bs d)" "snd (drb_unread bs d)"]
    pb_writeToFront_cap [of "Some bs" "length bs" "prepend d"]
  by (auto simp: ring_wf_def drb_unread_def drb_writeToFront_def split: prod.splits)

lemma restore_wf: "ring_wf P rb_inv rb_cap d \<Longrightarrow> ring_wf P rb_inv rb_cap (snd (restore_drb P bs d))"
  using unread_wf [of d bs] write_wf [of "snd (drb_unread bs d)" bs "length bs"]
  by (auto simp: restore_drb_def drb_unread_def split: prod.splits)

lemma new_wf: "n < 2 ^ 31 \<Longrightarrow> wp (drb_new P n t) (\<lambda>d _. ring_wf P rb_inv rb_cap d) (s :: 'w wstate)"
  by (rule wp_mono [OF new_spec [OF _ prepend_small]]) (auto simp: ring_wf_def)

end

sublocale ring_platform \<subseteq> rings: ring_pred P "ring_wf P rb_inv rb_cap"
  by unfold_locales (auto simp: ring_ops_keep_def write_wf read_wf restore_wf intro!: new_wf [simplified])

context ring_platform
begin

lemma rings_pred: "ring_pred P (ring_wf P rb_inv rb_cap)"
  by (rule rings.ring_pred_axioms)

end

interpretation circular_rings: ring_platform ref_platform cr_inv cr_contents cr_cap
  by unfold_locales (simp add: ref_platform_def)

lemma tunnel_inv_slot:
  assumes "tunnel_inv P R s" and "0 \<le> i" and "i < maxSlots s"
  shows "slot_ok R (getSlot i s)"
  using assms chan_inv_slot(2) [of R s i] by (simp add: tunnel_inv_def in_range_def)

lemma tunnel_inv_count:
  assumes "tunnel_inv P R s"
  shows "0 \<le> activeCount s \<and> activeCount s \<le> max 0 (maxSlots s)"
proof (cases "slots s")
  case (Some ss)
  then show ?thesis
    using assms active_total_bounds [of ss] by (auto simp: tunnel_inv_def chan_inv_def max_def)
qed (use assms in \<open>auto simp: tunnel_inv_def chan_inv_def max_def\<close>)

text \<open>What the invariant says of the resources, written out.\<close>

lemma tunnel_inv_resources:
  assumes inv: "tunnel_inv P (\<lambda>_. True) s"
  shows "(\<forall>i. 0 \<le> i \<and> i < maxSlots s \<longrightarrow>
      (if active (getSlot i s)
       then toLocal (getSlot i s) \<noteq> None \<and> toRemote (getSlot i s) \<noteq> None \<and> 0 \<le> localSocket (getSlot i s)
         \<and> chstate (getSlot i s) \<noteq> Closed
       else toLocal (getSlot i s) = None \<and> toRemote (getSlot i s) = None \<and> localSocket (getSlot i s) < 0
         \<and> chstate (getSlot i s) = Closed \<and> sshChannel (getSlot i s) = NULL))
    \<and> (\<forall>ss. slots s = Some ss \<longrightarrow> activeCount s = int (length (filter active ss)))
    \<and> 0 \<le> activeCount s \<and> activeCount s \<le> max 0 (maxSlots s)
    \<and> length (pendingQueue s) \<le> 8 \<and> list_all (\<lambda>e. pc_channel e \<noteq> NULL) (pendingQueue s)
    \<and> length (deferredCloseQueue s) \<le> 4 \<and> list_all (\<lambda>e. pc_channel e \<noteq> NULL) (deferredCloseQueue s)
    \<and> length (pendingCloseEvents s) \<le> 32"
proof -
  have total: "active_total ss = int (length (filter active ss))" for ss :: "'b channel_slot list"
    by (induction ss) (auto simp: active_total_def)
  have slots: "if active (getSlot i s)
       then toLocal (getSlot i s) \<noteq> None \<and> toRemote (getSlot i s) \<noteq> None \<and> 0 \<le> localSocket (getSlot i s)
         \<and> chstate (getSlot i s) \<noteq> Closed
       else toLocal (getSlot i s) = None \<and> toRemote (getSlot i s) = None \<and> localSocket (getSlot i s) < 0
         \<and> chstate (getSlot i s) = Closed \<and> sshChannel (getSlot i s) = NULL"
    if "0 \<le> i \<and> i < maxSlots s" for i
    using tunnel_inv_slot [OF inv, of i] that by (auto simp: slot_defs ring_sat_def split: option.splits)
  have count: "activeCount s = int (length (filter active ss))" if "slots s = Some ss" for ss
    using inv that total by (simp add: tunnel_inv_def chan_inv_def)
  show ?thesis
    using inv tunnel_inv_count [OF inv]
    by (intro conjI allI impI; (elim slots count)?)
      (simp_all add: tunnel_inv_def queue_ok_def MAX_PENDING_def MAX_DEFERRED_CLOSE_def MAX_CLOSE_EVENTS_def)
qed

end
