(* ===== verification/World_Observer.thy ===== *)
theory World_Observer
  imports Tunnel_Invariant
begin

text \<open>
  Calls that an observer of the world does not see. \<open>silent_base\<close> lists the platform's functions apart
  from the session mutex and the two authentication calls; an operation made of such calls leaves what
  is observed, and the flag \<open>sessionMutex\<close>, as they were. The locale \<open>observed\<close> proves this once for every
  operation of the library that neither locks nor authenticates.
\<close>

definition silent :: "('w \<Rightarrow> 'o) \<Rightarrow> ('w \<Rightarrow> 'a \<times> 'w) \<Rightarrow> bool" where
  "silent obs f \<longleftrightarrow> (\<forall>w a w'. f w = (a, w') \<longrightarrow> obs w' = obs w)"

definition silent_system :: "('w \<Rightarrow> 'o) \<Rightarrow> ('w, 'r) platform \<Rightarrow> bool" where
  "silent_system obs P \<longleftrightarrow> silent obs (p_millis P) \<and> (\<forall>t. silent obs (p_vTaskDelay P t)) \<and> (\<forall>n. silent obs (p_malloc P n))
     \<and> (\<forall>c n. silent obs (p_heap_caps_malloc P c n)) \<and> silent obs (p_free P)
     \<and> (\<forall>c. silent obs (p_heap_caps_get_free_size P c)) \<and> (\<forall>c. silent obs (p_heap_caps_get_largest_free_block P c))
     \<and> (\<forall>m. silent obs (p_xSemaphoreCreateMutex P m)) \<and> (\<forall>m. silent obs (p_vSemaphoreDelete P m))
     \<and> (\<forall>m t. m \<noteq> SessionMutex \<longrightarrow> silent obs (p_xSemaphoreTake P m t)) \<and> (\<forall>m. m \<noteq> SessionMutex \<longrightarrow> silent obs (p_xSemaphoreGive P m))"

definition silent_sockets :: "('w \<Rightarrow> 'o) \<Rightarrow> ('w, 'r) platform \<Rightarrow> bool" where
  "silent_sockets obs P \<longleftrightarrow> silent obs (p_socket P) \<and> (\<forall>fd. silent obs (p_close P fd)) \<and> (\<forall>fd h. silent obs (p_shutdown P fd h))
     \<and> (\<forall>h. silent obs (p_inet_pton P h)) \<and> (\<forall>h. silent obs (p_gethostbyname P h)) \<and> (\<forall>fd. silent obs (p_fcntl_getfl P fd))
     \<and> (\<forall>fd n. silent obs (p_fcntl_setfl_nonblock P fd n)) \<and> (\<forall>fd h p. silent obs (p_connect P fd h p))
     \<and> (\<forall>fd n. silent obs (p_select_writable P fd n)) \<and> (\<forall>fd. silent obs (p_getsockopt_error P fd))
     \<and> (\<forall>fd o1 v. silent obs (p_setsockopt P fd o1 v)) \<and> (\<forall>fd n. silent obs (p_recv P fd n)) \<and> (\<forall>fd bs. silent obs (p_send P fd bs))"

definition silent_libssh2 :: "('w \<Rightarrow> 'o) \<Rightarrow> ('w, 'r) platform \<Rightarrow> bool" where
  "silent_libssh2 obs P \<longleftrightarrow> silent obs (libssh2_init P) \<and> silent obs (libssh2_session_init P)
     \<and> (\<forall>x fd. silent obs (libssh2_session_handshake P x fd)) \<and> (\<forall>x b. silent obs (libssh2_session_set_blocking P x b))
     \<and> (\<forall>x. silent obs (libssh2_session_disconnect P x)) \<and> (\<forall>x. silent obs (libssh2_session_free P x))
     \<and> (\<forall>x. silent obs (libssh2_session_last_errno P x)) \<and> (\<forall>x. silent obs (libssh2_session_last_error P x))
     \<and> (\<forall>x. silent obs (libssh2_session_hostkey P x)) \<and> (\<forall>x. silent obs (libssh2_hostkey_hash_sha256 P x))
     \<and> (\<forall>x n. silent obs (libssh2_keepalive_config P x n)) \<and> (\<forall>x. silent obs (libssh2_keepalive_send P x))
     \<and> (\<forall>x u. silent obs (libssh2_userauth_list P x u))
     \<and> (\<forall>x h p n. silent obs (libssh2_channel_forward_listen_ex P x h p n)) \<and> (\<forall>l. silent obs (libssh2_channel_forward_cancel P l))
     \<and> (\<forall>l. silent obs (libssh2_channel_forward_accept P l)) \<and> (\<forall>c b. silent obs (libssh2_channel_set_blocking P c b))
     \<and> (\<forall>c n. silent obs (libssh2_channel_read P c n)) \<and> (\<forall>c bs. silent obs (libssh2_channel_write P c bs))
     \<and> (\<forall>c. silent obs (libssh2_channel_eof P c)) \<and> (\<forall>c. silent obs (libssh2_channel_send_eof P c))
     \<and> (\<forall>c. silent obs (libssh2_channel_close P c)) \<and> (\<forall>c. silent obs (libssh2_channel_free P c))"

definition same_view :: "('w \<Rightarrow> 'o) \<Rightarrow> ('w, 'z) session_state_scheme \<Rightarrow> ('w, 'z) session_state_scheme \<Rightarrow> bool" where
  "same_view obs s s' \<longleftrightarrow> obs (world s') = obs (world s) \<and> sessionMutex s' = sessionMutex s"

lemma same_view_refl: "same_view obs s s"
  by (simp add: same_view_def)

lemma keeps_same_ext: "silent obs f \<Longrightarrow> keeps (same_view obs s) (ext f)"
  by (auto simp: keeps_def wp_simps same_view_def silent_def split: prod.splits)

lemma keeps_same_modify:
  "(\<And>t. world (f t) = world t \<and> sessionMutex (f t) = sessionMutex t) \<Longrightarrow> keeps (same_view obs s) (modify f)"
  by (auto simp: keeps_def wp_simps same_view_def)

lemma keeps_same_slot: "keeps (same_view obs s) (modify_slot i f)"
  unfolding modify_slot_def by (rule keeps_same_modify) (simp add: upd_slot_def)

lemma wp_same:
  assumes "\<And>s. keeps (same_view obs s) m" and "\<And>a s'. same_view obs s s' \<Longrightarrow> Q a s'"
  shows "wp m Q s"
  by (rule wp_keep [OF assms(1) same_view_refl assms(2)])

locale observed =
  fixes P :: "('w, 'r) platform" and obs :: "'w \<Rightarrow> 'o"
  assumes quiet_system: "silent_system obs P" and quiet_sockets: "silent_sockets obs P" and quiet_libssh2: "silent_libssh2 obs P"
begin

lemmas quiet = quiet_system [unfolded silent_system_def] quiet_sockets [unfolded silent_sockets_def]
  quiet_libssh2 [unfolded silent_libssh2_def]

lemmas same_prims = keeps_intros keeps_same_slot keeps_same_modify keeps_same_ext

lemma same_session:
  "keeps (same_view obs s) (resetAcceptState P)" "keeps (same_view obs s) (optimizeSocket P fd n)"
  "keeps (same_view obs s) (optimizeSSHSocket P fd)" "keeps (same_view obs s) (checkConnection P)"
  unfolding optimizeSSHSocket_def optimizeSocket_def resetAcceptState_def checkConnection_def
  by (intro same_prims; simp add: quiet)+

lemma same_free_retry: "keeps (same_view obs s) (free_retry P x n rc)"
  by (induction n arbitrary: rc) (auto intro!: same_prims simp: quiet)

lemma same_tcpConnect: "keeps (same_view obs s) (tcpConnect P cfg)"
  unfolding tcpConnect_def by (intro same_prims same_session; simp add: quiet)

lemma same_config:
  "keeps (same_view obs s) (diagnoseSSHKeys P)" "keeps (same_view obs s) (validateSSHKeys P)"
  "keeps (same_view obs s) (addTunnelMapping_cfg P m)" "keeps (same_view obs s) (removeTunnelMapping P k)"
  unfolding diagnoseSSHKeys_def validateSSHKeys_def addTunnelMapping_cfg_def removeTunnelMapping_def locked_update_def
    lockConfig_def unlockConfig_def
  by (intro same_prims; simp add: quiet)+

lemma same_rings:
  "keeps (same_view obs s) (drb_new P n t)" "keeps (same_view obs s) (drb_delete P d)"
  "keeps (same_view obs s) (delete_ring P r)" "keeps (same_view obs s) (safeMalloc P n)"
  "keeps (same_view obs s) (ring_write P i dir bs n)" "keeps (same_view obs s) (ring_read P i dir n)"
  "keeps (same_view obs s) (restoreUnsent P i dir bs)"
  unfolding drb_new_def drb_delete_def delete_ring_def psramAlloc_def psramFree_def safeMalloc_def ring_write_def
    ring_read_def restoreUnsent_def on_ring_def
  by (intro same_prims; simp add: quiet)+

lemma same_connectToLocalEndpoint: "keeps (same_view obs s) (connectToLocalEndpoint P m)"
  unfolding connectToLocalEndpoint_def Let_def by (intro same_prims same_session; simp add: quiet)

lemma same_heap_guard: "keeps (same_view obs s) (heap_guard P n)"
  unfolding heap_guard_def by (intro same_prims; simp add: quiet)

lemma same_resetSlot: "keeps (same_view obs s) (resetSlot i)"
  unfolding resetSlot_def by (intro same_prims)

lemma same_bindChannel: "keeps (same_view obs s) (bindChannel P i ch m)"
  unfolding bindChannel_def
  by (intro same_prims same_rings same_connectToLocalEndpoint same_heap_guard same_resetSlot; simp add: quiet)

lemma same_close:
  "keeps (same_view obs s) (beginClose P i r)" "keeps (same_view obs s) (finalizeClose P i)"
  "keeps (same_view obs s) (abandonSlot P i r)"
  unfolding beginClose_def finalizeClose_def finalize_ssh_def finalize_local_def abandonSlot_def close_local_def
    count_buffered_dropped_def free_rings_def archiveSlotStats_def
  by (intro same_prims same_rings same_resetSlot; simp add: quiet)+

lemma same_allocateSlot: "keeps (same_view obs s) (allocateSlot P)"
  unfolding allocateSlot_def by (intro same_prims same_close; simp add: quiet)

lemmas same_ops = same_prims same_rings same_close

lemma same_checks:
  "keeps (same_view obs s) (channel_error P i)" "keeps (same_view obs s) (check_local_stall P i)"
  "keeps (same_view obs s) (check_write_stall P i)" "keeps (same_view obs s) (shutdown_local P i)"
  "keeps (same_view obs s) (check_eof_flag P i)" "keeps (same_view obs s) (restore_and_account P i dir bs)"
  "keeps (same_view obs s) (add_moved n)" "keeps (same_view obs s) (push_close_event i r)"
  unfolding channel_error_def check_local_stall_def check_write_stall_def shutdown_local_def check_eof_flag_def
    restore_and_account_def accountRestoreDrop_def add_moved_def push_close_event_def
  by (intro same_ops; simp add: quiet)+

lemma same_store: "keeps (same_view obs s) (store_received P i bs rc)"
  unfolding store_received_def by (intro same_ops same_checks; simp add: quiet)

lemma same_pump_paused: "keeps (same_view obs s) (pump_paused P i)"
  unfolding pump_paused_def Let_def by (intro same_ops same_checks same_store; simp add: quiet)

lemma same_read_chunks: "keeps (same_view obs s) (read_chunks P i n b)"
  by (induction n arbitrary: b) (auto simp: Let_def quiet intro!: same_ops same_checks same_store)

lemma same_read_open: "keeps (same_view obs s) (read_open_channel P i)"
  unfolding read_open_channel_def by (intro same_ops same_checks same_read_chunks)

lemma same_pump_channels: "keeps (same_view obs s) (pump_channels P is b)"
  by (induction "is" arbitrary: b)
    (auto simp: pump_channel_def quiet intro!: same_ops same_read_open same_pump_paused)

lemma same_drain_local_chunks: "keeps (same_view obs s) (drain_local_chunks P i n)"
  by (induction n) (auto simp: drain_local_chunk_def Let_def quiet intro!: same_ops same_checks)

lemma same_drainSshToLocal: "keeps (same_view obs s) (drainSshToLocal P)"
  unfolding drainSshToLocal_def drain_local_channel_def
  by (intro same_ops same_checks same_drain_local_chunks)

lemma same_write_loop: "keeps (same_view obs s) (write_loop P i fuel b)"
  by (induction fuel arbitrary: b)
    (subst write_loop.simps; auto simp: write_chunk_def Let_def quiet intro!: same_ops same_checks)+

lemma same_recv_chunks: "keeps (same_view obs s) (recv_chunks P i n)"
  by (induction n) (auto simp: Let_def quiet intro!: same_ops same_checks)

lemma same_recv_channel: "keeps (same_view obs s) (recv_channel P i)"
  unfolding recv_channel_def by (intro same_ops same_recv_chunks)

lemma same_check_open: "keeps (same_view obs s) (check_open P now i)"
  unfolding check_open_def by (intro same_ops same_checks)

lemma same_check_draining: "keeps (same_view obs s) (check_draining P now n is work)"
  by (induction "is" arbitrary: work) (auto intro!: same_ops same_checks keeps_case_decision)

lemma same_send_eof: "keeps (same_view obs s) (send_eof P i)"
proof -
  have "keeps (same_view obs s) (pump_after_eof P i n)" for n and s :: "('w, 'r, 'z) channel_state_scheme"
    by (induction n) (auto intro!: same_ops simp: quiet)
  then show ?thesis unfolding send_eof_def by (intro same_ops; simp add: quiet)
qed

lemma same_finalize_one: "keeps (same_view obs s) (finalize_one P i)"
  unfolding finalize_one_def Let_def by (intro same_ops same_checks)

lemma same_close_and_free: "keeps (same_view obs s) (close_and_free P ch)"
  unfolding close_and_free_def by (intro same_prims; simp add: quiet)

lemma same_close_entries: "keeps (same_view obs s) (close_entries P q)"
  unfolding close_entries_def by (intro same_prims same_close_and_free)

lemma same_tunnel:
  "keeps (same_view obs s) (emit h e)"
  "keeps (same_view obs s) (abandon_all P r)" "keeps (same_view obs s) drop_queues"
  "keeps (same_view obs s) (updateStats P)"
  "keeps (same_view obs s) (enqueuePending P ch m)"
  unfolding emit_def abandon_all_def drop_queues_def updateStats_def enqueuePending_def
  by (intro same_ops; simp add: quiet)+

end

end
