(* ===== verification/Scenario.thy ===== *)
theory Scenario
  imports Tunnel_Invariant
begin

text \<open>
  A run of the whole program on the reference platform: the tunnel is initialised, connects, and
  accepts one forwarded channel, which it binds to a local socket. The state it reaches is used to
  exhibit inputs that satisfy the hypotheses of the theorems about the running system.
\<close>

definition sc_mapping :: tunnel_config where
  "sc_mapping = \<lparr>remoteBindHost = ''r'', remoteBindPort = 80, localHost = ''l'', localPort = 81\<rparr>"

definition sc_world :: ref_world where
  "sc_world = rw_init\<lparr>rw_accept := [7]\<rparr>"

definition sc_config :: "(ref_world, cring) tunnel" where
  "sc_config = (tunnel_new sc_world True)\<lparr>
     sshConfig := ssh_server_default\<lparr>sc_host := ''h'', sc_username := ''u'', sc_password := ''p''\<rparr>,
     tunnelMappings := [sc_mapping],
     connectionConfig := connection_default\<lparr>maxChannels := 1, bufferSize := 64, tunnelRingBufferSize := 8192\<rparr>\<rparr>"

definition sc_up :: "(ref_world, cring) tunnel" where
  "sc_up = after (connectSSH ref_platform) (after (tunnel_init ref_platform) sc_config)"

definition sc_bound :: "(ref_world, cring) tunnel" where
  "sc_bound = after (handleNewConnection ref_platform) sc_up"

section \<open>Evaluation\<close>

lemmas scenario_platform = ref_platform_def rw_answer_alloc_def rw_answer_rc_def rw_take_def rw_give_def rw_auth_def

lemmas scenario_init = after_def tunnel_init_def session_init_def channels_init_def channels_destroy_def
  safeMalloc_def pump_init_def pump_attach_def sc_config_def sc_world_def sc_mapping_def rw_init_def
  tunnel_new_def ssh_server_default_def connection_default_def

lemmas scenario_session = connectSSH_def session_connect_def resetAcceptState_def connect_steps_def tcpConnect_def
  optimizeSSHSocket_def optimizeSocket_def handshake_def session_lock_def session_unlock_def
  verifyHostKey_def authenticate_def auth_password_def configureKeepalive_def createListeners_def
  cancelAllListeners_def createListenerForMapping_def pdMS_TO_TICKS_def emitSessionConnected_def emit_def
  c_str_def listen_attempts.simps(2) [where n = 49, simplified]

lemma fresh_breaker: "isBackedOff cb_new p now = False"
  by (simp add: isBackedOff_def cb_new_def cb_find_def MAX_MAPPING_HEALTH_def unused_health_def numeral_eq_Suc)

lemmas scenario_accept = handleNewConnection_def acceptChannel_def isMappingBackedOff_def fresh_breaker
  recordAcceptSuccess_def recordAcceptNoChannel_def accept_diag_no_channel_def
  allocateSlot_def bind_new_def bindAcceptedChannel_def bindChannel_def connectToLocalEndpoint_def heap_guard_def
  getSlot_def modify_slot_def upd_slot_def resetSlot_def reset_slot_def drb_new_def psramAlloc_def
  emitChannelOpened_def findFreeSlot_def slot_default_def cr_create_def hasContiguousCapacity_def
  mem_requirements_def drb_capacityBytes_def

lemma sc_up_eq:
  "sc_up = sc_config\<lparr>world := (world sc_config)\<lparr>rw_creds := [(''u'', ''p'')]\<rparr>, statsMutex := True,
     sessionMutex := True, libssh2Initialized := True, hasConfig := True, session := 1, socketfd := 5,
     listeners := [\<lparr>le_listener = 1, le_mapping = sc_mapping, le_boundPort = 80\<rparr>], boundPort := 80,
     sessionConnectedMs := 1000, lastKeepaliveOkMs := 1000,
     slots := Some [slot_default], maxSlots := 1, ringBufferSize := 8192,
     pumpAttached := True, rxBuf := True, txBuf := True, bufSize := 64,
     tstate := TUNNEL_CONNECTED, lastKeepAlive := 1000, lastConnectionAttempt := 1000\<rparr>"
  by (simp add: sc_up_def scenario_init scenario_session scenario_platform Let_def)

definition sc_ring :: "string \<Rightarrow> cring data_ring_buffer" where
  "sc_ring suffix = \<lparr>handle = Some \<lparr>cr_mem = replicate 8192 0, cr_rd = 0, cr_used = 0\<rparr>, capacity = 8192,
     tag = ring_tag 0 suffix, ringStorage = True, ringStruct = True, prependStorage = True,
     prepend = pb_reset (Some (replicate 64 0)) 64 pb_default\<rparr>"

definition sc_slot :: "cring channel_slot" where
  "sc_slot = slot_default\<lparr>sshChannel := 7, localSocket := 5, active := True, endpoint := snapshot_endpoint sc_mapping,
     toLocal := Some (sc_ring ''_toLocal''), toRemote := Some (sc_ring ''_toRemote''), chstate := Open,
     lastActivity := 1000, lastSuccessfulWrite := 1000, lastSuccessfulRead := 1000\<rparr>"

lemma sc_bound_eq:
  "sc_bound = sc_up\<lparr>world := (world sc_up)\<lparr>rw_accept := []\<rparr>, slots := Some [sc_slot], activeCount := 1,
     breaker := recordSuccess 80 cb_new\<rparr>"
  by (simp add: sc_bound_def sc_up_eq scenario_init scenario_session scenario_accept scenario_platform Let_def
      sc_slot_def sc_ring_def)

text \<open>One round of the main loop: a second poll for channels, and a pump cycle with nothing to move.\<close>

definition sc_running :: "(ref_world, cring) tunnel" where
  "sc_running = after (tunnel_loop ref_platform) sc_up"

lemmas scenario_loop = tunnel_loop_def isConnected_def check_socket_health_def checkConnection_def keepalive_step_def
  hasFatalAcceptFailure_def shouldReconnectAfterConsecutiveErrors_def isFatal_def isFatalAcceptError_def
  isBenignNoChannel_def pump_and_report_def consumeCloseEvents_def queue_step_tail_def updateStats_def
  getTotalBytesReceived_def getTotalBytesSent_def getTotalBytesDropped_def total_over_active_def

lemma one_slot: "[0..0 :: int] = [0]"
  by (simp add: upto.simps)

lemmas scenario_pump = pumpAll_def pumpSshTransport_def pump_order_def rr_index_def one_slot pump_channel_def
  read_open_channel_def read_chunks.simps(2) [where n = 3, simplified] check_eof_flag_def rw_answer_read_def
  drainSshToLocal_def drain_local_channel_def drain_local_chunks.simps(2) [where n = 3, simplified]
  drain_local_chunk_def check_local_stall_def drainLocalToSsh_def drain_remote_channel_def write_channel_def
  update_backpressure_def recv_channel_def recv_chunks.simps(2) [where n = 2, simplified] rw_answer_recv_def
  checkCloses_def check_open_def shutdown_local_def expired_def

lemmas scenario_rings = sc_ring_def ring_available_def drb_available_def cr_free_def ring_empty_def drb_empty_def
  ring_size_def drb_size_def pb_pending_def pb_reset_def pb_default_def sz_add_def drb_capacityBytes_def

lemma sc_slot_facts [simp]:
  "active sc_slot" "sshChannel sc_slot = 7" "localSocket sc_slot = 5" "chstate sc_slot = Open"
  "toLocal sc_slot = Some (sc_ring ''_toLocal'')" "toRemote sc_slot = Some (sc_ring ''_toRemote'')"
  "\<not> remoteEof sc_slot" "\<not> localEof sc_slot" "\<not> sshReadPaused sc_slot" "\<not> localReadPaused sc_slot"
  "firstLocalSendEagainMs sc_slot = 0" "eofSentMs sc_slot = 0" "consecutiveErrors sc_slot = 0"
  "lastActivity sc_slot = 1000" "totalBytesReceived sc_slot = 0" "totalBytesSent sc_slot = 0"
  "totalBytesDropped sc_slot = 0"
  by (simp_all add: sc_slot_def slot_default_def)

lemma sc_accepts:
  "run_state (handleNewConnection ref_platform) sc_up = (True, sc_bound)"
  "run_state (handleNewConnection ref_platform) sc_bound = (False, sc_bound\<lparr>lastAcceptError := -37\<rparr>)"
proof -
  show "run_state (handleNewConnection ref_platform) sc_up = (True, sc_bound)"
    by (simp add: sc_bound_eq sc_up_eq scenario_init scenario_session scenario_accept scenario_platform Let_def
        sc_slot_def sc_ring_def)
  show "run_state (handleNewConnection ref_platform) sc_bound = (False, sc_bound\<lparr>lastAcceptError := -37\<rparr>)"
    by (simp add: sc_bound_eq sc_up_eq scenario_init scenario_session scenario_accept scenario_platform Let_def
        scenario_loop)
qed

lemma sc_pump:
  "run_state (pump_and_report ref_platform) (sc_bound\<lparr>lastAcceptError := -37\<rparr>)
    = (True, sc_bound\<lparr>lastAcceptError := -37, roundRobinOffset := 1\<rparr>)"
  by (simp add: sc_bound_eq sc_up_eq scenario_init scenario_session scenario_platform Let_def scenario_pump
      scenario_rings getSlot_def modify_slot_def upd_slot_def pump_and_report_def consumeCloseEvents_def MAX_CLOSE_EVENTS_def)

lemma sc_up_ready:
  "tstate sc_up = TUNNEL_CONNECTED" "isConnected sc_up" "maxSlots sc_up = 1" "deferredCloseQueue sc_up = []"
  "run_state (check_socket_health ref_platform) sc_up = (True, sc_up)"
  "run_state (keepalive_step ref_platform) sc_up = (True, sc_up)"
  by (simp_all add: sc_up_eq scenario_init scenario_platform scenario_loop sc_config_def)

lemma sc_tail:
  "run_state (queue_step_tail ref_platform) (sc_bound\<lparr>lastAcceptError := -37, roundRobinOffset := 1\<rparr>)
    = ((), sc_bound\<lparr>lastAcceptError := -37, roundRobinOffset := 1\<rparr>)"
  by (simp add: sc_bound_eq sc_up_eq scenario_init scenario_platform scenario_loop one_slot getSlot_def pdMS_TO_TICKS_def)

lemma sc_running_eq: "sc_running = sc_bound\<lparr>lastAcceptError := -37, roundRobinOffset := 1\<rparr>"
  by (simp add: sc_running_def after_def tunnel_loop_def sc_up_ready sc_accepts sc_pump sc_tail numeral_2_eq_2)

lemma single_slot: "maxSlots s = 1 \<Longrightarrow> in_range i s \<longleftrightarrow> i = 0"
  by (auto simp: in_range_def)

lemma sc_running_slot: "maxSlots sc_running = 1" "bufSize sc_running = 64" "getSlot 0 sc_running = sc_slot"
  by (simp_all add: sc_running_eq sc_bound_eq sc_up_eq getSlot_def)

lemma sc_up_reach: "tunnel_reach ref_platform sc_up"
proof -
  have "tunnel_reach ref_platform ((tunnel_new sc_world True)\<lparr>world := sc_world,
     sshConfig := ssh_server_default\<lparr>sc_host := ''h'', sc_username := ''u'', sc_password := ''p''\<rparr>,
     tunnelMappings := [sc_mapping],
     connectionConfig := connection_default\<lparr>maxChannels := 1, bufferSize := 64, tunnelRingBufferSize := 8192\<rparr>,
     debugConfig := debug_default\<rparr>)"
    by (intro tunnel_reach.others tunnel_reach.new)
  then have "tunnel_reach ref_platform sc_config" by (simp add: sc_config_def tunnel_new_def)
  then show ?thesis
    unfolding sc_up_def by (intro tunnel_reach.connect tunnel_reach.init) (simp_all add: sc_config_def)
qed

lemma sc_bound_inv: "tunnel_inv ref_platform (ring_wf ref_platform cr_inv cr_cap) sc_bound"
proof -
  have "tunnel_inv ref_platform (ring_wf ref_platform cr_inv cr_cap) sc_up"
    by (rule circular_rings.rings.reach_inv [OF sc_up_reach])
  then show ?thesis
    unfolding sc_bound_def by (rule after_keeps [OF circular_rings.rings.keeps_handleNewConnection])
qed

lemma sc_running_reach: "tunnel_reach ref_platform sc_running"
  unfolding sc_running_def by (intro tunnel_reach.loop sc_up_reach)

section \<open>The local server closes\<close>

definition sc_eof :: "(ref_world, cring) tunnel" where
  "sc_eof = sc_running\<lparr>world := (world sc_running)\<lparr>rw_recv := [(0, [], 0)]\<rparr>\<rparr>"

lemma sc_eof_ready:
  "tstate sc_eof = TUNNEL_CONNECTED" "isConnected sc_eof" "maxSlots sc_eof = 1" "deferredCloseQueue sc_eof = []"
  "run_state (check_socket_health ref_platform) sc_eof = (True, sc_eof)"
  "run_state (keepalive_step ref_platform) sc_eof = (True, sc_eof)"
  "run_state (handleNewConnection ref_platform) sc_eof = (False, sc_eof)"
  by (simp_all add: sc_eof_def sc_running_eq sc_bound_eq sc_up_eq scenario_init scenario_platform scenario_loop
      scenario_session scenario_accept sc_config_def)

definition sc_draining_slot :: "cring channel_slot" where
  "sc_draining_slot = sc_slot\<lparr>localEof := True, chstate := Draining, closeStartMs := 1000, closeReason := LocalClosed,
     eofSentMs := 1000\<rparr>"

definition sc_draining :: "(ref_world, cring) tunnel" where
  "sc_draining = after (tunnel_loop ref_platform) sc_eof"

lemma sc_eof_pump:
  "run_state (pump_and_report ref_platform) sc_eof
    = (True, sc_running\<lparr>slots := Some [sc_draining_slot], roundRobinOffset := 2\<rparr>)"
  by (simp add: sc_eof_def sc_running_eq sc_bound_eq sc_up_eq scenario_init scenario_session scenario_platform Let_def
      scenario_pump scenario_rings sc_draining_slot_def getSlot_def modify_slot_def upd_slot_def pump_and_report_def
      consumeCloseEvents_def MAX_CLOSE_EVENTS_def beginClose_def drain_decide_def send_eof_def
      pump_after_eof.simps(2) [where n = 3, simplified] push_bounded_def HARD_ABANDON_TIMEOUT_MS_def DRAIN_TIMEOUT_MS_def)

lemma sc_draining_eq: "sc_draining = sc_running\<lparr>slots := Some [sc_draining_slot], roundRobinOffset := 2\<rparr>"
proof -
  have "run_state (queue_step_tail ref_platform) (sc_running\<lparr>slots := Some [sc_draining_slot], roundRobinOffset := 2\<rparr>)
    = ((), sc_running\<lparr>slots := Some [sc_draining_slot], roundRobinOffset := 2\<rparr>)"
    by (simp add: sc_running_eq sc_bound_eq sc_up_eq scenario_init scenario_platform scenario_loop one_slot getSlot_def
        pdMS_TO_TICKS_def sc_draining_slot_def)
  then show ?thesis
    by (simp add: sc_draining_def after_def tunnel_loop_def sc_eof_ready sc_eof_pump numeral_2_eq_2)
qed

lemma sc_draining_reach: "tunnel_reach ref_platform (sc_draining\<lparr>world := w\<rparr>)"
proof -
  have move: "s\<lparr>world := w\<rparr> = s\<lparr>world := w, sshConfig := sshConfig s, tunnelMappings := tunnelMappings s,
      connectionConfig := connectionConfig s, debugConfig := debugConfig s\<rparr>" for s :: "(ref_world, cring) tunnel" and w
    by simp
  have w: "tunnel_reach ref_platform s \<Longrightarrow> tunnel_reach ref_platform (s\<lparr>world := w\<rparr>)" for s w
    by (subst move) (rule tunnel_reach.others)
  show ?thesis
    unfolding sc_draining_def sc_eof_def by (intro w tunnel_reach.loop sc_running_reach)
qed

section \<open>Properties\<close>

text \<open>
  C2: In every reachable state of the tunnel object, whatever the network, the heap and the peer
  do: an active slot owns both ring buffers and an open local socket and is Open or Draining; an
  inactive slot owns nothing; the active counter is the number of active slots; the queue of pending
  channels has at most 8 entries, that of deferred closes at most 4, none of them null, and at most
  32 close events are pending.
\<close>

theorem reachable_resources:
  assumes "tunnel_reach P s"
  shows "(\<forall>i. 0 \<le> i \<and> i < maxSlots s \<longrightarrow>
      (if active (getSlot i s)
       then toLocal (getSlot i s) \<noteq> None \<and> toRemote (getSlot i s) \<noteq> None \<and> 0 \<le> localSocket (getSlot i s)
         \<and> chstate (getSlot i s) \<noteq> Closed
       else toLocal (getSlot i s) = None \<and> toRemote (getSlot i s) = None \<and> localSocket (getSlot i s) < 0
         \<and> chstate (getSlot i s) = Closed \<and> sshChannel (getSlot i s) = NULL))
    \<and> (\<forall>ss. slots s = Some ss \<longrightarrow> activeCount s = int (length (filter active ss)))
    \<and> 0 \<le> activeCount s \<and> activeCount s \<le> max 0 (maxSlots s)
    \<and> length (pendingQueue s) \<le> 8 \<and> list_all (\<lambda>e. pc_channel e \<noteq> NULL) (pendingQueue s)
    \<and> length (deferredCloseQueue s) \<le> 4 \<and> list_all (\<lambda>e. pc_channel e \<noteq> NULL) (deferredCloseQueue s)
    \<and> length (pendingCloseEvents s) \<le> 32"
  by (rule tunnel_inv_resources [OF any_ring.reach_inv [OF assms]])

theorem reachable_resources_witness:
  "active (getSlot 0 sc_running) \<and> activeCount sc_running = 1 \<and> toLocal (getSlot 0 sc_running) \<noteq> None
    \<and> 0 \<le> localSocket (getSlot 0 sc_running) \<and> length (pendingQueue sc_running) \<le> 8"
proof -
  have ss: "slots sc_running = Some [sc_slot]" by (simp add: sc_running_eq sc_bound_eq)
  show ?thesis
    using reachable_resources [OF sc_running_reach] ss by (simp add: sc_running_slot)
qed

text \<open>
  C3: Over a correct FreeRTOS ring, in every reachable state each ring buffer of an active slot is
  well-formed, and when its construction succeeded its put-back area has the configured capacity,
  which is at least the pump's transfer size: a partial send can always be put back.
\<close>

theorem reachable_rings:
  assumes "ring_platform P rb_inv rb_contents rb_cap" and "tunnel_reach P s"
    and "0 \<le> i" and "i < maxSlots s" and "active (getSlot i s)"
  shows "\<exists>l r. toLocal (getSlot i s) = Some l \<and> toRemote (getSlot i s) = Some r
    \<and> drb_inv rb_inv rb_cap l \<and> drb_inv rb_inv rb_cap r
    \<and> (handle l \<noteq> None \<longrightarrow> bufSize s \<le> pb_cap (prepend l)) \<and> (handle r \<noteq> None \<longrightarrow> bufSize s \<le> pb_cap (prepend r))"
proof -
  have inv: "tunnel_inv P (ring_wf P rb_inv rb_cap) s"
    by (rule ring_pred.reach_inv [OF ring_platform.rings_pred [OF assms(1)] assms(2)])
  with tunnel_inv_slot [OF inv assms(3,4)] assms(5) show ?thesis
    by (auto simp: slot_defs ring_sat_def ring_wf_def tunnel_inv_def split: option.splits)
qed

theorem reachable_rings_witness:
  "\<exists>l r. toLocal (getSlot 0 sc_running) = Some l \<and> toRemote (getSlot 0 sc_running) = Some r
    \<and> handle l \<noteq> None \<and> drb_inv cr_inv cr_cap l \<and> drb_inv cr_inv cr_cap r \<and> bufSize sc_running \<le> pb_cap (prepend l)"
  using reachable_rings [OF circular_rings.ring_platform_axioms sc_running_reach, of 0]
  by (simp add: sc_running_slot sc_ring_def)

end
