(* ===== verification/Lock_Balance.thy ===== *)
theory Lock_Balance
  imports World_Observer Scenario
begin

text \<open>
  The session mutex: no operation of the tunnel returns while holding it, and none requests it
  while holding it (it is not recursive, so that would block until the timeout and fail). The
  locale \<open>session_mutex\<close> states the semantics of the semaphore in terms of an observer of the world:
  how often the mutex is held, and whether it was ever requested by its holder.
\<close>

locale session_mutex = observed P lockview
  for P :: "('w, 'r) platform" and lockview :: "'w \<Rightarrow> nat \<times> bool" +
  assumes take_mutex: "p_xSemaphoreTake P SessionMutex t w = (b, w') \<Longrightarrow>
      (if fst (lockview w) = 0 then lockview w' = (of_bool b, snd (lockview w))
       else \<not> b \<and> lockview w' = (fst (lockview w), True))"
    and give_mutex: "p_xSemaphoreGive P SessionMutex w = (u, w') \<Longrightarrow> lockview w' = (fst (lockview w) - 1, snd (lockview w))"
    and quiet_auth: "silent lockview (libssh2_userauth_password P x user pw)"
      "silent lockview (libssh2_userauth_publickey_frommemory P x user pub priv pass)"

definition unlocked :: "('w \<Rightarrow> nat \<times> bool) \<Rightarrow> ('w, 'z) session_state_scheme \<Rightarrow> bool" where
  "unlocked lockview s \<longleftrightarrow> lockview (world s) = (0, False)"

definition holding :: "('w \<Rightarrow> nat \<times> bool) \<Rightarrow> ('w, 'z) session_state_scheme \<Rightarrow> bool" where
  "holding lockview s \<longleftrightarrow> lockview (world s) = (1, False) \<and> sessionMutex s"

text \<open>\<open>m\<close> starts with the mutex held and has released it at the end.\<close>

definition releases :: "('w \<Rightarrow> nat \<times> bool) \<Rightarrow> (('w, 'z) session_state_scheme, 'a) state \<Rightarrow> bool" where
  "releases lockview m \<longleftrightarrow> (\<forall>s. holding lockview s \<longrightarrow> wp m (\<lambda>_. unlocked lockview) s)"

lemma releases_same:
  assumes "\<And>s. keeps (same_view lv s) m" and "\<And>a. releases lv (f a)"
  shows "releases lv (State_Monad.bind m f)"
  unfolding releases_def wp_bind
  using assms(2) by (auto simp: releases_def holding_def same_view_def intro!: wp_same [OF assms(1)])

lemma releases_bind:
  assumes "releases lv m" and "\<And>a. keeps (unlocked lv) (f a)"
  shows "releases lv (State_Monad.bind m f)"
  unfolding releases_def wp_bind
  by (intro allI impI, rule wp_mono [OF assms(1) [unfolded releases_def, rule_format]]) (auto intro: keepsD [OF assms(2)])

lemma releases_if: "(b \<Longrightarrow> releases lv m) \<Longrightarrow> (\<not> b \<Longrightarrow> releases lv n) \<Longrightarrow> releases lv (if b then m else n)"
  by simp

lemma releases_prod: "(\<And>a b. releases lv (f a b)) \<Longrightarrow> releases lv (case x of (a, b) \<Rightarrow> f a b)"
  by (simp split: prod.split)

lemma releases_let: "(\<And>x. releases lv (f x)) \<Longrightarrow> releases lv (let x = e in f x)"
  by simp

lemma releases_whenM: "releases lv m \<Longrightarrow> releases lv (whenM True m)"
  by (simp add: whenM_def)

lemma releases_branch:
  "releases lv (State_Monad.bind m (\<lambda>a. State_Monad.bind (n a) f)) \<Longrightarrow>
     releases lv (State_Monad.bind (if True then State_Monad.bind m n else k) f)"
  by (simp add: bind_assoc)

lemma releases_gets: "(\<And>a. releases lv (f a)) \<Longrightarrow> releases lv (State_Monad.bind (gets g) f)"
  by (rule releases_same) (intro keeps_intros)

lemma keeps_if_False: "keeps J n \<Longrightarrow> keeps J (if False then m else n)"
  by simp

lemma keeps_whenM_False: "keeps J (whenM False m)"
  by (simp add: whenM_def keeps_return)

lemma unlocked_same: "(\<And>s. keeps (same_view lv s) m) \<Longrightarrow> keeps (unlocked lv) m"
  by (rule keepsI, rule wp_same) (auto simp: unlocked_def same_view_def)

context session_mutex
begin

lemma releases_unlock: "releases lockview (session_unlock P)"
  by (auto simp: releases_def session_unlock_def wp_simps holding_def unlocked_def dest!: give_mutex split: prod.splits)

lemmas releases_unlock_bind = releases_bind [OF releases_unlock] releases_bind [OF releases_whenM [OF releases_unlock]]

lemma keeps_lock:
  fixes f :: "bool \<Rightarrow> (('w, 'z) session_state_scheme, 'a) state"
  assumes "releases lockview (f True)" and "keeps (unlocked lockview) (f False)"
  shows "keeps (unlocked lockview) (State_Monad.bind (session_lock P t) f)"
proof (rule keepsI)
  fix s :: "('w, 'z) session_state_scheme" assume u: "unlocked lockview s"
  have "wp (f b) (\<lambda>_. unlocked lockview) (s\<lparr>world := w\<rparr>)"
    if "p_xSemaphoreTake P SessionMutex n (world s) = (b, w)" "sessionMutex s" for n b w
    using take_mutex [OF that(1)] that(2) u assms
    by (cases b) (simp_all add: unlocked_def holding_def releases_def keeps_def)
  then show "wp (State_Monad.bind (session_lock P t) f) (\<lambda>_. unlocked lockview) s"
    using u assms(2) by (auto simp: session_lock_def wp_simps Let_def keeps_def split: prod.splits)
qed

text \<open>The shapes in which the code uses the lock.\<close>

lemma keeps_lock_shapes:
  "releases lockview A \<Longrightarrow> keeps (unlocked lockview) B \<Longrightarrow>
     keeps (unlocked lockview) (State_Monad.bind (session_lock P t) (\<lambda>b. if b then A else B))"
  "releases lockview A \<Longrightarrow> keeps (unlocked lockview) B \<Longrightarrow>
     keeps (unlocked lockview) (State_Monad.bind (session_lock P t) (\<lambda>b. if \<not> b then B else A))"
  "releases lockview U \<Longrightarrow> keeps (unlocked lockview) (State_Monad.bind (session_lock P t) (\<lambda>b. whenM b U))"
  "releases lockview U \<Longrightarrow> (\<And>a. keeps (unlocked lockview) (f a)) \<Longrightarrow>
     keeps (unlocked lockview) (State_Monad.bind (session_lock P t) (\<lambda>b. State_Monad.bind (whenM b U) f))"
  by (rule keeps_lock; simp add: whenM_def keeps_return releases_bind)+

lemmas lock_rules = keeps_lock_shapes releases_unlock_bind releases_unlock releases_if releases_prod releases_let
  releases_whenM keeps_whenM_False
  keeps_return keeps_gets keeps_get keeps_bind keeps_if keeps_whenM keeps_let keeps_case_option keeps_case_prod
  keeps_for_each keeps_for_break releases_same unlocked_same

lemma unl_cancelAllListeners: "keeps (unlocked lockview) (cancelAllListeners P)"
  unfolding cancelAllListeners_def cancelListener_def
  by (rule lock_rules same_prims | simp add: quiet)+

lemma unl_listen_attempts: "keeps (unlocked lockview) (listen_attempts P h p m n b)"
proof (induction n arbitrary: b)
  case (Suc n)
  show ?case unfolding listen_attempts.simps by (rule Suc.IH lock_rules same_prims | simp add: quiet)+
qed (simp add: keeps_return)

lemma unl_createListenerForMapping: "keeps (unlocked lockview) (createListenerForMapping P m)"
  unfolding createListenerForMapping_def
  by (rule unl_listen_attempts lock_rules same_prims | simp add: quiet)+

lemma unl_createListeners_loop: "keeps (unlocked lockview) (createListeners_loop P ms)"
proof (induction ms)
  case (Cons m ms)
  show ?case
    unfolding createListeners_loop.simps
    by (rule Cons.IH unl_createListenerForMapping unl_cancelAllListeners lock_rules same_prims | simp)+
qed (simp add: keeps_return)

lemma unl_createListeners: "keeps (unlocked lockview) (createListeners P)"
  unfolding createListeners_def
  by (rule unl_cancelAllListeners unl_createListeners_loop lock_rules same_prims | simp)+

lemma unl_connect_parts:
  "keeps (unlocked lockview) (handshake P)" "keeps (unlocked lockview) (configureKeepalive P conn)"
  "keeps (unlocked lockview) (verifyHostKey P cfg)" "keeps (unlocked lockview) (auth_password P cfg)"
  "keeps (unlocked lockview) (auth_key P cfg)"
  unfolding handshake_def configureKeepalive_def verifyHostKey_def auth_password_def auth_key_def
  by ((rule same_config lock_rules same_prims | simp add: quiet quiet_auth)+)[5]

lemma unl_authenticate: "keeps (unlocked lockview) (authenticate P cfg)"
  unfolding authenticate_def by (rule unl_connect_parts lock_rules same_prims | simp add: quiet)+

lemma unl_cleanupSession: "keeps (unlocked lockview) (cleanupSession P)"
  unfolding cleanupSession_def
  by (rule unl_cancelAllListeners same_free_retry same_session lock_rules keeps_lock same_prims | simp add: quiet)+

lemma unl_session_disconnect: "keeps (unlocked lockview) (session_disconnect P)"
  unfolding session_disconnect_def by (intro keeps_bind unl_cancelAllListeners unl_cleanupSession)

lemma unl_session_connect: "keeps (unlocked lockview) (session_connect P)"
  unfolding session_connect_def connect_steps_def
  by (rule unl_connect_parts unl_authenticate unl_cleanupSession unl_createListeners same_session same_tcpConnect
      lock_rules same_prims | simp add: quiet)+

lemma unl_sendKeepalive: "keeps (unlocked lockview) (sendKeepalive P)"
  unfolding sendKeepalive_def by (rule lock_rules same_prims | simp add: quiet)+

lemma unl_acceptChannel: "keeps (unlocked lockview) (acceptChannel P)"
proof -
  have "keeps (unlocked lockview) (acceptChannel_loop P es)" for es
  proof (induction es)
    case (Cons e es)
    show ?case
      unfolding acceptChannel_loop.simps recordAcceptSuccess_def recordAcceptNoChannel_def accept_diag_no_channel_def
      by (rule Cons.IH lock_rules same_prims | simp add: quiet)+
  qed (simp add: keeps_return)
  then show ?thesis unfolding acceptChannel_def by (intro keeps_intros)
qed

section \<open>The pump\<close>

lemma unl_pumpAll: "keeps (unlocked lockview) (pumpAll P)"
proof -
  have 1: "keeps (unlocked lockview) (pumpSshTransport P)"
    unfolding pumpSshTransport_def
    by (rule same_pump_channels lock_rules same_prims | simp add: quiet)+
  have 2: "keeps (unlocked lockview) (drainLocalToSsh P)"
    unfolding drainLocalToSsh_def drain_remote_channel_def write_channel_def
    by (rule same_write_loop same_checks same_recv_channel lock_rules same_prims | simp)+
  have 3: "keeps (unlocked lockview) (checkCloses P)"
    unfolding checkCloses_def Let_def
    by (rule same_check_open same_check_draining same_send_eof same_finalize_one lock_rules same_prims | simp add: quiet)+
  show ?thesis
    unfolding pumpAll_def
    by (rule 1 2 3 same_drainSshToLocal lock_rules same_prims | simp)+
qed

section \<open>The facade\<close>

lemma unl_accepted:
  "keeps (unlocked lockview) (closeAcceptedChannel P ch t)" "keeps (unlocked lockview) (bindAcceptedChannel P i ch m t)"
  "keeps (unlocked lockview) (force_close P ch t)" "keeps (unlocked lockview) (clearPendingQueue P)"
  "keeps (unlocked lockview) (clearDeferredCloseQueue P)"
  unfolding closeAcceptedChannel_def bindAcceptedChannel_def force_close_def clearPendingQueue_def clearDeferredCloseQueue_def
  by ((rule same_close_and_free same_close_entries same_bindChannel lock_rules same_prims | simp)+)[5]

lemma unl_enqueueDeferredClose: "keeps (unlocked lockview) (enqueueDeferredClose P ch m)"
  unfolding enqueueDeferredClose_def by (rule unl_accepted lock_rules same_prims | simp add: quiet)+

lemma unl_entries:
  "keeps (unlocked lockview) (retry_close P now e)" "keeps (unlocked lockview) (drop_pending P e)"
  unfolding retry_close_def drop_pending_def by ((rule unl_accepted lock_rules)+)[2]

lemma unl_try_bind_pending: "keeps (unlocked lockview) (try_bind_pending P e)"
  unfolding try_bind_pending_def emitChannelOpened_def
  by (rule unl_accepted unl_entries same_allocateSlot same_tunnel keeps_case_bind_result lock_rules)+

lemma unl_keep_entries: "(\<And>e. keeps (unlocked lockview) (f e)) \<Longrightarrow> keeps (unlocked lockview) (keep_entries f es)"
  by (induction es) (auto intro!: keeps_intros)

lemma unl_queues:
  "keeps (unlocked lockview) (drainPendingQueue P)" "keeps (unlocked lockview) (drainDeferredCloseQueue P)"
  "keeps (unlocked lockview) (cleanExpiredPending P)"
  unfolding drainPendingQueue_def drainDeferredCloseQueue_def cleanExpiredPending_def drain_pending_entry_def
    drain_deferred_entry_def clean_expired_entry_def
  by ((rule unl_keep_entries unl_entries unl_try_bind_pending lock_rules same_prims | simp add: quiet)+)[3]

lemma unl_abandon_each:
  "keeps (unlocked lockview) (abandonSlot P i r)" "keeps (unlocked lockview) (emitChannelClosed i r :: ('w, 'r, 'z, unit) tunnel_op)"
  "keeps (unlocked lockview) (emitSessionDisconnected :: ('w, 'r, 'z, unit) tunnel_op)"
  unfolding emitChannelClosed_def emitSessionDisconnected_def by ((rule unlocked_same, rule same_close same_tunnel)+)[3]

lemma same_emitChannelClosed: "keeps (same_view lockview s) (emitChannelClosed i r :: ('w, 'r, 'z, unit) tunnel_op)"
  unfolding emitChannelClosed_def by (rule same_tunnel)

lemma unl_tail: "keeps (unlocked lockview) (abandon_all P r :: ('w, 'r, 'z, unit) tunnel_op)" "keeps (unlocked lockview) (drop_queues :: ('w, 'r, 'z, unit) tunnel_op)"
  "keeps (unlocked lockview) (updateStats P :: ('w, 'r, 'z, unit) tunnel_op)"
  by ((rule unlocked_same, rule same_tunnel)+)[3]

lemma unl_enterErrorState: "keeps (unlocked lockview) (enterErrorState P)"
  unfolding enterErrorState_def Let_def
  by (rule keeps_lock releases_branch releases_gets keeps_if_False unl_accepted unl_session_disconnect unl_abandon_each
      same_close same_emitChannelClosed unl_tail lock_rules same_prims | simp add: quiet)+

lemma unl_tunnel_disconnect: "keeps (unlocked lockview) (tunnel_disconnect P)"
proof -
  have *: "State_Monad.bind (if c then session_lock P t else ret False) f
     = (if c then State_Monad.bind (session_lock P t) f else f False)" for c t and f :: "bool \<Rightarrow> ('w, 'r, 'z, unit) tunnel_op"
    by simp
  show ?thesis
    unfolding tunnel_disconnect_def *
    by (rule keeps_lock releases_gets keeps_if_False unl_accepted unl_session_disconnect unl_abandon_each
        same_close same_emitChannelClosed unl_tail lock_rules same_prims | simp add: quiet)+
qed

lemma unl_connectSSH: "keeps (unlocked lockview) (connectSSH P)"
  unfolding connectSSH_def emitErrorEvent_def emitSessionConnected_def
  by (rule unl_session_connect same_tunnel lock_rules same_prims | simp add: quiet)+

lemma unl_requestReconnect: "keeps (unlocked lockview) (requestReconnect P)"
  unfolding requestReconnect_def by (rule lock_rules same_prims | simp add: quiet)+

lemma unl_handleReconnection: "keeps (unlocked lockview) (handleReconnection P)"
  unfolding handleReconnection_def reconnect_now_def
  by (rule unl_connectSSH unl_accepted unl_session_disconnect unl_tail lock_rules same_prims | simp add: quiet)+

lemma unl_rejects:
  "keeps (unlocked lockview) (reject_backed_off P ch m)" "keeps (unlocked lockview) (reject_queue_full P ch m)"
  unfolding reject_backed_off_def reject_queue_full_def
  by ((rule unl_accepted unl_enqueueDeferredClose lock_rules)+)[2]

lemma unl_bind_new: "keeps (unlocked lockview) (bind_new P i ch m)"
  unfolding bind_new_def emitChannelOpened_def
  by (rule unl_accepted unl_enqueueDeferredClose same_tunnel keeps_case_bind_result lock_rules same_prims)+

lemma unl_handleNewConnection: "keeps (unlocked lockview) (handleNewConnection P)"
  unfolding handleNewConnection_def
  by (rule unl_acceptChannel unl_enterErrorState unl_rejects unl_bind_new same_allocateSlot same_tunnel lock_rules same_prims
      | simp add: quiet)+

lemma unl_accept_loop: "keeps (unlocked lockview) (accept_loop P n)"
  by (induction n) (auto intro!: keeps_intros unl_handleNewConnection)

lemma unl_tunnel_loop: "keeps (unlocked lockview) (tunnel_loop P)"
proof -
  have 1: "keeps (unlocked lockview) (check_socket_health P)"
    unfolding check_socket_health_def
    by (rule unl_enterErrorState same_session lock_rules same_prims | simp)+
  have 2: "keeps (unlocked lockview) (keepalive_step P)"
    unfolding keepalive_step_def
    by (rule unl_enterErrorState unl_sendKeepalive lock_rules same_prims | simp add: quiet)+
  have 3: "keeps (unlocked lockview) (pump_and_report P)"
    unfolding pump_and_report_def consumeCloseEvents_def
    by (rule unl_enterErrorState unl_pumpAll unl_abandon_each lock_rules same_prims | simp)+
  have 4: "keeps (unlocked lockview) (queue_step_tail P)"
    unfolding queue_step_tail_def
    by (rule unl_queues unl_tail lock_rules same_prims | simp)+
  show ?thesis
    unfolding tunnel_loop_def
    by (rule 1 2 3 4 unl_handleReconnection unl_enterErrorState unl_queues unl_accept_loop lock_rules)+
qed

end

section \<open>Properties\<close>

definition ref_lockview :: "ref_world \<Rightarrow> nat \<times> bool" where
  "ref_lockview w = (rw_held w, rw_nested w)"

lemmas ref_answers = ref_platform_def rw_answer_alloc_def rw_answer_rc_def rw_answer_read_def rw_answer_write_def
  rw_answer_recv_def rw_answer_send_def rw_auth_def rw_take_def rw_give_def Let_def

lemma ref_quiet_lock:
  "silent_system ref_lockview ref_platform" "silent_sockets ref_lockview ref_platform" "silent_libssh2 ref_lockview ref_platform"
  unfolding silent_system_def silent_sockets_def silent_libssh2_def silent_def ref_lockview_def
  by (auto simp: ref_answers split: prod.splits if_splits)

interpretation ref_mutex: session_mutex ref_platform ref_lockview
  by unfold_locales
    (simp_all add: ref_quiet_lock, auto simp: silent_def ref_lockview_def ref_answers split: prod.splits if_splits)

text \<open>
  C4: Lock discipline. Whatever the peer, the network and the heap do, on every path through the
  public operations of the tunnel the session mutex is free again when the operation returns and is
  never requested by the task that holds it (the mutex is not recursive, such a request would block
  for the whole timeout and then fail).
\<close>

theorem session_mutex_released:
  fixes s :: "('w, 'r, 'z) tunnel_scheme"
  assumes "session_mutex P lockview" and "lockview (world s) = (0, False)"
  shows "wp (tunnel_loop P) (\<lambda>_ s'. lockview (world s') = (0, False)) s
    \<and> wp (connectSSH P) (\<lambda>_ s'. lockview (world s') = (0, False)) s
    \<and> wp (tunnel_disconnect P) (\<lambda>_ s'. lockview (world s') = (0, False)) s
    \<and> wp (requestReconnect P) (\<lambda>_ s'. lockview (world s') = (0, False)) s"
proof -
  have u: "unlocked lockview s" and eq: "unlocked lockview = (\<lambda>s :: ('w, 'r, 'z) tunnel_scheme. lockview (world s) = (0, False))"
    using assms(2) by (simp_all add: unlocked_def fun_eq_iff)
  note ops = session_mutex.unl_tunnel_loop session_mutex.unl_connectSSH session_mutex.unl_tunnel_disconnect
    session_mutex.unl_requestReconnect
  show ?thesis unfolding eq [symmetric] by (intro conjI keepsD [where I = "unlocked lockview"] u ops [OF assms(1)])
qed

theorem session_mutex_released_witness:
  "rw_held (world (after (tunnel_loop ref_platform) sc_running)) = 0
    \<and> \<not> rw_nested (world (after (tunnel_disconnect ref_platform) sc_running))"
proof -
  have "ref_lockview (world sc_running) = (0, False)"
    by (simp add: sc_running_eq sc_bound_eq sc_up_eq ref_lockview_def sc_config_def tunnel_new_def sc_world_def rw_init_def)
  from session_mutex_released [OF ref_mutex.session_mutex_axioms this]
  show ?thesis by (simp add: wp_def after_def ref_lockview_def split: prod.splits)
qed

end
