(* ===== verification/Credential_Safety.thy ===== *)
theory Credential_Safety
  imports Lock_Balance Host_Key
begin

text \<open>
  Which credentials leave the device: an observer of the world that sees the two authentication calls
  and nothing else.
\<close>

locale credential_observer = observed P creds
  for P :: "('w, 'r) platform" and creds :: "'w \<Rightarrow> 'o" +
  assumes quiet_mutex: "silent creds (p_xSemaphoreTake P SessionMutex t)" "silent creds (p_xSemaphoreGive P SessionMutex)"
begin

lemma same_locks: "keeps (same_view creds s) (session_lock P t)" "keeps (same_view creds s) (session_unlock P)"
  unfolding session_lock_def session_unlock_def Let_def by (intro same_prims; simp add: quiet_mutex)+

lemma same_cancelAllListeners: "keeps (same_view creds s) (cancelAllListeners P)"
  unfolding cancelAllListeners_def cancelListener_def by (intro same_prims same_locks; simp add: quiet)

lemma same_cleanupSession: "keeps (same_view creds s) (cleanupSession P)"
  unfolding cleanupSession_def
  by (intro same_prims same_locks same_cancelAllListeners same_free_retry same_session; simp add: quiet)

lemma same_handshake: "keeps (same_view creds s) (handshake P)"
  unfolding handshake_def by (intro same_prims same_locks; simp add: quiet)

lemma same_verifyHostKey: "keeps (same_view creds s) (verifyHostKey P cfg)"
  unfolding verifyHostKey_def by (intro same_prims same_locks; simp add: quiet)

end

text \<open>\<open>fp\<close> is configured, and every hash the server's key can have differs from it.\<close>

definition key_mismatch :: "('w, 'r) platform \<Rightarrow> ssh_server_config \<Rightarrow> bool" where
  "key_mismatch P cfg \<longleftrightarrow> verifyHostKeyEnabled cfg \<and> expectedHostKeyFingerprint cfg \<noteq> []
     \<and> (\<forall>x w raw w'. libssh2_hostkey_hash_sha256 P x w = (Some raw, w') \<longrightarrow>
          \<not> fingerprintsMatch (expectedRaw_of (expectedHostKeyFingerprint cfg)) (take 32 raw))"

lemma verifyHostKey_rejects: "key_mismatch P cfg \<Longrightarrow> wp (verifyHostKey P cfg) (\<lambda>ok _. \<not> ok) s"
  unfolding verifyHostKey_def key_mismatch_def session_lock_def session_unlock_def
  by (auto simp: wp_simps wp_return_fun Let_def split: prod.splits option.splits)

context credential_observer
begin

lemma connect_steps_no_creds:
  assumes "key_mismatch P (sshConfig s)"
  shows "wp (connect_steps P) (\<lambda>ok s'. \<not> ok \<and> same_view creds s s') s"
proof -
  have vk: "wp (verifyHostKey P (sshConfig s)) (\<lambda>ok t'. \<not> ok \<and> same_view creds s t') t" if "same_view creds s t" for t
    by (rule wp_conj [OF verifyHostKey_rejects [OF assms] keepsD [OF same_verifyHostKey that]])
  show ?thesis
    unfolding connect_steps_def
    by (auto simp: wp_simps wp_bind_fun wp_return_fun
        intro!: same_view_refl wp_keep [OF same_tcpConnect] wp_keep [OF same_handshake] wp_keep [OF same_cleanupSession] wp_mono [OF vk])
qed

end

interpretation cfg_fixed: session_frame "\<lambda>s. sshConfig s = c" for c
  by unfold_locales simp_all

context credential_observer
begin

lemma connect_no_creds:
  fixes s :: "('w, 'z) session_state_scheme"
  assumes "key_mismatch P (sshConfig s)"
  shows "wp (session_connect P) (\<lambda>ok s'. \<not> ok \<and> same_view creds s s') s"
proof -
  define Q where "Q ok s' \<longleftrightarrow> \<not> ok \<and> same_view creds s s'" for ok and s' :: "('w, 'z) session_state_scheme"
  define J where "J t \<longleftrightarrow> sshConfig t = sshConfig s \<and> same_view creds s t" for t :: "('w, 'z) session_state_scheme"
  have steps: "wp (connect_steps P) Q t" if "J t" for t
    by (rule wp_mono [OF connect_steps_no_creds]) (use that assms in \<open>auto simp: J_def Q_def same_view_def\<close>)
  have J: "keeps J (cleanupSession P)" "keeps J (resetAcceptState P)"
    unfolding J_def keeps_def
    by (auto intro!: wp_conj keepsD [OF cfg_fixed.keeps_cleanupSession] keepsD [OF cfg_fixed.keeps_resetAcceptState]
        keepsD [OF same_cleanupSession] keepsD [OF same_session(1)])
  have m: "J (t\<lparr>world := w\<rparr>)" if "J t" "p_millis P (world t) = (x, w)" for t x w
    using that quiet_system by (auto simp: J_def same_view_def silent_system_def silent_def)
  have JQ: "J (s\<lparr>hasConfig := True\<rparr>)" "\<And>t. J t \<Longrightarrow> Q False t"
    by (simp_all add: J_def Q_def same_view_def)
  have "wp (session_connect P) Q s"
    unfolding session_connect_def wp_simps
    by (rule wp_keep [OF J(2)]) (auto simp: wp_simps split: prod.splits intro!: JQ wp_keep [OF J(1)] steps m)
  then show ?thesis by (simp only: Q_def [abs_def])
qed

end

section \<open>Properties\<close>

lemma ref_quiet_creds:
  "silent_system rw_creds ref_platform" "silent_sockets rw_creds ref_platform" "silent_libssh2 rw_creds ref_platform"
  unfolding silent_system_def silent_sockets_def silent_libssh2_def silent_def
  by (auto simp: ref_answers split: prod.splits if_splits)

interpretation ref_creds: credential_observer ref_platform rw_creds
  by unfold_locales
    (simp_all add: ref_quiet_creds, auto simp: silent_def ref_answers split: prod.splits if_splits)

text \<open>
  C8: No credentials for the wrong server. If host-key verification is on with an expected
  fingerprint and the hash of the key the server presents does not match it, \<open>connect\<close> fails and neither
  the password nor a signature made with the private key is sent.
\<close>

theorem no_credentials_on_mismatch:
  assumes "credential_observer P creds" and "verifyHostKeyEnabled (sshConfig s)" and "expectedHostKeyFingerprint (sshConfig s) \<noteq> []"
    and "\<And>x w raw w'. libssh2_hostkey_hash_sha256 P x w = (Some raw, w') \<Longrightarrow>
          \<not> fingerprintsMatch (expectedRaw_of (expectedHostKeyFingerprint (sshConfig s))) (take 32 raw)"
  shows "wp (session_connect P) (\<lambda>ok s'. \<not> ok \<and> creds (world s') = creds (world s)) s"
  by (rule wp_mono [OF credential_observer.connect_no_creds [OF assms(1)]])
    (use assms(2-4) in \<open>auto simp: key_mismatch_def same_view_def\<close>)

text \<open>A configuration that expects another fingerprint than the one of the reference server.\<close>

definition mismatch_state :: "(ref_world, cring) tunnel" where
  "mismatch_state = sc_config\<lparr>sshConfig := (sshConfig sc_config)\<lparr>verifyHostKeyEnabled := True,
     expectedHostKeyFingerprint := ''SHA256:other''\<rparr>\<rparr>"

lemma mismatch_fingerprint: "\<not> fingerprintsMatch (expectedRaw_of ''SHA256:other'') (map word_of_nat [0..<32])"
  by code_simp

theorem no_credentials_on_mismatch_witness:
  "wp (session_connect ref_platform) (\<lambda>ok s'. \<not> ok \<and> rw_creds (world s') = []) mismatch_state"
proof -
  have w: "rw_creds (world mismatch_state) = []"
    by (simp add: mismatch_state_def sc_config_def tunnel_new_def sc_world_def rw_init_def)
  have h: "libssh2_hostkey_hash_sha256 ref_platform x w = (Some raw, w') \<Longrightarrow> raw = map word_of_nat [0..<32]" for x w raw w'
    by (simp add: ref_platform_def del: upt_conv_Cons upt_rec_numeral)
  have "wp (session_connect ref_platform) (\<lambda>ok s'. \<not> ok \<and> rw_creds (world s') = rw_creds (world mismatch_state)) mismatch_state"
  proof (rule no_credentials_on_mismatch [OF ref_creds.credential_observer_axioms])
    show "\<not> fingerprintsMatch (expectedRaw_of (expectedHostKeyFingerprint (sshConfig mismatch_state))) (take 32 raw)"
      if "libssh2_hostkey_hash_sha256 ref_platform x w = (Some raw, w')" for x w raw w'
      using h [OF that] mismatch_fingerprint by (simp add: mismatch_state_def del: upt_conv_Cons upt_rec_numeral)
  qed (simp_all add: mismatch_state_def)
  then show ?thesis by (simp add: w)
qed

end
