(* ===== verification/Link_State.thy ===== *)
theory Link_State
  imports Scenario
begin

text \<open>
  The SSH link: what connecting and disconnecting establish for the session handle, its socket and
  its listeners, and how the state of the tunnel object follows them.
\<close>

section \<open>Operations that do not touch the link\<close>

definition link_fields ::
  "('w, 'z) session_state_scheme \<Rightarrow> ssh_session_ptr \<times> int \<times> listener_entry list \<times> connection_config \<times> tunnel_config list" where
  "link_fields s = (session s, socketfd s, listeners s, connectionConfig s, tunnelMappings s)"

interpretation link_fixed: poll_frame "\<lambda>s. link_fields s = v" for v
  by unfold_locales (simp_all add: link_fields_def)

text \<open>An operation that keeps the link leaves the five components as they are.\<close>

lemma wp_link_fixed:
  assumes "\<And>v. keeps (\<lambda>s. link_fields s = v) m" and "\<And>a s'. link_fields s' = link_fields s \<Longrightarrow> Q a s'"
  shows "wp m Q s"
  by (rule wp_keep [OF assms(1) refl assms(2)])

section \<open>Session operations\<close>

lemma cancelAllListeners_link:
  "wp (cancelAllListeners P) (\<lambda>_ s'. link_fields s' = link_fields (s\<lparr>listeners := []\<rparr>)) s"
  unfolding cancelAllListeners_def wp_simps
  by (rule wp_link_fixed, intro link_fixed.prims2 link_fixed.keeps_cancelListener)
    (simp add: link_fields_def)

definition link_down :: "('w, 'z) session_state_scheme \<Rightarrow> bool" where
  "link_down s \<longleftrightarrow> socketfd s < 0 \<and> listeners s = []"

lemma cleanupSession_link:
  "wp (cleanupSession P) (\<lambda>_ s'. link_down s' \<and> connectionConfig s' = connectionConfig s \<and> tunnelMappings s' = tunnelMappings s) s"
  unfolding cleanupSession_def link_down_def
  by (auto simp: wp_simps link_fields_def Let_def split: prod.splits
      intro!: wp_mono [OF cancelAllListeners_link] wp_link_fixed [OF link_fixed.keeps_free_retry]
        wp_link_fixed [OF link_fixed.keeps_resetAcceptState] wp_link_fixed [OF link_fixed.keeps_locking(1)]
        wp_link_fixed [OF link_fixed.keeps_locking(2)])

lemma session_disconnect_link:
  "wp (session_disconnect P) (\<lambda>_ s'. link_down s' \<and> connectionConfig s' = connectionConfig s \<and> tunnelMappings s' = tunnelMappings s) s"
  unfolding session_disconnect_def
  by (auto simp: wp_simps link_fields_def intro!: wp_mono [OF cancelAllListeners_link] wp_mono [OF cleanupSession_link])

text \<open>\<open>socket\<close> returns a descriptor or -1.\<close>

definition socket_contract :: "('w, 'r) platform \<Rightarrow> bool" where
  "socket_contract P \<longleftrightarrow> (\<forall>w. -1 \<le> fst (p_socket P w))"

lemma tcpConnect_link:
  assumes "socket_contract P"
  shows "wp (tcpConnect P cfg) (\<lambda>r s'. link_fields s' = link_fields (s\<lparr>socketfd := socketfd s'\<rparr>)
    \<and> (if r then 0 \<le> socketfd s' else socketfd s' = -1)) s"
proof -
  have "-1 \<le> fd" if "p_socket P w = (fd, w')" for w fd w' using assms that by (metis socket_contract_def fst_conv)
  then have pos: "p_socket P w = (fd, w') \<Longrightarrow> fd \<noteq> -1 \<Longrightarrow> 0 \<le> fd" for w fd w' by fastforce
  show ?thesis
    unfolding tcpConnect_def
    by (auto simp: wp_simps link_fields_def intro!: wp_link_fixed [OF link_fixed.keeps_optimize(2)]
        split: prod.splits dest: pos)
qed

lemma handshake_link:
  "wp (handshake P) (\<lambda>r s'. link_fields s' = link_fields (s\<lparr>session := session s'\<rparr>) \<and> (r \<longrightarrow> session s' \<noteq> NULL)) s"
  unfolding handshake_def
  by (auto simp: wp_simps link_fields_def intro!: wp_link_fixed [OF link_fixed.keeps_locking(1)]
      wp_link_fixed [OF link_fixed.keeps_locking(2)] split: prod.splits)

lemma createListenerForMapping_entry:
  "wp (createListenerForMapping P m) (\<lambda>r s'. link_fields s' = link_fields s
    \<and> (case r of None \<Rightarrow> True | Some e \<Rightarrow> le_mapping e = m \<and> le_listener e \<noteq> NULL)) s"
  unfolding createListenerForMapping_def
  by (auto simp: wp_simps Let_def split: prod.splits intro!: wp_link_fixed [OF link_fixed.keeps_listen_attempts]
      wp_link_fixed [OF link_fixed.keeps_locking(1)] wp_link_fixed [OF link_fixed.keeps_locking(2)])

definition listening :: "tunnel_config list \<Rightarrow> ('w, 'z) session_state_scheme \<Rightarrow> bool" where
  "listening ms s \<longleftrightarrow> map le_mapping (listeners s) = ms \<and> (\<forall>e\<in>set (listeners s). le_listener e \<noteq> NULL)"

lemma createListeners_loop_link:
  fixes s :: "('w, 'z) session_state_scheme"
  shows "listening pre s \<Longrightarrow> wp (createListeners_loop P ms) (\<lambda>r s'. link_fields s' = link_fields (s\<lparr>listeners := listeners s'\<rparr>)
    \<and> (if r then listening (pre @ ms) s' else listeners s' = [])) s"
proof (induction ms arbitrary: s pre)
  case Nil
  then show ?case by (simp add: wp_simps link_fields_def)
next
  case (Cons m ms)
  define Q where "Q r s'' \<longleftrightarrow> link_fields s'' = link_fields (s\<lparr>listeners := listeners s''\<rparr>)
      \<and> (if r then listening (pre @ m # ms) s'' else listeners s'' = [])" for r and s'' :: "('w, 'z) session_state_scheme"
  have rec: "wp (createListeners_loop P ms) Q s'"
    if "link_fields s' = link_fields (s\<lparr>listeners := listeners s @ [e]\<rparr>)" "le_mapping e = m" "le_listener e \<noteq> NULL"
    for s' :: "('w, 'z) session_state_scheme" and e
    by (rule wp_mono [OF Cons.IH [where pre = "pre @ [m]"]])
      (use Cons.prems that in \<open>auto simp: Q_def listening_def link_fields_def split: if_splits\<close>)
  have none: "Q False s''" if "link_fields s' = link_fields s" "link_fields s'' = link_fields (s'\<lparr>listeners := []\<rparr>)"
    for s' s'' :: "('w, 'z) session_state_scheme"
    using that by (simp add: Q_def link_fields_def)
  have "wp (createListeners_loop P (m # ms)) Q s"
    unfolding createListeners_loop.simps wp_simps
    by (rule wp_mono [OF createListenerForMapping_entry])
      (auto simp: wp_simps split: option.splits intro!: wp_mono [OF cancelAllListeners_link] rec none; simp add: link_fields_def)
  then show ?case by (simp only: Q_def [abs_def])
qed

definition wanted_mappings :: "connection_config \<Rightarrow> tunnel_config list \<Rightarrow> tunnel_config list" where
  "wanted_mappings conn ms = take (nat (min (maxReverseListeners conn) (int (length ms)))) ms"

lemma createListeners_link:
  "wp (createListeners P) (\<lambda>r s'. link_fields s' = link_fields (s\<lparr>listeners := listeners s'\<rparr>)
    \<and> (if r then listeners s' \<noteq> [] \<and> listening (wanted_mappings (connectionConfig s) (tunnelMappings s)) s'
       else listeners s' = [])) s"
proof -
  have loop: "wp (createListeners_loop P (take (nat (min (maxReverseListeners (connectionConfig s')) (int (length (tunnelMappings s'))))) (tunnelMappings s')))
     (\<lambda>r s''. link_fields s'' = link_fields (s\<lparr>listeners := listeners s''\<rparr>)
      \<and> (if r then listening (wanted_mappings (connectionConfig s) (tunnelMappings s)) s'' else listeners s'' = [])) (s'\<lparr>boundPort := b\<rparr>)"
    if "link_fields s' = link_fields (s\<lparr>listeners := []\<rparr>)" for s' b
    by (rule wp_mono [OF createListeners_loop_link [where pre = "[]"]])
      (use that in \<open>auto simp: listening_def link_fields_def wanted_mappings_def split: if_splits\<close>)
  show ?thesis
    unfolding createListeners_def wp_simps
    by (rule wp_mono [OF cancelAllListeners_link])
      (auto simp: wp_simps Let_def intro!: wp_mono [OF loop] split: if_splits; simp add: link_fields_def)
qed

text \<open>The outcome of \<open>connect\<close>.\<close>

definition link_up :: "('w, 'z) session_state_scheme \<Rightarrow> bool" where
  "link_up s \<longleftrightarrow> isConnected s \<and> listeners s \<noteq> []"

lemma connect_steps_link:
  assumes "socket_contract P" and "listeners s = []"
  shows "wp (connect_steps P) (\<lambda>r s'. if r then link_up s' \<and> listening (wanted_mappings (connectionConfig s) (tunnelMappings s)) s'
    else link_down s') s"
proof -
  have clean: "wp (cleanupSession P) (\<lambda>_ s'. link_down s') t" for t
    by (rule wp_mono [OF cleanupSession_link]) simp
  show ?thesis
    unfolding connect_steps_def wp_simps
    apply (rule wp_mono [OF tcpConnect_link [OF assms(1)]])
    using assms(2)
    by (auto simp: wp_simps link_down_def link_fields_def link_up_def listening_def isConnected_def split: if_splits prod.splits
        intro!: wp_mono [OF handshake_link] wp_link_fixed [OF link_fixed.keeps_verifyHostKey]
        wp_link_fixed [OF link_fixed.keeps_authenticate] wp_link_fixed [OF link_fixed.keeps_configureKeepalive]
        wp_mono [OF createListeners_link] wp_mono [OF clean])
qed

lemma session_connect_link:
  fixes s :: "('w, 'z) session_state_scheme"
  assumes "socket_contract P" and "session s = NULL \<Longrightarrow> listeners s = []"
  shows "wp (session_connect P) (\<lambda>r s'. if r then link_up s' \<and> listening (wanted_mappings (connectionConfig s) (tunnelMappings s)) s'
    else link_down s') s"
proof -
  define Q where "Q r s' \<longleftrightarrow> (if r then link_up s' \<and> listening (wanted_mappings (connectionConfig s) (tunnelMappings s)) s'
    else link_down s')" for r and s' :: "('w, 'z) session_state_scheme"
  have steps: "wp (connect_steps P) Q t"
    if "listeners t = []" "connectionConfig t = connectionConfig s" "tunnelMappings t = tunnelMappings s" for t
    by (rule wp_mono [OF connect_steps_link [OF assms(1) that(1)]]) (simp add: Q_def that split: if_splits)
  have "wp (session_connect P) Q s"
    unfolding session_connect_def wp_simps
    by (rule wp_link_fixed [OF link_fixed.keeps_resetAcceptState])
      (use assms(2) in \<open>auto simp: wp_simps link_fields_def split: prod.splits
        intro!: wp_mono [OF cleanupSession_link] steps; simp add: link_down_def Q_def\<close>)
  then show ?thesis by (simp only: Q_def [abs_def])
qed

section \<open>The tunnel object\<close>

text \<open>The link as the tunnel sees it: its fields and the state of the tunnel object.\<close>

definition tlink ::
  "('w, 'r, 'z) tunnel_scheme \<Rightarrow> ssh_session_ptr \<times> int \<times> listener_entry list \<times> tunnel_state" where
  "tlink s = (session s, socketfd s, listeners s, tstate s)"

lemma tlink_upd_slot [simp]: "tlink (upd_slot i f s) = tlink s"
  by (simp add: tlink_def upd_slot_def)

interpretation tl: channel_frame "\<lambda>s. tlink s = v" for v
  by unfold_locales (simp_all add: tlink_def)

lemma tl_slot: "keeps (\<lambda>s. tlink s = v) (modify_slot i f)"
  by (simp add: keeps_def wp_simps modify_slot_def)

lemmas tl_ops = tl.prims2 tl_slot tl.keeps_delete_ring tl.keeps_drb_delete
  tl.keeps_drb_new tl.keeps_connectToLocalEndpoint tl.keeps_heap_guard

interpretation tl: pump_frame "\<lambda>s. tlink s = v" P for v P
  unfolding pump_frame_def pump_frame_axioms_def pump_steps_def pump_steps_axioms_def manager_frame_def manager_frame_axioms_def
proof (intro conjI allI impI)
  show "channel_frame (\<lambda>s. tlink s = v)" by (rule tl.channel_frame_axioms)
qed ((unfold beginClose_def finalizeClose_def finalize_ssh_def finalize_local_def abandonSlot_def close_local_def
    count_buffered_dropped_def free_rings_def archiveSlotStats_def resetSlot_def bindChannel_def
    ring_write_def ring_read_def restoreUnsent_def on_ring_def push_close_event_def)?;
    (intro tl_ops)?; simp add: tlink_def)+

lemma tl_upd: "(\<And>s. tlink (f s) = tlink s) \<Longrightarrow> keeps (\<lambda>s. tlink s = v) (modify f)"
  by (simp add: keeps_def wp_simps)

lemma tl_emit: "keeps (\<lambda>s. tlink s = v) (emit h e)"
  unfolding emit_def by (rule tl_upd) (simp add: tlink_def)

lemmas tl_tunnel = tl.pump_ops tl_emit tl.keeps_allocate keeps_case_bind_result

lemma tl_accepted:
  "keeps (\<lambda>s. tlink s = v) (close_and_free P ch)" "keeps (\<lambda>s. tlink s = v) (closeAcceptedChannel P ch t)"
  "keeps (\<lambda>s. tlink s = v) (force_close P ch t)" "keeps (\<lambda>s. tlink s = v) (bindAcceptedChannel P i ch m t)"
  "keeps (\<lambda>s. tlink s = v) (close_entries P q)"
  unfolding closeAcceptedChannel_def force_close_def bindAcceptedChannel_def close_entries_def close_and_free_def
  by (intro tl_tunnel)+

lemma tl_queueing:
  "keeps (\<lambda>s. tlink s = v) (enqueueDeferredClose P ch m)" "keeps (\<lambda>s. tlink s = v) (enqueuePending P ch m)"
  "keeps (\<lambda>s. tlink s = v) (clearPendingQueue P)" "keeps (\<lambda>s. tlink s = v) (clearDeferredCloseQueue P)"
  "keeps (\<lambda>s. tlink s = v) (updateStats P)" "keeps (\<lambda>s. tlink s = v) (abandon_all P r)"
  "keeps (\<lambda>s. tlink s = v) drop_queues" "keeps (\<lambda>s. tlink s = v) (consumeCloseEvents n)"
  unfolding enqueueDeferredClose_def enqueuePending_def clearPendingQueue_def clearDeferredCloseQueue_def updateStats_def
    abandon_all_def drop_queues_def consumeCloseEvents_def
  by (intro tl_tunnel tl_accepted; simp add: tlink_def)+

lemma tl_entries:
  "keeps (\<lambda>s. tlink s = v) (drain_pending_entry P now e)" "keeps (\<lambda>s. tlink s = v) (drain_deferred_entry P now e)"
  "keeps (\<lambda>s. tlink s = v) (clean_expired_entry P now e)"
  unfolding drain_pending_entry_def drain_deferred_entry_def clean_expired_entry_def retry_close_def drop_pending_def
    try_bind_pending_def emitChannelOpened_def
  by (intro tl_tunnel tl_accepted)+

lemma tl_keep_entries: "(\<And>e. keeps (\<lambda>s. tlink s = v) (f e)) \<Longrightarrow> keeps (\<lambda>s. tlink s = v) (keep_entries f es)"
  by (induction es) (auto intro!: tl_tunnel)

lemma tl_queue_loops:
  "keeps (\<lambda>s. tlink s = v) (drainPendingQueue P)" "keeps (\<lambda>s. tlink s = v) (drainDeferredCloseQueue P)"
  "keeps (\<lambda>s. tlink s = v) (cleanExpiredPending P)"
  unfolding drainPendingQueue_def drainDeferredCloseQueue_def cleanExpiredPending_def
  by (intro tl_tunnel tl_keep_entries tl_entries tl_upd; simp add: tlink_def)+

lemma tl_new:
  "keeps (\<lambda>s. tlink s = v) (reject_backed_off P ch m)" "keeps (\<lambda>s. tlink s = v) (reject_queue_full P ch m)"
  "keeps (\<lambda>s. tlink s = v) (bind_new P i ch m)"
  unfolding reject_backed_off_def reject_queue_full_def bind_new_def emitChannelOpened_def
  by (intro tl_tunnel tl_accepted tl_queueing)+

lemma wp_tl:
  assumes "\<And>v. keeps (\<lambda>s. tlink s = v) m" and "\<And>a s'. tlink s' = tlink s \<Longrightarrow> Q a s'"
  shows "wp m Q s"
  by (rule wp_keep [OF assms(1) refl assms(2)])

text \<open>
  Between calls: the tunnel is not half-way through connecting; if it counts as connected, the link is
  up; and without a session there is neither a socket nor a listener.
\<close>

definition link_inv :: "('w, 'r, 'z) tunnel_scheme \<Rightarrow> bool" where
  "link_inv s \<longleftrightarrow> tstate s \<noteq> TUNNEL_CONNECTING \<and> (tstate s = TUNNEL_CONNECTED \<longrightarrow> link_up s) \<and> (session s = NULL \<longrightarrow> link_down s)"

lemma link_inv_cong: "tlink s' = tlink s \<Longrightarrow> link_inv s' = link_inv s"
  by (simp add: tlink_def link_inv_def link_up_def link_down_def isConnected_def)

lemma keeps_link: "(\<And>v. keeps (\<lambda>s. tlink s = v) m) \<Longrightarrow> keeps link_inv m"
  by (rule keepsI, rule wp_tl) (auto dest: link_inv_cong)

interpretation st_fixed: session_frame "\<lambda>s :: ('w, 'r, 'z) tunnel_scheme. tstate s = v" for v
  by unfold_locales simp_all

lemma session_disconnect_down:
  fixes s :: "('w, 'r, 'z) tunnel_scheme"
  shows "wp (session_disconnect P) (\<lambda>_ s'. link_down s' \<and> tstate s' = tstate s) s"
  by (rule wp_mono [OF wp_conj [OF session_disconnect_link keepsD [OF st_fixed.keeps_session_disconnect refl]]]) simp

lemma session_connect_outcome:
  fixes s :: "('w, 'r, 'z) tunnel_scheme"
  assumes "socket_contract P" and "session s = NULL \<Longrightarrow> listeners s = []"
  shows "wp (session_connect P) (\<lambda>r s'. if r then link_up s' else link_down s') s"
  by (rule wp_mono [OF session_connect_link [OF assms]]) (auto split: if_splits)

text \<open>What is torn down stays down under the operations that do not touch the link.\<close>

definition down_in :: "tunnel_state \<Rightarrow> ('w, 'r, 'z) tunnel_scheme \<Rightarrow> bool" where
  "down_in st s \<longleftrightarrow> link_down s \<and> tstate s = st"

lemma keeps_down: "(\<And>v. keeps (\<lambda>s. tlink s = v) m) \<Longrightarrow> keeps (down_in st) m"
  by (rule keepsI, rule wp_tl) (auto simp: down_in_def link_down_def tlink_def)

lemma down_inv: "down_in st s \<Longrightarrow> st \<noteq> TUNNEL_CONNECTING \<Longrightarrow> st \<noteq> TUNNEL_CONNECTED \<Longrightarrow> link_inv s"
  by (simp add: down_in_def link_inv_def)

lemma wp_teardown:
  fixes s :: "('w, 'r, 'z) tunnel_scheme"
  assumes "\<And>s'. down_in (tstate s) s' \<Longrightarrow> wp m Q s'"
  shows "wp (do { session_disconnect P; abandon_all P r; drop_queues; m }) Q s"
  unfolding wp_simps
  by (rule wp_mono [OF session_disconnect_down])
    (auto simp: wp_simps wp_bind_fun down_in_def intro!: assms wp_keep [OF keeps_down [OF tl_queueing(6)]] wp_keep [OF keeps_down [OF tl_queueing(7)]])

lemma down_states [simp]:
  "down_in st (s\<lparr>world := w\<rparr>) = down_in st s" "down_in st (s\<lparr>lastConnectionAttempt := t\<rparr>) = down_in st s"
  "down_in st (s\<lparr>reconnectAttempts := n\<rparr>) = down_in st s" "down_in st (s\<lparr>socketHealthFailures := n\<rparr>) = down_in st s"
  by (simp_all add: down_in_def link_down_def)

lemma wp_any: "(\<And>a s'. wp (f a) Q s') \<Longrightarrow> wp (State_Monad.bind m f) Q s"
  by (simp add: wp_bind wp_iff_run [of m])

lemma enterErrorState_down:
  fixes s :: "('w, 'r, 'z) tunnel_scheme"
  shows "wp (enterErrorState P) (\<lambda>_. down_in TUNNEL_ERROR) s"
proof -
  have tail: "wp (do { session_disconnect P; abandon_all P ErrorReason; drop_queues;
     updateStats P;
     modify (\<lambda>s. s\<lparr>tstate := TUNNEL_ERROR, socketHealthFailures := 0\<rparr>);
     now \<leftarrow> millis P;
     modify (\<lambda>s. s\<lparr>lastConnectionAttempt := now\<rparr>);
     emitSessionDisconnected }) (\<lambda>_. down_in TUNNEL_ERROR) s" for s :: "('w, 'r, 'z) tunnel_scheme"
    by (rule wp_teardown)
      (auto simp: wp_simps emitSessionDisconnected_def intro!: wp_keep [OF keeps_down [OF tl_queueing(5)]]
        wp_keep [OF keeps_down [OF tl_emit]] split: prod.splits; auto simp: down_in_def link_down_def)
  show ?thesis unfolding enterErrorState_def by (rule tail wp_any)+
qed

lemma tunnel_disconnect_down:
  fixes s :: "('w, 'r, 'z) tunnel_scheme"
  shows "wp (tunnel_disconnect P) (\<lambda>_. down_in TUNNEL_DISCONNECTED) s"
proof -
  have tail: "wp (do { session_disconnect P; abandon_all P Manual; drop_queues;
     updateStats P;
     st \<leftarrow> gets tstate;
     whenM (st = TUNNEL_CONNECTED) emitSessionDisconnected;
     modify (\<lambda>s. s\<lparr>socketHealthFailures := 0, tstate := TUNNEL_DISCONNECTED\<rparr>) }) (\<lambda>_. down_in TUNNEL_DISCONNECTED) s"
    for s :: "('w, 'r, 'z) tunnel_scheme"
    by (rule wp_teardown)
      (auto simp: wp_simps emitSessionDisconnected_def intro!: wp_keep [OF keeps_down [OF tl_queueing(5)]]
        wp_keep [OF keeps_down [OF tl_emit]] split: prod.splits; auto simp: down_in_def link_down_def)
  show ?thesis unfolding tunnel_disconnect_def by (rule tail wp_any)+
qed

lemma connectSSH_link:
  fixes s :: "('w, 'r, 'z) tunnel_scheme"
  assumes "socket_contract P" and "session s = NULL \<Longrightarrow> listeners s = []" and "tstate s = TUNNEL_CONNECTED \<Longrightarrow> link_inv s"
  shows "wp (connectSSH P) (\<lambda>r s'. link_inv s' \<and> (r \<longleftrightarrow> tstate s' = TUNNEL_CONNECTED)) s"
  unfolding connectSSH_def emitErrorEvent_def emitSessionConnected_def
  by (auto simp: wp_simps assms split: prod.splits if_splits intro!: wp_mono [OF session_connect_outcome] wp_tl [OF tl_emit])
    (auto simp: tlink_def link_inv_def link_up_def isConnected_def link_down_def)

lemma enterErrorState_inv: "wp (enterErrorState P) (\<lambda>_. link_inv) s"
  by (rule wp_mono [OF enterErrorState_down]) (simp add: down_inv)

lemma keeps_link_state:
  fixes s :: "('w, 'r, 'z) tunnel_scheme"
  shows "link_inv (s\<lparr>world := w\<rparr>) = link_inv s" "link_inv (s\<lparr>lastKeepAlive := t\<rparr>) = link_inv s"
    "link_inv (s\<lparr>lastConnectionAttempt := t\<rparr>) = link_inv s" "link_inv (s\<lparr>reconnectAttempts := n\<rparr>) = link_inv s"
    "link_inv (s\<lparr>socketHealthFailures := n\<rparr>) = link_inv s" "link_inv (s\<lparr>sessionDegraded := b\<rparr>) = link_inv s"
    "link_inv (s\<lparr>statsMutex := b\<rparr>) = link_inv s" "link_inv (s\<lparr>eventHandlers := h\<rparr>) = link_inv s"
    "link_inv (s\<lparr>tunnelMappings := ms\<rparr>) = link_inv s" "link_inv (s\<lparr>sshConfig := c\<rparr>) = link_inv s"
    "link_inv (s\<lparr>connectionConfig := cc\<rparr>) = link_inv s" "link_inv (s\<lparr>debugConfig := dc\<rparr>) = link_inv s"
  by (simp_all add: link_inv_def link_up_def link_down_def isConnected_def)

lemma keeps_link_upd: "(\<And>s. link_inv (f s) = link_inv s) \<Longrightarrow> keeps link_inv (modify f)"
  by (simp add: keeps_def wp_simps)

lemma link_ops_error: "keeps link_inv (enterErrorState P)"
  by (rule keepsI) (rule enterErrorState_inv)

lemmas link_ops = keeps_intros link_ops_error keeps_link_upd keeps_link [OF tl.keeps_ext] keeps_link [OF tl.keeps_acceptChannel]
  keeps_link [OF tl_emit] keeps_link [OF tl_new(1)] keeps_link [OF tl_new(2)] keeps_link [OF tl_new(3)]
  keeps_link [OF tl.keeps_allocate] keeps_link [OF tl_queueing(2)] keeps_link [OF tl.keeps_checkConnection]
  keeps_link [OF tl.keeps_sendKeepalive] keeps_link [OF tl.keeps_pumpAll] keeps_link [OF tl_queueing(8)]
  keeps_link [OF tl_queue_loops(1)] keeps_link [OF tl_queue_loops(2)] keeps_link [OF tl_queue_loops(3)] keeps_link [OF tl_queueing(5)]

lemma link_handleNewConnection: "keeps link_inv (handleNewConnection P)"
  unfolding handleNewConnection_def by (intro link_ops)

lemma link_accept_loop: "keeps link_inv (accept_loop P n)"
  by (induction n) (auto intro!: link_ops link_handleNewConnection)

lemma link_connectSSH: "socket_contract P \<Longrightarrow> keeps link_inv (connectSSH P)"
  by (rule keepsI, rule wp_mono [OF connectSSH_link]) (auto simp: link_inv_def link_down_def)

lemma reconnect_now_inv:
  fixes s :: "('w, 'r, 'z) tunnel_scheme"
  assumes "socket_contract P" and "tstate s \<noteq> TUNNEL_CONNECTED"
  shows "wp (reconnect_now P) (\<lambda>_. link_inv) s"
proof -
  have conn: "wp (connectSSH P) (\<lambda>_. link_inv) t" if "down_in (tstate s) t" for t :: "('w, 'r, 'z) tunnel_scheme"
    by (rule wp_mono [OF connectSSH_link [OF assms(1)]]) (use that assms(2) in \<open>auto simp: down_in_def link_down_def\<close>)
  have tail: "wp (do { session_disconnect P; abandon_all P ErrorReason; drop_queues;
     modify (\<lambda>s. s\<lparr>reconnectAttempts := reconnectAttempts s + 1\<rparr>);
     ok \<leftarrow> connectSSH P;
     whenM ok (modify (\<lambda>s. s\<lparr>reconnectAttempts := 0\<rparr>)) }) (\<lambda>_. link_inv) t" if "tstate t = tstate s"
    for t :: "('w, 'r, 'z) tunnel_scheme"
    by (rule wp_teardown) (auto simp: wp_simps that keeps_link_state intro!: wp_mono [OF conn])
  show ?thesis
    unfolding reconnect_now_def
    by (auto simp: wp_bind wp_bind_fun intro!: wp_tl [OF tl_queueing(3)] wp_tl [OF tl_queueing(4)] tail [unfolded wp_bind wp_bind_fun])
      (simp add: tlink_def)
qed

lemma handleReconnection_inv:
  fixes s :: "('w, 'r, 'z) tunnel_scheme"
  assumes "socket_contract P" and "link_inv s" and "tstate s \<noteq> TUNNEL_CONNECTED"
  shows "wp (handleReconnection P) (\<lambda>_. link_inv) s"
  unfolding handleReconnection_def using assms
  by (auto simp: wp_simps keeps_link_state intro!: reconnect_now_inv split: prod.splits)

lemma link_tunnel_loop:
  assumes "socket_contract P"
  shows "keeps link_inv (tunnel_loop P)"
proof -
  have steps: "keeps link_inv (check_socket_health P)" "keeps link_inv (keepalive_step P)" "keeps link_inv (pump_and_report P)"
    "keeps link_inv (queue_step_tail P)"
    unfolding check_socket_health_def keepalive_step_def pump_and_report_def queue_step_tail_def emitChannelClosed_def
    by (intro link_ops; simp add: keeps_link_state)+
  have rest: "keeps link_inv (do {
       conn \<leftarrow> gets isConnected;
       if \<not> conn then enterErrorState P
       else do {
         healthy \<leftarrow> check_socket_health P;
         if \<not> healthy then ret ()
         else do {
           alive \<leftarrow> keepalive_step P;
           if \<not> alive then ret ()
           else do {
             d \<leftarrow> gets deferredCloseQueue;
             whenM (d \<noteq> []) (drainDeferredCloseQueue P);
             n \<leftarrow> gets maxSlots;
             accept_loop P (Suc (nat n));
             ok \<leftarrow> pump_and_report P;
             if \<not> ok then ret () else queue_step_tail P } } } })"
    by (intro link_ops steps link_accept_loop)
  show ?thesis
    unfolding tunnel_loop_def wp_simps
    by (rule keepsI) (auto simp: wp_gets wp_if wp_return wp_bind [of "gets tstate"] intro!: handleReconnection_inv assms keepsD [OF rest])
qed

lemma tl_init:
  "keeps (\<lambda>s. tlink s = v) (session_init P)" "keeps (\<lambda>s. tlink s = v) (channels_init P m n t)"
  "keeps (\<lambda>s. tlink s = v) (pump_init P k t)" "keeps (\<lambda>s. tlink s = v) (pump_attach b)"
  unfolding session_init_def channels_init_def channels_destroy_def safeMalloc_def pump_init_def pump_attach_def
  by (intro tl_tunnel tl_slot tl.keeps_delete_ring; simp add: tlink_def)+

lemma link_tunnel_init: "keeps link_inv (tunnel_init P)"
proof -
  have reset: "keeps link_inv (modify (\<lambda>s. s\<lparr>tstate := TUNNEL_DISCONNECTED, bytesReceived := 0, bytesSent := 0, bytesDropped := 0\<rparr>))"
    by (auto simp: keeps_def wp_simps link_inv_def link_down_def)
  show ?thesis
    unfolding tunnel_init_def
    by (intro link_ops reset keeps_link [OF tl_init(1)] keeps_link [OF tl_init(2)] keeps_link [OF tl_init(3)] keeps_link [OF tl_init(4)])
      (simp add: keeps_link_state)
qed

lemma link_mappings:
  "keeps link_inv (addReverseTunnel P m)" "keeps link_inv (removeReverseTunnel P h p)"
  "keeps link_inv (setEventHandlers hs)" "keeps link_inv (requestReconnect P)" "keeps link_inv (tunnel_disconnect P)"
proof -
  show "keeps link_inv (requestReconnect P)"
    by (auto simp: requestReconnect_def keeps_def wp_simps link_inv_def link_down_def split: prod.splits)
  show "keeps link_inv (tunnel_disconnect P)"
    by (rule keepsI, rule wp_mono [OF tunnel_disconnect_down]) (simp add: down_inv)
qed (unfold addReverseTunnel_def removeReverseTunnel_def addTunnelMapping_cfg_def locked_update_def removeTunnelMapping_def
    setEventHandlers_def; intro link_ops keeps_link [OF tl.keeps_locking(3)] keeps_link [OF tl.keeps_locking(4)];
    simp add: keeps_link_state)+

lemma reach_link: "tunnel_reach P s \<Longrightarrow> socket_contract P \<Longrightarrow> link_inv s"
proof (induction rule: tunnel_reach.induct)
  case (new w m)
  then show ?case by (simp add: tunnel_new_def link_inv_def link_down_def)
qed (auto intro!: after_keeps link_connectSSH link_tunnel_loop link_tunnel_init link_mappings simp: keeps_link_state)

section \<open>Properties\<close>

text \<open>
  C5: Consistency of the connection state. In every reachable state between two calls, whatever the
  peer, the network and the locks do: the tunnel is never left in the connecting state; when it reports
  connected, it holds a session, an open socket and at least one listener; and without a session
  it holds neither a socket nor a listener.
\<close>

theorem connected_state_consistent:
  assumes "tunnel_reach P s" and "socket_contract P"
  shows "tstate s \<noteq> TUNNEL_CONNECTING
    \<and> (tstate s = TUNNEL_CONNECTED \<longrightarrow> session s \<noteq> NULL \<and> 0 \<le> socketfd s \<and> listeners s \<noteq> [])
    \<and> (session s = NULL \<longrightarrow> socketfd s < 0 \<and> listeners s = [])"
  using reach_link [OF assms] by (auto simp: link_inv_def link_up_def isConnected_def link_down_def)

theorem connected_state_consistent_witness:
  "tstate sc_running = TUNNEL_CONNECTED \<and> socket_contract ref_platform \<and> 0 \<le> socketfd sc_running \<and> listeners sc_running \<noteq> []"
proof -
  have c: "socket_contract ref_platform" by (simp add: socket_contract_def ref_platform_def)
  have "tstate sc_running = TUNNEL_CONNECTED" by (simp add: sc_running_eq sc_bound_eq sc_up_eq)
  with connected_state_consistent [OF sc_running_reach c] c show ?thesis by simp
qed

text \<open>
  C6: Outcome of \<open>SSHSession::connect\<close>. It succeeds only with an established session that listens for
  exactly the first \<open>min maxReverseListeners n\<close> of the configured mappings, each with its own listener
  handle; on every failure, at any of its steps, the socket is closed and no listener is left.
\<close>

theorem session_connect_all_or_nothing:
  assumes "socket_contract P" and "session s = NULL \<longrightarrow> listeners s = []"
  shows "wp (session_connect P) (\<lambda>ok s'. if ok then isConnected s'
      \<and> map le_mapping (listeners s') = take (nat (min (maxReverseListeners (connectionConfig s)) (int (length (tunnelMappings s))))) (tunnelMappings s)
      \<and> listeners s' \<noteq> [] \<and> list_all (\<lambda>e. le_listener e \<noteq> NULL) (listeners s')
    else socketfd s' < 0 \<and> listeners s' = []) s"
  using session_connect_link [OF assms(1), of s] assms(2)
  by (auto simp: link_up_def link_down_def listening_def wanted_mappings_def list_all_iff elim!: wp_mono)

theorem session_connect_all_or_nothing_witness:
  "let s = after (tunnel_init ref_platform) sc_config in
    wp (session_connect ref_platform) (\<lambda>ok s'. ok \<longrightarrow> isConnected s' \<and> map le_mapping (listeners s') = [sc_mapping]) s
    \<and> fst (run_state (session_connect ref_platform) s)"
proof -
  define s where "s = after (tunnel_init ref_platform) sc_config"
  have c: "socket_contract ref_platform" by (simp add: socket_contract_def ref_platform_def)
  have s: "session s = NULL" "listeners s = []" "tunnelMappings s = [sc_mapping]" "maxReverseListeners (connectionConfig s) = 1"
    by (simp_all add: s_def scenario_init scenario_platform)
  have ok: "fst (run_state (session_connect ref_platform) s)"
    by (simp add: s_def scenario_init scenario_session scenario_platform Let_def)
  have "wp (session_connect ref_platform) (\<lambda>ok s'. ok \<longrightarrow> isConnected s' \<and> map le_mapping (listeners s') = [sc_mapping]) s"
    by (rule wp_mono [OF session_connect_all_or_nothing [OF c]]) (simp_all add: s)
  with ok show ?thesis by (simp add: s_def)
qed

end
