(* ===== verification/Teardown.thy ===== *)
theory Teardown
  imports Link_State
begin

text \<open>
  What closing leaves behind: the byte counters across \<open>finalizeClose\<close> and \<open>abandonSlot\<close>, and the
  whole tunnel object after \<open>disconnect\<close> and after entering the error state.
\<close>

section \<open>Byte accounting\<close>

lemma total_over_active_sum:
  "total_over_active f c s = c + sum_list (map (\<lambda>i. if active (getSlot i s) then f (getSlot i s) else 0) [0..maxSlots s - 1])"
proof -
  have "foldl (\<lambda>total i. if active (getSlot i s) then total + f (getSlot i s) else total) c is
      = c + sum_list (map (\<lambda>i. if active (getSlot i s) then f (getSlot i s) else 0) is)" for "is"
    by (induction "is" arbitrary: c) (auto simp: add.assoc)
  then show ?thesis by (simp add: total_over_active_def)
qed

lemma sum_upto_remove:
  fixes g h :: "int \<Rightarrow> u32"
  assumes "0 \<le> i" and "i < n" and "\<And>j. 0 \<le> j \<Longrightarrow> j < n \<Longrightarrow> j \<noteq> i \<Longrightarrow> h j = g j"
  shows "sum_list (map h [0..n - 1]) + g i = sum_list (map g [0..n - 1]) + h i"
proof -
  have split: "[0..n - 1] = [0..i - 1] @ i # [i + 1..n - 1]"
    using assms(1,2) upto_split2 [of 0 "i - 1" "n - 1"] upto_rec1 [of i "n - 1"] by (cases "i = 0") simp_all
  have "map h [0..i - 1] = map g [0..i - 1]" "map h [i + 1..n - 1] = map g [i + 1..n - 1]"
    using assms by auto
  then have "sum_list (map h [0..i - 1]) = sum_list (map g [0..i - 1])"
    "sum_list (map h [i + 1..n - 1]) = sum_list (map g [i + 1..n - 1])" by (simp_all only:)
  then show ?thesis unfolding split map_append list.map sum_list_append sum_list.Cons by simp
qed

lemma total_closed:
  assumes "slot_changed i released s s'" and "in_range i s" and "active (getSlot i s)"
  shows "total_over_active f (c + f (getSlot i s) + d) s' = total_over_active f c s + d"
proof -
  have "\<not> active (getSlot i s')" and m: "maxSlots s' = maxSlots s"
    using assms(1) by (auto simp: slot_changed_def released_def slot_free_def)
  moreover have "getSlot j s' = getSlot j s" if "0 \<le> j" "j \<noteq> i" for j
    using slot_changed_other [OF assms(1)] that assms(2) by (simp add: in_range_def)
  ultimately show ?thesis
    using sum_upto_remove [of i "maxSlots s" "\<lambda>j. if active (getSlot j s') then f (getSlot j s') else 0"
        "\<lambda>j. if active (getSlot j s) then f (getSlot j s) else 0"] assms(2,3)
    by (simp add: total_over_active_sum in_range_def m algebra_simps)
qed

lemma totals_closed:
  assumes "slot_changed i released s s'" and "in_range i s" and "active (getSlot i s)"
    and "counters s' = archived P (getSlot i s) (counters s)"
  shows "getTotalBytesReceived s' = getTotalBytesReceived s" "getTotalBytesSent s' = getTotalBytesSent s"
    "getTotalBytesDropped s' = getTotalBytesDropped s + buffered P (getSlot i s)"
  using total_closed [OF assms(1-3), where d = 0] total_closed [OF assms(1-3), where d = "buffered P (getSlot i s)"] assms(4)
  by (simp_all add: getTotalBytesReceived_def getTotalBytesSent_def getTotalBytesDropped_def counters_def archived_def add.assoc)

lemma totals_same:
  assumes "slot_changed i ssh_part_changed s s'" and "in_range i s" and "counters s' = counters s"
  shows "getTotalBytesReceived s' = getTotalBytesReceived s \<and> getTotalBytesSent s' = getTotalBytesSent s
    \<and> getTotalBytesDropped s' = getTotalBytesDropped s"
proof -
  have p: "ssh_part_changed (getSlot i s) (getSlot i s')" and m: "maxSlots s' = maxSlots s"
    using assms(1) by (auto simp: slot_changed_def)
  have same: "active (getSlot j s') = active (getSlot j s) \<and> totalBytesReceived (getSlot j s') = totalBytesReceived (getSlot j s)
      \<and> totalBytesSent (getSlot j s') = totalBytesSent (getSlot j s) \<and> totalBytesDropped (getSlot j s') = totalBytesDropped (getSlot j s)"
    if "j \<in> set [0..maxSlots s - 1]" for j
    using slot_changed_other [OF assms(1), of j] ssh_part_changed_fields [OF p] assms(2) that
    by (cases "j = i") (auto simp: in_range_def)
  have "total_over_active f c s' = total_over_active f c s" if "\<And>j. j \<in> set [0..maxSlots s - 1] \<Longrightarrow> f (getSlot j s') = f (getSlot j s)" for f c
    unfolding total_over_active_sum m using that same by (intro arg_cong [where f = "(+) c"] arg_cong [where f = sum_list] map_cong) auto
  then show ?thesis
    using same assms(3) by (simp add: getTotalBytesReceived_def getTotalBytesSent_def getTotalBytesDropped_def counters_def)
qed

section \<open>Abandoning all slots\<close>

lemma abandonSlot_step:
  fixes s :: "('w, 'r, 'z) channel_state_scheme"
  assumes "chan_inv R s"
  shows "wp (abandonSlot P i r) (\<lambda>_ s'. chan_inv R s' \<and> maxSlots s' = maxSlots s
    \<and> (\<forall>j. in_range j s \<longrightarrow> active (getSlot j s') = (active (getSlot j s) \<and> j \<noteq> i))) s"
proof (cases "in_range i s \<and> active (getSlot i s)")
  case True
  have h: "has_slot i s" "0 < activeCount s"
    using True has_slot_in_range [OF assms] active_slot_counted [OF assms] by auto
  have "active (getSlot j s') = (active (getSlot j s) \<and> j \<noteq> i)"
    if "slot_changed i released s s'" "in_range j s" for s' j
    using that True slot_changed_other [OF that(1), of j]
    by (cases "j = i"; auto simp: slot_changed_def released_def slot_free_def in_range_def)
  then show ?thesis
    using True by (intro wp_mono [OF wp_conj [OF abandonSlot_effect [OF h(1)] keepsD [OF keeps_abandonSlot assms]]])
      (auto simp: h slot_changed_def)
next
  case False
  then show ?thesis
    using assms by (auto simp: abandonSlot_def wp_simps in_range_def)
qed

lemma abandon_each:
  fixes s :: "('w, 'r, 'z) channel_state_scheme"
  shows "chan_inv R s \<Longrightarrow> wp (for_each (\<lambda>i. abandonSlot P i r) is) (\<lambda>_ s'. chan_inv R s' \<and> maxSlots s' = maxSlots s
    \<and> (\<forall>j. in_range j s \<longrightarrow> active (getSlot j s') = (active (getSlot j s) \<and> j \<notin> set is))) s"
proof (induction "is" arbitrary: s)
  case (Cons i "is")
  show ?case
    unfolding for_each.simps wp_bind
    by (rule wp_mono [OF abandonSlot_step [OF Cons.prems]], elim conjE, rule wp_mono [OF Cons.IH])
      (auto simp: in_range_def)
qed (simp add: wp_simps)

lemma abandon_all_clears:
  assumes "chan_inv R s"
  shows "wp (abandon_all P r) (\<lambda>_ s'. chan_inv R s' \<and> maxSlots s' = maxSlots s
    \<and> (\<forall>i. in_range i s' \<longrightarrow> \<not> active (getSlot i s'))) s"
  unfolding abandon_all_def wp_simps
  by (rule wp_mono [OF abandon_each [OF assms]]) (auto simp: in_range_def)

section \<open>Disconnection\<close>

interpretation chan_link: session_frame "chan_inv R" for R
  by unfold_locales (simp_all add: chan_inv_def)

text \<open>A tunnel object that holds nothing but its configuration and its slot array.\<close>

definition idle_tunnel :: "('w, 'r, 'z) tunnel_scheme \<Rightarrow> bool" where
  "idle_tunnel s \<longleftrightarrow> link_down s \<and> pendingQueue s = [] \<and> deferredCloseQueue s = []
     \<and> (\<forall>i. in_range i s \<longrightarrow> \<not> active (getSlot i s))"

lemma idle_frame:
  fixes s :: "('w, 'r, 'z) tunnel_scheme"
  shows "idle_tunnel (s\<lparr>world := w\<rparr>) = idle_tunnel s" "idle_tunnel (s\<lparr>tstate := st\<rparr>) = idle_tunnel s"
    "idle_tunnel (s\<lparr>socketHealthFailures := n\<rparr>) = idle_tunnel s" "idle_tunnel (s\<lparr>lastConnectionAttempt := t\<rparr>) = idle_tunnel s"
    "idle_tunnel (s\<lparr>events := es\<rparr>) = idle_tunnel s" "idle_tunnel (s\<lparr>bytesReceived := b1, bytesSent := b2, bytesDropped := b3\<rparr>) = idle_tunnel s"
  by (simp_all add: idle_tunnel_def link_down_def in_range_def getSlot_def)

lemma idle_after:
  "keeps idle_tunnel (updateStats P)" "keeps idle_tunnel (emit h e)"
  by (auto simp: keeps_def wp_simps updateStats_def emit_def idle_frame split: prod.splits)

lemma teardown_idle:
  fixes s :: "('w, 'r, 'z) tunnel_scheme"
  assumes "tunnel_inv P R s"
    and "keeps (chan_inv R :: ('w, 'r, 'z) tunnel_scheme \<Rightarrow> bool) (session_disconnect P)"
    and "\<And>s'. idle_tunnel s' \<Longrightarrow> wp m (\<lambda>_. Q) s'"
  shows "wp (do { session_disconnect P; abandon_all P r; drop_queues; m }) (\<lambda>_. Q) s"
proof -
  have 1: "wp (session_disconnect P) (\<lambda>_ s'. chan_inv R s' \<and> link_down s') s"
    using assms(1) by (intro wp_conj [OF keepsD [OF assms(2)] wp_mono [OF session_disconnect_link]]) (auto simp: tunnel_inv_def)
  have 2: "wp (abandon_all P r) (\<lambda>_ s'. link_down s' \<and> (\<forall>i. in_range i s' \<longrightarrow> \<not> active (getSlot i s'))) s'"
    if "chan_inv R s'" "link_down s'" for s' :: "('w, 'r, 'z) tunnel_scheme"
    by (rule wp_mono [OF wp_conj [OF abandon_all_clears [OF that(1)] keepsD [OF keeps_down [OF tl_queueing(6)], of "tstate s'"]]])
      (use that in \<open>auto simp: down_in_def\<close>)
  have 3: "wp drop_queues (\<lambda>_. idle_tunnel) s'" if "link_down s'" "\<forall>i. in_range i s' \<longrightarrow> \<not> active (getSlot i s')"
    for s' :: "('w, 'r, 'z) tunnel_scheme"
    using that by (auto simp: drop_queues_def wp_simps idle_tunnel_def link_down_def in_range_def getSlot_def)
  show ?thesis
    unfolding wp_bind wp_bind_fun
    by (rule wp_mono [OF 1]) (auto intro!: wp_mono [OF 2] wp_mono [OF 3] assms(3))
qed

lemma wp_bind_keep:
  "keeps J m \<Longrightarrow> J s \<Longrightarrow> (\<And>a s'. J s' \<Longrightarrow> wp (f a) Q s') \<Longrightarrow> wp (State_Monad.bind m f) Q s"
  unfolding wp_bind by (rule wp_keep)

lemma teardown_tails:
  fixes s :: "('w, 'r, 'z) tunnel_scheme"
  assumes "tunnel_inv P (\<lambda>_. True) s"
  shows "wp (do { session_disconnect P; abandon_all P ErrorReason; drop_queues;
       updateStats P;
       modify (\<lambda>s. s\<lparr>tstate := TUNNEL_ERROR, socketHealthFailures := 0\<rparr>);
       now \<leftarrow> millis P;
       modify (\<lambda>s. s\<lparr>lastConnectionAttempt := now\<rparr>);
       emitSessionDisconnected }) (\<lambda>_. idle_tunnel) s"
    and "wp (do { session_disconnect P; abandon_all P Manual; drop_queues;
       updateStats P;
       st \<leftarrow> gets tstate;
       whenM (st = TUNNEL_CONNECTED) emitSessionDisconnected;
       modify (\<lambda>s. s\<lparr>socketHealthFailures := 0, tstate := TUNNEL_DISCONNECTED\<rparr>) }) (\<lambda>_. idle_tunnel) s"
  by (rule teardown_idle [OF assms chan_link.keeps_session_disconnect];
      auto simp: wp_simps wp_bind_fun emitSessionDisconnected_def idle_frame split: prod.splits
        intro!: wp_keep [OF idle_after(1)] wp_keep [OF idle_after(2)])+

lemma teardown_leaves_idle:
  fixes s :: "('w, 'r, 'z) tunnel_scheme"
  assumes "tunnel_inv P (\<lambda>_. True) s"
  shows "wp (enterErrorState P) (\<lambda>_. idle_tunnel) s" "wp (tunnel_disconnect P) (\<lambda>_. idle_tunnel) s"
  unfolding enterErrorState_def tunnel_disconnect_def emitChannelClosed_def
  by (rule teardown_tails assms | assumption
      | rule wp_bind_keep [where J = "tunnel_inv P (\<lambda>_. True)"], (intro any_ring.teardown_ops; simp)[1])+

section \<open>Properties\<close>

text \<open>Everything an object in this condition holds: nothing.\<close>

definition holds_nothing :: "('w, 'r, 'z) tunnel_scheme \<Rightarrow> bool" where
  "holds_nothing s \<longleftrightarrow> socketfd s < 0 \<and> listeners s = [] \<and> pendingQueue s = [] \<and> deferredCloseQueue s = [] \<and> activeCount s = 0
     \<and> list_all (\<lambda>i. \<not> active (getSlot i s) \<and> localSocket (getSlot i s) < 0 \<and> sshChannel (getSlot i s) = NULL
         \<and> toLocal (getSlot i s) = None \<and> toRemote (getSlot i s) = None) [0..maxSlots s - 1]"

lemma inv_idle_nothing:
  assumes "tunnel_inv P (\<lambda>_. True) s" and "idle_tunnel s"
  shows "holds_nothing s"
proof -
  have inv: "chan_inv (\<lambda>_. True) s" using assms(1) by (simp add: tunnel_inv_def)
  have free: "slot_free (getSlot i s)" if "in_range i s" for i
    using tunnel_inv_slot [OF assms(1)] assms(2) that by (auto simp: idle_tunnel_def slot_ok_def in_range_def)
  have "activeCount s = 0"
  proof (cases "slots s")
    case (Some ss)
    have "\<not> active (ss ! k)" if "k < length ss" for k
    proof -
      have "in_range (int k) s" "getSlot (int k) s = ss ! k"
        using inv Some that by (auto simp: chan_inv_def in_range_def getSlot_def)
      then show ?thesis using free by (metis slot_free_def)
    qed
    then have "filter active ss = []" by (auto simp: filter_empty_conv in_set_conv_nth)
    moreover have "active_total ss = int (length (filter active ss))" by (induction ss) (auto simp: active_total_def)
    ultimately show ?thesis using inv Some by (simp add: chan_inv_def)
  qed (use inv in \<open>simp add: chan_inv_def\<close>)
  then show ?thesis
    using assms(2) free by (auto simp: holds_nothing_def idle_tunnel_def link_down_def list_all_iff in_range_def slot_free_def)
qed

text \<open>
  C7: Teardown is complete. \<open>disconnect\<close>, and the transition into the error state that precedes every
  reconnection, leave a reachable tunnel object without socket, listeners, queued channels or active
  slots, and no slot keeps a local socket, an SSH channel or a ring buffer, even when the locks cannot be
  taken or the peer no longer answers.
\<close>

theorem teardown_complete:
  assumes "tunnel_reach P s"
  shows "wp (tunnel_disconnect P) (\<lambda>_ s'. tstate s' = TUNNEL_DISCONNECTED \<and> holds_nothing s') s
    \<and> wp (enterErrorState P) (\<lambda>_ s'. tstate s' = TUNNEL_ERROR \<and> holds_nothing s') s"
proof -
  have inv: "tunnel_inv P (\<lambda>_. True) s" by (rule any_ring.reach_inv [OF assms])
  show ?thesis
    by (intro conjI; rule wp_mono [OF wp_conj [OF wp_conj [OF teardown_leaves_idle(2) [OF inv] tunnel_disconnect_down]
            keepsD [OF any_ring.keeps_tunnel_disconnect inv]]]
          wp_mono [OF wp_conj [OF wp_conj [OF teardown_leaves_idle(1) [OF inv] enterErrorState_down]
            keepsD [OF any_ring.keeps_enterErrorState inv]]])
      (auto simp: down_in_def intro: inv_idle_nothing)
qed

theorem teardown_complete_witness:
  "activeCount sc_running = 1 \<and> activeCount (after (tunnel_disconnect ref_platform) sc_running) = 0
    \<and> socketfd (after (enterErrorState ref_platform) sc_running) < 0"
proof -
  have "activeCount sc_running = 1" by (simp add: sc_running_eq sc_bound_eq)
  with teardown_complete [OF sc_running_reach] show ?thesis
    by (simp add: wp_iff_run after_def holds_nothing_def)
qed

text \<open>
  C10: Byte accounting. Closing a channel, in the orderly way or by abandoning it, moves its counters
  into the totals: the totals of received and sent bytes do not change, and the total of dropped bytes
  grows by exactly the bytes still buffered in its two rings (all modulo \<open>2^32\<close>).
\<close>

theorem closing_keeps_totals:
  assumes "tunnel_reach P s" and "0 \<le> i" and "i < maxSlots s" and "active (getSlot i s)"
  shows "wp (abandonSlot P i r) (\<lambda>_ s'. getTotalBytesReceived s' = getTotalBytesReceived s
      \<and> getTotalBytesSent s' = getTotalBytesSent s
      \<and> getTotalBytesDropped s' = getTotalBytesDropped s
          + of_nat (sz_add (ring_size P (toLocal (getSlot i s))) (ring_size P (toRemote (getSlot i s))))) s
    \<and> wp (finalizeClose P i) (\<lambda>ok s'. getTotalBytesReceived s' = getTotalBytesReceived s
      \<and> getTotalBytesSent s' = getTotalBytesSent s
      \<and> getTotalBytesDropped s' = getTotalBytesDropped s + (if ok then
          of_nat (sz_add (ring_size P (toLocal (getSlot i s))) (ring_size P (toRemote (getSlot i s)))) else 0)) s"
proof -
  have inv: "chan_inv (\<lambda>_. True) s" using any_ring.reach_inv [OF assms(1)] by (simp add: tunnel_inv_def)
  have i: "in_range i s" "has_slot i s" "0 < activeCount s"
    using assms has_slot_in_range [OF inv] active_slot_counted [OF inv] by (auto simp: in_range_def)
  note closed = totals_closed [OF _ i(1) assms(4), folded buffered_def]
  show ?thesis
  proof (intro conjI)
    show "wp (abandonSlot P i r) (\<lambda>_ s'. getTotalBytesReceived s' = getTotalBytesReceived s
      \<and> getTotalBytesSent s' = getTotalBytesSent s
      \<and> getTotalBytesDropped s' = getTotalBytesDropped s
          + of_nat (sz_add (ring_size P (toLocal (getSlot i s))) (ring_size P (toRemote (getSlot i s))))) s"
      by (rule wp_mono [OF abandonSlot_effect [OF i(2,1) assms(4) i(3)]])
        (auto simp: closed buffered_def [symmetric])
    show "wp (finalizeClose P i) (\<lambda>ok s'. getTotalBytesReceived s' = getTotalBytesReceived s
      \<and> getTotalBytesSent s' = getTotalBytesSent s
      \<and> getTotalBytesDropped s' = getTotalBytesDropped s + (if ok then
          of_nat (sz_add (ring_size P (toLocal (getSlot i s))) (ring_size P (toRemote (getSlot i s)))) else 0)) s"
      by (rule wp_mono [OF finalizeClose_effect [OF i(2,1) assms(4)]])
        (auto simp: closed totals_same [OF _ i(1)] buffered_def [symmetric] split: if_splits)
  qed
qed

theorem closing_keeps_totals_witness:
  "active (getSlot 0 sc_running) \<and> getTotalBytesSent (after (abandonSlot ref_platform 0 Manual) sc_running) = getTotalBytesSent sc_running"
  using closing_keeps_totals [OF sc_running_reach, of 0 Manual] by (simp add: sc_running_slot wp_iff_run after_def)

end
