(* ===== verification/Pump_Stream.thy ===== *)
theory Pump_Stream
  imports Scenario
begin

text \<open>
  Stream integrity of the pump: the three phases that move data lose, duplicate and reorder
  nothing. The locale \<open>wire\<close> is the documented behaviour of \<open>send\<close>, \<open>recv\<close>, \<open>libssh2_channel_read\<close> and
  \<open>libssh2_channel_write\<close> in terms of an observer of the world that records, for every SSH channel
  and every socket, the bytes that came in and the bytes that went out.
\<close>

section \<open>Traffic\<close>

record traffic =
  from_ssh :: "ssh_channel \<Rightarrow> bytes"
  to_ssh :: "ssh_channel \<Rightarrow> bytes"
  from_local :: "int \<Rightarrow> bytes"
  to_local :: "int \<Rightarrow> bytes"
  at_eof :: "ssh_channel \<Rightarrow> bool"
  send_failed :: "int \<Rightarrow> bool"

definition append_at :: "'k \<Rightarrow> bytes \<Rightarrow> ('k \<Rightarrow> bytes) \<Rightarrow> 'k \<Rightarrow> bytes" where
  "append_at k bs f = f(k := f k @ bs)"

primrec inflow :: "direction \<Rightarrow> traffic \<Rightarrow> 'r channel_slot \<Rightarrow> bytes" where
  "inflow ToLocal t sl = from_ssh t (sshChannel sl)"
| "inflow ToRemote t sl = from_local t (localSocket sl)"

primrec outflow :: "direction \<Rightarrow> traffic \<Rightarrow> 'r channel_slot \<Rightarrow> bytes" where
  "outflow ToLocal t sl = to_local t (localSocket sl)"
| "outflow ToRemote t sl = to_ssh t (sshChannel sl)"

definition queued :: "('r \<Rightarrow> bytes) \<Rightarrow> direction \<Rightarrow> 'r channel_slot \<Rightarrow> bytes" where
  "queued rbc dir sl = (case ring_of dir sl of None \<Rightarrow> [] | Some d \<Rightarrow> drb_contents rbc d)"

text \<open>
  In one direction, \<open>x\<close> came in and \<open>y\<close> went out between two moments: what was queued followed by \<open>x\<close>
  is \<open>y\<close> followed by what is queued now.
\<close>

definition dir_flow :: "('r \<Rightarrow> bytes) \<Rightarrow> direction \<Rightarrow> traffic \<Rightarrow> 'r channel_slot \<Rightarrow> traffic \<Rightarrow> 'r channel_slot \<Rightarrow> bool" where
  "dir_flow rbc dir t a t' b \<longleftrightarrow> (\<exists>x y. inflow dir t' b = inflow dir t a @ x \<and> outflow dir t' b = outflow dir t a @ y
     \<and> queued rbc dir a @ x = y @ queued rbc dir b)"

definition slot_flow :: "('r \<Rightarrow> bytes) \<Rightarrow> traffic \<Rightarrow> 'r channel_slot \<Rightarrow> traffic \<Rightarrow> 'r channel_slot \<Rightarrow> bool" where
  "slot_flow rbc t a t' b \<longleftrightarrow> sshChannel b = sshChannel a \<and> localSocket b = localSocket a \<and> active b = active a
     \<and> (at_eof t (sshChannel a) \<longrightarrow> at_eof t' (sshChannel a)) \<and> (remoteEof b \<longrightarrow> remoteEof a \<or> at_eof t' (sshChannel a))
     \<and> (send_failed t (localSocket a) \<longrightarrow> send_failed t' (localSocket a))
     \<and> (\<not> send_failed t' (localSocket a) \<longrightarrow>
          totalBytesDropped b = totalBytesDropped a \<and> dir_flow rbc ToLocal t a t' b)
     \<and> dir_flow rbc ToRemote t a t' b"

definition flow :: "('r \<Rightarrow> bytes) \<Rightarrow> ('w \<Rightarrow> traffic) \<Rightarrow> ('w, 'r, 'z) pump_state_scheme \<Rightarrow> ('w, 'r, 'z) pump_state_scheme \<Rightarrow> bool" where
  "flow rbc obs s s' \<longleftrightarrow> maxSlots s' = maxSlots s \<and> bufSize s' = bufSize s \<and> (\<forall>i. in_range i s \<longrightarrow> active (getSlot i s') = active (getSlot i s)
     \<and> (active (getSlot i s) \<longrightarrow> slot_flow rbc (obs (world s)) (getSlot i s) (obs (world s')) (getSlot i s')))"

text \<open>
  The active slots have distinct sockets and distinct SSH channels, and a slot knows of the EOF of
  its channel only when it has been reported.
\<close>

definition wired :: "('w \<Rightarrow> traffic) \<Rightarrow> ('w, 'r, 'z) pump_state_scheme \<Rightarrow> bool" where
  "wired obs s \<longleftrightarrow>
     (\<forall>i j. in_range i s \<and> in_range j s \<and> active (getSlot i s) \<and> active (getSlot j s) \<and> i \<noteq> j \<longrightarrow>
        localSocket (getSlot i s) \<noteq> localSocket (getSlot j s) \<and> sshChannel (getSlot i s) \<noteq> sshChannel (getSlot j s))
     \<and> (\<forall>i. in_range i s \<and> active (getSlot i s) \<and> remoteEof (getSlot i s) \<longrightarrow> at_eof (obs (world s)) (sshChannel (getSlot i s)))"

lemma dir_flow_refl: "dir_flow rbc dir t a t a"
  by (auto simp: dir_flow_def)

lemma dir_flow_trans:
  assumes "dir_flow rbc dir t a t' b" and "dir_flow rbc dir t' b t'' c"
  shows "dir_flow rbc dir t a t'' c"
proof -
  obtain x y x' y' where 1: "inflow dir t' b = inflow dir t a @ x" "outflow dir t' b = outflow dir t a @ y"
      "queued rbc dir a @ x = y @ queued rbc dir b"
    and 2: "inflow dir t'' c = inflow dir t' b @ x'" "outflow dir t'' c = outflow dir t' b @ y'"
      "queued rbc dir b @ x' = y' @ queued rbc dir c"
    using assms by (auto simp: dir_flow_def)
  have "queued rbc dir a @ x @ x' = (y @ queued rbc dir b) @ x'" using 1(3) by (metis append_assoc)
  also have "\<dots> = (y @ y') @ queued rbc dir c" using 2(3) by simp
  finally show ?thesis using 1 2 by (auto simp: dir_flow_def)
qed

lemma slot_flow_trans:
  "slot_flow rbc t a t' b \<Longrightarrow> slot_flow rbc t' b t'' c \<Longrightarrow> slot_flow rbc t a t'' c"
  by (auto simp: slot_flow_def intro: dir_flow_trans)

lemma flow_refl: "flow rbc obs s s"
  by (simp add: flow_def slot_flow_def dir_flow_refl)

lemma flow_trans: "flow rbc obs s s' \<Longrightarrow> flow rbc obs s' s'' \<Longrightarrow> flow rbc obs s s''"
  by (simp add: flow_def in_range_def) (meson slot_flow_trans)

lemma wired_flow:
  assumes "wired obs s" and "flow rbc obs s s'"
  shows "wired obs s'"
proof -
  have same: "active (getSlot i s') = active (getSlot i s)"
    "active (getSlot i s) \<Longrightarrow> localSocket (getSlot i s') = localSocket (getSlot i s)
       \<and> sshChannel (getSlot i s') = sshChannel (getSlot i s)
       \<and> (remoteEof (getSlot i s') \<longrightarrow> remoteEof (getSlot i s) \<or> at_eof (obs (world s')) (sshChannel (getSlot i s)))
       \<and> (at_eof (obs (world s)) (sshChannel (getSlot i s)) \<longrightarrow> at_eof (obs (world s')) (sshChannel (getSlot i s)))"
    if "in_range i s" for i
    using assms(2) that by (auto simp: flow_def slot_flow_def)
  have range: "in_range i s' = in_range i s" for i using assms(2) by (simp add: flow_def in_range_def)
  show ?thesis
    unfolding wired_def range
  proof (intro conjI allI impI; elim conjE)
    fix i j assume "in_range i s" "in_range j s" "active (getSlot i s')" "active (getSlot j s')" "i \<noteq> j"
    then show "localSocket (getSlot i s') \<noteq> localSocket (getSlot j s')" "sshChannel (getSlot i s') \<noteq> sshChannel (getSlot j s')"
      using assms(1) same [of i] same [of j] by (simp_all add: wired_def)
  next
    fix i assume "in_range i s" "active (getSlot i s')" "remoteEof (getSlot i s')"
    then show "at_eof (obs (world s')) (sshChannel (getSlot i s'))"
      using assms(1) same [of i] by (auto simp: wired_def)
  qed
qed

section \<open>Changes at one slot\<close>

definition elsewhere :: "('w \<Rightarrow> traffic) \<Rightarrow> int \<Rightarrow> ('w, 'r, 'z) pump_state_scheme \<Rightarrow> ('w, 'r, 'z) pump_state_scheme \<Rightarrow> bool" where
  "elsewhere obs i s s' \<longleftrightarrow> maxSlots s' = maxSlots s \<and> bufSize s' = bufSize s \<and> (\<forall>j. in_range j s \<and> j \<noteq> i \<longrightarrow> getSlot j s' = getSlot j s)
     \<and> (\<forall>ch. ch \<noteq> sshChannel (getSlot i s) \<longrightarrow> from_ssh (obs (world s')) ch = from_ssh (obs (world s)) ch
          \<and> to_ssh (obs (world s')) ch = to_ssh (obs (world s)) ch \<and> at_eof (obs (world s')) ch = at_eof (obs (world s)) ch)
     \<and> (\<forall>fd. fd \<noteq> localSocket (getSlot i s) \<longrightarrow> from_local (obs (world s')) fd = from_local (obs (world s)) fd
          \<and> to_local (obs (world s')) fd = to_local (obs (world s)) fd
          \<and> send_failed (obs (world s')) fd = send_failed (obs (world s)) fd)"

lemma upd_slot_id [simp]: "upd_slot i (\<lambda>sl. sl) s = s"
  by (simp add: upd_slot_def map_option.identity)

text \<open>Traffic on one SSH channel and one socket only.\<close>

definition only_at :: "ssh_channel \<Rightarrow> int \<Rightarrow> traffic \<Rightarrow> traffic \<Rightarrow> bool" where
  "only_at ch fd t t' \<longleftrightarrow> (\<forall>c. c \<noteq> ch \<longrightarrow> from_ssh t' c = from_ssh t c \<and> to_ssh t' c = to_ssh t c \<and> at_eof t' c = at_eof t c)
     \<and> (\<forall>f. f \<noteq> fd \<longrightarrow> from_local t' f = from_local t f \<and> to_local t' f = to_local t f \<and> send_failed t' f = send_failed t f)"

lemma flow_elsewhere:
  assumes "wired obs s" and "in_range i s" and "active (getSlot i s)" and e: "elsewhere obs i s s'"
    and f: "slot_flow rbc (obs (world s)) (getSlot i s) (obs (world s')) (getSlot i s')"
  shows "flow rbc obs s s'"
proof -
  have "slot_flow rbc (obs (world s)) (getSlot j s) (obs (world s')) (getSlot j s')"
    if j: "in_range j s" "active (getSlot j s)" "j \<noteq> i" for j
  proof -
    have "sshChannel (getSlot j s) \<noteq> sshChannel (getSlot i s)" "localSocket (getSlot j s) \<noteq> localSocket (getSlot i s)"
      using assms(1-3) j by (auto simp: wired_def)
    then have "inflow dir (obs (world s')) (getSlot j s) = inflow dir (obs (world s)) (getSlot j s)"
      "outflow dir (obs (world s')) (getSlot j s) = outflow dir (obs (world s)) (getSlot j s)" for dir
      using e by (cases dir; simp add: elsewhere_def)+
    moreover have "getSlot j s' = getSlot j s" "at_eof (obs (world s')) (sshChannel (getSlot j s)) = at_eof (obs (world s)) (sshChannel (getSlot j s))"
      "send_failed (obs (world s')) (localSocket (getSlot j s)) = send_failed (obs (world s)) (localSocket (getSlot j s))"
      using e j \<open>sshChannel (getSlot j s) \<noteq> _\<close> \<open>localSocket (getSlot j s) \<noteq> _\<close> by (auto simp: elsewhere_def)
    ultimately show ?thesis by (simp add: slot_flow_def dir_flow_def)
  qed
  then have "slot_flow rbc (obs (world s)) (getSlot j s) (obs (world s')) (getSlot j s')"
    if "in_range j s" "active (getSlot j s)" for j
    using f that by (cases "j = i") auto
  moreover have "active (getSlot j s') = active (getSlot j s)" if "in_range j s" for j
    using e f that by (cases "j = i") (auto simp: elsewhere_def slot_flow_def)
  moreover have "maxSlots s' = maxSlots s" "bufSize s' = bufSize s" using e by (simp_all add: elsewhere_def)
  ultimately show ?thesis by (simp add: flow_def)
qed

lemma pump_field_frame [simp]:
  "getSlot i (s\<lparr>lastBytesMoved := n\<rparr>) = getSlot i s" "upd_slot i f (s\<lparr>lastBytesMoved := n\<rparr>) = (upd_slot i f s)\<lparr>lastBytesMoved := n\<rparr>"
  "lastBytesMoved (upd_slot i f s) = lastBytesMoved s" "bufSize (upd_slot i f s) = bufSize s"
  "has_slot i (s\<lparr>lastBytesMoved := n\<rparr>) = has_slot i s"
  by (simp_all add: getSlot_def upd_slot_def has_slot_def)


lemmas slot_flow_simps = slot_flow_def dir_flow_def queued_def append_at_def

lemma pump_order_range: "i \<in> set (pump_order s) \<Longrightarrow> in_range i s"
proof -
  assume i: "i \<in> set (pump_order s)"
  then obtain n where n: "0 \<le> n" "n < maxSlots s" "i = uint ((word_of_int n + roundRobinOffset s) mod word_of_int (maxSlots s))"
    by (auto simp: pump_order_def rr_index_def)
  have "uint (x mod word_of_int (maxSlots s) :: u32) < maxSlots s" for x
  proof (cases "maxSlots s < 2 ^ 32")
    case True
    then have "uint (word_of_int (maxSlots s) :: u32) = maxSlots s" using n by (simp add: take_bit_int_eq_self_iff unsigned_of_int)
    then show ?thesis using n by (simp add: uint_mod)
  next
    case False
    then show ?thesis using uint_lt2p [of "x mod word_of_int (maxSlots s) :: u32"] by simp
  qed
  then show "in_range i s" using n by (simp add: in_range_def)
qed

section \<open>Steps that move no data\<close>

definition idle_update :: "('r channel_slot \<Rightarrow> 'r channel_slot) \<Rightarrow> bool" where
  "idle_update f \<longleftrightarrow> (\<forall>sl. sshChannel (f sl) = sshChannel sl \<and> localSocket (f sl) = localSocket sl \<and> active (f sl) = active sl
     \<and> totalBytesDropped (f sl) = totalBytesDropped sl \<and> remoteEof (f sl) = remoteEof sl
     \<and> toLocal (f sl) = toLocal sl \<and> toRemote (f sl) = toRemote sl)"

definition calm :: "('w \<Rightarrow> traffic) \<Rightarrow> ('w, 'r, 'z) pump_state_scheme \<Rightarrow> ('w, 'r, 'z) pump_state_scheme \<Rightarrow> bool" where
  "calm obs s s' \<longleftrightarrow> maxSlots s' = maxSlots s \<and> bufSize s' = bufSize s \<and> obs (world s') = obs (world s)
     \<and> (\<forall>i. \<exists>f. idle_update f \<and> getSlot i s' = f (getSlot i s))"

lemma idle_update_id: "idle_update (\<lambda>sl. sl)"
  by (simp add: idle_update_def)

lemma idle_update_comp: "idle_update f \<Longrightarrow> idle_update g \<Longrightarrow> idle_update (\<lambda>sl. g (f sl))"
  by (simp add: idle_update_def)

lemma calm_refl: "calm obs s s"
  using idle_update_id by (auto simp: calm_def)

lemma getSlot_upd_cases: "getSlot j (upd_slot i f s) = f (getSlot j s) \<or> getSlot j (upd_slot i f s) = getSlot j s"
proof (cases "slots s")
  case (Some ss)
  then show ?thesis
    by (cases "nat i < length ss"; cases "nat i = nat j") (simp_all add: getSlot_def upd_slot_def list_update_beyond)
qed (simp add: getSlot_def upd_slot_def)

lemma calm_upd:
  assumes "calm obs s s'" and "idle_update f"
  shows "calm obs s (upd_slot i f s')"
proof -
  have "\<exists>g. idle_update g \<and> getSlot j (upd_slot i f s') = g (getSlot j s)" for j
  proof -
    obtain g where g: "idle_update g" "getSlot j s' = g (getSlot j s)" using assms(1) by (auto simp: calm_def)
    then show ?thesis
      using idle_update_comp [OF g(1) assms(2)] getSlot_upd_cases [of j i f s'] by auto
  qed
  then show ?thesis using assms(1) by (auto simp: calm_def)
qed

lemma keeps_calm_slot: "idle_update f \<Longrightarrow> keeps (calm obs s) (modify_slot i f)"
  by (simp add: keeps_def wp_simps modify_slot_def calm_upd)

lemma keeps_calm_ext: "(\<And>w a w'. f w = (a, w') \<Longrightarrow> obs w' = obs w) \<Longrightarrow> keeps (calm obs s) (ext f)"
  by (auto simp: keeps_def wp_simps calm_def split: prod.splits)

lemma calm_flow:
  assumes "calm obs s s'"
  shows "flow rbc obs s s'"
proof -
  have "slot_flow rbc (obs (world s)) (getSlot i s) (obs (world s')) (getSlot i s')"
    for i
  proof -
    obtain f where f: "idle_update f" "getSlot i s' = f (getSlot i s)"
      using assms by (auto simp: calm_def)
    moreover have "ring_of dir (f sl) = ring_of dir sl" for dir sl using f(1) by (cases dir) (auto simp: idle_update_def)
    ultimately show ?thesis using assms by (simp add: slot_flow_simps calm_def idle_update_def)
  qed
  then show ?thesis using assms by (auto simp: flow_def calm_def slot_flow_def)
qed

lemma calm_world: "calm obs s s' \<Longrightarrow> obs w = obs (world s') \<Longrightarrow> calm obs s (s'\<lparr>world := w\<rparr>)"
  by (simp add: calm_def)

lemma flow_idle:
  "idle_update f \<Longrightarrow> flow rbc obs s (upd_slot i f s)" "obs w = obs (world s) \<Longrightarrow> flow rbc obs s (s\<lparr>world := w\<rparr>)"
  "idle_update f \<Longrightarrow> obs w = obs (world s) \<Longrightarrow> flow rbc obs s ((upd_slot i f s)\<lparr>world := w\<rparr>)"
  by (intro calm_flow calm_world calm_upd calm_refl; simp)+

section \<open>The wire\<close>

definition pump_ready :: "('w, 'r) platform \<Rightarrow> ('r \<Rightarrow> bool) \<Rightarrow> ('r \<Rightarrow> nat) \<Rightarrow> ('w \<Rightarrow> traffic) \<Rightarrow> ('w, 'r, 'z) tunnel_scheme \<Rightarrow> bool" where
  "pump_ready P rb_inv rb_cap obs s \<longleftrightarrow> tunnel_inv P (ring_wf P rb_inv rb_cap) s \<and> wired obs s \<and> 0 < bufSize s"

locale wire = ring_platform P rb_inv rb_contents rb_cap
  for P :: "('w, 'r) platform" and rb_inv :: "'r \<Rightarrow> bool" and rb_contents :: "'r \<Rightarrow> bytes" and rb_cap :: "'r \<Rightarrow> nat" +
  fixes obs :: "'w \<Rightarrow> traffic"
  assumes wire_clock: "p_millis P w = (t, w') \<Longrightarrow> obs w' = obs w"
    and wire_take: "p_xSemaphoreTake P m ticks w = (b, w') \<Longrightarrow> obs w' = obs w"
    and wire_give: "p_xSemaphoreGive P m w = (u, w') \<Longrightarrow> obs w' = obs w"
    and wire_send: "p_send P fd bs w = ((k, e), w') \<Longrightarrow> k \<le> int (length bs)
      \<and> obs w' = (obs w)\<lparr>to_local := append_at fd (take (nat k) bs) (to_local (obs w)),
          send_failed := (send_failed (obs w))(fd := send_failed (obs w) fd \<or> k < 0 \<and> e \<noteq> EAGAIN)\<rparr>"
    and wire_recv: "p_recv P fd n w = ((k, bs, e), w') \<Longrightarrow> k \<le> int n \<and> (0 < k \<longrightarrow> length bs = nat k)
      \<and> obs w' = (obs w)\<lparr>from_local := append_at fd (take (nat k) bs) (from_local (obs w))\<rparr>"
    and wire_write: "libssh2_channel_write P ch bs w = (k, w') \<Longrightarrow> k \<le> int (length bs)
      \<and> obs w' = (obs w)\<lparr>to_ssh := append_at ch (take (nat k) bs) (to_ssh (obs w))\<rparr>"
    and wire_read: "libssh2_channel_read P ch n w = ((k, bs), w') \<Longrightarrow> k \<le> int n
      \<and> (0 < k \<longrightarrow> length bs = nat k \<and> \<not> at_eof (obs w) ch)
      \<and> obs w' = (obs w)\<lparr>from_ssh := append_at ch (take (nat k) bs) (from_ssh (obs w)),
          at_eof := (at_eof (obs w))(ch := at_eof (obs w) ch \<or> k = 0 \<and> 0 < n)\<rparr>"
    and wire_eof: "libssh2_channel_eof P ch w = (e, w') \<Longrightarrow>
      obs w' = (obs w)\<lparr>at_eof := (at_eof (obs w))(ch := at_eof (obs w) ch \<or> e \<noteq> 0)\<rparr>"
begin

abbreviation "ring_good \<equiv> ring_wf P rb_inv rb_cap"

lemma wf_putback:
  assumes "ring_good d" and r: "drb_read P True n d = (chunk, d1)" and n: "n \<le> SSH_TUNNEL_PREPEND_CAPACITY P"
    and k: "k \<le> length chunk" and u: "restore_drb P (drop k chunk) d1 = (m, d2)"
  shows "length (drop k chunk) \<le> m \<and> contents d = take k chunk @ contents d2"
proof (cases "k = length chunk")
  case True
  then show ?thesis using u fifo.read_prefix [OF _ r] assms(1) by (simp add: restore_drb_def ring_wf_def)
next
  case False
  have d: "drb_inv rb_inv rb_cap d" using assms(1) by (simp add: ring_wf_def)
  have "handle d \<noteq> None"
  proof
    assume "handle d = None"
    then have "drb_contents rb_contents d = []"
      using d by (simp add: drb_inv_def drb_contents_def pb_inv_def pb_contents_def pb_isBound_def)
    then have "chunk = []" using fifo.read_prefix [OF d r] by simp
    then show False using False k by simp
  qed
  then have cap: "n \<le> pb_cap (prepend d)" using assms(1) n by (simp add: ring_wf_def)
  obtain m' d' where u': "drb_unread (drop k chunk) d1 = (m', d')" by fastforce
  have full: "m' = length (drop k chunk)" using unread_after_read [OF d r k cap] u' by simp
  have "m = m'" "d2 = d'" using u u' full False k by (auto simp: restore_drb_def drb_unread_def split: prod.splits)
  then show ?thesis using fifo.partial_send_putback [OF d r k u' full] full by simp
qed

lemma wf_store:
  assumes "ring_good d" and "length bs = n" and "n \<le> drb_available P d" and "drb_write P (Some bs) n d = (k, d')"
  shows "k = n \<and> contents d' = contents d @ bs"
  using write_spec [OF _ _ assms(4)] assms(1-3) by (simp add: ring_wf_def)

abbreviation "ready \<equiv> pump_ready P rb_inv rb_cap obs"
abbreviation "flows \<equiv> flow rb_contents obs"

lemma ready_slot:
  assumes "ready s" and "in_range i s" and "active (getSlot i s)"
  obtains l r where "toLocal (getSlot i s) = Some l" "toRemote (getSlot i s) = Some r" "ring_good l" "ring_good r"
    "has_slot i s" "0 \<le> localSocket (getSlot i s)"
  using assms chan_inv_slot(2) [of "ring_good" s i] has_slot_in_range [of "ring_good" s i]
  by (auto simp: pump_ready_def tunnel_inv_def slot_defs ring_sat_def)

lemma ready_idle:
  assumes "ready s" and "in_range i s" and "\<not> active (getSlot i s)"
  shows "toLocal (getSlot i s) = None" "toRemote (getSlot i s) = None" "sshChannel (getSlot i s) = NULL"
  using assms chan_inv_slot(2) [of "ring_good" s i] by (auto simp: pump_ready_def tunnel_inv_def slot_defs)

lemma flow_at:
  assumes "ready s" and "in_range i s" and "active (getSlot i s)" and "elsewhere obs i s s'"
    and "slot_flow rb_contents (obs (world s)) (getSlot i s) (obs (world s')) (getSlot i s')"
  shows "flows s s'"
  using flow_elsewhere [OF _ assms(2-5)] assms(1) by (simp add: pump_ready_def tunnel_inv_def)

lemma flow_upd:
  fixes s :: "('w, 'r, 'z) tunnel_scheme"
  assumes s: "ready s" "in_range i s" "active (getSlot i s)"
    and t: "only_at (sshChannel (getSlot i s)) (localSocket (getSlot i s)) (obs (world s)) (obs w)"
    and f: "slot_flow rb_contents (obs (world s)) (getSlot i s) (obs w) (g (getSlot i s))"
  shows "flows s ((upd_slot i g s)\<lparr>world := w\<rparr>)" "flows s ((upd_slot i g s)\<lparr>lastBytesMoved := n, world := w\<rparr>)"
    "flows s ((upd_slot i g s)\<lparr>world := w, lastBytesMoved := n\<rparr>)"
proof -
  have h: "has_slot i s" using s by (auto simp: pump_ready_def tunnel_inv_def intro: has_slot_in_range)
  have "elsewhere obs i s ((upd_slot i g s)\<lparr>world := w\<rparr>)"
    using t s(2) by (auto simp: elsewhere_def only_at_def in_range_def getSlot_other)
  moreover have "elsewhere obs i s ((upd_slot i g s)\<lparr>lastBytesMoved := n, world := w\<rparr>)"
    "elsewhere obs i s ((upd_slot i g s)\<lparr>world := w, lastBytesMoved := n\<rparr>)"
    using t s(2) by (auto simp: elsewhere_def only_at_def in_range_def getSlot_other)
  ultimately show "flows s ((upd_slot i g s)\<lparr>world := w\<rparr>)" "flows s ((upd_slot i g s)\<lparr>lastBytesMoved := n, world := w\<rparr>)"
    "flows s ((upd_slot i g s)\<lparr>world := w, lastBytesMoved := n\<rparr>)"
    using f h by (auto intro!: flow_at [OF s])
qed

lemma flow_upd_silent:
  fixes s :: "('w, 'r, 'z) tunnel_scheme"
  assumes "ready s" "in_range i s" "active (getSlot i s)"
    and "slot_flow rb_contents (obs (world s)) (getSlot i s) (obs (world s)) (g (getSlot i s))"
  shows "flows s (upd_slot i g s)"
proof -
  have eq: "(upd_slot i g s)\<lparr>world := world s\<rparr> = upd_slot i g s" by (simp add: upd_slot_def)
  show ?thesis
    by (subst eq [symmetric]) (rule flow_upd(1) [OF assms(1-3)]; simp add: assms(4) only_at_def)
qed

lemma drain_local_chunk_flow:
  fixes s :: "('w, 'r, 'z) tunnel_scheme"
  assumes s: "ready s" "in_range i s"
  shows "wp (drain_local_chunk P i) (\<lambda>_. flows s) s"
proof (cases "active (getSlot i s)")
  case False
  then show ?thesis
    using ready_idle [OF s] by (simp add: drain_local_chunk_def wp_simps ring_empty_def flow_refl)
next
  case True
  obtain d r where d: "toLocal (getSlot i s) = Some d" "toRemote (getSlot i s) = Some r" "ring_good d" "has_slot i s"
    using ready_slot [OF s True] by blast
  define n where "n = (if drb_size P d < bufSize s then drb_size P d else bufSize s)"
  have n: "n \<le> SSH_TUNNEL_PREPEND_CAPACITY P" using s(1) by (simp add: n_def pump_ready_def tunnel_inv_def)
  obtain chunk d1 where rd: "drb_read P True n d = (chunk, d1)" by fastforce
  obtain sent e w1 where send: "p_send P (localSocket (getSlot i s)) chunk (world s) = ((sent, e), w1)" by (metis prod.exhaust)
  obtain now w2 where clock: "p_millis P w1 = (now, w2)" by fastforce
  obtain m d2 m' d2' where putb: "restore_drb P (drop (nat sent) chunk) d1 = (m, d2)" "restore_drb P chunk d1 = (m', d2')"
    by fastforce
  note sent = wire_send [OF send] and w2 = wire_clock [OF clock]
  have b: "length chunk - nat sent \<le> m" "contents d = take (nat sent) chunk @ contents d2" if "0 < sent"
    using wf_putback [OF d(3) rd n _ putb(1)] sent that by auto
  have b': "length chunk \<le> m'" "contents d = contents d2'"
    using wf_putback [OF d(3) rd n _ , of 0 m' d2'] putb(2) by auto
  have all: "contents d = chunk @ contents d1" using fifo.read_prefix [OF _ rd] d(3) by (simp add: ring_wf_def)
  note upd = flow_upd [OF s True] and upd0 = flow_upd_silent [OF s True]
  show ?thesis
    using d rd send clock putb b b' sent w2 all
    apply (simp add: drain_local_chunk_def wp_simps ring_empty_def ring_size_def Let_def ring_read_def on_ring_def
      modify_slot_def flow_refl n_def [symmetric] add_moved_def restore_and_account_def restoreUnsent_def accountRestoreDrop_def)
    by (intro conjI impI allI upd upd0) (auto simp: only_at_def slot_flow_simps)
qed

lemma keeps_calm_prims:
  "keeps (calm obs s) (millis P)" "keeps (calm obs s) (session_lock P t)" "keeps (calm obs s) (session_unlock P)"
  unfolding session_lock_def session_unlock_def
  by (intro keeps_intros keeps_calm_ext; auto dest: wire_clock wire_take wire_give)+

lemma calm_wp:
  assumes "\<And>s. keeps (calm obs s) m" and "flows s s'"
  shows "wp m (\<lambda>_. flows s) s'"
  using keepsD [OF assms(1) calm_refl] by (rule wp_mono) (blast intro: flow_trans [OF assms(2)] calm_flow)

lemmas calm_ops = keeps_intros keeps_calm_prims keeps_calm_slot

lemma keeps_calm_beginClose: "keeps (calm obs s) (beginClose P i r)"
  unfolding beginClose_def by (intro calm_ops) (simp add: idle_update_def)

lemma keeps_calm_checks:
  "keeps (calm obs s) (channel_error P i)" "keeps (calm obs s) (check_local_stall P i)"
  "keeps (calm obs s) (check_write_stall P i)" "keeps (calm obs s) (modify_slot i (update_backpressure P))"
  unfolding channel_error_def check_local_stall_def check_write_stall_def
  by (intro calm_ops keeps_calm_beginClose;
      simp add: idle_update_def update_backpressure_def Let_def split: option.splits)+

section \<open>Composition\<close>

abbreviation "streaming s0 \<equiv> \<lambda>s. ready s \<and> flows s0 s"

lemma in_range_flow: "flows s s' \<Longrightarrow> in_range i s' = in_range i s"
  by (simp add: flow_def in_range_def)

lemma range_flow: "flows s0 s \<Longrightarrow> i \<in> set [0..maxSlots s - 1] \<Longrightarrow> in_range i s0"
  by (simp add: flow_def in_range_def)

lemma ready_flow: "ready s \<Longrightarrow> flows s s' \<Longrightarrow> tunnel_inv P ring_good s' \<Longrightarrow> ready s'"
  using wired_flow [of obs s rb_contents s'] by (simp add: pump_ready_def flow_def)

lemma flow_wp:
  fixes s :: "('w, 'r, 'z) tunnel_scheme"
  assumes "keeps (tunnel_inv P ring_good :: ('w, 'r, 'z) tunnel_scheme \<Rightarrow> bool) m" and "ready s"
    and "tunnel_inv P ring_good s1" and "wp m (\<lambda>_. flows s) s1"
  shows "wp m (\<lambda>_. streaming s) s1"
  using wp_conj [OF keepsD [OF assms(1,3)] assms(4)]
  by (rule wp_mono) (use assms(2) in \<open>auto intro: ready_flow\<close>)

lemma ready_inv: "ready s \<Longrightarrow> tunnel_inv P ring_good s"
  by (simp add: pump_ready_def)

lemma flow_step:
  fixes m :: "(('w, 'r, 'z) tunnel_scheme, 'a) state"
  assumes "keeps (tunnel_inv P ring_good :: ('w, 'r, 'z) tunnel_scheme \<Rightarrow> bool) m"
    and "\<And>s. ready s \<Longrightarrow> in_range i s \<Longrightarrow> wp m (\<lambda>_. flows s) s" and "in_range i s0"
  shows "keeps (streaming s0) m"
proof (rule keepsI; elim conjE)
  fix s assume s: "ready s" "flows s0 s"
  have "in_range i s" using s(2) assms(3) by (simp add: in_range_flow)
  from flow_wp [OF assms(1) s(1) ready_inv [OF s(1)] assms(2) [OF s(1) this]] show "wp m (\<lambda>_. streaming s0) s"
    by (rule wp_mono) (use s(2) in \<open>auto intro: flow_trans\<close>)
qed

lemma calm_step:
  fixes m :: "(('w, 'r, 'z) tunnel_scheme, 'a) state"
  assumes "keeps (tunnel_inv P ring_good :: ('w, 'r, 'z) tunnel_scheme \<Rightarrow> bool) m"
    and "\<And>s. keeps (calm obs s :: ('w, 'r, 'z) tunnel_scheme \<Rightarrow> bool) m"
  shows "keeps (streaming s0) m"
proof (rule keepsI; elim conjE)
  fix s assume s: "ready s" "flows s0 s"
  have "wp m (\<lambda>_. calm obs s) s" by (rule keepsD [OF assms(2) calm_refl])
  then have "wp m (\<lambda>_. flows s) s"
    by (rule wp_mono) (rule calm_flow)
  from flow_wp [OF assms(1) s(1) ready_inv [OF s(1)] this] show "wp m (\<lambda>_. streaming s0) s"
    by (rule wp_mono) (use s(2) in \<open>auto intro: flow_trans\<close>)
qed

lemmas str_lock = calm_step [OF rings.tun.keeps_locking(1) keeps_calm_prims(2)]
  calm_step [OF rings.tun.keeps_locking(2) keeps_calm_prims(3)]

lemmas str_calm = keeps_intros str_lock
  calm_step [OF rings.tun.keeps_channel_error keeps_calm_checks(1)]
  calm_step [OF rings.tun.keeps_check_local_stall keeps_calm_checks(2)]
  calm_step [OF rings.tun.keeps_check_write_stall keeps_calm_checks(3)]
  calm_step [OF rings.tun.keeps_book keeps_calm_checks(4), OF rings.tun.bookkeeping_backpressure]

lemma str_drain_local_chunks: "in_range i s0 \<Longrightarrow> keeps (streaming s0) (drain_local_chunks P i n)"
  by (induction n)
    (auto intro!: keeps_intros flow_step [OF rings.tun.keeps_drain_local_chunk drain_local_chunk_flow])

lemma str_drain_local_channel: "in_range i s0 \<Longrightarrow> keeps (streaming s0) (drain_local_channel P i)"
  unfolding drain_local_channel_def by (intro str_calm str_drain_local_chunks)

lemma str_order:
  fixes f :: "int \<Rightarrow> (('w, 'r, 'z) tunnel_scheme, unit) state"
  assumes "\<And>i. in_range i s0 \<Longrightarrow> keeps (streaming s0) (f i)"
  shows "keeps (streaming s0) (do { order \<leftarrow> gets pump_order; for_each f order })"
  by (intro keeps_gets_bind keeps_for_each assms) (auto simp: in_range_flow dest: pump_order_range)

lemma str_drainSshToLocal: "keeps (streaming s0) (drainSshToLocal P)"
  unfolding drainSshToLocal_def by (intro keeps_intros str_order str_drain_local_channel)

subsection \<open>Phase 3\<close>

lemma write_chunk_flow:
  fixes s :: "('w, 'r, 'z) tunnel_scheme"
  assumes s: "ready s" "in_range i s"
  shows "wp (write_chunk P i budget) (\<lambda>_. flows s) s"
proof (cases "active (getSlot i s)")
  case False
  then show ?thesis
    using ready_idle [OF s] by (simp add: write_chunk_def wp_simps ring_read_def on_ring_def flow_refl)
next
  case True
  obtain l d where d: "toLocal (getSlot i s) = Some l" "toRemote (getSlot i s) = Some d" "ring_good d" "has_slot i s"
    using ready_slot [OF s True] by blast
  define n where "n = (if budget < bufSize s then budget else bufSize s)"
  have n: "n \<le> SSH_TUNNEL_PREPEND_CAPACITY P" using s(1) by (simp add: n_def pump_ready_def tunnel_inv_def)
  obtain chunk d1 where rd: "drb_read P True n d = (chunk, d1)" by fastforce
  obtain sent w1 where send: "libssh2_channel_write P (sshChannel (getSlot i s)) chunk (world s) = (sent, w1)" by fastforce
  obtain now w2 where clock: "p_millis P w1 = (now, w2)" by fastforce
  obtain m d2 m' d2' where putb: "restore_drb P (drop (nat sent) chunk) d1 = (m, d2)" "restore_drb P chunk d1 = (m', d2')"
    by fastforce
  note sent = wire_write [OF send] and w2 = wire_clock [OF clock]
  have b: "length chunk - nat sent \<le> m" "contents d = take (nat sent) chunk @ contents d2" if "0 < sent"
    using wf_putback [OF d(3) rd n _ putb(1)] sent that by auto
  have b': "length chunk \<le> m'" "contents d = contents d2'"
    using wf_putback [OF d(3) rd n _ , of 0 m' d2'] putb(2) by auto
  have all: "contents d = chunk @ contents d1" using fifo.read_prefix [OF _ rd] d(3) by (simp add: ring_wf_def)
  note upd = flow_upd [OF s True] and upd0 = flow_upd_silent [OF s True]
  show ?thesis
    using d rd send clock putb b b' sent w2 all
    apply (simp add: write_chunk_def wp_simps wp_return_fun Let_def ring_read_def on_ring_def
      modify_slot_def flow_refl n_def [symmetric] add_moved_def restore_and_account_def restoreUnsent_def accountRestoreDrop_def)
    by (intro conjI impI allI calm_wp [OF keeps_calm_checks(1)] upd upd0) (auto simp: only_at_def slot_flow_simps)
qed

lemma str_write_loop: "in_range i s0 \<Longrightarrow> keeps (streaming s0) (write_loop P i fuel budget)"
  by (induction fuel arbitrary: budget)
    (subst write_loop.simps; auto intro!: keeps_intros flow_step [OF rings.tun.keeps_write_chunk write_chunk_flow])+

lemma str_write_channel: "in_range i s0 \<Longrightarrow> keeps (streaming s0) (write_channel P i)"
  unfolding write_channel_def by (intro str_calm str_write_loop)

text \<open>Storing what a receive delivered.\<close>

lemma recv_store:
  fixes s :: "('w, 'r, 'z) tunnel_scheme"
  assumes s: "ready s" "in_range i s" "active (getSlot i s)" and d: "toRemote (getSlot i s) = Some d"
    and rx: "p_recv P (localSocket (getSlot i s)) m (world s) = ((k, bs, e), w1)"
    and m: "m \<le> drb_available P d" and k: "0 < k"
  shows "wp (do { written \<leftarrow> ring_write P i ToRemote bs (nat k);
       modify_slot i (\<lambda>sl. sl\<lparr>totalBytesDropped := totalBytesDropped sl + (of_int k - of_nat written)\<rparr>);
       now \<leftarrow> millis P;
       modify_slot i (\<lambda>sl. sl\<lparr>lastActivity := now\<rparr>);
       add_moved written }) (\<lambda>_. streaming s) (s\<lparr>world := w1\<rparr>)" (is "wp ?store _ _")
proof -
  obtain l where l: "toLocal (getSlot i s) = Some l" and h: "has_slot i s" and g: "ring_good d"
    using ready_slot [OF s] d by (metis option.inject)
  obtain now w2 where clock: "p_millis P w1 = (now, w2)" by fastforce
  obtain j d1 where wr: "drb_write P (Some bs) (nat k) d = (j, d1)" by fastforce
  note got = wire_recv [OF rx] and w2 = wire_clock [OF clock]
  have st: "j = nat k" "contents d1 = contents d @ bs" "length bs = nat k"
    using wf_store [OF g _ _ wr] got k m by auto
  have "wp ?store (\<lambda>_. flows s) (s\<lparr>world := w1\<rparr>)"
    using d l h clock wr got w2 st k
    by (simp add: wp_simps on_ring_def ring_write_def modify_slot_def add_moved_def)
      (intro flow_upd [OF s]; auto simp: only_at_def slot_flow_simps)
  moreover have "keeps (tunnel_inv P ring_good :: ('w, 'r, 'z) tunnel_scheme \<Rightarrow> bool) ?store"
    by (intro rings.tun.pump_ops rings.tun.keeps_add_moved; simp add: bookkeeping_def)
  ultimately show ?thesis
    by (intro flow_wp [OF _ s(1)]) (use ready_inv [OF s(1)] in simp_all)
qed

lemma str_trans:
  assumes "wp m (\<lambda>_. streaming s) s1" and "in_range i s"
    and "\<And>s' :: ('w, 'r, 'z) tunnel_scheme. ready s' \<Longrightarrow> in_range i s' \<Longrightarrow> wp m' (\<lambda>_. flows s') s'"
  shows "wp m (\<lambda>_. wp m' (\<lambda>_. flows s)) s1"
proof (rule wp_mono [OF assms(1)]; elim conjE)
  fix s' assume s': "ready s'" "flows s s'"
  then have "wp m' (\<lambda>_. flows s') s'" using assms(2,3) by (simp add: in_range_flow)
  then show "wp m' (\<lambda>_. flows s) s'" by (rule wp_mono) (rule flow_trans [OF s'(2)])
qed

lemma recv_chunks_flow:
  fixes s :: "('w, 'r, 'z) tunnel_scheme"
  assumes "ready s" "in_range i s"
  shows "wp (recv_chunks P i n) (\<lambda>_. flows s) s"
  using assms
proof (induction n arbitrary: s)
  case 0
  then show ?case by (simp add: wp_simps flow_refl)
next
  case (Suc n)
  note s = Suc.prems
  have idle: "flows s (upd_slot i (localReadPaused_update (\<lambda>_. True)) s)"
    by (rule flow_idle) (simp add: idle_update_def)
  show ?case
  proof (cases "active (getSlot i s)")
    case False
    then show ?thesis
      using ready_idle [OF s] idle by (simp add: wp_simps ring_available_def flow_refl modify_slot_def)
  next
    case True
    obtain l d where d: "toLocal (getSlot i s) = Some l" "toRemote (getSlot i s) = Some d" "ring_good d" "has_slot i s"
      using ready_slot [OF s True] by blast
    define m where "m = (if drb_available P d < bufSize s then drb_available P d else bufSize s)"
    obtain k bs e w1 where rx: "p_recv P (localSocket (getSlot i s)) m (world s) = ((k, bs, e), w1)" by (metis prod.exhaust)
    note store = str_trans [OF recv_store [OF s True d(2) rx] s(2) Suc.IH, unfolded wp_bind_fun]
    have quiet: "flows s ((upd_slot i (localEof_update (\<lambda>_. True)) s)\<lparr>world := w1\<rparr>)" "flows s (s\<lparr>world := w1\<rparr>)" if "\<not> 0 < k"
      using that wire_recv [OF rx] by (auto simp: append_at_def idle_update_def intro!: flow_idle)
    show ?thesis
      using d rx store idle quiet
      by (simp add: wp_bind_fun wp_simps Let_def ring_available_def modify_slot_def flow_refl m_def [symmetric])
        (simp add: m_def)
  qed
qed

lemma str_recv_channel: "in_range i s0 \<Longrightarrow> keeps (streaming s0) (recv_channel P i)"
  unfolding recv_channel_def
  by (intro keeps_intros flow_step [OF rings.tun.keeps_recv_chunks recv_chunks_flow])

lemma str_drain_remote_channel: "in_range i s0 \<Longrightarrow> keeps (streaming s0) (drain_remote_channel P i)"
  unfolding drain_remote_channel_def by (intro str_calm str_write_channel str_recv_channel)

lemma str_offset: "keeps (streaming s0) (modify (\<lambda>s. s\<lparr>roundRobinOffset := roundRobinOffset s + 1\<rparr>))"
  by (rule calm_step) (auto simp: keeps_def wp_simps calm_def getSlot_def)

lemma str_drainLocalToSsh: "keeps (streaming s0) (drainLocalToSsh P)"
proof -
  have "keeps (streaming s0) (do { do { order \<leftarrow> gets pump_order; for_each (drain_remote_channel P) order };
      modify (\<lambda>s. s\<lparr>roundRobinOffset := roundRobinOffset s + 1\<rparr>) })"
    by (intro keeps_bind str_order str_drain_remote_channel str_offset)
  then have body: "keeps (streaming s0) (do { order \<leftarrow> gets pump_order; for_each (drain_remote_channel P) order;
      modify (\<lambda>s. s\<lparr>roundRobinOffset := roundRobinOffset s + 1\<rparr>) })"
    by (simp add: State_Monad.bind_assoc)
  show ?thesis
    unfolding drainLocalToSsh_def
    by (rule keeps_bind, rule keeps_gets, rule keeps_if, rule keeps_return, rule body)
qed

subsection \<open>Phase 1\<close>

lemma read_nothing:
  fixes s :: "('w, 'r, 'z) tunnel_scheme"
  assumes s: "ready s" "in_range i s" "active (getSlot i s)"
    and rx: "libssh2_channel_read P (sshChannel (getSlot i s)) m (world s) = ((k, bs), w1)" and k: "\<not> 0 < k"
  shows "flows s (s\<lparr>world := w1\<rparr>)" "k = 0 \<Longrightarrow> 0 < m \<Longrightarrow> flows s ((upd_slot i (remoteEof_update (\<lambda>_. True)) s)\<lparr>world := w1\<rparr>)"
proof -
  obtain l r where d: "toLocal (getSlot i s) = Some l" "toRemote (getSlot i s) = Some r" using ready_slot [OF s] by blast
  show "flows s (s\<lparr>world := w1\<rparr>)"
    using flow_upd(1) [OF s, of w1 "\<lambda>sl. sl"] wire_read [OF rx] d k by (simp add: only_at_def slot_flow_simps)
  show "flows s ((upd_slot i (remoteEof_update (\<lambda>_. True)) s)\<lparr>world := w1\<rparr>)" if "k = 0" "0 < m"
    using wire_read [OF rx] d that by (intro flow_upd [OF s]) (auto simp: only_at_def slot_flow_simps)
qed

lemma read_store:
  fixes s :: "('w, 'r, 'z) tunnel_scheme"
  assumes s: "ready s" "in_range i s" "active (getSlot i s)" and d: "toLocal (getSlot i s) = Some d"
    and rx: "libssh2_channel_read P (sshChannel (getSlot i s)) m (world s) = ((k, bs), w1)"
    and m: "m \<le> drb_available P d" and k: "0 < k"
  shows "wp (store_received P i bs k) (\<lambda>_. streaming s) (s\<lparr>world := w1\<rparr>)"
proof -
  obtain r where r: "toRemote (getSlot i s) = Some r" and h: "has_slot i s" and g: "ring_good d"
    using ready_slot [OF s] d by (metis option.inject)
  obtain now w2 where clock: "p_millis P w1 = (now, w2)" by fastforce
  obtain j d1 where wr: "drb_write P (Some bs) (nat k) d = (j, d1)" by fastforce
  note got = wire_read [OF rx] and w2 = wire_clock [OF clock]
  have st: "j = nat k" "contents d1 = contents d @ bs" "length bs = nat k"
    using wf_store [OF g _ _ wr] got k m by auto
  have "wp (store_received P i bs k) (\<lambda>_. flows s) (s\<lparr>world := w1\<rparr>)"
    using d r h clock wr got w2 st k
    by (simp add: store_received_def wp_simps on_ring_def ring_write_def modify_slot_def add_moved_def)
      (intro flow_upd [OF s]; auto simp: only_at_def slot_flow_simps)
  then show ?thesis
    by (intro flow_wp [OF rings.tun.keeps_store_received s(1)]) (use ready_inv [OF s(1)] in simp_all)
qed

lemma pump_paused_flow:
  fixes s :: "('w, 'r, 'z) tunnel_scheme"
  assumes s: "ready s" "in_range i s"
  shows "wp (pump_paused P i) (\<lambda>_. flows s) s"
proof (cases "active (getSlot i s)")
  case False
  then show ?thesis using ready_idle [OF s] by (simp add: pump_paused_def wp_simps flow_refl)
next
  case True
  obtain d where d: "toLocal (getSlot i s) = Some d" using ready_slot [OF s True] by blast
  define m where "m = (if drb_available P d < 64 then drb_available P d else 64)"
  obtain k bs w1 where rx: "libssh2_channel_read P (sshChannel (getSlot i s)) m (world s) = ((k, bs), w1)" by (metis prod.exhaust)
  note none = read_nothing [OF s True rx]
  have store: "wp (store_received P i bs k) (\<lambda>_. flows s) (s\<lparr>world := w1\<rparr>)" if "0 < k"
    by (rule wp_mono [OF read_store [OF s True d rx _ that]]) (auto simp: m_def)
  have error: "wp (channel_error P i) (\<lambda>_. flows s) (s\<lparr>world := w1\<rparr>)" if "\<not> 0 < k"
    by (rule calm_wp [OF keeps_calm_checks(1) none(1) [OF that]])
  show ?thesis
    using d rx none store error
    by (simp add: pump_paused_def wp_simps wp_return_fun wp_bind_fun Let_def ring_available_def modify_slot_def flow_refl m_def [symmetric])
      (auto simp: m_def wp_simps modify_slot_def)
qed

lemma read_chunks_flow:
  fixes s :: "('w, 'r, 'z) tunnel_scheme"
  assumes "ready s" "in_range i s"
  shows "wp (read_chunks P i n b) (\<lambda>_. flows s) s"
  using assms
proof (induction n arbitrary: s b)
  case 0
  then show ?case by (simp add: wp_simps flow_refl)
next
  case (Suc n)
  note s = Suc.prems
  have idle: "flows s (upd_slot i (sshReadPaused_update (\<lambda>_. True)) s)" for s :: "('w, 'r, 'z) tunnel_scheme"
    by (rule flow_idle) (simp add: idle_update_def)
  show ?case
  proof (cases "active (getSlot i s)")
    case False
    then show ?thesis
      using ready_idle [OF s] idle by (simp add: wp_simps ring_available_def flow_refl modify_slot_def)
  next
    case True
    obtain d where d: "toLocal (getSlot i s) = Some d" using ready_slot [OF s True] by blast
    define m where "m = (if drb_available P d < bufSize s then drb_available P d else bufSize s)"
    have pos: "0 < m" if "0 < drb_available P d" using that s(1) by (simp add: m_def pump_ready_def)
    obtain k bs w1 where rx: "libssh2_channel_read P (sshChannel (getSlot i s)) m (world s) = ((k, bs), w1)" by (metis prod.exhaust)
    note none = read_nothing [OF s True rx]
    have error: "wp (channel_error P i) (\<lambda>_. flows s) (s\<lparr>world := w1\<rparr>)" if "\<not> 0 < k"
      by (rule calm_wp [OF keeps_calm_checks(1) none(1) [OF that]])
    define rest :: "(('w, 'r, 'z) tunnel_scheme, bool) state" where "rest = do {
         slot \<leftarrow> gets (getSlot i);
         if ring_size P (toLocal slot) > pct_of (ring_capacity (toLocal slot)) BACKPRESSURE_HIGH_PCT
         then do { modify_slot i (\<lambda>sl. sl\<lparr>sshReadPaused := True\<rparr>); ret True }
         else read_chunks P i n True }"
    have "wp rest (\<lambda>_. flows s') s'" if "ready s'" "in_range i s'" for s'
      unfolding rest_def using Suc.IH [OF that] idle by (simp add: wp_simps modify_slot_def)
    then have store: "wp (store_received P i bs k) (\<lambda>_. wp rest (\<lambda>_. flows s)) (s\<lparr>world := w1\<rparr>)" if "0 < k"
      using that by (intro str_trans [OF read_store [OF s True d rx] s(2)]) (auto simp: m_def)
    show ?thesis
      using d rx none error idle store pos
      by (simp add: wp_simps wp_return_fun wp_bind_fun Let_def ring_available_def modify_slot_def m_def [symmetric] rest_def [symmetric])
        (auto simp: m_def wp_simps wp_return_fun modify_slot_def split: if_splits)
  qed
qed

lemma check_eof_flag_flow:
  fixes s :: "('w, 'r, 'z) tunnel_scheme"
  assumes s: "ready s" "in_range i s"
  shows "wp (check_eof_flag P i) (\<lambda>_. flows s) s"
proof (cases "active (getSlot i s)")
  case False
  then show ?thesis using ready_idle [OF s] by (simp add: check_eof_flag_def wp_simps flow_refl)
next
  case True
  obtain l r where d: "toLocal (getSlot i s) = Some l" "toRemote (getSlot i s) = Some r" using ready_slot [OF s True] by blast
  obtain e w1 where rx: "libssh2_channel_eof P (sshChannel (getSlot i s)) (world s) = (e, w1)" by fastforce
  note upd = flow_upd(1) [OF s True, of w1]
  show ?thesis
    using d rx wire_eof [OF rx] upd [of "\<lambda>sl. sl"] upd [of "remoteEof_update (\<lambda>_. True)"]
    by (simp add: check_eof_flag_def wp_simps modify_slot_def flow_refl) (simp add: only_at_def slot_flow_simps)
qed

lemma str_read_open_channel: "in_range i s0 \<Longrightarrow> keeps (streaming s0) (read_open_channel P i)"
  unfolding read_open_channel_def
  by (intro keeps_intros flow_step [OF rings.tun.keeps_read_chunks read_chunks_flow]
      flow_step [OF rings.tun.keeps_check_eof_flag check_eof_flag_flow])

text \<open>A read on a channel whose EOF has been reported delivers nothing.\<close>

lemma eof_read_flow:
  fixes s :: "('w, 'r, 'z) tunnel_scheme"
  assumes s: "ready s" "in_range i s" and a: "active (getSlot i s)" "remoteEof (getSlot i s)"
  shows "wp (ext (libssh2_channel_read P (sshChannel (getSlot i s)) m)) (\<lambda>_. flows s) s"
proof -
  obtain k bs w1 where rx: "libssh2_channel_read P (sshChannel (getSlot i s)) m (world s) = ((k, bs), w1)" by (metis prod.exhaust)
  have "at_eof (obs (world s)) (sshChannel (getSlot i s))" using s a by (simp add: pump_ready_def wired_def)
  then have "\<not> 0 < k" using wire_read [OF rx] by auto
  then show ?thesis using read_nothing(1) [OF s a(1) rx] rx by (simp add: wp_simps)
qed

lemma str_read_open_wp:
  "ready s \<Longrightarrow> in_range i s \<Longrightarrow> wp (read_open_channel P i) (\<lambda>_. streaming s) s"
  using keepsD [OF str_read_open_channel [of i s]] by (simp add: flow_refl)

lemma pump_channel_flow:
  fixes s :: "('w, 'r, 'z) tunnel_scheme"
  assumes s: "ready s" "in_range i s"
  shows "wp (pump_channel P i) (\<lambda>_. flows s) s"
proof -
  have open_ch: "wp (read_open_channel P i) (\<lambda>_. flows s) s"
    by (rule wp_mono [OF str_read_open_wp [OF s]]) simp
  have resume: "wp (do { modify_slot i (\<lambda>sl. sl\<lparr>sshReadPaused := False\<rparr>); read_open_channel P i }) (\<lambda>_. streaming s) s"
  proof (rule keepsD)
    have "keeps (streaming s) (modify_slot i (\<lambda>sl :: 'r channel_slot. sl\<lparr>sshReadPaused := False\<rparr>))"
      by (intro calm_step rings.tun.keeps_book keeps_calm_slot) (simp_all add: bookkeeping_def idle_update_def)
    then show "keeps (streaming s) (do { modify_slot i (\<lambda>sl :: 'r channel_slot. sl\<lparr>sshReadPaused := False\<rparr>); read_open_channel P i })"
      using s(2) by (intro keeps_bind str_read_open_channel)
  qed (use s(1) flow_refl in auto)
  show ?thesis
    using open_ch wp_mono [OF resume, of "\<lambda>_. flows s"] eof_read_flow [OF s, of 64] pump_paused_flow [OF s]
    by (simp add: pump_channel_def wp_bind_fun wp_return_fun wp_simps flow_refl)
qed

lemma str_pump_channels: "(\<And>i. i \<in> set is \<Longrightarrow> in_range i s0) \<Longrightarrow> keeps (streaming s0) (pump_channels P is b)"
  by (induction "is" arbitrary: b)
    (auto intro!: keeps_intros intro: flow_step [OF rings.tun.keeps_pump_channel pump_channel_flow])

lemma str_poll:
  assumes "in_range i s0"
  shows "keeps (streaming s0) (do { slot \<leftarrow> gets (getSlot i);
      if active slot \<and> sshChannel slot \<noteq> NULL \<and> remoteEof slot
      then do { ext (libssh2_channel_read P (sshChannel slot) 1); ret False } else ret True })"
proof (rule flow_step [OF _ _ assms])
  fix s :: "('w, 'r, 'z) tunnel_scheme" assume s: "ready s" "in_range i s"
  then show "wp (do { slot \<leftarrow> gets (getSlot i);
      if active slot \<and> sshChannel slot \<noteq> NULL \<and> remoteEof slot
      then do { ext (libssh2_channel_read P (sshChannel slot) 1); ret False } else ret True }) (\<lambda>_. flows s) s"
    using eof_read_flow [OF s, of 1] by (simp add: wp_bind wp_gets wp_if wp_return wp_return_fun wp_bind_fun flow_refl)
qed (intro rings.tun.pump_ops)

lemma str_pumpSshTransport: "keeps (streaming s0) (pumpSshTransport P)"
proof -
  have tail: "keeps (streaming s0) (do { n \<leftarrow> gets maxSlots;
       whenM (\<not> anyRead) (for_break (\<lambda>i. do {
         slot \<leftarrow> gets (getSlot i);
         if active slot \<and> sshChannel slot \<noteq> NULL \<and> remoteEof slot then do {
           ext (libssh2_channel_read P (sshChannel slot) 1);
           ret False }
         else ret True }) [0..n - 1]);
       session_unlock P })" for anyRead
    by (rule keeps_gets_bind, rule keeps_bind, rule keeps_whenM, rule keeps_for_break, rule str_poll)
      (auto dest: range_flow intro: str_lock)
  have "keeps (streaming s0) (do { order \<leftarrow> gets pump_order; anyRead \<leftarrow> pump_channels P order False;
      n \<leftarrow> gets maxSlots;
       whenM (\<not> anyRead) (for_break (\<lambda>i. do {
         slot \<leftarrow> gets (getSlot i);
         if active slot \<and> sshChannel slot \<noteq> NULL \<and> remoteEof slot then do {
           ext (libssh2_channel_read P (sshChannel slot) 1);
           ret False }
         else ret True }) [0..n - 1]);
       session_unlock P })"
    by (rule keeps_gets_bind, rule keeps_bind [OF str_pump_channels tail]) (auto simp: in_range_flow dest: pump_order_range)
  then show ?thesis
    unfolding pumpSshTransport_def by (intro keeps_bind [OF str_lock(1)] keeps_if keeps_return)
qed

lemma move_data: "keeps (streaming s0) (do { pumpSshTransport P; drainSshToLocal P; drainLocalToSsh P })"
  by (intro keeps_bind str_pumpSshTransport str_drainSshToLocal str_drainLocalToSsh)

lemma move_data_flow:
  assumes "tunnel_reach P s" and "wired obs s" and "0 < bufSize s"
  shows "wp (do { pumpSshTransport P; drainSshToLocal P; drainLocalToSsh P }) (\<lambda>_. flows s) s"
proof -
  have "ready s" using assms by (simp add: pump_ready_def rings.reach_inv)
  from keepsD [OF move_data, of s] this flow_refl
  have "wp (do { pumpSshTransport P; drainSshToLocal P; drainLocalToSsh P }) (\<lambda>_. streaming s) s" by blast
  then show ?thesis by (rule wp_mono) simp
qed

end

section \<open>The reference platform\<close>

definition ref_traffic :: "ref_world \<Rightarrow> traffic" where
  "ref_traffic w = \<lparr>from_ssh = rw_chan_in w, to_ssh = rw_chan_out w, from_local = rw_sock_in w, to_local = rw_sock_out w,
     at_eof = (\<lambda>ch. ch \<in> set (rw_eof w)), send_failed = (\<lambda>fd. fd \<in> set (rw_dead w))\<rparr>"

interpretation ref_wire: wire ref_platform cr_inv cr_contents cr_cap ref_traffic
  by unfold_locales
    (auto simp: ref_platform_def ref_traffic_def rw_take_def rw_give_def rw_answer_send_def rw_answer_recv_def rw_answer_write_def
      rw_answer_read_def append_at_def Let_def fun_eq_iff min_def split: prod.splits if_splits)

section \<open>Properties\<close>

text \<open>
  C1: Stream integrity. Over correct rings and sockets, the three data-moving phases of a pump
  cycle move bytes between every forwarded SSH channel and its local socket without losing,
  duplicating or reordering any: in the direction to SSH always, and in the direction to the local
  socket as long as no send on it fails with a hard error; then the count of dropped bytes stays the
  same.
\<close>

theorem pump_streams_intact:
  assumes "wire P rb_inv rb_contents rb_cap obs" and "tunnel_reach P s" and "wired obs s" and "0 < bufSize s"
    and "0 \<le> i" and "i < maxSlots s" and "active (getSlot i s)"
  shows "wp (do { pumpSshTransport P; drainSshToLocal P; drainLocalToSsh P })
    (\<lambda>_ s'. (\<exists>x y. from_local (obs (world s')) (localSocket (getSlot i s)) = from_local (obs (world s)) (localSocket (getSlot i s)) @ x
        \<and> to_ssh (obs (world s')) (sshChannel (getSlot i s)) = to_ssh (obs (world s)) (sshChannel (getSlot i s)) @ y
        \<and> queued rb_contents ToRemote (getSlot i s) @ x = y @ queued rb_contents ToRemote (getSlot i s'))
      \<and> (\<not> send_failed (obs (world s')) (localSocket (getSlot i s)) \<longrightarrow>
          totalBytesDropped (getSlot i s') = totalBytesDropped (getSlot i s)
          \<and> (\<exists>x y. from_ssh (obs (world s')) (sshChannel (getSlot i s)) = from_ssh (obs (world s)) (sshChannel (getSlot i s)) @ x
              \<and> to_local (obs (world s')) (localSocket (getSlot i s)) = to_local (obs (world s)) (localSocket (getSlot i s)) @ y
              \<and> queued rb_contents ToLocal (getSlot i s) @ x = y @ queued rb_contents ToLocal (getSlot i s')))) s"
  using wire.move_data_flow [OF assms(1-4)]
  by (rule wp_mono) (use assms(5-7) in \<open>auto simp: flow_def in_range_def slot_flow_def dir_flow_def\<close>)

theorem pump_streams_intact_witness:
  "\<exists>s. s = sc_running\<lparr>world := (world sc_running)\<lparr>rw_recv := [(3, [1, 2, 3], 0)], rw_read := [(2, [8, 9])]\<rparr>\<rparr>
    \<and> wp (do { pumpSshTransport ref_platform; drainSshToLocal ref_platform; drainLocalToSsh ref_platform })
      (\<lambda>_ s'. \<exists>x y. from_local (ref_traffic (world s')) 5 = from_local (ref_traffic (world s)) 5 @ x
        \<and> to_ssh (ref_traffic (world s')) 7 = to_ssh (ref_traffic (world s)) 7 @ y
        \<and> queued cr_contents ToRemote sc_slot @ x = y @ queued cr_contents ToRemote (getSlot 0 s')) s"
proof -
  define s where "s = sc_running\<lparr>world := (world sc_running)\<lparr>rw_recv := [(3, [1, 2, 3], 0)], rw_read := [(2, [8, 9])]\<rparr>\<rparr>"
  have "s = sc_running\<lparr>world := (world sc_running)\<lparr>rw_recv := [(3, [1, 2, 3], 0)], rw_read := [(2, [8, 9])]\<rparr>,
      sshConfig := sshConfig sc_running, tunnelMappings := tunnelMappings sc_running,
      connectionConfig := connectionConfig sc_running, debugConfig := debugConfig sc_running\<rparr>"
    by (simp add: s_def)
  then have r: "tunnel_reach ref_platform s" by (simp only: tunnel_reach.others [OF sc_running_reach])
  have f: "maxSlots s = 1" "bufSize s = 64" "getSlot 0 s = sc_slot" using sc_running_slot by (simp_all add: s_def)
  have w: "wired ref_traffic s" using f by (simp add: wired_def single_slot)
  show ?thesis
    using wp_mono [OF pump_streams_intact [OF ref_wire.wire_axioms r w, of 0]] f by (simp add: s_def)
qed

end
