(* ===== verification/Scheduling.thy ===== *)
theory Scheduling
  imports Teardown Pump_Stream
begin

text \<open>
  Progress of the loops: the order in which the pump visits the channels, the bounds of its loops, the
  deadline of a closing channel, and the timing of reconnections.
\<close>

section \<open>Reconnection delay\<close>

lemma backoff_double_unat:
  "min 60000 (unat (backoff_double n d)) = min 60000 (unat d * 2 ^ n)"
proof (induction n arbitrary: d)
  case (Suc n)
  show ?case
  proof (cases "d < 60000")
    case True
    then have "unat d < 60000" by (simp add: word_less_nat_alt)
    then have "unat (d * 2) = unat d * 2" by (simp add: unat_word_ariths)
    with Suc.IH [of "d * 2"] True show ?thesis by (simp add: mult.commute mult.left_commute)
  next
    case False
    then have "60000 \<le> unat d" by (simp add: word_less_nat_alt not_less)
    moreover have "unat d \<le> unat d * 2 ^ Suc n" by simp
    ultimately have "60000 \<le> unat d * 2 ^ Suc n" by linarith
    with False \<open>60000 \<le> unat d\<close> show ?thesis by simp
  qed
qed simp

lemma reconnect_delay_unat:
  assumes "0 \<le> base" and "base < 2 ^ 31"
  shows "unat (reconnect_delay base n) = min 60000 (nat base * 2 ^ nat n)"
proof -
  have "unat (word_of_int base :: u32) = nat base"
    using assms by (simp add: unat_eq_nat_uint take_bit_int_eq_self unsigned_of_int)
  moreover have "unat (if d > 60000 then 60000 else d :: u32) = min 60000 (unat d)" for d
    by (auto simp: word_less_nat_alt)
  ultimately show ?thesis
    using backoff_double_unat [of "nat n" "word_of_int base"] by (simp add: reconnect_delay_def Let_def)
qed

section \<open>Fairness of the pump\<close>

lemma rr_index_mod:
  assumes "0 \<le> n" and "n < m" and "uint off + m \<le> 2 ^ 32" and "m < 2 ^ 32"
  shows "rr_index off n m = (n + uint off) mod m"
proof -
  have "n < 2 ^ 32" "n + uint off < 2 ^ 32" using assms uint_ge_0 [of off] by linarith+
  then have s: "uint (word_of_int n + off) = n + uint off"
    using assms(1) by (simp add: uint_word_ariths(1) unsigned_of_int take_bit_int_eq_self)
  have "uint (word_of_int m :: u32) = m" using assms by (simp add: unsigned_of_int take_bit_int_eq_self)
  then show ?thesis by (simp add: rr_index_def uint_mod s)
qed

lemma pump_order_perm:
  assumes "uint (roundRobinOffset s) + maxSlots s \<le> 2 ^ 32" and "maxSlots s < 2 ^ 32"
  shows "distinct (pump_order s) \<and> set (pump_order s) = {0..<maxSlots s}"
proof -
  define m where "m = maxSlots s"
  define off where "off = uint (roundRobinOffset s)"
  have order: "pump_order s = map (\<lambda>n. (n + off) mod m) [0..m - 1]"
    using rr_index_mod assms by (auto simp: pump_order_def m_def off_def)
  have inj: "inj_on (\<lambda>n. (n + off) mod m) {0..<m}"
  proof (rule inj_onI)
    fix a b assume "a \<in> {0..<m}" "b \<in> {0..<m}" and eq: "(a + off) mod m = (b + off) mod m"
    moreover have "(a + off - off) mod m = (b + off - off) mod m" by (rule mod_diff_cong [OF eq refl])
    ultimately show "a = b" by simp
  qed
  have "(\<lambda>n. (n + off) mod m) ` {0..<m} \<subseteq> {0..<m}" by auto
  then have "(\<lambda>n. (n + off) mod m) ` {0..<m} = {0..<m}"
    by (intro endo_inj_surj [OF _ _ inj]) auto
  moreover have "set [0..m - 1] = {0..<m}" by auto
  ultimately show ?thesis
    using inj by (simp add: order distinct_map m_def [symmetric])
qed

section \<open>The bounded write loop\<close>

text \<open>\<open>libssh2_channel_write\<close> never reports more bytes than it was given.\<close>

definition write_contract :: "('w, 'r) platform \<Rightarrow> bool" where
  "write_contract P \<longleftrightarrow> (\<forall>ch bs w. fst (libssh2_channel_write P ch bs w) \<le> int (length bs))"

lemma drb_read_length:
  fixes P :: "('w, 'r) platform"
  shows "length (fst (drb_read P True n d)) \<le> n"
proof -
  have pb: "length (fst (pb_read True n p)) \<le> n" for n p
    by (auto simp: pb_read_def Let_def split: option.splits)
  have ring: "length (fst (drb_read_ring P n d)) \<le> n" for n and d :: "'r data_ring_buffer"
    by (auto simp: drb_read_ring_def Let_def split: option.splits prod.splits)
  obtain front p where f: "pb_read True n (prepend d) = (front, p)" by (metis surj_pair)
  have "length front \<le> n" using pb [of n "prepend d"] f by simp
  then show ?thesis
    using ring [of "n - length front" "d\<lparr>prepend := p\<rparr>"] ring [of n "d\<lparr>prepend := prepend d\<rparr>"] f
    by (auto simp: drb_read_def Let_def split: prod.splits)
qed

lemma wp_ext_bind: "(\<And>a w. f (world s) = (a, w) \<Longrightarrow> wp (g a) Q (s\<lparr>world := w\<rparr>)) \<Longrightarrow> wp (State_Monad.bind (ext f) g) Q s"
  by (auto simp: wp_simps split: prod.splits)

lemma write_chunk_shrinks:
  assumes "write_contract P" and "budget < 2 ^ 32"
  shows "wp (write_chunk P i budget) (\<lambda>r _. case r of None \<Rightarrow> True | Some b \<Rightarrow> b < budget) s"
proof -
  have shrink: "sz_sub budget (nat k) < budget"
    if "0 < k" "libssh2_channel_write P ch bs w = (k, w')" "length bs \<le> budget" for k ch bs w w'
  proof -
    have "k \<le> int (length bs)" using assms(1) that(2) by (metis write_contract_def fst_conv)
    then have "sz_sub budget (nat k) = budget - nat k" "0 < nat k" "nat k \<le> budget"
      using that(1,3) assms(2) by (auto intro!: sz_sub_exact)
    then show ?thesis by linarith
  qed
  have get: "wp (ring_read P i ToRemote n) (\<lambda>bs s'. length bs \<le> n) s" for n and s :: "('a, 'b, 'c) pump_state_scheme"
    using drb_read_length [of P n]
    by (auto simp: ring_read_def on_ring_def modify_slot_def wp_simps split: option.splits prod.splits) (metis fst_conv)
  show ?thesis
    unfolding write_chunk_def wp_bind [of "gets bufSize"] wp_gets wp_let Let_def wp_bind [of "ring_read P i ToRemote n" for n]
    by (rule wp_mono [OF get]) (rule wp_ext_bind wp_if_intro wp_ret_intro wp_any | simp add: shrink split: if_splits)+
qed

lemma write_loop_fuel_irrelevant:
  assumes "write_contract P"
  shows "budget < 2 ^ 32 \<Longrightarrow> budget \<le> fuel \<Longrightarrow> budget \<le> fuel' \<Longrightarrow>
    run_state (write_loop P i fuel budget) s = run_state (write_loop P i fuel' budget) s"
proof (induction fuel arbitrary: budget fuel' s)
  case 0
  then show ?case by (subst (1 2) write_loop.simps) (simp split: if_splits)
next
  case (Suc fuel)
  have "run_state (write_loop P i (Suc fuel) budget) s = run_state (write_loop P i fuel' budget) s" if "0 < budget"
  proof -
    obtain f where f: "fuel' = Suc f" using \<open>0 < budget\<close> Suc.prems by (cases fuel') auto
    have "run_state (write_loop P i fuel b) s' = run_state (write_loop P i f b) s'"
      if "run_state (write_chunk P i budget) s = (Some b, s')" for b s'
    proof -
      have "b < budget" using wp_run [OF write_chunk_shrinks [OF assms Suc.prems(1)] that] by simp
      then show ?thesis using Suc.prems f by (intro Suc.IH) auto
    qed
    then show ?thesis
      unfolding f by (subst (1 2) write_loop.simps) (auto split: prod.splits option.splits)
  qed
  then show ?case
    using Suc.prems by (cases "budget = 0") (subst (1 2) write_loop.simps, auto)
qed

section \<open>The accept loop\<close>

definition occupancy :: "('w, 'r, 'z) channel_state_scheme \<Rightarrow> int \<times> int" where
  "occupancy s = (activeCount s, maxSlots s)"

interpretation occ: channel_frame "\<lambda>s. occupancy s = v" for v
  by unfold_locales (simp_all add: occupancy_def)

lemma occ_slot: "keeps (\<lambda>s. occupancy s = v) (modify_slot i f)"
  by (simp add: keeps_def wp_simps modify_slot_def occupancy_def)

lemma occ_allocateSlot: "keeps (\<lambda>s. occupancy s = v) (allocateSlot P)"
  unfolding allocateSlot_def beginClose_def by (intro occ.prims2 occ_slot)

lemma wp_occ:
  assumes "\<And>v. keeps (\<lambda>s. occupancy s = v) m" and "\<And>a s'. occupancy s' = occupancy s \<Longrightarrow> Q a s'"
  shows "wp m Q s"
  by (rule wp_keep [OF assms(1) refl assms(2)])

lemma occ_bindChannel:
  "wp (bindChannel P i ch m) (\<lambda>ok s'. ok \<longrightarrow> occupancy s' = (activeCount s + 1, maxSlots s)) s"
  unfolding bindChannel_def resetSlot_def
  by (auto simp: wp_simps wp_bind_fun modify_slot_def occupancy_def split: prod.splits
      intro!: wp_occ [OF occ.keeps_connectToLocalEndpoint] wp_occ [OF occ.keeps_heap_guard] wp_occ [OF occ.keeps_drb_new]
        wp_occ [OF occ.keeps_drb_delete])

lemma occ_bindAcceptedChannel:
  "wp (bindAcceptedChannel P i ch m t) (\<lambda>r s'. r = Bound \<longrightarrow> occupancy s' = (activeCount s + 1, maxSlots s)) s"
  unfolding bindAcceptedChannel_def
  by (auto simp: wp_simps intro!: wp_occ [OF occ.keeps_locking(1)] wp_mono [OF occ_bindChannel] wp_occ [OF occ.keeps_locking(2)])
    (auto simp: occupancy_def)

lemma wp_True: "wp m (\<lambda>_ _. True) s"
  by (simp add: wp_iff_run)

text \<open>Every path that gives up returns \<open>False\<close>.\<close>

lemma occ_bind_new:
  fixes s :: "('w, 'r, 'z) tunnel_scheme"
  shows "wp (bind_new P i ch m) (\<lambda>ok s'. ok \<longrightarrow> occupancy s' = (activeCount s + 1, maxSlots s)) s"
  unfolding bind_new_def wp_simps
  by (rule wp_mono [OF occ_bindAcceptedChannel])
    (auto simp: wp_simps wp_return_fun wp_True emitChannelOpened_def emit_def occupancy_def split: bind_result.splits)

lemma occ_handleNewConnection:
  fixes s :: "('w, 'r, 'z) tunnel_scheme"
  shows "wp (handleNewConnection P) (\<lambda>more s'. more \<longrightarrow> occupancy s' = (activeCount s + 1, maxSlots s)) s"
proof -
  define Q where "Q more s' \<longleftrightarrow> (more \<longrightarrow> occupancy s' = (activeCount s + 1, maxSlots s))" for more and s' :: "('w, 'r, 'z) tunnel_scheme"
  have no: "Q False = (\<lambda>_. True)" by (simp add: Q_def fun_eq_iff)
  have bind: "wp (bind_new P i ch m) Q t" if "occupancy t = occupancy s" for i ch m and t :: "('w, 'r, 'z) tunnel_scheme"
    by (rule wp_mono [OF occ_bind_new]) (use that in \<open>auto simp: Q_def occupancy_def\<close>)
  have occ: "occupancy (t\<lparr>world := w\<rparr>) = occupancy t" for t :: "('w, 'r, 'z) tunnel_scheme" and w by (simp add: occupancy_def)
  have "wp (handleNewConnection P) Q s"
    unfolding handleNewConnection_def wp_bind [of "acceptChannel P"]
    by (rule wp_occ [OF occ.keeps_acceptChannel])
      (auto simp: wp_simps wp_return_fun Let_def no wp_True occ split: prod.splits intro!: wp_occ [OF occ_allocateSlot] bind)
  then show ?thesis by (simp only: Q_def [abs_def])
qed

lemma accept_loop_ends:
  fixes s :: "('w, 'r, 'z) tunnel_scheme"
  shows "tunnel_inv P (\<lambda>_. True) s \<Longrightarrow> max 0 (maxSlots s) - activeCount s < int fuel \<Longrightarrow> wp (accept_loop P fuel) (\<lambda>ended _. ended) s"
proof (induction fuel arbitrary: s)
  case 0
  then show ?case using tunnel_inv_count [OF 0(1)] by (simp add: max_def split: if_splits)
next
  case (Suc fuel)
  have "wp (handleNewConnection P) (\<lambda>more s'. tunnel_inv P (\<lambda>_. True) s'
      \<and> (more \<longrightarrow> occupancy s' = (activeCount s + 1, maxSlots s))) s"
    by (rule wp_conj [OF keepsD [OF any_ring.keeps_handleNewConnection Suc.prems(1)] occ_handleNewConnection])
  then show ?case
    unfolding accept_loop.simps wp_bind
    by (rule wp_mono) (use Suc in \<open>auto simp: wp_simps occupancy_def\<close>)
qed

section \<open>The deadline of a closing channel\<close>

text \<open>While slot \<open>i\<close> is draining, nothing that happens to the other slots changes it.\<close>

definition slot_is :: "int \<Rightarrow> 'r channel_slot \<Rightarrow> ('w, 'r, 'z) channel_state_scheme \<Rightarrow> bool" where
  "slot_is i sl s \<longleftrightarrow> getSlot i s = sl"

interpretation slot_is: channel_frame "slot_is i sl" for i sl
  by unfold_locales (simp_all add: slot_is_def getSlot_def)

lemma slot_is_modify: "0 \<le> i \<Longrightarrow> 0 \<le> j \<Longrightarrow> j \<noteq> i \<Longrightarrow> keeps (slot_is i sl) (modify_slot j f)"
  by (simp add: keeps_def wp_simps modify_slot_def slot_is_def getSlot_other)

lemma slot_is_abandon: "0 \<le> i \<Longrightarrow> 0 \<le> j \<Longrightarrow> j \<noteq> i \<Longrightarrow> keeps (slot_is i sl) (abandonSlot P j r)"
  unfolding abandonSlot_def count_buffered_dropped_def close_local_def free_rings_def archiveSlotStats_def resetSlot_def
  by (intro slot_is.prims2 slot_is_modify slot_is.keeps_delete_ring; simp add: slot_is_def getSlot_def)

lemma slot_is_beginClose: "0 \<le> i \<Longrightarrow> 0 \<le> j \<Longrightarrow> j \<noteq> i \<Longrightarrow> keeps (slot_is i sl) (beginClose P j r)"
  unfolding beginClose_def by (intro slot_is.prims2 slot_is_modify)

lemma slot_is_check_open:
  assumes "0 \<le> i" and "0 \<le> j" and "chstate sl \<noteq> Open"
  shows "keeps (slot_is i sl) (check_open P now j)"
proof (cases "j = i")
  case True
  then show ?thesis using assms(3) by (auto simp: check_open_def keeps_def wp_simps slot_is_def)
next
  case False
  then show ?thesis
    using assms unfolding check_open_def shutdown_local_def
    by (intro slot_is.prims2 slot_is_beginClose slot_is_modify)
qed

text \<open>An inactive slot stays inactive while channels are being closed.\<close>

definition slot_gone :: "int \<Rightarrow> ('w, 'r, 'z) pump_state_scheme \<Rightarrow> bool" where
  "slot_gone i s \<longleftrightarrow> \<not> active (getSlot i s) \<and> sessionDegraded s"

interpretation slot_gone: channel_frame "slot_gone i" for i
  by unfold_locales (simp_all add: slot_gone_def getSlot_def)

lemma slot_gone_modify:
  fixes f :: "'r channel_slot \<Rightarrow> 'r channel_slot"
  assumes "\<And>sl. \<not> active sl \<Longrightarrow> \<not> active (f sl)"
  shows "keeps (slot_gone i :: ('w, 'r, 'z) pump_state_scheme \<Rightarrow> bool) (modify_slot j f)"
proof (rule keepsI)
  fix s :: "('w, 'r, 'z) pump_state_scheme"
  assume g: "slot_gone i s"
  have "sessionDegraded (upd_slot j f s) = sessionDegraded s" by (simp add: upd_slot_def)
  moreover have "\<not> active (getSlot i (upd_slot j f s))"
    using g assms getSlot_upd_cases [of i j f s] by (metis slot_gone_def)
  ultimately show "wp (modify_slot j f) (\<lambda>_. slot_gone i) s"
    using g by (simp add: wp_simps modify_slot_def slot_gone_def)
qed

lemma slot_gone_close:
  "keeps (slot_gone i) (abandonSlot P j r)" "keeps (slot_gone i) (finalizeClose P j)"
  "keeps (slot_gone i) (send_eof P j)" "keeps (slot_gone i) (finalize_one P j)"
proof -
  show a: "keeps (slot_gone i) (abandonSlot P j r)" and f: "keeps (slot_gone i) (finalizeClose P j)"
    unfolding abandonSlot_def finalizeClose_def finalize_ssh_def finalize_local_def count_buffered_dropped_def close_local_def
      free_rings_def archiveSlotStats_def resetSlot_def
    by (intro slot_gone.prims2 slot_gone_modify slot_gone.keeps_delete_ring;
        simp add: slot_gone_def getSlot_def reset_slot_def slot_default_def)+
  have w: "keeps (slot_gone i) (ring_write P j ToLocal bs k)" for bs k
    unfolding ring_write_def on_ring_def by (intro slot_gone.prims2 slot_gone_modify; simp)
  have "keeps (slot_gone i) (pump_after_eof P j n)" for n
    by (induction n) (auto intro!: slot_gone.prims2 w)
  then show "keeps (slot_gone i) (send_eof P j)"
    unfolding send_eof_def by (intro slot_gone.prims2 slot_gone_modify; simp)
  show "keeps (slot_gone i) (finalize_one P j)"
    unfolding finalize_one_def push_close_event_def by (intro slot_gone.prims2 f) (simp add: slot_gone_def getSlot_def)
qed

lemma slot_gone_check_draining: "keeps (slot_gone i) (check_draining P now k is work)"
proof (induction "is" arbitrary: work)
  case (Cons j "is")
  have marks: "keeps (slot_gone i) (modify (\<lambda>s. s\<lparr>sessionDegraded := True\<rparr>))" "keeps (slot_gone i) (push_close_event j r)" for r
    by (auto simp: keeps_def wp_simps push_close_event_def slot_gone_def getSlot_def)
  show ?case
    by (cases work) (auto intro!: keeps_intros marks slot_gone_close keeps_case_decision Cons.IH)
qed (simp add: keeps_return)

definition draining_at :: "('w, 'r) platform \<Rightarrow> int \<Rightarrow> 'r channel_slot \<Rightarrow> ('w, 'r, 'z) tunnel_scheme \<Rightarrow> bool" where
  "draining_at P i sl s \<longleftrightarrow> tunnel_inv P (\<lambda>_. True) s \<and> slot_is i sl s \<and> in_range i s"

interpretation range_fixed: channel_frame "in_range i" for i
  by unfold_locales (simp_all add: in_range_def)

lemma hard_abandon_gone:
  fixes s :: "('w, 'r, 'z) tunnel_scheme"
  assumes "draining_at P i sl s" and "\<And>s'. slot_gone i s' \<Longrightarrow> wp m Q s'"
  shows "wp (do { abandonSlot P i r; modify (\<lambda>s. s\<lparr>sessionDegraded := True\<rparr>); push_close_event i r; m }) Q s"
proof -
  have "wp (abandonSlot P i r) (\<lambda>_ s'. \<not> active (getSlot i s')) s"
    by (rule wp_mono [OF abandonSlot_step [of "\<lambda>_. True"]]) (use assms(1) in \<open>auto simp: draining_at_def tunnel_inv_def\<close>)
  then show ?thesis
    unfolding wp_bind
    by (rule wp_mono) (auto simp: wp_simps wp_bind_fun push_close_event_def slot_gone_def getSlot_def intro!: assms(2))
qed

lemma draining_step:
  assumes "0 \<le> i" and "0 \<le> j" and "j \<noteq> i"
  shows "keeps (draining_at P i sl) (abandonSlot P j r)"
    "keeps (draining_at P i sl) (modify (\<lambda>s. s\<lparr>sessionDegraded := True\<rparr>))" "keeps (draining_at P i sl) (push_close_event j r)"
proof -
  have r: "keeps (in_range i) (abandonSlot P j r)"
    unfolding abandonSlot_def count_buffered_dropped_def close_local_def free_rings_def archiveSlotStats_def resetSlot_def modify_slot_def
    by (intro range_fixed.prims2 range_fixed.keeps_delete_ring; simp add: in_range_def upd_slot_def)
  show "keeps (draining_at P i sl) (abandonSlot P j r)"
    unfolding draining_at_def by (intro keeps_conj any_ring.tun.keeps_abandon slot_is_abandon assms r)
qed (auto simp: draining_at_def keeps_def wp_simps push_close_event_def slot_is_def in_range_def getSlot_def tunnel_inv_def chan_inv_def)

lemma check_draining_abandons:
  fixes s :: "('w, 'r, 'z) tunnel_scheme"
  assumes "drain_decide P now sl = HardAbandon" and "active sl" and "chstate sl = Draining" and "0 \<le> i"
  shows "draining_at P i sl s \<Longrightarrow> i \<in> set is \<Longrightarrow> \<forall>j\<in>set is. 0 \<le> j \<Longrightarrow> wp (check_draining P now k is work) (\<lambda>_. slot_gone i) s"
proof (induction "is" arbitrary: s work)
  case (Cons j "is")
  obtain es cs where work: "work = (es, cs)" by (cases work)
  show ?case
  proof (cases "j = i")
    case True
    then show ?thesis
      using Cons.prems(1) assms(1-3)
      by (auto simp: work wp_bind [of "gets (getSlot i)"] wp_gets draining_at_def slot_is_def
          intro!: hard_abandon_gone [OF Cons.prems(1)] keepsD [OF slot_gone_check_draining])
  next
    case False
    have rest: "wp (check_draining P now k is w) (\<lambda>_. slot_gone i) t" if "draining_at P i sl t"
      for t :: "('w, 'r, 'z) tunnel_scheme" and w
      by (rule Cons.IH [OF that]) (use False Cons.prems in auto)
    note st = draining_step [OF assms(4) _ False]
    show ?thesis
      using Cons.prems(1,3)
      by (auto simp: work wp_bind wp_bind_fun wp_gets wp_if split: drain_decision.splits
          intro!: rest wp_keep [OF st(1)] wp_keep [OF st(2)] wp_keep [OF st(3)])
  qed
qed simp

text \<open>
  \<open>past L c t\<close>: from every world in \<open>L\<close> the clock reads more than \<open>t\<close> milliseconds after \<open>c\<close>, and reading the
  clock or shutting down a socket stays in \<open>L\<close>: the clock goes on, and does not wrap.
\<close>

definition past :: "('w, 'r) platform \<Rightarrow> ('w \<Rightarrow> bool) \<Rightarrow> u32 \<Rightarrow> u32 \<Rightarrow> bool" where
  "past P L c t \<longleftrightarrow> (\<forall>w now w'. L w \<and> p_millis P w = (now, w') \<longrightarrow> now - c > t \<and> L w')
     \<and> (\<forall>w fd how u w'. L w \<and> p_shutdown P fd how w = (u, w') \<longrightarrow> L w')"

lemma pastD:
  assumes "past P L c t" and "L w"
  shows "p_millis P w = (now, w') \<Longrightarrow> now - c > t" "p_millis P w = (now, w') \<Longrightarrow> L w'"
    "p_shutdown P fd how w = (u, w') \<Longrightarrow> L w'"
  using assms unfolding past_def by blast+

lemma past_check_open:
  assumes "past P L c t"
  shows "keeps (\<lambda>s. L (world s)) (check_open P now j)"
proof -
  have e: "keeps (\<lambda>s. L (world s)) (millis P)" "keeps (\<lambda>s. L (world s)) (ext (p_shutdown P fd how))" for fd how
    by (auto simp: keeps_def wp_simps split: prod.splits intro: pastD(2,3) [OF assms])
  have m: "keeps (\<lambda>s. L (world s)) (modify_slot i f)" for i f
    by (simp add: keeps_def wp_simps modify_slot_def upd_slot_def)
  show ?thesis
    unfolding check_open_def shutdown_local_def beginClose_def by (intro keeps_intros e m)
qed

lemma checkCloses_deadline:
  fixes s :: "('w, 'r, 'z) tunnel_scheme"
  assumes "tunnel_inv P (\<lambda>_. True) s" and "in_range i s" and "active (getSlot i s)" and "chstate (getSlot i s) = Draining"
    and clock: "L (world s)" "past P L (closeStartMs (getSlot i s)) HARD_ABANDON_TIMEOUT_MS"
  shows "wp (checkCloses P) (\<lambda>_. slot_gone i) s"
proof -
  define sl where "sl = getSlot i s"
  define D where "D t \<longleftrightarrow> draining_at P i sl t \<and> L (world t)" for t :: "('w, 'r, 'z) tunnel_scheme"
  have d: "D s" using assms by (simp add: D_def draining_at_def slot_is_def sl_def)
  have i: "0 \<le> i" "i < maxSlots s" using assms(2) by (auto simp: in_range_def)
  have r: "keeps (in_range i) (check_open P now j)" for now j
    unfolding check_open_def beginClose_def shutdown_local_def modify_slot_def
    by (intro range_fixed.prims2; simp add: in_range_def upd_slot_def)
  have "keeps D (check_open P now j)" if "0 \<le> j" for now j
    unfolding D_def draining_at_def using assms(4) that i(1)
    by (intro keeps_conj any_ring.tun.keeps_check_open slot_is_check_open r past_check_open [OF clock(2)]) (simp_all add: sl_def)
  then have opens: "keeps D (for_each (check_open P now) [0..n - 1])" for now n
    by (intro keeps_for_each) simp
  have tick: "D (t\<lparr>world := w\<rparr>) \<and> now - closeStartMs sl > HARD_ABANDON_TIMEOUT_MS"
    if "D t" "p_millis P (world t) = (now, w)" for t :: "('w, 'r, 'z) tunnel_scheme" and now w
  proof -
    have "L (world t)" using that(1) by (simp add: D_def)
    from pastD(1,2) [OF clock(2) this that(2)] show ?thesis using that(1) by (simp add: D_def draining_at_def sl_def)
  qed
  have drain: "wp (check_draining P now k [0..maxSlots s - 1] work) (\<lambda>_. slot_gone i) t"
    if "D t" "now - closeStartMs sl > HARD_ABANDON_TIMEOUT_MS" for t :: "('w, 'r, 'z) tunnel_scheme" and now k work
  proof (rule check_draining_abandons [OF _ _ _ i(1)])
    show "draining_at P i sl t" using that(1) by (simp add: D_def)
    show "drain_decide P now sl = HardAbandon" using that(2) by (simp add: drain_decide_def)
  qed (use assms(3,4) i in \<open>auto simp: sl_def\<close>)
  have tail: "keeps (slot_gone i) (do {
     whenM (toSendEof \<noteq> []) (do {
       locked \<leftarrow> session_lock P (pdMS_TO_TICKS 100);
       whenM locked (do { for_each (send_eof P) toSendEof; session_unlock P }) });
     whenM (toClose \<noteq> []) (do {
       locked \<leftarrow> session_lock P (pdMS_TO_TICKS 200);
       whenM locked (do { for_each (finalize_one P) toClose; session_unlock P }) }) })" for toSendEof toClose
    by (intro slot_gone.prims2 slot_gone_close)
  have fin: "wp (State_Monad.bind (check_draining P now k [0..maxSlots s - 1] work) f) (\<lambda>_. slot_gone i) (t\<lparr>world := v\<rparr>)"
    if "D t" "p_millis P (world t) = (now, v)" "\<And>x. keeps (slot_gone i) (f x)"
    for t :: "('w, 'r, 'z) tunnel_scheme" and now k work v f
    unfolding wp_bind
    by (rule wp_mono [OF drain]) (use tick [OF that(1,2)] that(3) in \<open>auto intro: keepsD\<close>)
  show ?thesis
    unfolding checkCloses_def wp_bind [of "gets maxSlots"] wp_gets wp_bind [of "millis P"] wp_ext
    using tick [OF d]
    by (auto simp: wp_bind [of "for_each f xs" for f xs] wp_bind_fun [of "millis P"] wp_ext Let_def split: prod.splits
        intro!: wp_keep [OF opens] wp_ext_bind fin keeps_case_prod tail)
qed

section \<open>Properties\<close>

text \<open>
  C9: A channel that cannot be closed does not block its slot. When the close of a reachable
  channel has been pending for more than the hard deadline of 30 seconds (by the 32-bit clock),
  the next \<open>checkCloses\<close> frees its slot, whatever libssh2 answers and whether or not the session lock can be
  taken, and marks the session as degraded, which makes the tunnel reconnect.
\<close>

theorem stuck_close_is_abandoned:
  assumes "tunnel_reach P s" and "0 \<le> i" and "i < maxSlots s" and "active (getSlot i s)" and "chstate (getSlot i s) = Draining"
    and "L (world s)" and "past P L (closeStartMs (getSlot i s)) HARD_ABANDON_TIMEOUT_MS"
  shows "wp (checkCloses P) (\<lambda>_ s'. \<not> active (getSlot i s') \<and> sessionDegraded s') s"
  using checkCloses_deadline [where L = L, OF any_ring.reach_inv [OF assms(1)], of i] assms(2-7)
  by (simp add: in_range_def slot_gone_def [abs_def])

definition late_world :: ref_world where
  "late_world = rw_init\<lparr>rw_clock := 50000\<rparr>"

theorem stuck_close_is_abandoned_witness:
  "active (getSlot 0 (sc_draining\<lparr>world := late_world\<rparr>))
    \<and> wp (checkCloses ref_platform) (\<lambda>_ s'. \<not> active (getSlot 0 s') \<and> sessionDegraded s') (sc_draining\<lparr>world := late_world\<rparr>)"
proof -
  define s where "s = sc_draining\<lparr>world := late_world\<rparr>"
  have f: "maxSlots s = 1" "getSlot 0 s = sc_draining_slot"
    by (simp_all add: s_def sc_draining_eq sc_running_slot getSlot_def)
  have sl: "active sc_draining_slot" "chstate sc_draining_slot = Draining" "closeStartMs sc_draining_slot = 1000"
    by (simp_all add: sc_draining_slot_def)
  have p: "past ref_platform (\<lambda>w. rw_clock w = 50000 \<and> rw_tick w = 0) 1000 HARD_ABANDON_TIMEOUT_MS"
    by (simp add: past_def ref_platform_def HARD_ABANDON_TIMEOUT_MS_def)
  have L: "rw_clock (world s) = 50000 \<and> rw_tick (world s) = 0" by (simp add: s_def late_world_def rw_init_def)
  have "wp (checkCloses ref_platform) (\<lambda>_ s'. \<not> active (getSlot 0 s') \<and> sessionDegraded s') s"
    by (rule stuck_close_is_abandoned [where L = "\<lambda>w. rw_clock w = 50000 \<and> rw_tick w = 0"])
      (simp_all add: f sl L p, simp add: s_def sc_draining_reach)
  then show ?thesis using f sl by (simp add: s_def)
qed

text \<open>
  C13: The loop \<open>while (handleNewConnection()) {}\<close> of the main loop ends. From every reachable state at
  most one round more than there are slots is run, since a round that asks for another one has bound
  a further slot.
\<close>

theorem accept_loop_terminates:
  assumes "tunnel_reach P s"
  shows "wp (accept_loop P (Suc (nat (maxSlots s)))) (\<lambda>ended _. ended) s"
proof -
  have inv: "tunnel_inv P (\<lambda>_. True) s" by (rule any_ring.reach_inv [OF assms])
  show ?thesis by (rule accept_loop_ends [OF inv]) (use tunnel_inv_count [OF inv] in \<open>simp add: max_def split: if_splits\<close>)
qed

theorem accept_loop_terminates_witness:
  "wp (accept_loop ref_platform 2) (\<lambda>ended _. ended) sc_up"
  using accept_loop_terminates [OF sc_up_reach] by (simp add: sc_up_eq numeral_2_eq_2)

text \<open>
  C14: The write loop of the pump ends within its byte budget. If \<open>libssh2_channel_write\<close> never
  reports more bytes than it was given, as many rounds as the budget has bytes are enough: more
  rounds change neither the result nor the state, since every round but the last one uses up a part of
  the budget.
\<close>

theorem write_loop_within_budget:
  assumes "\<And>ch bs w. fst (libssh2_channel_write P ch bs w) \<le> int (length bs)"
    and "MAX_WRITE_PER_CHANNEL \<le> fuel"
  shows "run_state (write_loop P i fuel MAX_WRITE_PER_CHANNEL) s = run_state (write_loop P i MAX_WRITE_PER_CHANNEL MAX_WRITE_PER_CHANNEL) s"
  by (rule write_loop_fuel_irrelevant) (use assms in \<open>simp_all add: write_contract_def MAX_WRITE_PER_CHANNEL_def\<close>)

theorem write_loop_within_budget_witness:
  "run_state (write_loop ref_platform 0 100000 MAX_WRITE_PER_CHANNEL) sc_running
    = run_state (write_loop ref_platform 0 MAX_WRITE_PER_CHANNEL MAX_WRITE_PER_CHANNEL) sc_running"
  by (rule write_loop_within_budget)
    (auto simp: ref_platform_def rw_answer_write_def MAX_WRITE_PER_CHANNEL_def Let_def split: prod.splits)

text \<open>
  C16: The delay before the \<open>n\<close>-th reconnection attempt is \<open>min 60 s (base * 2^n)\<close>, for every non-negative
  configured base delay and every number of attempts: the doubling does not overflow.
\<close>

theorem reconnect_delay_exact:
  assumes "0 \<le> base" and "base < 2 ^ 31"
  shows "unat (reconnect_delay base n) = min 60000 (nat base * 2 ^ nat n)"
  by (rule reconnect_delay_unat [OF assms])

theorem reconnect_delay_exact_witness:
  "unat (reconnect_delay 5000 2) = 20000 \<and> unat (reconnect_delay 5000 200) = 60000"
proof -
  have "(60000 :: nat) \<le> 5000 * 2 ^ 200" by simp
  then show ?thesis using reconnect_delay_exact [of 5000 2] reconnect_delay_exact [of 5000 200] by (simp add: min_def)
qed

end
