(* ===== verification/Pump_Fairness.thy ===== *)
theory Pump_Fairness
  imports Scheduling
begin

text \<open>
  Fairness of the pump, in terms of the calls it makes. The locale \<open>call_log\<close> is an observer of the world that records the reads from
  SSH channels and the sends to local sockets; the locale \<open>pump_phase\<close> is the shape that the phases share, a loop over the slots whose round for
  one slot leaves the other slots alone and makes a bounded number of calls, at least one when the slot has something to do.
  Then no channel starves, whatever the other ones do.
\<close>

section \<open>Rounds\<close>

text \<open>
  Between two states only slot \<open>i\<close> has changed, except for its socket and its SSH channel, and the calls \<open>k\<close> times \<open>e\<close> have been made.
\<close>

definition served :: "('w \<Rightarrow> 'e list) \<Rightarrow> int \<Rightarrow> 'e \<Rightarrow> nat \<Rightarrow> ('w, 'r, 'z) pump_state_scheme \<Rightarrow> ('w, 'r, 'z) pump_state_scheme \<Rightarrow> bool" where
  "served calls i e k s s' \<longleftrightarrow> maxSlots s' = maxSlots s \<and> bufSize s' = bufSize s \<and> roundRobinOffset s' = roundRobinOffset s
     \<and> (\<forall>j. 0 \<le> j \<and> j \<noteq> i \<longrightarrow> getSlot j s' = getSlot j s)
     \<and> localSocket (getSlot i s') = localSocket (getSlot i s) \<and> sshChannel (getSlot i s') = sshChannel (getSlot i s)
     \<and> calls (world s') = calls (world s) @ replicate k e"

lemma served_refl: "served calls i e 0 s s"
  by (simp add: served_def)

text \<open>The calls of a round over the slots \<open>is\<close>, \<open>n i\<close> of them for slot \<open>i\<close>, in this order.\<close>

definition schedule :: "('r channel_slot \<Rightarrow> 'e) \<Rightarrow> (int \<Rightarrow> nat) \<Rightarrow> int list \<Rightarrow> ('w, 'r, 'z) channel_state_scheme \<Rightarrow> 'e list" where
  "schedule call n is s = concat (map (\<lambda>i. replicate (n i) (call (getSlot i s))) is)"

lemma schedule_cong:
  "(\<And>i. i \<in> set is \<Longrightarrow> n i = n' i \<and> getSlot i s = getSlot i s') \<Longrightarrow> schedule call n is s = schedule call n' is s'"
  unfolding schedule_def by (intro arg_cong [of _ _ concat] map_cong) auto

text \<open>Each of the slots has got at most \<open>most\<close> calls, and at least one when it was due.\<close>

definition fair_round ::
  "('w \<Rightarrow> 'e list) \<Rightarrow> ('r channel_slot \<Rightarrow> 'e) \<Rightarrow> (('w, 'r, 'z) pump_state_scheme \<Rightarrow> 'r channel_slot \<Rightarrow> bool) \<Rightarrow> nat \<Rightarrow> int list
    \<Rightarrow> ('w, 'r, 'z) pump_state_scheme \<Rightarrow> ('w, 'r, 'z) pump_state_scheme \<Rightarrow> bool" where
  "fair_round calls call due most is s s' \<longleftrightarrow>
     maxSlots s' = maxSlots s \<and> bufSize s' = bufSize s \<and> roundRobinOffset s' = roundRobinOffset s
     \<and> (\<exists>n. calls (world s') = calls (world s) @ schedule call n is s
        \<and> (\<forall>i\<in>set is. n i \<le> most \<and> (due s (getSlot i s) \<longrightarrow> 0 < n i)))"

locale pump_phase =
  fixes round :: "int \<Rightarrow> (('w, 'r, 'z) pump_state_scheme, 'a) state"
    and calls :: "'w \<Rightarrow> 'e list"
    and call :: "'r channel_slot \<Rightarrow> 'e"
    and due :: "('w, 'r, 'z) pump_state_scheme \<Rightarrow> 'r channel_slot \<Rightarrow> bool"
    and most :: nat
  assumes round_served: "0 \<le> i \<Longrightarrow> wp (round i) (\<lambda>_ s'. \<exists>k\<le>most. served calls i (call (getSlot i s)) k s s'
      \<and> (due s (getSlot i s) \<longrightarrow> 0 < k)) s"
    and due_frame: "bufSize s' = bufSize s \<Longrightarrow> due s' = due s"
begin

abbreviation fair :: "int list \<Rightarrow> ('w, 'r, 'z) pump_state_scheme \<Rightarrow> ('w, 'r, 'z) pump_state_scheme \<Rightarrow> bool" where
  "fair \<equiv> fair_round calls call due most"

lemma fair_Nil: "fair [] s s"
  by (simp add: fair_round_def schedule_def)

lemma fair_Cons:
  assumes first: "served calls i (call (getSlot i s)) k s s1" "k \<le> most" "due s (getSlot i s) \<longrightarrow> 0 < k"
    and rest: "fair is s1 s'" and "i \<notin> set is" "\<forall>j\<in>set is. 0 \<le> j"
  shows "fair (i # is) s s'"
proof -
  obtain n where n: "calls (world s') = calls (world s1) @ schedule call n is s1"
    "\<forall>j\<in>set is. n j \<le> most \<and> (due s1 (getSlot j s1) \<longrightarrow> 0 < n j)"
    using rest by (auto simp: fair_round_def)
  have same: "getSlot j s1 = getSlot j s" if "j \<in> set is" for j
    using first(1) assms(5,6) that by (auto simp: served_def)
  have "schedule call n is s1 = schedule call (n(i := k)) is s"
    by (rule schedule_cong) (use same assms(5) in auto)
  then have "calls (world s') = calls (world s) @ schedule call (n(i := k)) (i # is) s"
    using n(1) first(1) by (simp add: served_def schedule_def)
  moreover have "due s1 = due s" using first(1) by (intro due_frame) (simp add: served_def)
  then have "\<forall>j\<in>set (i # is). (n(i := k)) j \<le> most \<and> (due s (getSlot j s) \<longrightarrow> 0 < (n(i := k)) j)"
    using n(2) first(2,3) assms(5) same by auto
  ultimately show ?thesis using first(1) rest by (auto simp: fair_round_def served_def)
qed

lemma loop_fair:
  "distinct is \<Longrightarrow> \<forall>i\<in>set is. 0 \<le> i \<Longrightarrow> wp (for_each (\<lambda>i. do { round i; ret () }) is) (\<lambda>_. fair is s) s"
proof (induction "is" arbitrary: s)
  case Nil
  then show ?case by (simp add: wp_simps fair_Nil)
next
  case (Cons i "is")
  have "wp (round i) (\<lambda>_. wp (for_each (\<lambda>i. do { round i; ret () }) is) (\<lambda>_. fair (i # is) s)) s"
  proof (rule wp_mono [OF round_served])
    show "0 \<le> i" using Cons.prems by simp
    fix a s1 assume "\<exists>k\<le>most. served calls i (call (getSlot i s)) k s s1 \<and> (due s (getSlot i s) \<longrightarrow> 0 < k)"
    then show "wp (for_each (\<lambda>i. do { round i; ret () }) is) (\<lambda>_. fair (i # is) s) s1"
      using Cons.prems by (auto intro!: wp_mono [OF Cons.IH] fair_Cons)
  qed
  then show ?case by (simp add: wp_simps)
qed

end

section \<open>The calls\<close>

locale call_log =
  fixes P :: "('w, 'r) platform" and calls :: "'w \<Rightarrow> pump_call list"
  assumes log_read: "libssh2_channel_read P ch n w = (r, w') \<Longrightarrow> calls w' = calls w @ [ReadOn ch]"
    and log_send: "p_send P fd bs w = (r1, w') \<Longrightarrow> calls w' = calls w @ [SendOn fd]"
    and log_millis: "p_millis P w = (t, w') \<Longrightarrow> calls w' = calls w"
    and log_eof: "libssh2_channel_eof P ch w = (e, w') \<Longrightarrow> calls w' = calls w"
    and log_take: "p_xSemaphoreTake P m d w = (b, w') \<Longrightarrow> calls w' = calls w"
    and log_give: "p_xSemaphoreGive P m w = (u, w') \<Longrightarrow> calls w' = calls w"
begin

abbreviation "serving i e k s0 \<equiv> served calls i e k s0"

lemma serving_ext: "(\<And>w a w'. f w = (a, w') \<Longrightarrow> calls w' = calls w) \<Longrightarrow> keeps (serving i e k s0) (ext f)"
  by (auto simp: keeps_def wp_simps served_def split: prod.splits)

lemma serving_slot:
  fixes f :: "'r channel_slot \<Rightarrow> 'r channel_slot" and s0 :: "('w, 'r, 'z) pump_state_scheme"
  assumes "0 \<le> i" and "\<And>sl. localSocket (f sl) = localSocket sl \<and> sshChannel (f sl) = sshChannel sl"
  shows "keeps (serving i e k s0) (modify_slot i f)"
proof -
  have "localSocket (getSlot i (upd_slot i f s)) = localSocket (getSlot i s) \<and> sshChannel (getSlot i (upd_slot i f s)) = sshChannel (getSlot i s)"
    for s :: "('w, 'r, 'z) pump_state_scheme"
    using getSlot_upd_cases [of i i f s] assms(2) by metis
  moreover have "world (upd_slot i f s) = world s" "maxSlots (upd_slot i f s) = maxSlots s" "bufSize (upd_slot i f s) = bufSize s"
    "roundRobinOffset (upd_slot i f s) = roundRobinOffset s" for s :: "('w, 'r, 'z) pump_state_scheme"
    by (simp_all add: upd_slot_def)
  ultimately show ?thesis
    using assms(1) by (auto simp: keeps_def wp_simps modify_slot_def served_def getSlot_other)
qed

lemma serving_add_moved: "keeps (serving i e k s0) (add_moved n)"
  by (simp add: keeps_def wp_simps add_moved_def served_def getSlot_def)

lemma serving_locking: "keeps (serving i e k s0) (session_lock P t)" "keeps (serving i e k s0) (session_unlock P)"
  unfolding session_lock_def session_unlock_def by (intro keeps_intros serving_ext; auto dest: log_take log_give)+

lemmas serving_ops = keeps_intros serving_add_moved serving_locking serving_ext [OF log_millis] serving_ext [OF log_eof] serving_slot

lemma set_ring_ends [simp]: "localSocket (set_ring dir r sl) = localSocket sl" "sshChannel (set_ring dir r sl) = sshChannel sl"
  by (cases dir; simp)+

lemma serving_rings:
  assumes "0 \<le> i"
  shows "keeps (serving i e k s0) (ring_write P i dir bs n)" "keeps (serving i e k s0) (ring_read P i dir n)"
    "keeps (serving i e k s0) (restore_and_account P i dir bs)"
  unfolding ring_write_def ring_read_def restore_and_account_def restoreUnsent_def accountRestoreDrop_def on_ring_def
  using assms by (intro serving_ops; simp)+

lemma serving_beginClose: "0 \<le> i \<Longrightarrow> keeps (serving i e k s0) (beginClose P i r)"
  unfolding beginClose_def by (intro serving_ops; simp)

lemma serving_checks:
  assumes "0 \<le> i"
  shows "keeps (serving i e k s0) (channel_error P i)" "keeps (serving i e k s0) (check_local_stall P i)"
    "keeps (serving i e k s0) (check_eof_flag P i)" "keeps (serving i e k s0) (store_received P i bs rc)"
  unfolding channel_error_def check_local_stall_def check_eof_flag_def store_received_def
  using assms by (intro serving_ops serving_beginClose serving_rings; simp)+

lemma serving_call:
  assumes "serving i e k s0 s" and "\<And>w a w'. f w = (a, w') \<Longrightarrow> calls w' = calls w @ [e]"
    and "\<And>a. keeps (serving i e (Suc k) s0) (g a)"
  shows "wp (State_Monad.bind (ext f) g) (\<lambda>_. serving i e (Suc k) s0) s"
proof (rule wp_ext_bind)
  fix a w' assume "f (world s) = (a, w')"
  with assms(1,2) have "serving i e (Suc k) s0 (s\<lparr>world := w'\<rparr>)"
    by (auto simp: served_def replicate_append_same)
  then show "wp (g a) (\<lambda>_. serving i e (Suc k) s0) (s\<lparr>world := w'\<rparr>)" by (rule keepsD [OF assms(3)])
qed

section \<open>Phase 2: sends to the local sockets\<close>

lemma sent_call:
  assumes "0 \<le> i" and "serving i (SendOn fd) k s0 s" and "\<And>a. keeps (serving i (SendOn fd) (Suc k) s0) (g a)"
  shows "wp (State_Monad.bind (ext (p_send P fd bs)) g) (\<lambda>_. serving i (SendOn fd) (Suc k) s0) s"
  by (rule serving_call [OF assms(2) log_send assms(3)])

lemma chunk_calls:
  fixes s :: "('w, 'r, 'z) pump_state_scheme"
  assumes "0 \<le> i" and s: "serving i (SendOn (localSocket (getSlot i s))) k s0 s"
  shows "wp (drain_local_chunk P i) (\<lambda>_ s'. \<exists>c\<le>1. serving i (SendOn (localSocket (getSlot i s))) (k + c) s0 s') s"
proof -
  let ?e = "SendOn (localSocket (getSlot i s))"
  have none: "serving i ?e k s0 t \<Longrightarrow> \<exists>c\<le>1. serving i ?e (k + c) s0 t" for t by (intro exI [of _ 0]) simp
  have one: "wp m (\<lambda>_. serving i ?e (Suc k) s0) t \<Longrightarrow> wp m (\<lambda>_ s'. \<exists>c\<le>1. serving i ?e (k + c) s0 s') t"
    for t and m :: "(('w, 'r, 'z) pump_state_scheme, bool) state"
    by (erule wp_mono) (auto intro!: exI [of _ 1])
  show ?thesis
    unfolding drain_local_chunk_def Let_def
    by (intro wp_gets_intro wp_if_intro wp_ret_intro none s wp_seq [OF keepsD [OF serving_rings(2) [OF assms(1)] s]]
        one [OF sent_call] serving_ops serving_rings assms(1)) simp_all
qed

lemma chunks_calls:
  fixes s :: "('w, 'r, 'z) pump_state_scheme"
  assumes "0 \<le> i"
  shows "serving i (SendOn (localSocket (getSlot i s))) k s0 s \<Longrightarrow>
    wp (drain_local_chunks P i n) (\<lambda>_ s'. \<exists>c\<le>n. serving i (SendOn (localSocket (getSlot i s))) (k + c) s0 s') s"
proof (induction n arbitrary: k s)
  case 0
  then show ?case by (auto simp: wp_simps)
next
  case (Suc n)
  show ?case
    unfolding drain_local_chunks.simps
  proof (rule wp_seq [OF chunk_calls [OF assms Suc.prems]], elim exE conjE)
    fix go s1 c assume c: "c \<le> 1" "serving i (SendOn (localSocket (getSlot i s))) (k + c) s0 s1"
    have "localSocket (getSlot i s1) = localSocket (getSlot i s)" using c(2) Suc.prems by (simp add: served_def)
    then have rest: "wp (drain_local_chunks P i n)
        (\<lambda>_ s'. \<exists>c'\<le>n. serving i (SendOn (localSocket (getSlot i s))) (k + c + c') s0 s') s1"
      using Suc.IH [of s1 "k + c"] c(2) by simp
    have "\<exists>c''\<le>Suc n. serving i (SendOn (localSocket (getSlot i s))) (k + c'') s0 s'"
      if "\<exists>c'\<le>n. serving i (SendOn (localSocket (getSlot i s))) (k + c + c') s0 s'" for s'
      using that c(1) by (metis add.assoc add_le_mono plus_1_eq_Suc)
    then show "wp (if go then drain_local_chunks P i n else ret ())
        (\<lambda>_ s'. \<exists>c''\<le>Suc n. serving i (SendOn (localSocket (getSlot i s))) (k + c'') s0 s') s1"
      using c by (intro wp_if_intro wp_mono [OF rest] wp_ret_intro) (auto intro!: exI [of _ c])
  qed
qed

end

text \<open>A slot with bytes for its local socket, in a well-formed ring.\<close>

definition send_due :: "('r \<Rightarrow> bool) \<Rightarrow> ('r \<Rightarrow> bytes) \<Rightarrow> ('r \<Rightarrow> nat) \<Rightarrow> ('w, 'r, 'z) pump_state_scheme \<Rightarrow> 'r channel_slot \<Rightarrow> bool" where
  "send_due rb_inv rb_contents rb_cap s sl \<longleftrightarrow> active sl \<and> 0 \<le> localSocket sl \<and> 0 < bufSize s
     \<and> (\<exists>d. toLocal sl = Some d \<and> drb_inv rb_inv rb_cap d \<and> drb_contents rb_contents d \<noteq> [])"

locale logged_rings = call_log P calls + freertos_bytebuf P rb_inv rb_contents rb_cap
  for P :: "('w, 'r) platform" and calls :: "'w \<Rightarrow> pump_call list"
    and rb_inv :: "'r \<Rightarrow> bool" and rb_contents :: "'r \<Rightarrow> bytes" and rb_cap :: "'r \<Rightarrow> nat"
begin

lemma chunk_due:
  fixes s :: "('w, 'r, 'z) pump_state_scheme"
  assumes "0 \<le> i" and s: "serving i (SendOn (localSocket (getSlot i s))) k s0 s" and due: "send_due rb_inv rb_contents rb_cap s (getSlot i s)"
  shows "wp (drain_local_chunk P i) (\<lambda>_. serving i (SendOn (localSocket (getSlot i s))) (Suc k) s0) s"
proof -
  obtain d where d: "toLocal (getSlot i s) = Some d" "drb_inv rb_inv rb_cap d" "drb_contents rb_contents d \<noteq> []"
    using due by (auto simp: send_due_def)
  have size: "0 < drb_size P d" using size_spec [OF d(2)] d(3) by simp
  then have nonempty: "\<not> ring_empty P (toLocal (getSlot i s))" by (simp add: d(1) ring_empty_def drb_empty_def)
  have n: "0 < (if ring_size P (toLocal (getSlot i s)) < bufSize s then ring_size P (toLocal (getSlot i s)) else bufSize s)"
    using size due by (simp add: d(1) ring_size_def send_due_def)
  have got: "wp (ring_read P i ToLocal n) (\<lambda>bs _. bs \<noteq> []) s" if "0 < n" for n
    using read_spec [OF d(2)] d(3) that
    by (fastforce simp: ring_read_def on_ring_def wp_simps modify_slot_def d(1) split: prod.splits)
  show ?thesis
    unfolding drain_local_chunk_def Let_def
    by (intro wp_gets_intro, rule wp_if_intro, (simp add: nonempty), intro wp_gets_intro,
        rule wp_seq [OF wp_conj [OF got [OF n] keepsD [OF serving_rings(2) [OF assms(1)] s]]])
      (intro wp_if_intro sent_call serving_ops serving_rings assms(1); simp)
qed

lemma drain_local_round:
  fixes s :: "('w, 'r, 'z) pump_state_scheme"
  assumes "0 \<le> i"
  shows "wp (drain_local_channel P i) (\<lambda>_ s'. \<exists>k\<le>4. serving i (SendOn (localSocket (getSlot i s))) k s s'
    \<and> (send_due rb_inv rb_contents rb_cap s (getSlot i s) \<longrightarrow> 0 < k)) s"
proof -
  let ?e = "SendOn (localSocket (getSlot i s))" and ?due = "send_due rb_inv rb_contents rb_cap s (getSlot i s)"
  have chunks: "wp (drain_local_chunks P i 4) (\<lambda>_ s'. \<exists>k\<le>4. serving i ?e k s s' \<and> (?due \<longrightarrow> 0 < k)) s"
  proof (cases ?due)
    case True
    have more: "\<exists>k\<le>4. serving i ?e k s s' \<and> (?due \<longrightarrow> 0 < k)" if "\<exists>c\<le>3. serving i ?e (Suc 0 + c) s s'" for s'
      using that by (fastforce intro: exI [of _ "Suc c" for c])
    have again: "wp (drain_local_chunks P i 3) (\<lambda>_ s'. \<exists>c\<le>3. serving i ?e (Suc 0 + c) s s') t" if "serving i ?e (Suc 0) s t" for t
      using chunks_calls [OF assms, of t "Suc 0" s 3] that by (simp add: served_def)
    have "wp (drain_local_chunks P i (Suc 3)) (\<lambda>_ s'. \<exists>k\<le>4. serving i ?e k s s' \<and> (?due \<longrightarrow> 0 < k)) s"
      unfolding drain_local_chunks.simps
      by (rule wp_seq [OF chunk_due [OF assms served_refl True]])
        (auto intro!: wp_if_intro wp_ret_intro more wp_mono [OF again])
    then show ?thesis by simp
  qed (use chunks_calls [OF assms served_refl, where n = 4 and s = s] in simp)
  have stall: "wp (check_local_stall P i) (\<lambda>_ s'. \<exists>k\<le>4. serving i ?e k s s' \<and> (?due \<longrightarrow> 0 < k)) t"
    if "\<exists>k\<le>4. serving i ?e k s t \<and> (?due \<longrightarrow> 0 < k)" for t
    using that by (auto intro: wp_keep [OF serving_checks(2) [OF assms]])
  have idle: "\<exists>k\<le>4. serving i ?e k s s \<and> (?due \<longrightarrow> 0 < k)"
    if "\<not> active (getSlot i s) \<or> localSocket (getSlot i s) < 0 \<or> toLocal (getSlot i s) = None"
    using that by (intro exI [of _ 0]) (auto simp: served_refl send_due_def)
  show ?thesis
    unfolding drain_local_channel_def
    by (intro wp_gets_intro wp_if_intro wp_ret_intro idle wp_seq [OF chunks stall])
qed

end

sublocale logged_rings \<subseteq> sending: pump_phase "drain_local_channel P" calls "\<lambda>sl. SendOn (localSocket sl)"
    "send_due rb_inv rb_contents rb_cap" 4
  by unfold_locales (rule drain_local_round, auto simp: send_due_def)

section \<open>Phase 1: reads from the SSH channels\<close>

text \<open>A slot whose SSH channel has to be read: it has reached its end, or its ring has room.\<close>

definition read_due :: "('w, 'r) platform \<Rightarrow> ('w, 'r, 'z) pump_state_scheme \<Rightarrow> 'r channel_slot \<Rightarrow> bool" where
  "read_due P s sl \<longleftrightarrow> active sl \<and> sshChannel sl \<noteq> NULL
     \<and> (remoteEof sl \<or> (\<exists>d. toLocal sl = Some d \<and> 0 < drb_available P d))"

context call_log
begin

lemma read_call:
  assumes "0 \<le> i" and "serving i (ReadOn ch) k s0 s" and "\<And>a. keeps (serving i (ReadOn ch) (Suc k) s0) (g a)"
  shows "wp (State_Monad.bind (ext (libssh2_channel_read P ch n)) g) (\<lambda>_. serving i (ReadOn ch) (Suc k) s0) s"
  by (rule serving_call [OF assms(2) log_read assms(3)])

lemma read_chunks_calls:
  fixes s :: "('w, 'r, 'z) pump_state_scheme"
  assumes "0 \<le> i"
  shows "serving i (ReadOn (sshChannel (getSlot i s))) k s0 s \<Longrightarrow>
    wp (read_chunks P i n b) (\<lambda>_ s'. \<exists>c\<le>n. serving i (ReadOn (sshChannel (getSlot i s))) (k + c) s0 s'
      \<and> (0 < n \<and> 0 < ring_available P (toLocal (getSlot i s)) \<longrightarrow> 0 < c)) s"
proof (induction n arbitrary: k s b)
  case 0
  then show ?case by (auto simp: wp_simps)
next
  case (Suc n)
  let ?e = "ReadOn (sshChannel (getSlot i s))"
  let ?Q = "\<lambda>s'. \<exists>c\<le>Suc n. serving i ?e (k + c) s0 s' \<and> (0 < ring_available P (toLocal (getSlot i s)) \<longrightarrow> 0 < c)"
  note S = serving_ops serving_rings serving_checks assms
  have one: "?Q s'" if "serving i ?e (Suc k) s0 s'" for s' using that by (intro exI [of _ 1]) simp
  have more: "wp (read_chunks P i n True) (\<lambda>_. ?Q) t" if "serving i ?e (Suc k) s0 t" for t
  proof (rule wp_mono [OF Suc.IH])
    show "serving i (ReadOn (sshChannel (getSlot i t))) (Suc k) s0 t" using that Suc.prems by (simp add: served_def)
  next
    fix a s' assume "\<exists>c\<le>n. serving i (ReadOn (sshChannel (getSlot i t))) (Suc k + c) s0 s'
      \<and> (0 < n \<and> 0 < ring_available P (toLocal (getSlot i t)) \<longrightarrow> 0 < c)"
    then obtain c where "c \<le> n" "serving i (ReadOn (sshChannel (getSlot i t))) (Suc k + c) s0 s'" by blast
    then show "?Q s'" using that Suc.prems by (intro exI [of _ "Suc c"]) (simp add: served_def)
  qed
  have stop: "wp m (\<lambda>_. ?Q) t" if "serving i ?e (Suc k) s0 t" "keeps (serving i ?e (Suc k) s0) m"
    for t and m :: "(('w, 'r, 'z) pump_state_scheme, bool) state"
    by (rule wp_mono [OF keepsD [OF that(2,1)] one])
  have full: "?Q t" if "serving i ?e k s0 t" "ring_available P (toLocal (getSlot i s)) = 0" for t
    using that by (intro exI [of _ 0]) simp
  have log: "serving i ?e (Suc k) s0 (s\<lparr>world := w\<rparr>)" if "libssh2_channel_read P (sshChannel (getSlot i s)) m (world s) = (r, w)" for m r w
    using Suc.prems log_read [OF that] by (simp add: served_def replicate_append_same)
  have tail: "wp (case r of (rc, bs) \<Rightarrow>
      if rc > 0 then do {
         store_received P i bs rc;
         slot \<leftarrow> gets (getSlot i);
         if ring_size P (toLocal slot) > pct_of (ring_capacity (toLocal slot)) BACKPRESSURE_HIGH_PCT
         then do { modify_slot i (\<lambda>sl. sl\<lparr>sshReadPaused := True\<rparr>); ret True }
         else read_chunks P i n True }
       else if rc = LIBSSH2_ERROR_EAGAIN then ret True
       else if rc = 0 then do { modify_slot i (\<lambda>sl. sl\<lparr>remoteEof := True\<rparr>); ret True }
       else do { channel_error P i; ret True }) (\<lambda>_. ?Q) t" if "serving i ?e (Suc k) s0 t" for r t
    by (cases r, simp only: prod.case)
      (intro wp_if_intro wp_seq [OF keepsD [OF serving_checks(4) [OF assms] that]] wp_gets_intro more stop [OF that] stop S; simp)
  have "wp (read_chunks P i (Suc n) b) (\<lambda>_. ?Q) s"
    unfolding read_chunks.simps Let_def
    by (intro wp_gets_intro wp_if_intro wp_seq [OF keepsD [OF serving_slot [OF assms] Suc.prems]] wp_ret_intro full wp_ext_bind tail log)
      simp_all
  then show ?case by simp
qed

lemma read_open_calls:
  fixes s :: "('w, 'r, 'z) pump_state_scheme"
  assumes "0 \<le> i" and "serving i (ReadOn (sshChannel (getSlot i s))) 0 s0 s"
  shows "wp (read_open_channel P i) (\<lambda>_ s'. \<exists>k\<le>4. serving i (ReadOn (sshChannel (getSlot i s))) k s0 s'
    \<and> (0 < ring_available P (toLocal (getSlot i s)) \<longrightarrow> 0 < k)) s"
proof -
  let ?Q = "\<lambda>s'. \<exists>k\<le>4. serving i (ReadOn (sshChannel (getSlot i s))) k s0 s' \<and> (0 < ring_available P (toLocal (getSlot i s)) \<longrightarrow> 0 < k)"
  have chunks: "wp (read_chunks P i 4 False) (\<lambda>_. ?Q) s"
    using read_chunks_calls [OF assms, where n = 4] by simp
  have eof: "wp (do { check_eof_flag P i; ret a }) (\<lambda>_. ?Q) t" if "?Q t" for t and a :: bool
    using that by (auto intro!: wp_seq [OF keepsD [OF serving_checks(3) [OF assms(1)]]] wp_ret_intro)
  have none: "?Q s" if "toLocal (getSlot i s) = None"
    using assms(2) that by (intro exI [of _ 0]) (simp add: ring_available_def)
  show ?thesis
    unfolding read_open_channel_def by (intro wp_gets_intro wp_if_intro wp_ret_intro none wp_seq [OF chunks eof])
qed

lemma pump_paused_calls:
  fixes s :: "('w, 'r, 'z) pump_state_scheme"
  assumes "0 \<le> i"
  shows "wp (pump_paused P i) (\<lambda>_ s'. \<exists>k\<le>4. serving i (ReadOn (sshChannel (getSlot i s))) k s s'
    \<and> (0 < ring_available P (toLocal (getSlot i s)) \<longrightarrow> 0 < k)) s"
proof -
  let ?e = "ReadOn (sshChannel (getSlot i s))"
  let ?Q = "\<lambda>s'. \<exists>k\<le>4. serving i ?e k s s' \<and> (0 < ring_available P (toLocal (getSlot i s)) \<longrightarrow> 0 < k)"
  have one: "wp m (\<lambda>_. ?Q) s" if "wp m (\<lambda>_. serving i ?e (Suc 0) s) s" for m :: "(('w, 'r, 'z) pump_state_scheme, bool) state"
    using that by (rule wp_mono) (auto intro!: exI [of _ 1])
  have none: "?Q s" if "\<not> (toLocal (getSlot i s) \<noteq> None \<and> 0 < ring_available P (toLocal (getSlot i s)))"
    using that by (intro exI [of _ 0]) (auto simp: served_refl ring_available_def)
  show ?thesis
    unfolding pump_paused_def Let_def
    by (intro wp_gets_intro wp_if_intro none wp_ret_intro one [OF read_call] served_refl serving_ops serving_rings serving_checks assms) simp_all
qed

lemma pump_round:
  fixes s :: "('w, 'r, 'z) pump_state_scheme"
  assumes "0 \<le> i"
  shows "wp (pump_channel P i) (\<lambda>_ s'. \<exists>k\<le>4. serving i (ReadOn (sshChannel (getSlot i s))) k s s'
    \<and> (read_due P s (getSlot i s) \<longrightarrow> 0 < k)) s"
proof -
  let ?e = "ReadOn (sshChannel (getSlot i s))" and ?sl = "getSlot i s"
  let ?Q = "\<lambda>s'. \<exists>k\<le>4. serving i ?e k s s' \<and> (read_due P s ?sl \<longrightarrow> 0 < k)"
  have skip: "?Q s" if "\<not> active ?sl \<or> sshChannel ?sl = NULL"
    using that by (intro exI [of _ 0]) (auto simp: served_refl read_due_def)
  have one: "wp m (\<lambda>_. ?Q) s" if "wp m (\<lambda>_. serving i ?e (Suc 0) s) s" for m :: "(('w, 'r, 'z) pump_state_scheme, bool) state"
    using that by (rule wp_mono) (auto intro!: exI [of _ 1])
  have room: "?Q s'" if "\<not> remoteEof ?sl" "\<exists>k\<le>4. serving i ?e k s s' \<and> (0 < ring_available P (toLocal ?sl) \<longrightarrow> 0 < k)" for s'
    using that by (auto simp: read_due_def ring_available_def split: option.splits)
  have resumed: "wp (modify_slot i (\<lambda>sl. sl\<lparr>sshReadPaused := False\<rparr>)) (\<lambda>_ t. serving i ?e 0 s t \<and> toLocal (getSlot i t) = toLocal ?sl) s"
    using keepsD [OF serving_slot [OF assms] served_refl, of "\<lambda>sl. sl\<lparr>sshReadPaused := False\<rparr>" ?e s]
      getSlot_upd_cases [of i i "\<lambda>sl. sl\<lparr>sshReadPaused := False\<rparr>" s]
    by (auto simp: wp_simps modify_slot_def)
  have reopen: "wp (read_open_channel P i) (\<lambda>_. ?Q) t" if "\<not> remoteEof ?sl" "serving i ?e 0 s t \<and> toLocal (getSlot i t) = toLocal ?sl" for t
  proof -
    have "sshChannel (getSlot i t) = sshChannel ?sl" using that(2) by (simp add: served_def)
    then have "wp (read_open_channel P i) (\<lambda>_ s'. \<exists>k\<le>4. serving i ?e k s s' \<and> (0 < ring_available P (toLocal ?sl) \<longrightarrow> 0 < k)) t"
      using read_open_calls [OF assms, of t s] that(2) by simp
    then show ?thesis by (rule wp_mono) (rule room [OF that(1)])
  qed
  show ?thesis
    unfolding pump_channel_def
    by (intro wp_gets_intro wp_if_intro wp_ret_intro skip one [OF read_call] served_refl keeps_return assms
        wp_seq [OF resumed reopen] wp_mono [OF pump_paused_calls room] wp_mono [OF read_open_calls room]; (assumption | rule served_refl))
qed

lemma pump_channels_for_each:
  "wp (pump_channels P is b) (\<lambda>_. Q) = wp (for_each (\<lambda>i. do { pump_channel P i; ret () }) is) (\<lambda>_. Q)"
  by (induction "is" arbitrary: b) (simp_all add: wp_return_fun wp_bind_fun)

end

sublocale call_log \<subseteq> reading: pump_phase "pump_channel P" calls "\<lambda>sl. ReadOn (sshChannel sl)" "read_due P" 4
  by unfold_locales (rule pump_round, auto simp: read_due_def)

section \<open>The phases\<close>

lemma pump_order_rotation:
  assumes "uint (roundRobinOffset s) + maxSlots s \<le> 2 ^ 32" and "maxSlots s < 2 ^ 31"
  shows "pump_order s = map (\<lambda>n. (n + uint (roundRobinOffset s)) mod maxSlots s) [0..maxSlots s - 1]"
  using rr_index_mod assms by (auto simp: pump_order_def)

context logged_rings
begin

lemma phase2_fair:
  fixes s :: "('w, 'r, 'z) pump_state_scheme"
  assumes "uint (roundRobinOffset s) + maxSlots s \<le> 2 ^ 32" and "maxSlots s < 2 ^ 31"
  shows "wp (drainSshToLocal P) (\<lambda>_. sending.fair (pump_order s) s) s"
proof -
  have order: "distinct (pump_order s)" "\<forall>i\<in>set (pump_order s). 0 \<le> i"
    using pump_order_perm [of s] assms by auto
  have "for_each (\<lambda>i. do { drain_local_channel P i; ret () }) is = for_each (drain_local_channel P) is" for "is"
    :: "int list"
  proof (induction "is")
    case (Cons i "is")
    then show ?case by simp
  qed simp
  with sending.loop_fair [OF order, of s] have "wp (for_each (drain_local_channel P) (pump_order s)) (\<lambda>_. sending.fair (pump_order s) s) s"
    by simp
  moreover have "sending.fair (pump_order s) s s" if "maxSlots s = 0"
    using that sending.fair_Nil by (simp add: pump_order_def)
  ultimately show ?thesis
    unfolding drainSshToLocal_def by (intro wp_gets_intro wp_if_intro wp_ret_intro)
qed

text \<open>The read that the first phase makes when it has not read from any channel.\<close>

lemma last_read:
  fixes t :: "('w, 'r, 'z) pump_state_scheme"
  shows "wp (for_break (\<lambda>i. do {
         slot \<leftarrow> gets (getSlot i);
         if active slot \<and> sshChannel slot \<noteq> NULL \<and> remoteEof slot then do {
           ext (libssh2_channel_read P (sshChannel slot) 1);
           ret False }
         else ret True }) is) (\<lambda>_ s'. \<exists>extra. calls (world s') = calls (world t) @ extra \<and> length extra \<le> 1) t"
proof (induction "is")
  case (Cons i "is")
  then show ?case
    by (auto simp: wp_simps wp_bind_fun wp_return_fun split: prod.splits dest!: log_read)
qed (simp add: wp_simps)

lemma phase1_fair:
  fixes s :: "('w, 'r, 'z) pump_state_scheme"
  assumes "uint (roundRobinOffset s) + maxSlots s \<le> 2 ^ 32" and "maxSlots s < 2 ^ 31"
  shows "wp (pumpSshTransport P) (\<lambda>_ s'. if fst (run_state (session_lock P (pdMS_TO_TICKS 50)) s)
      then \<exists>t extra. reading.fair (pump_order s) s t \<and> calls (world s') = calls (world t) @ extra \<and> length extra \<le> 1
      else calls (world s') = calls (world s)) s"
proof -
  have order: "distinct (pump_order s)" "\<forall>i\<in>set (pump_order s). 0 \<le> i"
    using pump_order_perm [of s] assms by auto
  obtain locked s1 where lock: "run_state (session_lock P (pdMS_TO_TICKS 50)) s = (locked, s1)" by fastforce
  have s1: "\<exists>w. s1 = s\<lparr>world := w\<rparr> \<and> calls w = calls (world s)"
    using lock by (auto simp: session_lock_def split: if_splits prod.splits dest: log_take intro: exI [of _ "world s"])
  then have shift: "reading.fair is s1 = reading.fair is s" "pump_order s1 = pump_order s" for "is"
    by (auto simp: fun_eq_iff fair_round_def schedule_def pump_order_def read_due_def)
  define Q where "Q s' \<longleftrightarrow> (\<exists>t extra. reading.fair (pump_order s) s t \<and> calls (world s') = calls (world t) @ extra \<and> length extra \<le> 1)"
    for s' :: "('w, 'r, 'z) pump_state_scheme"
  have loop: "wp (pump_channels P (pump_order s) False) (\<lambda>_. reading.fair (pump_order s) s) s1"
    using reading.loop_fair [OF order, of s1] by (simp add: pump_channels_for_each shift)
  have unlock: "wp (session_unlock P) (\<lambda>_. Q) t" if "Q t" for t
    using that by (auto simp: session_unlock_def wp_simps Q_def split: prod.splits dest!: log_give)
  have Q0: "Q t" if "reading.fair (pump_order s) s t" for t using that by (auto simp: Q_def intro!: exI [of _ t] exI [of _ "[]"])
  have extra: "Q s'" if "reading.fair (pump_order s) s t" "\<exists>extra. calls (world s') = calls (world t) @ extra \<and> length extra \<le> 1" for t s'
    using that by (auto simp: Q_def)
  have rest: "wp (do { anyRead \<leftarrow> pump_channels P (pump_order s) False;
       n \<leftarrow> gets maxSlots;
       whenM (\<not> anyRead) (for_break (\<lambda>i. do {
         slot \<leftarrow> gets (getSlot i);
         if active slot \<and> sshChannel slot \<noteq> NULL \<and> remoteEof slot then do {
           ext (libssh2_channel_read P (sshChannel slot) 1);
           ret False }
         else ret True }) [0..n - 1]);
       session_unlock P }) (\<lambda>_. Q) s1"
    by (intro wp_seq [OF loop] wp_gets_intro wp_seq [where R = "\<lambda>_. Q", OF _ unlock] wp_when_intro wp_mono [OF last_read extra]; (assumption | erule Q0))
  have "wp (pumpSshTransport P) (\<lambda>_ s'. if locked then Q s' else calls (world s') = calls (world s)) s"
    unfolding pumpSshTransport_def wp_bind [of "session_lock P t" for t] wp_iff_run [of "session_lock P t" for t] lock fst_conv snd_conv
    using rest s1 by (cases locked) (auto simp: wp_simps shift)
  then show ?thesis by (simp only: lock fst_conv Q_def)
qed

end

section \<open>Rotation\<close>

text \<open>The third phase moves the starting point of the next cycle.\<close>

lemma offset_prims:
  "keeps (\<lambda>s. roundRobinOffset s = v) (ext f)" "keeps (\<lambda>s. roundRobinOffset s = v) (modify_slot i g)"
  "keeps (\<lambda>s. roundRobinOffset s = v) (add_moved n)"
  by (auto simp: keeps_def wp_simps modify_slot_def upd_slot_def add_moved_def split: prod.splits)

lemmas offset_ops = keeps_intros offset_prims

lemma offset_close: "keeps (\<lambda>s. roundRobinOffset s = v) (beginClose P i r)"
  unfolding beginClose_def by (intro offset_ops)

lemma offset_rings:
  "keeps (\<lambda>s. roundRobinOffset s = v) (ring_write P i dir bs n)" "keeps (\<lambda>s. roundRobinOffset s = v) (ring_read P i dir n)"
  "keeps (\<lambda>s. roundRobinOffset s = v) (restore_and_account P i dir bs)" "keeps (\<lambda>s. roundRobinOffset s = v) (channel_error P i)"
  "keeps (\<lambda>s. roundRobinOffset s = v) (check_write_stall P i)"
  "keeps (\<lambda>s. roundRobinOffset s = v) (session_lock P t)" "keeps (\<lambda>s. roundRobinOffset s = v) (session_unlock P)"
  unfolding ring_write_def ring_read_def restore_and_account_def restoreUnsent_def accountRestoreDrop_def on_ring_def
    channel_error_def check_write_stall_def session_lock_def session_unlock_def
  by (intro offset_ops offset_close)+

lemma offset_write_loop: "keeps (\<lambda>s. roundRobinOffset s = v) (write_loop P i fuel b)"
  by (induction fuel arbitrary: b)
    (subst write_loop.simps; auto simp: write_chunk_def Let_def intro!: offset_ops offset_rings)+

lemma offset_recv_chunks: "keeps (\<lambda>s. roundRobinOffset s = v) (recv_chunks P i n)"
  by (induction n) (auto simp: Let_def intro!: offset_ops offset_rings)

lemma offset_drain_remote: "keeps (\<lambda>s. roundRobinOffset s = v) (drain_remote_channel P i)"
  unfolding drain_remote_channel_def write_channel_def recv_channel_def
  by (intro offset_ops offset_rings offset_write_loop offset_recv_chunks)

lemma phase3_rotates:
  assumes "maxSlots s \<noteq> 0"
  shows "wp (drainLocalToSsh P) (\<lambda>_ s'. roundRobinOffset s' = roundRobinOffset s + 1) s"
proof -
  have "wp (for_each (drain_remote_channel P) (pump_order s)) (\<lambda>_ t. roundRobinOffset t = roundRobinOffset s) s"
    by (rule keepsD [OF keeps_for_each [OF offset_drain_remote] refl])
  then have "wp (do { for_each (drain_remote_channel P) (pump_order s); modify (\<lambda>s. s\<lparr>roundRobinOffset := roundRobinOffset s + 1\<rparr>) })
      (\<lambda>_ s'. roundRobinOffset s' = roundRobinOffset s + 1) s"
    by (rule wp_seq) (simp add: wp_simps)
  then show ?thesis using assms unfolding drainLocalToSsh_def by (simp add: wp_bind wp_gets wp_if)
qed

section \<open>A platform that logs\<close>

definition logged_platform :: "(ref_world, cring) platform" where
  "logged_platform = ref_platform\<lparr>
     libssh2_channel_read := (\<lambda>ch n w. rw_answer_read ch n (w\<lparr>rw_calls := rw_calls w @ [ReadOn ch]\<rparr>)),
     p_send := (\<lambda>fd bs w. rw_answer_send fd bs (w\<lparr>rw_calls := rw_calls w @ [SendOn fd]\<rparr>))\<rparr>"

lemma logged_bytebuf: "freertos_bytebuf logged_platform cr_inv cr_contents cr_cap"
  using circular.freertos_bytebuf_axioms by (simp add: freertos_bytebuf_def logged_platform_def)

interpretation logged: logged_rings logged_platform rw_calls cr_inv cr_contents cr_cap
proof (rule logged_rings.intro [OF _ logged_bytebuf])
  show "call_log logged_platform rw_calls"
    by unfold_locales
      (auto simp: logged_platform_def ref_platform_def rw_answer_read_def rw_answer_send_def rw_take_def rw_give_def Let_def
        split: prod.splits if_splits)
qed

text \<open>Two channels, both with bytes for their local sockets and with room for more.\<close>

definition fair_ring :: "cring data_ring_buffer" where
  "fair_ring = ring8\<lparr>handle := Some \<lparr>cr_mem = replicate 8 7, cr_rd = 6, cr_used = 3\<rparr>\<rparr>"

definition fair_state :: "(ref_world, cring) tunnel" where
  "fair_state = sc_running\<lparr>maxSlots := 2, roundRobinOffset := 7, activeCount := 2,
     slots := Some [sc_slot\<lparr>toLocal := Some fair_ring\<rparr>, sc_slot\<lparr>sshChannel := 8, localSocket := 6, toLocal := Some fair_ring\<rparr>]\<rparr>"

section \<open>Property\<close>

text \<open>The two schedules in terms of the slots.\<close>

lemma fair_sends:
  assumes "call_log P calls" and "freertos_bytebuf P rb_inv rb_contents rb_cap"
    and "uint (roundRobinOffset s) + maxSlots s \<le> 2 ^ 32" and "maxSlots s < 2 ^ 31"
  shows "wp (drainSshToLocal P) (\<lambda>_ s'. \<exists>n.
        calls (world s') = calls (world s) @ concat (map (\<lambda>i. replicate (n i) (SendOn (localSocket (getSlot i s)))) (pump_order s))
        \<and> (\<forall>i. 0 \<le> i \<and> i < maxSlots s \<longrightarrow> n i \<le> 4
            \<and> (active (getSlot i s) \<and> 0 \<le> localSocket (getSlot i s) \<and> 0 < bufSize s
                \<and> (\<exists>d. toLocal (getSlot i s) = Some d \<and> drb_inv rb_inv rb_cap d \<and> drb_contents rb_contents d \<noteq> []) \<longrightarrow> 1 \<le> n i))) s"
proof (rule wp_mono [OF logged_rings.phase2_fair [OF logged_rings.intro [OF assms(1,2)] assms(3,4)]], unfold fair_round_def, elim conjE exE)
  fix s' n
  assume "calls (world s') = calls (world s) @ schedule (\<lambda>sl. SendOn (localSocket sl)) n (pump_order s) s"
    and "\<forall>i\<in>set (pump_order s). n i \<le> 4 \<and> (send_due rb_inv rb_contents rb_cap s (getSlot i s) \<longrightarrow> 0 < n i)"
  moreover have "set (pump_order s) = {0..<maxSlots s}" using pump_order_perm [of s] assms(3,4) by auto
  ultimately show "\<exists>n. calls (world s') = calls (world s) @ concat (map (\<lambda>i. replicate (n i) (SendOn (localSocket (getSlot i s)))) (pump_order s))
        \<and> (\<forall>i. 0 \<le> i \<and> i < maxSlots s \<longrightarrow> n i \<le> 4
            \<and> (active (getSlot i s) \<and> 0 \<le> localSocket (getSlot i s) \<and> 0 < bufSize s
                \<and> (\<exists>d. toLocal (getSlot i s) = Some d \<and> drb_inv rb_inv rb_cap d \<and> drb_contents rb_contents d \<noteq> []) \<longrightarrow> 1 \<le> n i))"
    by (intro exI [of _ n]) (auto simp: schedule_def send_due_def Suc_le_eq)
qed

lemma fair_reads:
  assumes "call_log P calls" and "freertos_bytebuf P rb_inv rb_contents rb_cap"
    and "uint (roundRobinOffset s) + maxSlots s \<le> 2 ^ 32" and "maxSlots s < 2 ^ 31"
  shows "wp (pumpSshTransport P) (\<lambda>_ s'. if fst (run_state (session_lock P (pdMS_TO_TICKS 50)) s)
        then \<exists>n extra. calls (world s') = calls (world s)
            @ concat (map (\<lambda>i. replicate (n i) (ReadOn (sshChannel (getSlot i s)))) (pump_order s)) @ extra \<and> length extra \<le> 1
          \<and> (\<forall>i. 0 \<le> i \<and> i < maxSlots s \<longrightarrow> n i \<le> 4
              \<and> (active (getSlot i s) \<and> sshChannel (getSlot i s) \<noteq> NULL
                  \<and> (remoteEof (getSlot i s) \<or> (\<exists>d. toLocal (getSlot i s) = Some d \<and> 0 < drb_available P d)) \<longrightarrow> 1 \<le> n i))
        else calls (world s') = calls (world s)) s"
proof (rule wp_mono [OF logged_rings.phase1_fair [OF logged_rings.intro [OF assms(1,2)] assms(3,4)]])
  fix s'
  define ok where "ok = fst (run_state (session_lock P (pdMS_TO_TICKS 50)) s)"
  have set: "set (pump_order s) = {0..<maxSlots s}" using pump_order_perm [of s] assms(3,4) by auto
  show "if ok then \<exists>n extra. calls (world s') = calls (world s)
            @ concat (map (\<lambda>i. replicate (n i) (ReadOn (sshChannel (getSlot i s)))) (pump_order s)) @ extra \<and> length extra \<le> 1
          \<and> (\<forall>i. 0 \<le> i \<and> i < maxSlots s \<longrightarrow> n i \<le> 4
              \<and> (active (getSlot i s) \<and> sshChannel (getSlot i s) \<noteq> NULL
                  \<and> (remoteEof (getSlot i s) \<or> (\<exists>d. toLocal (getSlot i s) = Some d \<and> 0 < drb_available P d)) \<longrightarrow> 1 \<le> n i))
        else calls (world s') = calls (world s)"
    if H: "if ok then \<exists>t extra. fair_round calls (\<lambda>sl. ReadOn (sshChannel sl)) (read_due P) 4 (pump_order s) s t
          \<and> calls (world s') = calls (world t) @ extra \<and> length extra \<le> 1 else calls (world s') = calls (world s)"
  proof (cases ok)
    case True
    then obtain t extra n where f: "calls (world s') = calls (world s) @ schedule (\<lambda>sl. ReadOn (sshChannel sl)) n (pump_order s) s @ extra"
      "length extra \<le> 1" "\<forall>i\<in>set (pump_order s). n i \<le> 4 \<and> (read_due P s (getSlot i s) \<longrightarrow> 0 < n i)"
      using H by (auto simp: fair_round_def)
    then show ?thesis
      using True set by (simp only: if_True) (intro exI [of _ n] exI [of _ extra], auto simp: schedule_def read_due_def Suc_le_eq)
  qed (use H in simp)
qed

text \<open>
  C15: No channel starves in the pump. In a cycle in which the round-robin offset plus the number of slots does not pass \<open>2^32\<close>, the phases go through all slots once,
  from the one the offset selects. In the second phase the calls of \<open>send\<close> are, in this order, at most four for the socket of each slot, and at least one for every
  active slot with an open socket that has bytes buffered for it (in a well-formed ring; the transfer size is positive), whatever happens on the other channels. In the first
  phase, if it gets the session lock, the calls of \<open>libssh2_channel_read\<close> are likewise at most four for each slot and at least one for every active slot with an SSH
  channel that has reached its end or has room in its ring, followed by at most one more; without the lock nothing is read. The third phase advances the
  offset, so that the next cycle starts with the next slot.
\<close>

theorem no_channel_starves:
  assumes "call_log P calls" and "freertos_bytebuf P rb_inv rb_contents rb_cap"
    and "uint (roundRobinOffset s) + maxSlots s \<le> 2 ^ 32" and "0 < maxSlots s" and "maxSlots s < 2 ^ 31"
  shows "pump_order s = map (\<lambda>n. (n + uint (roundRobinOffset s)) mod maxSlots s) [0..maxSlots s - 1]
    \<and> distinct (pump_order s) \<and> set (pump_order s) = {0..<maxSlots s}
    \<and> wp (drainSshToLocal P) (\<lambda>_ s'. \<exists>n.
        calls (world s') = calls (world s) @ concat (map (\<lambda>i. replicate (n i) (SendOn (localSocket (getSlot i s)))) (pump_order s))
        \<and> (\<forall>i. 0 \<le> i \<and> i < maxSlots s \<longrightarrow> n i \<le> 4
            \<and> (active (getSlot i s) \<and> 0 \<le> localSocket (getSlot i s) \<and> 0 < bufSize s
                \<and> (\<exists>d. toLocal (getSlot i s) = Some d \<and> drb_inv rb_inv rb_cap d \<and> drb_contents rb_contents d \<noteq> []) \<longrightarrow> 1 \<le> n i))) s
    \<and> wp (pumpSshTransport P) (\<lambda>_ s'. if fst (run_state (session_lock P (pdMS_TO_TICKS 50)) s)
        then \<exists>n extra. calls (world s') = calls (world s)
            @ concat (map (\<lambda>i. replicate (n i) (ReadOn (sshChannel (getSlot i s)))) (pump_order s)) @ extra \<and> length extra \<le> 1
          \<and> (\<forall>i. 0 \<le> i \<and> i < maxSlots s \<longrightarrow> n i \<le> 4
              \<and> (active (getSlot i s) \<and> sshChannel (getSlot i s) \<noteq> NULL
                  \<and> (remoteEof (getSlot i s) \<or> (\<exists>d. toLocal (getSlot i s) = Some d \<and> 0 < drb_available P d)) \<longrightarrow> 1 \<le> n i))
        else calls (world s') = calls (world s)) s
    \<and> wp (drainLocalToSsh P) (\<lambda>_ s'. roundRobinOffset s' = roundRobinOffset s + 1) s"
proof (intro conjI)
  have L: "logged_rings P calls rb_inv rb_contents rb_cap" by (rule logged_rings.intro [OF assms(1,2)])
  have order: "distinct (pump_order s)" "set (pump_order s) = {0..<maxSlots s}"
    using pump_order_perm [of s] assms(3,5) by auto
  then show "distinct (pump_order s)" "set (pump_order s) = {0..<maxSlots s}" .
  show "pump_order s = map (\<lambda>n. (n + uint (roundRobinOffset s)) mod maxSlots s) [0..maxSlots s - 1]"
    by (rule pump_order_rotation [OF assms(3,5)])
  show "wp (drainLocalToSsh P) (\<lambda>_ s'. roundRobinOffset s' = roundRobinOffset s + 1) s"
    using assms(4) by (intro phase3_rotates) simp
qed (rule fair_sends [OF assms(1-3,5)] fair_reads [OF assms(1-3,5)])+

theorem no_channel_starves_witness:
  "wp (drainSshToLocal logged_platform) (\<lambda>_ s'. \<exists>n. rw_calls (world s') = replicate (n (1 :: int)) (SendOn 6) @ replicate (n 0) (SendOn 5)
      \<and> 1 \<le> n 0 \<and> n 0 \<le> 4 \<and> 1 \<le> n 1 \<and> n 1 \<le> 4) fair_state
   \<and> wp (pumpSshTransport logged_platform) (\<lambda>_ s'. \<exists>n extra. rw_calls (world s') = replicate (n (1 :: int)) (ReadOn 8) @ replicate (n 0) (ReadOn 7) @ extra
      \<and> 1 \<le> n 0 \<and> 1 \<le> n 1 \<and> length extra \<le> 1) fair_state"
proof -
  have f: "maxSlots fair_state = 2" "roundRobinOffset fair_state = 7" "bufSize fair_state = 64" "rw_calls (world fair_state) = []"
    by (simp_all add: fair_state_def sc_running_eq sc_bound_eq sc_up_eq sc_config_def sc_world_def rw_init_def tunnel_new_def)
  have sl: "getSlot 0 fair_state = sc_slot\<lparr>toLocal := Some fair_ring\<rparr>"
    "getSlot 1 fair_state = sc_slot\<lparr>sshChannel := 8, localSocket := 6, toLocal := Some fair_ring\<rparr>"
    by (simp_all add: fair_state_def getSlot_def)
  have ring: "drb_inv cr_inv cr_cap fair_ring" "drb_contents cr_contents fair_ring \<noteq> []" "0 < drb_available logged_platform fair_ring"
    by (simp_all add: fair_ring_def ring8_def drb_inv_def pb_inv_def pb_isBound_def cr_inv_def cr_cap_def drb_contents_def
        drb_available_def logged_platform_def ref_platform_def cr_free_def)
  have lock: "fst (run_state (session_lock logged_platform (pdMS_TO_TICKS 50)) fair_state)"
    by (simp add: fair_state_def sc_running_eq sc_bound_eq sc_up_eq sc_config_def sc_world_def rw_init_def tunnel_new_def session_lock_def
        pdMS_TO_TICKS_def logged_platform_def ref_platform_def rw_take_def)
  have two: "[0..1 :: int] = [0, 1]" by (simp add: upto.simps)
  have h: "uint (roundRobinOffset fair_state) + maxSlots fair_state \<le> 2 ^ 32" "0 < maxSlots fair_state" "maxSlots fair_state < 2 ^ 31"
    by (simp_all add: f)
  note N = no_channel_starves [OF logged.call_log_axioms logged_bytebuf h]
  have order: "pump_order fair_state = [1, 0]" using conjunct1 [OF N] by (simp add: f two)
  note S = N [THEN conjunct2, THEN conjunct2, THEN conjunct2, THEN conjunct1]
    and R = N [THEN conjunct2, THEN conjunct2, THEN conjunct2, THEN conjunct2, THEN conjunct1, unfolded if_P [OF lock]]
  show ?thesis
  proof (intro conjI wp_mono [OF S] wp_mono [OF R]; elim exE conjE)
    fix s' n
    assume c: "rw_calls (world s') = rw_calls (world fair_state)
          @ concat (map (\<lambda>i. replicate (n i) (SendOn (localSocket (getSlot i fair_state)))) (pump_order fair_state))"
      and b: "\<forall>i. 0 \<le> i \<and> i < maxSlots fair_state \<longrightarrow> n i \<le> 4
          \<and> (active (getSlot i fair_state) \<and> 0 \<le> localSocket (getSlot i fair_state) \<and> 0 < bufSize fair_state
              \<and> (\<exists>d. toLocal (getSlot i fair_state) = Some d \<and> drb_inv cr_inv cr_cap d \<and> drb_contents cr_contents d \<noteq> []) \<longrightarrow> 1 \<le> n i)"
    show "\<exists>n. rw_calls (world s') = replicate (n (1 :: int)) (SendOn 6) @ replicate (n 0) (SendOn 5) \<and> 1 \<le> n 0 \<and> n 0 \<le> 4 \<and> 1 \<le> n 1 \<and> n 1 \<le> 4"
      by (intro exI [of _ n]) (use c spec [OF b, of 0] spec [OF b, of 1] ring in \<open>simp add: order f sl\<close>)
  next
    fix s' n extra
    assume c: "rw_calls (world s') = rw_calls (world fair_state)
          @ concat (map (\<lambda>i. replicate (n i) (ReadOn (sshChannel (getSlot i fair_state)))) (pump_order fair_state)) @ extra" "length extra \<le> 1"
      and b: "\<forall>i. 0 \<le> i \<and> i < maxSlots fair_state \<longrightarrow> n i \<le> 4
          \<and> (active (getSlot i fair_state) \<and> sshChannel (getSlot i fair_state) \<noteq> NULL
              \<and> (remoteEof (getSlot i fair_state) \<or> (\<exists>d. toLocal (getSlot i fair_state) = Some d \<and> 0 < drb_available logged_platform d)) \<longrightarrow> 1 \<le> n i)"
    show "\<exists>n extra. rw_calls (world s') = replicate (n (1 :: int)) (ReadOn 8) @ replicate (n 0) (ReadOn 7) @ extra \<and> 1 \<le> n 0 \<and> 1 \<le> n 1 \<and> length extra \<le> 1"
      by (intro exI [of _ n] exI [of _ extra]) (use c spec [OF b, of 0] spec [OF b, of 1] ring in \<open>simp add: order f sl\<close>)
  qed
qed

end
