(* ===== verification/Memory_Guard.thy ===== *)
theory Memory_Guard
  imports Scenario World_Observer
begin

text \<open>
  The memory guard of \<open>ChannelManager::bindChannel\<close> (\<open>src/src/ssh_channel.cpp\<close>, \<open>src/src/channel_memory_guard.h\<close>) on a board with
  PSRAM. The locale \<open>psram_heap\<close> is what the guard relies on: the documented meaning of the largest free block, and that an allocation takes
  at most its size and a fixed overhead out of it. In it, the budget that the guard tests is enough for the six
  allocations that the two ring buffers of a channel make, so that none of them falls back to the internal heap.
\<close>

section \<open>A heap with a largest free block\<close>

locale psram_heap =
  fixes P :: "('w, 'r) platform" and largest :: "'w \<Rightarrow> nat" and mallocs :: "'w \<Rightarrow> nat" and ovh :: nat
  assumes free_size: "p_heap_caps_get_free_size P MALLOC_CAP_SPIRAM w = (n, w') \<Longrightarrow> largest w \<le> n \<and> largest w' = largest w"
    and largest_block: "p_heap_caps_get_largest_free_block P MALLOC_CAP_SPIRAM w = (n, w') \<Longrightarrow> n = largest w \<and> largest w' = largest w"
    and psram_malloc: "p_heap_caps_malloc P MALLOC_CAP_SPIRAM n w = (ok, w') \<Longrightarrow> n + ovh \<le> largest w \<Longrightarrow> ok \<and> largest w \<le> largest w' + (n + ovh)"
    and quiet_heap: "silent mallocs (p_heap_caps_get_free_size P c)" "silent mallocs (p_heap_caps_get_largest_free_block P c)"
      "silent mallocs (p_heap_caps_malloc P c n)" "silent mallocs (p_free P)"
    and quiet_calls: "silent_sockets mallocs P" "silent mallocs (p_millis P)" "silent mallocs (libssh2_channel_set_blocking P ch b)"
begin

text \<open>A step that only the world sees, in which \<open>malloc\<close> is not called and the largest block shrinks by at most \<open>k\<close>.\<close>

definition took :: "nat \<Rightarrow> ('w, 'z) wstate_scheme \<Rightarrow> ('w, 'z) wstate_scheme \<Rightarrow> bool" where
  "took k s s' \<longleftrightarrow> (\<exists>w. s' = s\<lparr>world := w\<rparr> \<and> mallocs w = mallocs (world s) \<and> largest (world s) \<le> largest w + k)"

lemma took_trans: "took k s s1 \<Longrightarrow> took l s1 s2 \<Longrightarrow> took (k + l) s s2"
  by (auto simp: took_def)

lemma took_refl: "took 0 s s"
  by (auto simp: took_def intro: exI [of _ "world s"])

lemma took_step:
  "took k s0 s \<Longrightarrow> mallocs w = mallocs (world s) \<Longrightarrow> largest (world s) \<le> largest w + l \<Longrightarrow> took (k + l) s0 (s\<lparr>world := w\<rparr>)"
  by (auto simp: took_def)

text \<open>An allocation that fits is served from PSRAM.\<close>

lemma wp_alloc:
  assumes "took k s0 s" and "k + (n + ovh) \<le> largest (world s0)" and "\<And>s'. took (k + (n + ovh)) s0 s' \<Longrightarrow> wp (f True) Q s'"
  shows "wp (State_Monad.bind (psramAlloc P n) f) Q s"
proof -
  obtain ok w where call: "p_heap_caps_malloc P MALLOC_CAP_SPIRAM n (world s) = (ok, w)" by fastforce
  have "n + ovh \<le> largest (world s)" using assms(1,2) by (auto simp: took_def)
  then have "ok" "took (k + (n + ovh)) s0 (s\<lparr>world := w\<rparr>)"
    using took_step [OF assms(1)] psram_malloc [OF call] quiet_heap(3) [of MALLOC_CAP_SPIRAM n] call by (auto simp: silent_def)
  with assms(3) show ?thesis by (simp add: psramAlloc_def wp_simps call)
qed

abbreviation ring_cost :: "nat \<Rightarrow> nat" where
  "ring_cost n \<equiv> n + ovh + (sizeof_StaticRingbuffer P + ovh) + (SSH_TUNNEL_PREPEND_CAPACITY P + ovh)"

lemma wp_ring:
  assumes "took k s0 s" and "k + ring_cost n \<le> largest (world s0)" and "xRingbufferCreateStatic P n = Some h"
    and "\<And>d s'. took (k + ring_cost n) s0 s' \<Longrightarrow> handle d = Some h \<Longrightarrow> capacity d = n
      \<Longrightarrow> pb_cap (prepend d) = SSH_TUNNEL_PREPEND_CAPACITY P \<Longrightarrow> wp (f d) Q s'"
  shows "wp (State_Monad.bind (drb_new P n t) f) Q s"
  unfolding drb_new_def State_Monad.bind_assoc Let_def
  apply (rule wp_alloc [OF assms(1)])
   apply (use assms(2) in simp)
  apply (rule wp_alloc, assumption)
   apply (use assms(2) in simp)
  apply (rule wp_alloc, assumption)
   apply (use assms(2) in simp)
  apply (simp add: wp_simps assms(3))
  apply (rule assms(4))
  apply (simp_all add: pb_reset_def add.assoc)
  done

text \<open>The guard answers whether the whole budget fits into the largest block, when PSRAM is not exhausted.\<close>

abbreviation budget :: "nat \<Rightarrow> nat" where
  "budget n \<equiv> 2 * n + 2 * SSH_TUNNEL_PREPEND_CAPACITY P + 8192"

lemma wp_guard:
  assumes "budget n < 2 ^ 32" and "0 < largest (world s)"
    and "\<And>s'. took 0 s s' \<Longrightarrow> wp (f (budget n \<le> largest (world s))) Q s'"
  shows "wp (State_Monad.bind (heap_guard P n) f) Q s"
proof -
  obtain t w1 where 1: "p_heap_caps_get_free_size P MALLOC_CAP_SPIRAM (world s) = (t, w1)" by fastforce
  obtain l w2 where 2: "p_heap_caps_get_largest_free_block P MALLOC_CAP_SPIRAM w1 = (l, w2)" by fastforce
  have "0 < t" "l = largest (world s)" and "largest w2 = largest (world s)"
    using free_size [OF 1] largest_block [OF 2] assms(2) by auto
  moreover have "mallocs w2 = mallocs (world s)" using 1 2 quiet_heap(1,2) [of MALLOC_CAP_SPIRAM] by (auto simp: silent_def)
  moreover have "took 0 s (s\<lparr>world := w2\<rparr>)" using took_step [OF took_refl [of s], of w2 0] calculation by simp
  ultimately show ?thesis
    using assms(1) assms(3) [of "s\<lparr>world := w2\<rparr>"] by (simp add: heap_guard_def wp_simps 1 2 hasContiguousCapacity_def mem_requirements_def sz_add_def sz_mul_def mult.commute)
qed

lemma unseen_call: "silent mallocs f \<Longrightarrow> keeps (\<lambda>t. \<exists>w. t = s\<lparr>world := w\<rparr> \<and> mallocs w = mallocs (world s)) (ext f)"
  by (auto simp: keeps_def wp_simps silent_def split: prod.splits)

lemma connect_only_world:
  "keeps (\<lambda>t. \<exists>w. t = s\<lparr>world := w\<rparr> \<and> mallocs w = mallocs (world s)) (connectToLocalEndpoint P m)"
  unfolding connectToLocalEndpoint_def optimizeSocket_def Let_def
  by (intro keeps_intros unseen_call; use quiet_calls(1) in \<open>simp add: silent_sockets_def\<close>)

text \<open>The end of \<open>bindChannel\<close>: the slot gets the two rings, and nothing is allocated.\<close>

lemma bind_tail_slot:
  assumes "has_slot i s" and "0 \<le> i" and "i < maxSlots s"
  shows "wp (do {
      resetSlot i;
      now \<leftarrow> millis P;
      modify_slot i (\<lambda>sl. sl\<lparr>sshChannel := ch, localSocket := fd, active := True,
        chstate := Open, toLocal := Some tL, toRemote := Some tR, lastActivity := now,
        lastSuccessfulWrite := now, lastSuccessfulRead := now, endpoint := e\<rparr>);
      ext (libssh2_channel_set_blocking P ch False);
      modify (\<lambda>s. s\<lparr>activeCount := activeCount s + 1\<rparr>);
      ret True }) (\<lambda>ok s'. ok \<and> mallocs (world s') = mallocs (world s) \<and> toLocal (getSlot i s') = Some tL \<and> toRemote (getSlot i s') = Some tR) s"
  using assms quiet_calls(2) quiet_calls(3) [of ch False]
  by (auto simp: wp_simps resetSlot_def modify_slot_def silent_def split: prod.splits)

lemma bind_in_psram:
  fixes s :: "('w, 'r, 'z) channel_state_scheme"
  assumes reserve: "2 * sizeof_StaticRingbuffer P + 6 * ovh \<le> 8192" and size: "0 < ringBufferSize s" "budget (ringBufferSize s) < 2 ^ 32"
    and ring: "xRingbufferCreateStatic P (ringBufferSize s) = Some h"
    and slot: "has_slot i s" "0 \<le> i" "i < maxSlots s" "\<not> active (getSlot i s)"
    and connect: "run_state (connectToLocalEndpoint P m) s = (fd, s1)" and psram: "0 < largest (world s1)"
  shows "wp (bindChannel P i ch m) (\<lambda>ok s'. mallocs (world s') = mallocs (world s)
    \<and> (ok \<longleftrightarrow> 0 \<le> fd \<and> budget (ringBufferSize s) \<le> largest (world s1))
    \<and> (if ok then \<exists>tL tR. toLocal (getSlot i s') = Some tL \<and> toRemote (getSlot i s') = Some tR \<and> handle tL = Some h \<and> handle tR = Some h
          \<and> pb_cap (prepend tL) = SSH_TUNNEL_PREPEND_CAPACITY P \<and> pb_cap (prepend tR) = SSH_TUNNEL_PREPEND_CAPACITY P
        else slots s' = slots s)) s"
proof -
  let ?Q = "\<lambda>ok s'. mallocs (world s') = mallocs (world s)
    \<and> (ok \<longleftrightarrow> 0 \<le> fd \<and> budget (ringBufferSize s) \<le> largest (world s1))
    \<and> (if ok then \<exists>tL tR. toLocal (getSlot i s') = Some tL \<and> toRemote (getSlot i s') = Some tR \<and> handle tL = Some h \<and> handle tR = Some h
          \<and> pb_cap (prepend tL) = SSH_TUNNEL_PREPEND_CAPACITY P \<and> pb_cap (prepend tR) = SSH_TUNNEL_PREPEND_CAPACITY P
        else slots s' = slots s)"
  have "\<exists>w. s = s\<lparr>world := w\<rparr> \<and> mallocs w = mallocs (world s)" by (rule exI [of _ "world s"]) simp
  then obtain w1 where s1: "s1 = s\<lparr>world := w1\<rparr>" "mallocs w1 = mallocs (world s)"
    using wp_run [OF keepsD [OF connect_only_world [of s m]] connect] by blast
  have run: "wp (State_Monad.bind (connectToLocalEndpoint P m) f) ?Q s" if "wp (f fd) ?Q s1" for f
    using that connect by (simp add: wp_def)
  have closing: "wp (State_Monad.bind (ext (p_close P fd)) (\<lambda>_. ret False)) ?Q t"
    if "mallocs (world t) = mallocs (world s)" "slots t = slots s" "\<not> budget (ringBufferSize s) \<le> largest (world s1)" for t
    using that quiet_calls(1) by (auto simp: wp_simps silent_sockets_def silent_def split: prod.splits)
  define s2 where "s2 = s1\<lparr>breaker := recordSuccess (remoteBindPort m) (breaker s1)\<rparr>"
  have s2: "ringBufferSize s2 = ringBufferSize s" "largest (world s2) = largest (world s1)" "mallocs (world s2) = mallocs (world s)"
    "slots s2 = slots s" "maxSlots s2 = maxSlots s" by (simp_all add: s2_def s1)
  have step: "wp (State_Monad.bind (modify g) f) ?Q t" if "wp (f ()) ?Q (g t)" for g f t
    using that by (simp add: wp_simps)
  have failing: "wp (do { now \<leftarrow> millis P; modify (\<lambda>s. s\<lparr>breaker := snd (recordFailure (remoteBindPort m) now (breaker s))\<rparr>); ret False }) ?Q s1"
    if "fd < 0"
    using s1 quiet_calls(2) that by (auto simp: wp_simps silent_def split: prod.splits)
  show ?thesis
    unfolding bindChannel_def
    apply (intro wp_gets_intro wp_if_intro run failing)
    subgoal using slot by simp
    subgoal using slot by simp
     apply assumption
    apply (rule step, fold s2_def, rule wp_gets_intro, unfold s2(1), rule wp_guard [OF size(2)])
    subgoal using psram s2 by simp
    apply (intro wp_if_intro)
    subgoal for s3 by (rule closing) (auto simp: took_def s2)
    apply (rule wp_ring [OF _ _ ring], assumption)
    subgoal using reserve by (simp add: s2)
    apply (rule wp_ring [OF _ _ ring], assumption)
    subgoal using reserve by (simp add: s2)
    apply (intro wp_if_intro)
    subgoal using size(1) by (simp add: drb_capacityBytes_def)
    subgoal for s3 tL s4 tR s5
      by (rule wp_mono [OF bind_tail_slot]) (use slot s2 in \<open>auto simp: took_def has_slot_def\<close>)
    done
qed

end

section \<open>A board with PSRAM\<close>

text \<open>
  The reference platform with one contiguous block of PSRAM, \<open>rw_psram\<close> bytes of it free, in which an allocation costs 16 bytes besides
  its size, and with a count of the calls of \<open>malloc\<close>.
\<close>

definition psram_platform :: "(ref_world, cring) platform" where
  "psram_platform = ref_platform\<lparr>
     p_malloc := (\<lambda>_ w. (True, w\<lparr>rw_internal := rw_internal w + 1\<rparr>)),
     p_heap_caps_malloc := (\<lambda>_ n w. if n + 16 \<le> rw_psram w then (True, w\<lparr>rw_psram := rw_psram w - (n + 16)\<rparr>) else (False, w)),
     p_heap_caps_get_free_size := (\<lambda>_ w. (rw_psram w, w)),
     p_heap_caps_get_largest_free_block := (\<lambda>_ w. (rw_psram w, w))\<rparr>"

interpretation psram: psram_heap psram_platform rw_psram rw_internal 16
  by unfold_locales
    (auto simp: psram_platform_def ref_platform_def silent_def silent_sockets_def rw_answer_rc_def rw_answer_recv_def rw_answer_send_def Let_def
      split: prod.splits if_splits)


section \<open>The guarantee\<close>



end
