(* ===== verification/Http_Diag.thy ===== *)
theory Http_Diag
  imports Host_Key
begin

text \<open>
  The HTTP diagnostics of \<open>ssh_transport.cpp\<close> (builds with \<open>TUNNEL_DIAG_LOG_ONLY\<close>): an observer of the
  bytes of a channel that collects the head of the first request, extracts method, URL and request id, and
  remembers which stages of the exchange have been reported. It changes no data on its way. The
  fields are those the build adds to \<open>ChannelSlot\<close>; \<open>diagRequestBuffer\<close> is the used part of the array, and
  a C string is the list of its characters before the terminating zero that the copy adds. The log
  lines themselves are not modelled; a function that only chooses what is logged returns it.
\<close>

record http_diag =
  diagRequestParsed :: bool
  diagLocalWriteLogged :: bool
  diagResponseLogged :: bool
  diagNoRequestLogged :: bool
  diagNoLocalWriteLogged :: bool
  diagNoResponseLogged :: bool
  diagBoundMs :: u32
  diagRequestMs :: u32
  diagLocalWriteMs :: u32
  diagMethod :: string
  diagUrl :: string
  diagRequestId :: string
  diagRequestBuffer :: string

definition diag_reset :: http_diag where
  "diag_reset = \<lparr>diagRequestParsed = False, diagLocalWriteLogged = False, diagResponseLogged = False,
     diagNoRequestLogged = False, diagNoLocalWriteLogged = False, diagNoResponseLogged = False,
     diagBoundMs = 0, diagRequestMs = 0, diagLocalWriteMs = 0, diagMethod = [], diagUrl = [],
     diagRequestId = [], diagRequestBuffer = []\<rparr>"

definition sizeof_diagMethod :: nat where "sizeof_diagMethod = 8"
definition sizeof_diagUrl :: nat where "sizeof_diagUrl = 160"
definition sizeof_diagRequestId :: nat where "sizeof_diagRequestId = 40"
definition sizeof_diagRequestBuffer :: nat where "sizeof_diagRequestBuffer = 2048"
definition HTTPDIAG_NO_REQUEST_AFTER_MS :: u32 where "HTTPDIAG_NO_REQUEST_AFTER_MS = 2000"
definition HTTPDIAG_STAGE_STALL_AFTER_MS :: u32 where "HTTPDIAG_STAGE_STALL_AFTER_MS = 2000"

section \<open>Scanning\<close>

definition httpDiagValue :: "string \<Rightarrow> string" where
  "httpDiagValue v = (if v \<noteq> [] then v else ''-'')"

text \<open>\<open>memchr\<close>: the position of the first occurrence.\<close>

fun memchr :: "char \<Rightarrow> string \<Rightarrow> nat option" where
  "memchr c [] = None"
| "memchr c (x # xs) = (if x = c then Some 0 else map_option Suc (memchr c xs))"

definition ciEquals :: "string \<Rightarrow> string \<Rightarrow> nat \<Rightarrow> bool" where
  "ciEquals a b len = list_all (\<lambda>i. tolower (a ! i) = tolower (b ! i)) [0..<len]"

text \<open>The end of a line without its carriage return.\<close>

definition line_limit :: "string \<Rightarrow> nat \<Rightarrow> nat" where
  "line_limit buffer lineEnd = (if lineEnd > 0 \<and> buffer ! (lineEnd - 1) = CR then lineEnd - 1 else lineEnd)"

text \<open>The position of the value in \<open>headers\<close>, which start at position \<open>base\<close>.\<close>

function findHeaderValue :: "string \<Rightarrow> nat \<Rightarrow> string \<Rightarrow> nat option" where
  "findHeaderValue headers base headerName =
     (if headers = [] then None
      else let
          nameLen = length headerName;
          lineEnd = (case memchr LF headers of None \<Rightarrow> length headers | Some k \<Rightarrow> k);
          lineLimit = line_limit headers lineEnd
        in if lineLimit > nameLen \<and> headers ! nameLen = CHR '':'' \<and> ciEquals headers headerName nameLen
           then Some (base + nameLen + 1
             + length (takeWhile (\<lambda>c. c = CHR '' '' \<or> c = CHR 0x09) (drop (nameLen + 1) (take lineLimit headers))))
           else if lineEnd < length headers
             then findHeaderValue (drop (lineEnd + 1) headers) (base + lineEnd + 1) headerName
             else None)"
  by pat_completeness auto

termination
  by (relation "measure (\<lambda>(h, _, _). length h)") auto

declare findHeaderValue.simps [simp del]

text \<open>
  A field is the list of the bytes that \<open>copyToken\<close> stores before its terminating zero. A zero among the bytes of the token is kept here; code that
  prints the field stops there.
\<close>

definition copyToken :: "nat \<Rightarrow> string \<Rightarrow> string" where
  "copyToken dstSize token = take (dstSize - 1) token"

text \<open>The position after the first empty line.\<close>

fun headers_end :: "string \<Rightarrow> nat option" where
  "headers_end (a # b # c # d # rest) =
     (if a = CR \<and> b = LF \<and> c = CR \<and> d = LF then Some 4 else map_option Suc (headers_end (b # c # d # rest)))"
| "headers_end _ = None"

section \<open>Requests\<close>

definition parseRequestBuffer :: "u32 \<Rightarrow> http_diag \<Rightarrow> http_diag" where
  "parseRequestBuffer now ch =
     (if diagRequestParsed ch \<or> length (diagRequestBuffer ch) = 0 then ch
      else let
          buffer = diagRequestBuffer ch;
          truncated = (if length buffer = sizeof_diagRequestBuffer - 1 then ch\<lparr>diagRequestParsed := True\<rparr> else ch)
        in case memchr LF buffer of
          None \<Rightarrow> truncated
        | Some lineEnd \<Rightarrow>
            (case headers_end buffer of
               None \<Rightarrow> truncated
             | Some headersEnd \<Rightarrow>
                 (let lineLimit = line_limit buffer lineEnd in
                  case memchr (CHR '' '') (take lineLimit buffer) of
                    None \<Rightarrow> ch
                  | Some methodEnd \<Rightarrow>
                      (case memchr (CHR '' '') (drop (methodEnd + 1) (take lineLimit buffer)) of
                         None \<Rightarrow> ch
                       | Some urlLen \<Rightarrow>
                           ch\<lparr>diagMethod := copyToken sizeof_diagMethod (take methodEnd buffer),
                              diagUrl := copyToken sizeof_diagUrl (take urlLen (drop (methodEnd + 1) buffer)),
                              diagRequestId := (case findHeaderValue (take headersEnd buffer) 0 ''X-Request-ID'' of
                                  None \<Rightarrow> diagRequestId ch
                                | Some rid \<Rightarrow> copyToken sizeof_diagRequestId
                                    (takeWhile (\<lambda>c. c \<noteq> CR \<and> c \<noteq> LF) (drop rid (take headersEnd buffer)))),
                              diagRequestParsed := True, diagRequestMs := now\<rparr>))))"

definition observeSshToLocal :: "u32 \<Rightarrow> string \<Rightarrow> http_diag \<Rightarrow> http_diag" where
  "observeSshToLocal now data ch =
     (if diagRequestParsed ch \<or> length data = 0 then ch
      else let
          cap = sizeof_diagRequestBuffer - 1;
          used = length (diagRequestBuffer ch);
          room = (if cap > used then cap - used else 0);
          toCopy = (if length data < room then length data else room)
        in parseRequestBuffer now (ch\<lparr>diagRequestBuffer := diagRequestBuffer ch @ take toCopy data\<rparr>))"

section \<open>Stages\<close>

definition logLocalWriteOnce :: "u32 \<Rightarrow> int \<Rightarrow> http_diag \<Rightarrow> http_diag" where
  "logLocalWriteOnce now sent ch =
     (if diagLocalWriteLogged ch \<or> sent \<le> 0 then ch
      else ch\<lparr>diagLocalWriteLogged := True, diagLocalWriteMs := now\<rparr>)"

definition isdigit :: "char \<Rightarrow> bool" where
  "isdigit c \<longleftrightarrow> 48 \<le> char_code c \<and> char_code c \<le> 57"

text \<open>The status code that is logged, 0 when the data do not start with a status line.\<close>

definition response_status :: "string \<Rightarrow> nat" where
  "response_status data =
     (if length data \<ge> 12 \<and> take 5 data = ''HTTP/'' then
        (case memchr (CHR '' '') data of
           None \<Rightarrow> 0
         | Some space \<Rightarrow>
             if space + 4 \<le> length data \<and> isdigit (data ! (space + 1)) \<and> isdigit (data ! (space + 2)) \<and> isdigit (data ! (space + 3))
             then (char_code (data ! (space + 1)) - 48) * 100 + (char_code (data ! (space + 2)) - 48) * 10
                  + (char_code (data ! (space + 3)) - 48)
             else 0)
      else 0)"

definition logLocalResponseOnce :: "string \<Rightarrow> http_diag \<Rightarrow> nat option \<times> http_diag" where
  "logLocalResponseOnce data ch =
     (if diagResponseLogged ch \<or> length data = 0 then (None, ch)
      else (Some (response_status data), ch\<lparr>diagResponseLogged := True\<rparr>))"

text \<open>
  The three passes over the slots; each entry is the slot's \<open>active\<close> flag and its diagnostics.
\<close>

definition no_request_pass :: "u32 \<Rightarrow> bool \<times> http_diag \<Rightarrow> bool \<times> http_diag" where
  "no_request_pass now = (\<lambda>(act, ch).
     if \<not> act \<or> diagRequestParsed ch \<or> diagNoRequestLogged ch \<or> diagBoundMs ch = 0 then (act, ch)
     else if now - diagBoundMs ch < HTTPDIAG_NO_REQUEST_AFTER_MS then (act, ch)
     else (act, ch\<lparr>diagNoRequestLogged := True\<rparr>))"

definition no_local_write_pass :: "u32 \<Rightarrow> bool \<times> http_diag \<Rightarrow> bool \<times> http_diag" where
  "no_local_write_pass now = (\<lambda>(act, ch).
     if \<not> act \<or> \<not> diagRequestParsed ch \<or> diagLocalWriteLogged ch \<or> diagNoLocalWriteLogged ch \<or> diagRequestMs ch = 0
     then (act, ch)
     else if now - diagRequestMs ch < HTTPDIAG_STAGE_STALL_AFTER_MS then (act, ch)
     else (act, ch\<lparr>diagNoLocalWriteLogged := True\<rparr>))"

definition no_response_pass :: "u32 \<Rightarrow> bool \<times> http_diag \<Rightarrow> bool \<times> http_diag" where
  "no_response_pass now = (\<lambda>(act, ch).
     if \<not> act \<or> \<not> diagLocalWriteLogged ch \<or> diagResponseLogged ch \<or> diagNoResponseLogged ch \<or> diagLocalWriteMs ch = 0
     then (act, ch)
     else if now - diagLocalWriteMs ch < HTTPDIAG_STAGE_STALL_AFTER_MS then (act, ch)
     else (act, ch\<lparr>diagNoResponseLogged := True\<rparr>))"

definition logChannelsWithoutRequest :: "u32 \<Rightarrow> (bool \<times> http_diag) list \<Rightarrow> (bool \<times> http_diag) list" where
  "logChannelsWithoutRequest now slots =
     map (no_response_pass now) (map (no_local_write_pass now) (map (no_request_pass now) slots))"

section \<open>Scanning a growing buffer\<close>

lemma memchr_bound: "memchr c xs = Some k \<Longrightarrow> k < length xs"
  by (induction xs arbitrary: k) (auto split: if_splits)

lemma memchr_append: "memchr c xs = Some k \<Longrightarrow> memchr c (xs @ ys) = Some k"
  by (induction xs arbitrary: k) (auto split: if_splits)

lemma headers_end_bound: "headers_end xs = Some k \<Longrightarrow> k \<le> length xs"
  by (induction xs arbitrary: k rule: headers_end.induct) (auto split: if_splits)

lemma headers_end_append: "headers_end xs = Some k \<Longrightarrow> headers_end (xs @ ys) = Some k"
  by (induction xs arbitrary: k rule: headers_end.induct) (auto split: if_splits)

lemma line_limit_append: "k < length xs \<Longrightarrow> line_limit (xs @ ys) k = line_limit xs k"
  by (auto simp: line_limit_def nth_append)

lemma line_limit_bound: "line_limit xs k \<le> k"
  by (auto simp: line_limit_def)

text \<open>The request that a buffer holds, if it is complete and has a method and a URL.\<close>

definition head_of :: "string \<Rightarrow> (string \<times> string \<times> string) option" where
  "head_of buffer =
     (case (memchr LF buffer, headers_end buffer) of
        (Some lineEnd, Some headersEnd) \<Rightarrow>
          (let lineLimit = line_limit buffer lineEnd in
           case memchr (CHR '' '') (take lineLimit buffer) of
             None \<Rightarrow> None
           | Some methodEnd \<Rightarrow>
               (case memchr (CHR '' '') (drop (methodEnd + 1) (take lineLimit buffer)) of
                  None \<Rightarrow> None
                | Some urlLen \<Rightarrow>
                    Some (copyToken sizeof_diagMethod (take methodEnd buffer),
                      copyToken sizeof_diagUrl (take urlLen (drop (methodEnd + 1) buffer)),
                      (case findHeaderValue (take headersEnd buffer) 0 ''X-Request-ID'' of
                         None \<Rightarrow> []
                       | Some rid \<Rightarrow> copyToken sizeof_diagRequestId
                           (takeWhile (\<lambda>c. c \<noteq> CR \<and> c \<noteq> LF) (drop rid (take headersEnd buffer)))))))
      | _ \<Rightarrow> None)"

lemma head_of_append:
  assumes "head_of xs = Some v"
  shows "head_of (xs @ ys) = Some v"
proof -
  obtain le he where l: "memchr LF xs = Some le" "headers_end xs = Some he"
    using assms by (auto simp: head_of_def split: option.splits)
  have ext: "memchr LF (xs @ ys) = Some le" "headers_end (xs @ ys) = Some he" "line_limit (xs @ ys) le = line_limit xs le"
    using l memchr_append headers_end_append memchr_bound [OF l(1)] line_limit_append by auto
  have he: "he \<le> length xs" "line_limit xs le \<le> length xs"
    using headers_end_bound [OF l(2)] memchr_bound [OF l(1)] line_limit_bound [of xs le] by auto
  obtain me ul where m: "memchr (CHR '' '') (take (line_limit xs le) xs) = Some me"
    "memchr (CHR '' '') (drop (me + 1) (take (line_limit xs le) xs)) = Some ul"
    using assms l by (auto simp: head_of_def Let_def split: option.splits)
  have "me < length xs" "me + 1 + ul < length xs"
    using memchr_bound [OF m(1)] memchr_bound [OF m(2)] by auto
  then show ?thesis using assms l ext m he by (simp add: head_of_def Let_def cong: option.case_cong)
qed

section \<open>Any division into chunks\<close>

definition diag_view :: "http_diag \<Rightarrow> bool \<times> string \<times> string \<times> string" where
  "diag_view d = (diagRequestParsed d, diagMethod d, diagUrl d, diagRequestId d)"

definition full_without_head :: "string \<Rightarrow> bool" where
  "full_without_head b \<longleftrightarrow> length b = sizeof_diagRequestBuffer - 1 \<and> (memchr LF b = None \<or> headers_end b = None)"

definition view_of :: "string \<Rightarrow> bool \<times> string \<times> string \<times> string" where
  "view_of b = (case head_of b of Some (m, u, r) \<Rightarrow> (True, m, u, r) | None \<Rightarrow> (full_without_head b, [], [], []))"

lemma parse_view:
  assumes "\<not> diagRequestParsed d" and "diag_view d = (False, [], [], [])" and "diagRequestBuffer d \<noteq> []"
  shows "diag_view (parseRequestBuffer now d) = view_of (diagRequestBuffer d)
    \<and> diagRequestBuffer (parseRequestBuffer now d) = diagRequestBuffer d"
  using assms
  by (simp add: parseRequestBuffer_def view_of_def head_of_def full_without_head_def diag_view_def Let_def
      split: option.splits)

definition collected :: "string \<Rightarrow> string" where
  "collected data = take (sizeof_diagRequestBuffer - 1) data"

definition diag_saw :: "string \<Rightarrow> http_diag \<Rightarrow> bool" where
  "diag_saw data d \<longleftrightarrow> diag_view d = view_of (collected data) \<and> (\<not> diagRequestParsed d \<longrightarrow> diagRequestBuffer d = collected data)"

lemma view_of_settled:
  assumes "fst (view_of (collected data))"
  shows "view_of (collected (data @ c)) = view_of (collected data)"
proof (cases "head_of (collected data)")
  case None
  then have "length (collected data) = sizeof_diagRequestBuffer - 1"
    using assms by (simp add: view_of_def full_without_head_def)
  then have "collected (data @ c) = collected data" by (simp add: collected_def)
  then show ?thesis by simp
next
  case (Some v)
  have "collected (data @ c) = collected data @ take (sizeof_diagRequestBuffer - 1 - length data) c" by (simp add: collected_def)
  then show ?thesis using head_of_append [OF Some] Some by (simp add: view_of_def)
qed

lemma diag_saw_step:
  assumes "diag_saw data d"
  shows "diag_saw (data @ c) (observeSshToLocal now c d)"
proof (cases "diagRequestParsed d")
  case True
  then have "fst (view_of (collected data))" using assms by (simp add: diag_saw_def diag_view_def prod_eq_iff)
  then show ?thesis using assms True view_of_settled by (simp add: diag_saw_def observeSshToLocal_def)
next
  case False
  define d' where "d' = d\<lparr>diagRequestBuffer := collected (data @ c)\<rparr>"
  have b: "diagRequestBuffer d = collected data" using assms False by (simp add: diag_saw_def)
  have v: "diag_view d = (False, [], [], [])"
    using assms False by (auto simp: diag_saw_def diag_view_def view_of_def split: option.splits)
  have step: "observeSshToLocal now c d = parseRequestBuffer now d'" if "c \<noteq> []"
  proof -
    have "collected data @ take (if length c < n then length c else n) c = collected (data @ c)"
      if "n = (if sizeof_diagRequestBuffer - 1 > length (collected data) then sizeof_diagRequestBuffer - 1 - length (collected data) else 0)" for n
      using that by (auto simp: collected_def min_def)
    then show ?thesis
      using that False unfolding observeSshToLocal_def Let_def d'_def b by (simp only: length_0_conv simp_thms if_False)
  qed
  show ?thesis
  proof (cases "c = []")
    case False
    then have "collected (data @ c) \<noteq> []" by (simp add: collected_def sizeof_diagRequestBuffer_def)
    moreover have "diag_view d' = (False, [], [], [])" using v by (simp add: d'_def diag_view_def)
    ultimately show ?thesis
      using step [OF False] parse_view [of d' now] \<open>\<not> diagRequestParsed d\<close> by (simp add: diag_saw_def d'_def)
  qed (use assms in \<open>simp add: observeSshToLocal_def\<close>)
qed

lemma diag_saw_all: "diag_saw data d \<Longrightarrow> diag_saw (data @ concat (map snd cs)) (foldl (\<lambda>d (now, c). observeSshToLocal now c d) d cs)"
proof (induction cs arbitrary: data d)
  case (Cons a cs)
  then show ?case using diag_saw_step [OF Cons.prems, of "snd a" "fst a"] Cons.IH [of "data @ snd a"] by (simp add: case_prod_beta)
qed simp

lemma diag_saw_reset: "diag_saw [] diag_reset"
  by (simp add: diag_saw_def diag_view_def diag_reset_def collected_def view_of_def head_of_def full_without_head_def
      sizeof_diagRequestBuffer_def)

section \<open>Well-formed requests\<close>

definition plain :: "string \<Rightarrow> bool" where
  "plain s \<longleftrightarrow> CR \<notin> set s \<and> LF \<notin> set s"

definition crlf :: string where
  "crlf = [CR, LF]"

lemma length_crlf [simp]: "length crlf = 2"
  by (simp add: crlf_def)

lemma memchr_none: "c \<notin> set xs \<Longrightarrow> memchr c (xs @ ys) = map_option (\<lambda>k. length xs + k) (memchr c ys)"
proof (induction xs)
  case (Cons a xs)
  then show ?case by (cases "memchr c ys") auto
qed (simp add: option.map_ident [unfolded id_def] plus_nat.add_0 [abs_def])

lemma CR_LF: "CR \<noteq> LF" "CHR '' '' \<noteq> CR" "CHR '' '' \<noteq> LF" "CHR 0x09 \<noteq> CR" "CHR 0x09 \<noteq> LF"
  by (simp_all add: CR_def LF_def)

definition matches_header :: "string \<Rightarrow> string \<Rightarrow> bool" where
  "matches_header name line \<longleftrightarrow> length name < length line \<and> line ! length name = CHR '':''
     \<and> toLowerCase (take (length name) line) = toLowerCase name"

lemma ciEquals_take:
  assumes "length name \<le> length line"
  shows "ciEquals (line @ rest) name (length name) \<longleftrightarrow> toLowerCase (take (length name) line) = toLowerCase name"
proof -
  have "ciEquals (line @ rest) name (length name) \<longleftrightarrow> (\<forall>i<length name. tolower (line ! i) = tolower (name ! i))"
    using assms by (simp add: ciEquals_def list_all_iff nth_append) (meson atLeastLessThan_iff less_le_trans zero_le)
  moreover have "toLowerCase (take (length name) line) = toLowerCase name \<longleftrightarrow> (\<forall>i<length name. tolower (line ! i) = tolower (name ! i))"
    using assms by (simp add: toLowerCase_def list_eq_iff_nth_eq)
  ultimately show ?thesis by simp
qed

lemma findHeaderValue_line:
  assumes "plain line"
  shows "findHeaderValue (line @ crlf @ rest) base name =
    (if matches_header name line
     then Some (base + length name + 1 + length (takeWhile (\<lambda>c. c = CHR '' '' \<or> c = CHR 0x09) (drop (length name + 1) line)))
     else findHeaderValue rest (base + length line + 2) name)"
proof -
  define h where "h = line @ crlf @ rest"
  have h: "h \<noteq> []" "memchr LF h = Some (length line + 1)" "line_limit h (length line + 1) = length line"
    "take (length line) h = line" "drop (length line + 2) h = rest" "length line + 1 < length h"
    using assms CR_LF by (simp_all add: h_def memchr_none plain_def crlf_def line_limit_def nth_append)
  have match: "length name < length line \<and> h ! length name = CHR '':'' \<and> ciEquals h name (length name) \<longleftrightarrow> matches_header name line"
    by (auto simp: matches_header_def ciEquals_take h_def nth_append)
  show ?thesis
    unfolding h_def [symmetric]
    by (subst findHeaderValue.simps) (simp only: h Let_def option.case match if_False if_True simp_thms add.assoc one_add_one)
qed

definition head_lines :: "string list \<Rightarrow> string" where
  "head_lines hs = concat (map (\<lambda>h. h @ crlf) hs) @ crlf"

lemma head_lines_simps [simp]: "head_lines [] = crlf" "head_lines (h # hs) = h @ crlf @ head_lines hs"
  by (simp_all add: head_lines_def)

lemma headers_end_Cons: "c \<noteq> CR \<Longrightarrow> headers_end (c # xs) = map_option Suc (headers_end xs)"
proof (cases "3 \<le> length xs")
  case True
  then obtain x y z rest where "xs = x # y # z # rest" by (cases xs rule: headers_end.cases) auto
  then show "c \<noteq> CR \<Longrightarrow> ?thesis" by simp
next
  case False
  then show ?thesis by (cases xs rule: headers_end.cases) auto
qed

lemma headers_end_plain: "plain l \<Longrightarrow> headers_end (l @ xs) = map_option (\<lambda>k. length l + k) (headers_end xs)"
proof (induction l)
  case Nil
  then show ?case by (cases "headers_end xs") simp_all
next
  case (Cons c l)
  then have "c \<noteq> CR" "plain l" by (auto simp: plain_def)
  then show ?case using Cons.IH by (cases "headers_end xs") (simp_all add: headers_end_Cons)
qed

lemma headers_end_crlf: "(\<And>ys. xs \<noteq> crlf @ ys) \<Longrightarrow> headers_end (crlf @ xs) = map_option (\<lambda>k. 2 + k) (headers_end xs)"
proof -
  assume n: "\<And>ys. xs \<noteq> crlf @ ys"
  have "headers_end (CR # LF # xs) = map_option Suc (headers_end (LF # xs))"
  proof (cases "2 \<le> length xs")
    case True
    then obtain x y rest where xs: "xs = x # y # rest" by (cases xs; cases "tl xs") auto
    then have "\<not> (x = CR \<and> y = LF)" using n [of rest] by (auto simp: crlf_def)
    then show ?thesis using xs by auto
  next
    case False
    then show ?thesis by (cases xs; cases "tl xs") auto
  qed
  then show ?thesis using CR_LF by (cases "headers_end xs") (simp_all add: crlf_def headers_end_Cons)
qed

lemma headers_end_head:
  "plain l \<Longrightarrow> \<forall>h\<in>set hs. plain h \<and> h \<noteq> [] \<Longrightarrow>
    headers_end (l @ crlf @ head_lines hs @ body) = Some (length (l @ crlf @ head_lines hs))"
proof (induction hs arbitrary: l)
  case Nil
  then show ?case by (simp add: headers_end_plain) (simp add: crlf_def)
next
  case (Cons h hs)
  have "h @ xs \<noteq> crlf @ ys" for xs ys using Cons.prems(2) by (cases h) (auto simp: crlf_def plain_def)
  then show ?case using Cons.IH [of h] Cons.prems by (simp add: headers_end_plain headers_end_crlf)
qed

fun header_value :: "string \<Rightarrow> string list \<Rightarrow> string option" where
  "header_value name [] = None"
| "header_value name (h # hs) =
     (if matches_header name h then Some (dropWhile (\<lambda>c. c = CHR '' '' \<or> c = CHR 0x09) (drop (length name + 1) h))
      else header_value name hs)"

lemma takeWhile_value:
  assumes "plain l" and "n = length (takeWhile P l)"
  shows "takeWhile (\<lambda>c. c \<noteq> CR \<and> c \<noteq> LF) (drop n (l @ crlf @ xs)) = dropWhile P l"
proof -
  have "drop n (l @ crlf @ xs) = dropWhile P l @ crlf @ xs"
    using assms(2) by (simp add: dropWhile_eq_drop length_takeWhile_le)
  moreover have "\<forall>c\<in>set (dropWhile P l). c \<noteq> CR \<and> c \<noteq> LF"
    using assms(1) by (auto simp: plain_def dest: set_dropWhileD)
  ultimately show ?thesis by (simp add: crlf_def takeWhile_append2)
qed

lemma findHeaderValue_lines:
  "\<forall>h\<in>set hs. plain h \<Longrightarrow>
    (case findHeaderValue (head_lines hs) (length pre) name of
       None \<Rightarrow> header_value name hs = None
     | Some v \<Rightarrow> header_value name hs = Some (takeWhile (\<lambda>c. c \<noteq> CR \<and> c \<noteq> LF) (drop v (pre @ head_lines hs))))"
proof (induction hs arbitrary: pre)
  case Nil
  have "findHeaderValue (head_lines []) (length pre) name = None"
    using findHeaderValue_line [of "[]" "[]" "length pre" name]
    by (simp add: plain_def matches_header_def) (simp add: findHeaderValue.simps)
  then show ?case by simp
next
  case (Cons h hs)
  show ?case
  proof (cases "matches_header name h")
    case True
    have "plain (drop (length name + 1) h)" using Cons.prems by (auto simp: plain_def dest: in_set_dropD)
    moreover have "length name + 1 \<le> length h" using True by (simp add: matches_header_def)
    ultimately show ?thesis
      using True Cons.prems takeWhile_value [of "drop (length name + 1) h" _ "\<lambda>c. c = CHR '' '' \<or> c = CHR 0x09" "head_lines hs"]
      by (simp add: findHeaderValue_line ac_simps)
  next
    case False
    then show ?thesis using Cons.IH [of "pre @ h @ crlf"] Cons.prems
      by (auto simp: findHeaderValue_line add.assoc split: option.splits)
  qed
qed

lemma request_line_no_header:
  assumes "CHR '':'' \<notin> set m"
  shows "\<not> matches_header ''X-Request-ID'' (m @ CHR '' '' # rest)"
proof
  let ?l = "m @ CHR '' '' # rest"
  assume "matches_header ''X-Request-ID'' ?l"
  moreover have "length ''X-Request-ID'' = 12" "toLowerCase ''X-Request-ID'' = ''x-request-id''" by code_simp+
  ultimately have l: "12 < length ?l" "?l ! 12 = CHR '':''" "toLowerCase (take 12 ?l) = ''x-request-id''"
    unfolding matches_header_def by (simp_all only:)
  consider "length m < 12" | "length m = 12" | "12 < length m" by linarith
  then show False
  proof cases
    case 1
    then have "toLowerCase (take 12 ?l) ! length m = tolower (CHR '' '')" using l(1) by (simp add: toLowerCase_def nth_append take_Cons')
    then have "''x-request-id'' ! length m = CHR '' ''" using l(3) by (simp add: tolower_def char_code_def)
    moreover have "\<forall>k<12. ''x-request-id'' ! k \<noteq> CHR '' ''" by (simp add: numeral_eq_Suc All_less_Suc)
    ultimately show False using 1 by auto
  next
    case 2
    then show False using l(2) nth_append_length [of m "CHR '' ''" rest] by simp
  next
    case 3
    then have "m ! 12 = CHR '':''" using l(2) by (simp add: nth_append)
    then show False using assms 3 nth_mem by metis
  qed
qed

definition request_head :: "string \<Rightarrow> string \<Rightarrow> string \<Rightarrow> string list \<Rightarrow> string" where
  "request_head m u v hs = m @ CHR '' '' # u @ CHR '' '' # v @ crlf @ head_lines hs"

lemma head_of_request:
  assumes m: "plain m" "CHR '' '' \<notin> set m" "CHR '':'' \<notin> set m" and u: "plain u" "CHR '' '' \<notin> set u" and v: "plain v"
    and hs: "\<forall>h\<in>set hs. plain h \<and> h \<noteq> []"
  shows "head_of (request_head m u v hs @ body) = Some (take 7 m, take 159 u,
    case header_value ''X-Request-ID'' hs of None \<Rightarrow> [] | Some r \<Rightarrow> take 39 r)"
proof -
  define l where "l = m @ CHR '' '' # u @ CHR '' '' # v"
  define b where "b = request_head m u v hs @ body"
  have b: "b = l @ crlf @ head_lines hs @ body" by (simp add: b_def request_head_def l_def)
  have l: "plain l" using m u v CR_LF by (auto simp: l_def plain_def)
  have lf: "memchr LF b = Some (length l + 1)" using l CR_LF by (simp add: b memchr_none plain_def crlf_def)
  have lim: "line_limit b (length l + 1) = length l" "take (length l) b = l"
    by (simp_all add: b line_limit_def crlf_def nth_append)
  have he: "headers_end b = Some (length (l @ crlf @ head_lines hs))"
    unfolding b by (rule headers_end_head [OF l hs])
  have th: "take (length (l @ crlf @ head_lines hs)) b = l @ crlf @ head_lines hs" by (simp add: b)
  have me: "memchr (CHR '' '') l = Some (length m)" using m by (simp add: l_def memchr_none)
  have ul: "memchr (CHR '' '') (drop (length m + 1) l) = Some (length u)" using u by (simp add: l_def memchr_none)
  have tok: "take (length m) b = m" "take (length u) (drop (length m + 1) b) = u" by (simp_all add: b l_def)
  have "findHeaderValue (l @ crlf @ head_lines hs) 0 ''X-Request-ID'' = findHeaderValue (head_lines hs) (length (l @ crlf)) ''X-Request-ID''"
    using findHeaderValue_line [OF l, of "head_lines hs" 0] request_line_no_header [OF m(3)] by (simp add: l_def crlf_def)
  then have "(case findHeaderValue (l @ crlf @ head_lines hs) 0 ''X-Request-ID'' of None \<Rightarrow> []
      | Some rid \<Rightarrow> take 39 (takeWhile (\<lambda>c. c \<noteq> CR \<and> c \<noteq> LF) (drop rid (l @ crlf @ head_lines hs))))
    = (case header_value ''X-Request-ID'' hs of None \<Rightarrow> [] | Some r \<Rightarrow> take 39 r)"
    using findHeaderValue_lines [where hs = hs and pre = "l @ crlf" and name = "''X-Request-ID''"] hs by (auto split: option.splits)
  then show ?thesis
    unfolding b_def [symmetric] head_of_def lf he prod.case option.case Let_def lim me ul th tok copyToken_def
    by (simp add: sizeof_diagMethod_def sizeof_diagUrl_def sizeof_diagRequestId_def cong: option.case_cong)
qed

section \<open>Properties\<close>

text \<open>
  C25: What the diagnostics extract from a request does not depend on how the transport divides it
  into reads: feeding the bytes of a channel in any sequence of chunks gives the same parsed flag, method,
  URL and request id as feeding them at once.
\<close>

theorem diag_chunking_irrelevant:
  "diag_view (foldl (\<lambda>d (now, c). observeSshToLocal now c d) diag_reset cs)
    = diag_view (observeSshToLocal t (concat (map snd cs)) diag_reset)"
  using diag_saw_all [OF diag_saw_reset, of cs] diag_saw_step [OF diag_saw_reset, of "concat (map snd cs)" t]
  by (simp add: diag_saw_def)

text \<open>
  C26: The diagnostics read the head of a well-formed HTTP request of less than 2048 bytes: from \<open>method SP url SP version\<close>, header lines and
  an empty line, delivered in any chunks and followed by any body, they record the first 7 characters of the method, the first 159 of the URL
  and the first 39 of the value of the first \<open>X-Request-ID\<close> header (in any case of letters). These are the sizes of the fields: a longer method, URL or
  id is cut.
\<close>

theorem diag_reads_request:
  assumes "plain m" "CHR '' '' \<notin> set m" "CHR '':'' \<notin> set m" "plain u" "CHR '' '' \<notin> set u" "plain v"
    and "\<forall>h\<in>set hs. plain h \<and> h \<noteq> []" and "length (request_head m u v hs) < sizeof_diagRequestBuffer"
    and "concat (map snd cs) = request_head m u v hs @ body"
  shows "diag_view (foldl (\<lambda>d (now, c). observeSshToLocal now c d) diag_reset cs)
    = (True, take 7 m, take 159 u, case header_value ''X-Request-ID'' hs of None \<Rightarrow> [] | Some r \<Rightarrow> take 39 r)"
proof -
  have "collected (request_head m u v hs @ body)
      = request_head m u v hs @ take (sizeof_diagRequestBuffer - 1 - length (request_head m u v hs)) body"
    using assms(8) by (simp add: collected_def)
  then have "view_of (collected (request_head m u v hs @ body))
      = (True, take 7 m, take 159 u, case header_value ''X-Request-ID'' hs of None \<Rightarrow> [] | Some r \<Rightarrow> take 39 r)"
    using head_of_request [OF assms(1-7)] by (simp add: view_of_def)
  then show ?thesis using diag_saw_all [OF diag_saw_reset, of cs] assms(9) by (simp add: diag_saw_def)
qed

theorem diag_reads_request_witness:
  "diag_view (foldl (\<lambda>d (now, c). observeSshToLocal now c d) diag_reset
      [(5, ''GET /st''), (6, ''atus HTTP/1.1'' @ crlf @ ''x-request-id: ''), (7, ''a7'' @ crlf @ crlf @ ''body'')])
    = (True, ''GET'', ''/status'', ''a7'')"
proof -
  let ?cs = "[(5 :: u32, ''GET /st''), (6, ''atus HTTP/1.1'' @ crlf @ ''x-request-id: ''), (7, ''a7'' @ crlf @ crlf @ ''body'')]"
  have "diag_view (foldl (\<lambda>d (now, c). observeSshToLocal now c d) diag_reset ?cs)
    = (True, take 7 ''GET'', take 159 ''/status'',
       case header_value ''X-Request-ID'' [''x-request-id: a7''] of None \<Rightarrow> [] | Some r \<Rightarrow> take 39 r)"
    by (rule diag_reads_request [where v = "''HTTP/1.1''" and body = "''body''"])
      (simp_all add: plain_def CR_def LF_def request_head_def crlf_def sizeof_diagRequestBuffer_def)
  also have "\<dots> = (True, ''GET'', ''/status'', ''a7'')" by code_simp
  finally show ?thesis .
qed

end
