(* ===== verification/Firmware_Board.thy ===== *)
theory Firmware_Board
  imports Http_Diag Ssh_Tunnel
begin

text \<open>
  The interface of the example firmware (\<open>examples/src\<close>) to the code it calls and does not contain:
  the LittleFS file system, Wi-Fi, the TLS client, the web server, pins, the ESP32's registers and the
  clock. Each function is a field of the record \<open>board\<close>, an arbitrary function on the world, as in theory
  \<open>Platform\<close>. A file is identified by its path; \<open>fs_read\<close> opens a file for reading and returns its
  contents, \<open>None\<close> when it cannot be opened. The client of a request is the only one open at its time.
  The first four fields are the build-time constants of these names; a pin is -1 when there is none.

  The documented behaviour of LittleFS that the firmware relies on is the locale \<open>littlefs\<close>: every
  operation may fail and then changes no file, a \<open>print\<close> may store a prefix only. Because a
  file system that has lost power is one whose operations all fail from some point on, what holds
  after a function for every such file system holds at every moment of it. \<open>littlefs_healthy\<close> adds that
  operations on existing files succeed. A small calculus, \<open>fwp\<close>, computes what a function does to the
  files.
\<close>

type_synonym path = string

text \<open>A request of the web server: its method, path and form arguments (an absent one reads as empty).\<close>

record http_request =
  rq_post :: bool
  rq_uri :: string
  rq_arg :: "string \<Rightarrow> string"

record 'w board =
  ESP32TUN_STATUS_LED_PIN :: int
  ESP32TUN_STATUS_LED_ACTIVE_LOW :: bool
  ESP32TUN_CONFIG_BUTTON_PIN :: int
  SSH_TUNNEL_LOW_MEMORY_PROFILE :: bool
  b_millis :: "'w \<Rightarrow> u32 \<times> 'w"
  b_delay :: "u32 \<Rightarrow> 'w \<Rightarrow> unit \<times> 'w"
  b_restart :: "'w \<Rightarrow> unit \<times> 'w"
  b_random :: "'w \<Rightarrow> u32 \<times> 'w"
  b_free_heap :: "'w \<Rightarrow> nat \<times> 'w"
  b_largest_block :: "'w \<Rightarrow> nat \<times> 'w"
  b_efuse_mac :: u64
  b_time :: "'w \<Rightarrow> int \<times> 'w"
  b_strftime :: "string \<Rightarrow> int \<Rightarrow> string"
  fs_begin :: "'w \<Rightarrow> bool \<times> 'w"
  fs_format :: "'w \<Rightarrow> bool \<times> 'w"
  fs_exists :: "path \<Rightarrow> 'w \<Rightarrow> bool \<times> 'w"
  fs_remove :: "path \<Rightarrow> 'w \<Rightarrow> bool \<times> 'w"
  fs_rename :: "path \<Rightarrow> path \<Rightarrow> 'w \<Rightarrow> bool \<times> 'w"
  fs_open_w :: "path \<Rightarrow> 'w \<Rightarrow> bool \<times> 'w"
  fs_print :: "path \<Rightarrow> string \<Rightarrow> 'w \<Rightarrow> nat \<times> 'w"
  fs_flush :: "path \<Rightarrow> 'w \<Rightarrow> unit \<times> 'w"
  fs_close :: "path \<Rightarrow> 'w \<Rightarrow> unit \<times> 'w"
  fs_read :: "path \<Rightarrow> 'w \<Rightarrow> string option \<times> 'w"
  wifi_connected :: "'w \<Rightarrow> bool \<times> 'w"
  wifi_begin :: "string \<Rightarrow> string \<Rightarrow> 'w \<Rightarrow> unit \<times> 'w"
  wifi_mode :: "string \<Rightarrow> 'w \<Rightarrow> unit \<times> 'w"
  wifi_disconnect :: "bool \<Rightarrow> bool \<Rightarrow> 'w \<Rightarrow> unit \<times> 'w"
  wifi_softAP :: "string \<Rightarrow> 'w \<Rightarrow> bool \<times> 'w"
  wifi_softAPdisconnect :: "bool \<Rightarrow> 'w \<Rightarrow> unit \<times> 'w"
  wifi_scanNetworks :: "'w \<Rightarrow> unit \<times> 'w"
  wifi_networks :: "'w \<Rightarrow> (string \<times> int) list \<times> 'w"
  wifi_localIP :: "'w \<Rightarrow> string \<times> 'w"
  wifi_network_info :: "'w \<Rightarrow> (string \<times> string \<times> string) \<times> 'w"
  wifi_macAddress :: "'w \<Rightarrow> string \<times> 'w"
  esp_efuse_mac_get_default :: "'w \<Rightarrow> bytes option \<times> 'w"
  esp_iface_mac_addr_set :: "bytes \<Rightarrow> 'w \<Rightarrow> int \<times> 'w"
  b_chip :: "string \<times> nat"
  b_build :: "string \<times> string"
  tls_connect :: "string \<Rightarrow> nat \<Rightarrow> 'w \<Rightarrow> bool \<times> 'w"
  tls_write :: "string \<Rightarrow> 'w \<Rightarrow> nat \<times> 'w"
  tls_available :: "'w \<Rightarrow> bool \<times> 'w"
  tls_connected :: "'w \<Rightarrow> bool \<times> 'w"
  tls_read :: "'w \<Rightarrow> int \<times> 'w"
  tls_readBytesUntil :: "char \<Rightarrow> nat \<Rightarrow> 'w \<Rightarrow> string \<times> 'w"
  tls_readBytes :: "nat \<Rightarrow> 'w \<Rightarrow> string \<times> 'w"
  tls_readStringUntil :: "char \<Rightarrow> 'w \<Rightarrow> string \<times> 'w"
  tls_stop :: "'w \<Rightarrow> unit \<times> 'w"
  srv_new :: "'w \<Rightarrow> bool \<times> 'w"
  srv_begin :: "'w \<Rightarrow> unit \<times> 'w"
  srv_stop :: "'w \<Rightarrow> unit \<times> 'w"
  srv_request :: "'w \<Rightarrow> http_request option \<times> 'w"
  srv_send :: "nat \<Rightarrow> string \<Rightarrow> 'w \<Rightarrow> unit \<times> 'w"
  dns_new :: "'w \<Rightarrow> bool \<times> 'w"
  dns_start :: "'w \<Rightarrow> unit \<times> 'w"
  dns_stop :: "'w \<Rightarrow> unit \<times> 'w"
  dns_processNextRequest :: "'w \<Rightarrow> unit \<times> 'w"
  b_pinMode :: "int \<Rightarrow> 'w \<Rightarrow> unit \<times> 'w"
  b_digitalWrite :: "int \<Rightarrow> bool \<Rightarrow> 'w \<Rightarrow> unit \<times> 'w"
  b_digitalRead :: "int \<Rightarrow> 'w \<Rightarrow> bool \<times> 'w"
  b_xTaskCreate :: "string \<Rightarrow> 'w \<Rightarrow> bool \<times> 'w"
  b_serial_ready :: "'w \<Rightarrow> bool \<times> 'w"

type_synonym ('w, 'z, 'a) board_op = "(('w, 'z) wstate_scheme, 'a) state"

section \<open>Strings of the Arduino core and the C library\<close>

definition isDigit :: "char \<Rightarrow> bool" where
  "isDigit c \<longleftrightarrow> isdigit c"

definition isAlphaNumeric :: "char \<Rightarrow> bool" where
  "isAlphaNumeric c \<longleftrightarrow> isdigit c \<or> (65 \<le> char_code c \<and> char_code c \<le> 90) \<or> (97 \<le> char_code c \<and> char_code c \<le> 122)"

definition toupper :: "char \<Rightarrow> char" where
  "toupper c = (if 97 \<le> char_code c \<and> char_code c \<le> 122 then char_of (char_code c - 32) else c)"

definition toUpperCase :: "string \<Rightarrow> string" where
  "toUpperCase s = List.map toupper s"

definition digit_value :: "char \<Rightarrow> nat" where
  "digit_value c = char_code c - 48"

definition digits_value :: "string \<Rightarrow> nat" where
  "digits_value s = foldl (\<lambda>n c. 10 * n + digit_value c) 0 s"

text \<open>\<open>String::toInt\<close>, that is \<open>atol\<close> for a 32-bit \<open>long\<close>, which stops at the limits of the type.\<close>

definition toInt :: "string \<Rightarrow> int" where
  "toInt s =
     (let t = dropWhile isspace (c_str s);
          neg = (t \<noteq> [] \<and> hd t = CHR ''-'');
          u = (if t \<noteq> [] \<and> (hd t = CHR ''-'' \<or> hd t = CHR ''+'') then tl t else t);
          v = int (digits_value (takeWhile isdigit u))
      in if neg then max (- (2 ^ 31)) (- v) else min (2 ^ 31 - 1) v)"

text \<open>\<open>String(int)\<close>.\<close>

definition decimal_int :: "int \<Rightarrow> string" where
  "decimal_int n = (if n < 0 then CHR ''-'' # decimal (nat (- n)) else decimal (nat n))"

lemma digits_value_append: "digits_value (xs @ [c]) = 10 * digits_value xs + digit_value c"
  by (simp add: digits_value_def)

lemma digits_value_acc: "foldl (\<lambda>n c. 10 * n + digit_value c) k s = k * 10 ^ length s + digits_value s"
proof (induction s rule: rev_induct)
  case (snoc c s)
  then show ?case by (simp add: digits_value_append algebra_simps)
qed (simp add: digits_value_def)

lemma digit_char: "d < 10 \<Longrightarrow> isdigit (char_of (48 + d)) \<and> digit_value (char_of (48 + d)) = d"
  by (simp add: isdigit_def digit_value_def char_code_def)

lemma decimal_digits: "list_all isdigit (decimal n)"
proof (induction n rule: decimal.induct)
  case (1 n)
  then show ?case by (simp add: decimal.simps [of n] digit_char)
qed

lemma digits_value_decimal [simp]: "digits_value (decimal n) = n"
proof (induction n rule: decimal.induct)
  case (1 n)
  then show ?case
    by (simp add: decimal.simps [of n] digits_value_append digit_char digits_value_def [of "[_]"])
qed

lemma decimal_nonempty [simp]: "decimal n \<noteq> []"
  by (simp add: decimal.simps [of n])

lemma isdigit_not_space: "isdigit c \<Longrightarrow> \<not> isspace c"
  by (simp add: isdigit_def isspace_def)

lemma isdigit_code: "isdigit c \<Longrightarrow> of_char c \<noteq> (0 :: nat)"
  by (simp add: isdigit_def char_code_def)

lemma toInt_digits:
  assumes "list_all isdigit s"
  shows "toInt s = min (2 ^ 31 - 1) (int (digits_value s))"
proof -
  have c: "c_str s = s"
    using assms by (auto simp: c_str_def list_all_iff takeWhile_eq_all_conv dest: isdigit_code)
  have d: "dropWhile isspace s = s"
    using assms by (cases s) (auto simp: isdigit_not_space)
  have h: "\<not> (s \<noteq> [] \<and> hd s = CHR ''-'')" "\<not> (s \<noteq> [] \<and> (hd s = CHR ''-'' \<or> hd s = CHR ''+''))"
    using assms by (cases s; auto simp: isdigit_def char_code_def)+
  have t: "takeWhile isdigit s = s" using assms by (simp add: takeWhile_eq_all_conv list_all_iff)
  show ?thesis using h by (auto simp: toInt_def Let_def c d t)
qed

section \<open>The file system\<close>

definition files_wp ::
  "('w \<Rightarrow> path \<Rightarrow> string option) \<Rightarrow> ('w, 'z, 'a) board_op \<Rightarrow> ('a \<Rightarrow> (path \<Rightarrow> string option) \<Rightarrow> bool)
    \<Rightarrow> (path \<Rightarrow> string option) \<Rightarrow> bool" where
  "files_wp files m Q F \<longleftrightarrow> (\<forall>s. files (world s) = F \<longrightarrow> wp m (\<lambda>a s'. Q a (files (world s'))) s)"

locale littlefs =
  fixes B :: "'w board" and files :: "'w \<Rightarrow> path \<Rightarrow> string option"
  assumes fs_exists_law: "fs_exists B p w = (a, w') \<Longrightarrow> a = (files w p \<noteq> None) \<and> files w' = files w"
    and fs_remove_law: "fs_remove B p w = (a, w') \<Longrightarrow> files w' = (if a then (files w)(p := None) else files w)"
    and fs_rename_law: "fs_rename B p q w = (a, w') \<Longrightarrow> p \<noteq> q \<Longrightarrow>
      (if a then files w p \<noteq> None \<and> files w' = (files w)(p := None, q := files w p) else files w' = files w)"
    and fs_open_w_law: "fs_open_w B p w = (a, w') \<Longrightarrow> files w' = (if a then (files w)(p \<mapsto> []) else files w)"
    and fs_print_law: "fs_print B p s w = (n, w') \<Longrightarrow> files w p = Some c \<Longrightarrow>
      n \<le> length s \<and> files w' = (files w)(p \<mapsto> c @ take n s)"
    and fs_flush_law: "fs_flush B p w = (u, w') \<Longrightarrow> files w' = files w"
    and fs_close_law: "fs_close B p w = (u, w') \<Longrightarrow> files w' = files w"
    and fs_read_law: "fs_read B p w = (r, w') \<Longrightarrow> files w' = files w \<and> (r = None \<or> r = files w p)"
begin

abbreviation fwp :: "('w, 'z, 'a) board_op \<Rightarrow> ('a \<Rightarrow> (path \<Rightarrow> string option) \<Rightarrow> bool) \<Rightarrow> (path \<Rightarrow> string option) \<Rightarrow> bool" where
  "fwp \<equiv> files_wp files"

lemma fwp_run: "fwp m Q (files (world s)) \<Longrightarrow> run_state m s = (a, s') \<Longrightarrow> Q a (files (world s'))"
  by (auto simp: files_wp_def dest: wp_run)

lemma fwp_mono: "fwp m Q F \<Longrightarrow> (\<And>a G. Q a G \<Longrightarrow> R a G) \<Longrightarrow> fwp m R F"
  unfolding files_wp_def by (blast intro: wp_mono)

lemma fwp_ret: "Q a F \<Longrightarrow> fwp (ret a) Q F"
  by (simp add: files_wp_def wp_simps)

lemma fwp_bind:
  fixes m :: "('w, 'z, 'a) board_op" and f :: "'a \<Rightarrow> ('w, 'z, 'b) board_op"
  assumes "fwp m (\<lambda>a. fwp (f a) Q) F"
  shows "fwp (State_Monad.bind m f) Q F"
  unfolding files_wp_def wp_bind
proof (intro allI impI)
  fix s :: "('w, 'z) wstate_scheme"
  assume "files (world s) = F"
  then have "wp m (\<lambda>a s'. fwp (f a) Q (files (world s'))) s" using assms by (simp add: files_wp_def)
  then show "wp m (\<lambda>a. wp (f a) (\<lambda>a s'. Q a (files (world s')))) s" by (rule wp_mono) (simp add: files_wp_def)
qed

lemma fwp_seq: "fwp m R F \<Longrightarrow> (\<And>a G. R a G \<Longrightarrow> fwp (f a) Q G) \<Longrightarrow> fwp (State_Monad.bind m f) Q F"
  by (rule fwp_bind, rule fwp_mono)

lemma fwp_if: "(b \<Longrightarrow> fwp m Q F) \<Longrightarrow> (\<not> b \<Longrightarrow> fwp n Q F) \<Longrightarrow> fwp (if b then m else n) Q F"
  by simp

lemma fwp_whenM: "(b \<Longrightarrow> fwp m Q F) \<Longrightarrow> (\<not> b \<Longrightarrow> Q () F) \<Longrightarrow> fwp (whenM b m) Q F"
  by (simp add: files_wp_def wp_simps)

lemma fwp_case_option:
  "(x = None \<Longrightarrow> fwp m Q F) \<Longrightarrow> (\<And>y. x = Some y \<Longrightarrow> fwp (f y) Q F) \<Longrightarrow> fwp (case x of None \<Rightarrow> m | Some y \<Rightarrow> f y) Q F"
  by (simp split: option.split)

lemma fwp_case_prod: "(\<And>a b. x = (a, b) \<Longrightarrow> fwp (f a b) Q F) \<Longrightarrow> fwp (case x of (a, b) \<Rightarrow> f a b) Q F"
  by (simp split: prod.split)

lemma fwp_for_each:
  "I F \<Longrightarrow> (\<And>x G. x \<in> set xs \<Longrightarrow> I G \<Longrightarrow> fwp (f x) (\<lambda>_. I) G) \<Longrightarrow> fwp (for_each f xs) (\<lambda>_. I) F"
proof (induction xs arbitrary: F)
  case (Cons x xs)
  have "fwp (f x) (\<lambda>_. I) F" using Cons.prems by simp
  then have "fwp (f x) (\<lambda>_. fwp (for_each f xs) (\<lambda>_. I)) F" by (rule fwp_mono) (use Cons in auto)
  then show ?case by (simp add: fwp_bind)
qed (simp add: fwp_ret)

lemma fwp_exists: "Q (F p \<noteq> None) F \<Longrightarrow> fwp (ext (fs_exists B p)) Q F"
  by (auto simp: files_wp_def wp_simps split: prod.splits dest!: fs_exists_law)

lemma fwp_remove: "Q True (F(p := None)) \<Longrightarrow> Q False F \<Longrightarrow> fwp (ext (fs_remove B p)) Q F"
  by (auto simp: files_wp_def wp_simps split: prod.splits if_splits dest!: fs_remove_law)

lemma fwp_rename:
  "p \<noteq> q \<Longrightarrow> (F p \<noteq> None \<Longrightarrow> Q True (F(p := None, q := F p))) \<Longrightarrow> Q False F \<Longrightarrow> fwp (ext (fs_rename B p q)) Q F"
  by (auto simp: files_wp_def wp_simps split: prod.splits if_splits dest!: fs_rename_law)

lemma fwp_open_w: "Q True (F(p \<mapsto> [])) \<Longrightarrow> Q False F \<Longrightarrow> fwp (ext (fs_open_w B p)) Q F"
  by (auto simp: files_wp_def wp_simps split: prod.splits if_splits dest!: fs_open_w_law)

lemma fwp_print:
  "F p = Some c \<Longrightarrow> (\<And>n. n \<le> length s \<Longrightarrow> Q n (F(p \<mapsto> c @ take n s))) \<Longrightarrow> fwp (ext (fs_print B p s)) Q F"
  by (auto simp: files_wp_def wp_simps split: prod.splits dest!: fs_print_law)

lemma fwp_flush: "Q () F \<Longrightarrow> fwp (ext (fs_flush B p)) Q F"
  by (auto simp: files_wp_def wp_simps split: prod.splits dest!: fs_flush_law)

lemma fwp_close: "Q () F \<Longrightarrow> fwp (ext (fs_close B p)) Q F"
  by (auto simp: files_wp_def wp_simps split: prod.splits dest!: fs_close_law)

lemma fwp_read: "Q None F \<Longrightarrow> Q (F p) F \<Longrightarrow> fwp (ext (fs_read B p)) Q F"
  by (auto simp: files_wp_def wp_simps split: prod.splits dest!: fs_read_law)

lemmas fwp_rules = fwp_ret fwp_bind fwp_if fwp_whenM fwp_exists fwp_remove fwp_rename fwp_open_w fwp_flush fwp_close fwp_read

end

locale littlefs_healthy = littlefs B files
  for B :: "'w board" and files :: "'w \<Rightarrow> path \<Rightarrow> string option" +
  assumes fs_open_ok: "fst (fs_open_w B p w)"
    and fs_print_ok: "fst (fs_print B p s w) = length s"
    and fs_rename_ok: "files w p \<noteq> None \<Longrightarrow> fst (fs_rename B p q w)"
    and fs_remove_ok: "files w p \<noteq> None \<Longrightarrow> fst (fs_remove B p w)"
    and fs_read_ok: "fst (fs_read B p w) = files w p"
begin

lemma fwp_remove_ok: "F p \<noteq> None \<Longrightarrow> Q True (F(p := None)) \<Longrightarrow> fwp (ext (fs_remove B p)) Q F"
  using fs_remove_ok [of _ p]
  by (fastforce simp: files_wp_def wp_simps split: prod.splits dest: fs_remove_law)

lemma fwp_rename_ok:
  "p \<noteq> q \<Longrightarrow> F p \<noteq> None \<Longrightarrow> Q True (F(p := None, q := F p)) \<Longrightarrow> fwp (ext (fs_rename B p q)) Q F"
  using fs_rename_ok [of _ p q]
  by (fastforce simp: files_wp_def wp_simps split: prod.splits dest: fs_rename_law)

lemma fs_open_step: "fs_open_w B p w = (a, w') \<Longrightarrow> a \<and> files w' = (files w)(p \<mapsto> [])"
  using fs_open_ok [of p w] by (auto dest: fs_open_w_law)

lemma fwp_open_ok: "Q True (F(p \<mapsto> [])) \<Longrightarrow> fwp (ext (fs_open_w B p)) Q F"
  by (auto simp: files_wp_def wp_simps split: prod.splits dest!: fs_open_step)

lemma fwp_print_ok: "F p = Some c \<Longrightarrow> Q (length s) (F(p \<mapsto> c @ s)) \<Longrightarrow> fwp (ext (fs_print B p s)) Q F"
  unfolding files_wp_def wp_ext
  by (auto split: prod.splits) (metis fs_print_ok fs_print_law fst_conv order_refl take_all)

lemma fwp_read_ok: "Q (F p) F \<Longrightarrow> fwp (ext (fs_read B p)) Q F"
  unfolding files_wp_def wp_ext
  by (auto split: prod.splits) (metis fs_read_ok fs_read_law fst_conv)

lemmas fwp_ok_rules = fwp_ret fwp_bind fwp_if fwp_whenM fwp_exists fwp_remove_ok fwp_rename_ok fwp_open_ok fwp_flush fwp_close
  fwp_read_ok

end

section \<open>A reference board\<close>

text \<open>
  A board with an in-memory file system whose next operations fail as \<open>rf_faults\<close> says (when the
  board is a faulty one), a clock, a network whose answers are given, a log of what was sent and done, and what else an example needs.
  It shows that the laws can hold and evaluates the examples.
\<close>

record 'x ref_flash =
  rf_files :: "path \<Rightarrow> string option"
  rf_faults :: "bool list"
  rf_now :: u32
  rf_wifi :: bool
  rf_input :: string
  rf_log :: "string list"
  rf_extra :: 'x

definition rf_fault :: "bool \<Rightarrow> 'x ref_flash \<Rightarrow> bool" where
  "rf_fault faulty w \<longleftrightarrow> faulty \<and> rf_faults w \<noteq> [] \<and> hd (rf_faults w)"

definition rf_try :: "bool \<Rightarrow> bool \<Rightarrow> ((path \<Rightarrow> string option) \<Rightarrow> path \<Rightarrow> string option) \<Rightarrow> 'x ref_flash \<Rightarrow> bool \<times> 'x ref_flash" where
  "rf_try faulty possible change w =
     (if possible \<and> \<not> rf_fault faulty w
      then (True, w\<lparr>rf_files := change (rf_files w), rf_faults := tl (rf_faults w)\<rparr>)
      else (False, w\<lparr>rf_faults := tl (rf_faults w)\<rparr>))"

definition rf_print :: "bool \<Rightarrow> path \<Rightarrow> string \<Rightarrow> 'x ref_flash \<Rightarrow> nat \<times> 'x ref_flash" where
  "rf_print faulty p s w =
     (case rf_files w p of
        None \<Rightarrow> (if faulty then 0 else length s, w)
      | Some c \<Rightarrow> (let n = (if rf_fault faulty w then length s div 2 else length s)
          in (n, w\<lparr>rf_files := (rf_files w)(p \<mapsto> c @ take n s), rf_faults := tl (rf_faults w)\<rparr>)))"

definition rf_take :: "nat \<Rightarrow> 'x ref_flash \<Rightarrow> string \<times> 'x ref_flash" where
  "rf_take n w = (take n (rf_input w), w\<lparr>rf_input := drop n (rf_input w)\<rparr>)"

definition rf_until :: "char \<Rightarrow> nat \<Rightarrow> 'x ref_flash \<Rightarrow> string \<times> 'x ref_flash" where
  "rf_until c n w =
     (let l = take n (takeWhile (\<lambda>x. x \<noteq> c) (rf_input w));
          rest = drop (length l) (rf_input w)
      in (l, w\<lparr>rf_input := (if length l < n \<and> rest \<noteq> [] \<and> hd rest = c then tl rest else rest)\<rparr>))"

definition rf_note :: "string \<Rightarrow> 'x ref_flash \<Rightarrow> 'x ref_flash" where
  "rf_note s w = w\<lparr>rf_log := rf_log w @ [s]\<rparr>"

definition ref_board :: "bool \<Rightarrow> 'x ref_flash board" where
  "ref_board faulty = \<lparr>
     ESP32TUN_STATUS_LED_PIN = 8, ESP32TUN_STATUS_LED_ACTIVE_LOW = True, ESP32TUN_CONFIG_BUTTON_PIN = 9,
     SSH_TUNNEL_LOW_MEMORY_PROFILE = True,
     b_millis = (\<lambda>w. (rf_now w, w\<lparr>rf_now := rf_now w + 1\<rparr>)),
     b_delay = (\<lambda>d w. ((), w\<lparr>rf_now := rf_now w + d\<rparr>)),
     b_restart = (\<lambda>w. ((), rf_note ''restart'' w)),
     b_random = (\<lambda>w. (7, w)),
     b_free_heap = (\<lambda>w. (200000, w)),
     b_largest_block = (\<lambda>w. (100000, w)),
     b_efuse_mac = 0x0000A1B2C3D4E5F6,
     b_time = (\<lambda>w. (0, w)),
     b_strftime = (\<lambda>f t. []),
     fs_begin = (\<lambda>w. (True, w)),
     fs_format = (\<lambda>w. (True, w\<lparr>rf_files := (\<lambda>_. None)\<rparr>)),
     fs_exists = (\<lambda>p w. (rf_files w p \<noteq> None, w)),
     fs_remove = (\<lambda>p w. rf_try faulty (rf_files w p \<noteq> None) (\<lambda>F. F(p := None)) w),
     fs_rename = (\<lambda>p q w. rf_try faulty (rf_files w p \<noteq> None) (\<lambda>F. F(p := None, q := F p)) w),
     fs_open_w = (\<lambda>p w. rf_try faulty True (\<lambda>F. F(p \<mapsto> [])) w),
     fs_print = rf_print faulty,
     fs_flush = (\<lambda>p w. ((), w)),
     fs_close = (\<lambda>p w. ((), w)),
     fs_read = (\<lambda>p w. (rf_files w p, w)),
     wifi_connected = (\<lambda>w. (rf_wifi w, w)),
     wifi_begin = (\<lambda>a b w. ((), rf_note (''begin '' @ a) w)),
     wifi_mode = (\<lambda>m w. ((), rf_note (''mode '' @ m) w)),
     wifi_disconnect = (\<lambda>a b w. ((), rf_note ''disconnect'' w)),
     wifi_softAP = (\<lambda>n w. (True, rf_note (''softAP '' @ n) w)),
     wifi_softAPdisconnect = (\<lambda>a w. ((), w)),
     wifi_scanNetworks = (\<lambda>w. ((), w)),
     wifi_networks = (\<lambda>w. ([(''home'', -60)], w)),
     wifi_localIP = (\<lambda>w. (''192.168.1.7'', w)),
     wifi_network_info = (\<lambda>w. ((''255.255.255.0'', ''192.168.1.1'', ''192.168.1.1''), w)),
     wifi_macAddress = (\<lambda>w. (''A1:B2:C3:D4:E5:F6'', w)),
     esp_efuse_mac_get_default = (\<lambda>w. (Some [0xA1, 0xB2, 0xC3, 0xD4, 0xE5, 0xF6], w)),
     esp_iface_mac_addr_set = (\<lambda>m w. (0, w)),
     b_chip = (''ESP32-C3'', 4),
     b_build = (''Jan  1 2026'', ''12:00:00''),
     tls_connect = (\<lambda>h p w. (True, rf_note (''connect '' @ h) w)),
     tls_write = (\<lambda>s w. (length s, rf_note s w)),
     tls_available = (\<lambda>w. (rf_input w \<noteq> [], w)),
     tls_connected = (\<lambda>w. (rf_input w \<noteq> [], w)),
     tls_read = (\<lambda>w. case rf_input w of [] \<Rightarrow> (-1, w) | c # cs \<Rightarrow> (int (char_code c), w\<lparr>rf_input := cs\<rparr>)),
     tls_readBytesUntil = rf_until,
     tls_readBytes = rf_take,
     tls_readStringUntil = (\<lambda>c w. rf_until c (length (rf_input w) + 1) w),
     tls_stop = (\<lambda>w. ((), w)),
     srv_new = (\<lambda>w. (True, w)),
     srv_begin = (\<lambda>w. ((), w)),
     srv_stop = (\<lambda>w. ((), w)),
     srv_request = (\<lambda>w. (None, w)),
     srv_send = (\<lambda>code page w. ((), rf_note page w)),
     dns_new = (\<lambda>w. (True, w)),
     dns_start = (\<lambda>w. ((), w)),
     dns_stop = (\<lambda>w. ((), w)),
     dns_processNextRequest = (\<lambda>w. ((), w)),
     b_pinMode = (\<lambda>p w. ((), w)),
     b_digitalWrite = (\<lambda>p high w. ((), w)),
     b_digitalRead = (\<lambda>p w. (True, w)),
     b_xTaskCreate = (\<lambda>n w. (True, w)),
     b_serial_ready = (\<lambda>w. (True, w))\<rparr>"

interpretation ref_fs: littlefs "ref_board faulty" rf_files
  by unfold_locales
    (auto simp: ref_board_def rf_try_def rf_print_def Let_def split: if_splits option.splits)

interpretation ref_healthy: littlefs_healthy "ref_board False" rf_files
  by unfold_locales (auto simp: ref_board_def rf_try_def rf_print_def rf_fault_def Let_def split: option.splits)

definition flash_with :: "'x \<Rightarrow> 'x ref_flash" where
  "flash_with x = \<lparr>rf_files = (\<lambda>_. None), rf_faults = [], rf_now = 1000, rf_wifi = True, rf_input = [], rf_log = [], rf_extra = x\<rparr>"

definition flash_empty :: "unit ref_flash" where
  "flash_empty = flash_with ()"

end
