(* ===== verification/Status_Led.thy ===== *)
theory Status_Led
  imports Firmware_Board
begin

text \<open>
  The status LED of the firmware, \<open>examples/src/status_led.cpp\<close>: the blink pattern of each state as
  a function of the time since the state was entered, and the output that is written only when it changes.
  The module's variables extend the state of the tunnel. In builds without an LED pin the operations do nothing.
\<close>

datatype led_state = Booting | MissingConfig | LedSetup | LedConnecting | LedConnected | LedDisabled | LedError

record ('w, 'r) led_module = "('w, 'r) tunnel" +
  led_currentState :: led_state
  led_stateStartedAt :: u32
  led_lastUpdateAt :: u32
  led_initialized :: bool
  led_outputKnown :: bool
  led_lastOutput :: bool

type_synonym ('w, 'r, 'z, 'a) led_op = "(('w, 'r, 'z) led_module_scheme, 'a) state"

definition led_writeOutput :: "'w board \<Rightarrow> bool \<Rightarrow> ('w, 'r, 'z, unit) led_op" where
  "led_writeOutput B on = do {
     known \<leftarrow> gets led_outputKnown;
     last \<leftarrow> gets led_lastOutput;
     if known \<and> on = last then ret ()
     else do {
       ext (b_digitalWrite B (ESP32TUN_STATUS_LED_PIN B) (\<not> (on = ESP32TUN_STATUS_LED_ACTIVE_LOW B)));
       modify (\<lambda>s. s\<lparr>led_lastOutput := on, led_outputKnown := True\<rparr>) } }"

definition led_outputFor :: "led_state \<Rightarrow> u32 \<Rightarrow> bool" where
  "led_outputFor st el =
     (case st of
        Booting \<Rightarrow> True
      | MissingConfig \<Rightarrow>
          if el < 900 then el < 120 \<or> (el \<ge> 300 \<and> el < 420) \<or> (el \<ge> 600 \<and> el < 720)
          else (el - 900) mod 1000 < 500
      | LedSetup \<Rightarrow> el mod 1000 < 500
      | LedConnecting \<Rightarrow> (let phase = el mod 2000 in phase < 120 \<or> (phase \<ge> 300 \<and> phase < 420))
      | LedConnected \<Rightarrow> False
      | LedDisabled \<Rightarrow> False
      | LedError \<Rightarrow> (let phase = el mod 2000 in
          phase < 120 \<or> (phase \<ge> 300 \<and> phase < 420) \<or> (phase \<ge> 600 \<and> phase < 720)))"

definition led_begin :: "'w board \<Rightarrow> ('w, 'r, 'z, unit) led_op" where
  "led_begin B = whenM (ESP32TUN_STATUS_LED_PIN B \<ge> 0) (do {
     ext (b_pinMode B (ESP32TUN_STATUS_LED_PIN B));
     modify (\<lambda>s. s\<lparr>led_initialized := True\<rparr>);
     now \<leftarrow> ext (b_millis B);
     modify (\<lambda>s. s\<lparr>led_stateStartedAt := now, led_lastUpdateAt := now\<rparr>);
     led_writeOutput B True })"

definition led_set :: "'w board \<Rightarrow> led_state \<Rightarrow> ('w, 'r, 'z, unit) led_op" where
  "led_set B st = whenM (ESP32TUN_STATUS_LED_PIN B \<ge> 0) (do {
     i \<leftarrow> gets led_initialized;
     cur \<leftarrow> gets led_currentState;
     if \<not> i \<or> st = cur then ret ()
     else do {
       now \<leftarrow> ext (b_millis B);
       modify (\<lambda>s. s\<lparr>led_currentState := st, led_stateStartedAt := now, led_lastUpdateAt := now\<rparr>);
       led_writeOutput B (led_outputFor st 0) } })"

definition led_update :: "'w board \<Rightarrow> ('w, 'r, 'z, unit) led_op" where
  "led_update B = whenM (ESP32TUN_STATUS_LED_PIN B \<ge> 0) (do {
     i \<leftarrow> gets led_initialized;
     if \<not> i then ret ()
     else do {
       now \<leftarrow> ext (b_millis B);
       last \<leftarrow> gets led_lastUpdateAt;
       if now - last < 20 then ret ()
       else do {
         modify (\<lambda>s. s\<lparr>led_lastUpdateAt := now\<rparr>);
         st \<leftarrow> gets led_currentState;
         started \<leftarrow> gets led_stateStartedAt;
         led_writeOutput B (led_outputFor st (now - started)) } } })"

section \<open>Patterns\<close>

text \<open>The LED is dark exactly in the states without a message, at some time or other lit in all others.\<close>

lemma led_dark_iff: "(\<forall>t. \<not> led_outputFor st t) \<longleftrightarrow> st = LedConnected \<or> st = LedDisabled"
proof
  assume "\<forall>t. \<not> led_outputFor st t"
  then have "\<not> led_outputFor st 0" by blast
  then show "st = LedConnected \<or> st = LedDisabled" by (cases st) (simp_all add: led_outputFor_def)
qed (auto simp: led_outputFor_def)

text \<open>Announcing a missing configuration turns into the setup pattern.\<close>

lemma led_missing_then_setup: "t \<ge> 900 \<Longrightarrow> led_outputFor MissingConfig t = led_outputFor LedSetup (t - 900)"
  by (simp add: led_outputFor_def not_less [symmetric])

text \<open>After an operation that reached the output, the remembered output is the one of the pattern.\<close>

lemma led_writeOutput_last: "wp (led_writeOutput B on) (\<lambda>_ s. led_lastOutput s = on \<and> led_outputKnown s) s"
  by (auto simp: led_writeOutput_def wp_simps split: prod.splits)

lemma led_set_shows:
  assumes "ESP32TUN_STATUS_LED_PIN B \<ge> 0" "led_initialized s" "led_currentState s \<noteq> st"
  shows "wp (led_set B st) (\<lambda>_ s'. led_currentState s' = st \<and> led_lastOutput s' = led_outputFor st 0) s"
  using assms by (auto simp: led_set_def led_writeOutput_def wp_simps split: prod.splits)

end
