(* ===== verification/Mac_Vendor.thy ===== *)
theory Mac_Vendor
  imports Status_Led
begin

text \<open>
  The MAC profiles of the firmware, \<open>examples/src/mac_vendor.cpp\<close>: the names under which they are
  stored, their parser, and the preparation of the station address, which happens once.
\<close>

datatype mac_vendor = Original | Cisco | HP

record ('w, 'r) mac_module = "('w, 'r) led_module" +
  mv_currentVendor :: mac_vendor
  mv_stationPrepared :: bool

type_synonym ('w, 'r, 'z, 'a) mac_op = "(('w, 'r, 'z) mac_module_scheme, 'a) state"

definition CISCO_OUI :: bytes where "CISCO_OUI = [0x00, 0x00, 0x0C]"
definition HP_OUI :: bytes where "HP_OUI = [0x3C, 0xD9, 0x2B]"

definition factoryStationMac :: "'w board \<Rightarrow> ('w, 'z, bytes option) board_op" where
  "factoryStationMac B = ext (esp_efuse_mac_get_default B)"

definition hexUpper :: string where
  "hexUpper = ''0123456789ABCDEF''"

text \<open>\<open>%02X\<close> for an octet, and the octets separated by colons.\<close>

definition hex2 :: "u8 \<Rightarrow> string" where
  "hex2 b = [hexUpper ! unat (drop_bit 4 b), hexUpper ! unat (b AND 0x0F)]"

fun formatMac :: "bytes \<Rightarrow> string" where
  "formatMac [] = []"
| "formatMac [b] = hex2 b"
| "formatMac (b # bs) = hex2 b @ CHR '':'' # formatMac bs"

definition configValue :: "mac_vendor \<Rightarrow> string" where
  "configValue v = (case v of Cisco \<Rightarrow> ''CISCO'' | HP \<Rightarrow> ''HP'' | Original \<Rightarrow> ''ORIGINAL'')"

definition mac_parse :: "string \<Rightarrow> mac_vendor option" where
  "mac_parse value =
     (let normalized = toUpperCase (trim value) in
      if normalized = ''ORIGINAL'' \<or> normalized = ''ESP32'' then Some Original
      else if normalized = ''CISCO'' then Some Cisco
      else if normalized = ''HP'' \<or> normalized = ''HEWLETT-PACKARD'' \<or> normalized = ''HEWLETT_PACKARD'' then Some HP
      else None)"

definition with_oui :: "mac_vendor \<Rightarrow> bytes \<Rightarrow> bytes" where
  "with_oui v mac = (if v = Cisco then CISCO_OUI else HP_OUI) @ drop 3 mac"

definition prepareStation :: "'w board \<Rightarrow> mac_vendor \<Rightarrow> ('w, 'r, 'z, bool) mac_op" where
  "prepareStation B v = do {
     prepared \<leftarrow> gets mv_stationPrepared;
     if prepared then do { cur \<leftarrow> gets mv_currentVendor; ret (v = cur) }
     else do {
       m \<leftarrow> factoryStationMac B;
       (case m of
          None \<Rightarrow> ret False
        | Some mac \<Rightarrow> do {
            result \<leftarrow> (if v \<noteq> Original then ext (esp_iface_mac_addr_set B (with_oui v mac)) else ret 0);
            if result \<noteq> 0 then ret False
            else do {
              modify (\<lambda>s. s\<lparr>mv_currentVendor := v, mv_stationPrepared := True\<rparr>);
              ret True } }) } }"

definition hardwareAddress :: "'w board \<Rightarrow> ('w, 'z, string) board_op" where
  "hardwareAddress B = do {
     m \<leftarrow> factoryStationMac B;
     ret (case m of None \<Rightarrow> ''unavailable'' | Some mac \<Rightarrow> formatMac mac) }"

definition activeAddress :: "'w board \<Rightarrow> ('w, 'z, string) board_op" where
  "activeAddress B = ext (wifi_macAddress B)"

definition appliedVendor :: "('w, 'r, 'z) mac_module_scheme \<Rightarrow> mac_vendor" where
  "appliedVendor s = mv_currentVendor s"

section \<open>Facts\<close>

lemma mac_parse_configValue [simp]: "mac_parse (configValue v) = Some v"
proof (cases v)
  case Original
  show ?thesis unfolding Original by code_simp
next
  case Cisco
  show ?thesis unfolding Cisco by code_simp
next
  case HP
  show ?thesis unfolding HP by code_simp
qed

text \<open>Only the vendor part of an address changes.\<close>

lemma with_oui_device: "length mac = 6 \<Longrightarrow> length (with_oui v mac) = 6 \<and> drop 3 (with_oui v mac) = drop 3 mac"
  by (auto simp: with_oui_def CISCO_OUI_def HP_OUI_def)

text \<open>Once prepared, the profile stays: later calls only compare.\<close>

lemma prepareStation_again:
  "mv_stationPrepared s \<Longrightarrow> run_state (prepareStation B v) s = (v = mv_currentVendor s, s)"
  by (simp add: prepareStation_def)

lemma prepareStation_result:
  "wp (prepareStation B v) (\<lambda>ok s'. ok \<longrightarrow> mv_stationPrepared s' \<and> mv_currentVendor s' = v) s"
  by (auto simp: prepareStation_def factoryStationMac_def wp_simps split: prod.splits option.splits)

end
