(* ===== verification/Wifi_Config.thy ===== *)
theory Wifi_Config
  imports Mac_Vendor
begin

text \<open>
  The stored configuration of the firmware: \<open>DeviceRuntimeConfig\<close> of \<open>examples/src/wifi_provisioning.h\<close>
  and the part of \<open>wifi_provisioning.cpp\<close> that encodes it, writes it to flash and reads it back, with
  the key files beside it. The reading of a file line by line works on its contents, which \<open>fs_read\<close> returns.
\<close>

datatype ssh_auth_method = PasswordAuth | PrivateKeyAuth

record device_config =
  wifiSsid :: string
  wifiPassword :: string
  macVendor :: mac_vendor
  setupComplete :: bool
  sshHost :: string
  sshPort :: int
  sshUsername :: string
  sshAuthMethod :: ssh_auth_method
  sshPassword :: string
  sshPrivateKey :: string
  sshPublicKey :: string
  sshKeyPassphrase :: string
  tunnelEnabled :: bool
  dc_remoteBindHost :: string
  dc_remoteBindPort :: int
  dc_localHost :: string
  dc_localPort :: int

definition device_default :: device_config where
  "device_default = \<lparr>wifiSsid = [], wifiPassword = [], macVendor = Original, setupComplete = False, sshHost = [],
     sshPort = 22, sshUsername = [], sshAuthMethod = PasswordAuth, sshPassword = [], sshPrivateKey = [],
     sshPublicKey = [], sshKeyPassphrase = [], tunnelEnabled = True, dc_remoteBindHost = ''127.0.0.1'',
     dc_remoteBindPort = 23180, dc_localHost = ''192.168.1.1'', dc_localPort = 22\<rparr>"

definition CONFIG_PATH :: path where "CONFIG_PATH = ''/esp32tun.cfg''"
definition CONFIG_TEMP :: path where "CONFIG_TEMP = ''/esp32tun.cfg.tmp''"
definition CONFIG_BACKUP :: path where "CONFIG_BACKUP = ''/esp32tun.cfg.bak''"
definition KEY_PATH :: path where "KEY_PATH = ''/esp32tun_ssh_key''"
definition KEY_TEMP :: path where "KEY_TEMP = ''/esp32tun_ssh_key.tmp''"
definition PUBLIC_KEY_PATH :: path where "PUBLIC_KEY_PATH = ''/esp32tun_ssh_key.pub''"
definition PUBLIC_KEY_TEMP :: path where "PUBLIC_KEY_TEMP = ''/esp32tun_ssh_key.pub.tmp''"
definition MAX_KEY_SIZE :: nat where "MAX_KEY_SIZE = 16384"
definition MAX_PUBLIC_KEY_SIZE :: nat where "MAX_PUBLIC_KEY_SIZE = 4096"

lemmas path_defs = CONFIG_PATH_def CONFIG_TEMP_def CONFIG_BACKUP_def KEY_PATH_def KEY_TEMP_def
  PUBLIC_KEY_PATH_def PUBLIC_KEY_TEMP_def

section \<open>Encoding of values\<close>

definition isUnreserved :: "char \<Rightarrow> bool" where
  "isUnreserved c \<longleftrightarrow> isAlphaNumeric c \<or> c = CHR ''-'' \<or> c = CHR ''_'' \<or> c = CHR ''.''"

definition hexDigit :: "nat \<Rightarrow> char" where
  "hexDigit n = (if n < 10 then char_of (48 + n) else char_of (65 + n - 10))"

definition hexValue :: "char \<Rightarrow> int" where
  "hexValue c =
     (let k = char_code c in
      if 48 \<le> k \<and> k \<le> 57 then int k - 48
      else if 97 \<le> k \<and> k \<le> 102 then int k - 97 + 10
      else if 65 \<le> k \<and> k \<le> 70 then int k - 65 + 10
      else -1)"

fun encode :: "string \<Rightarrow> string" where
  "encode [] = []"
| "encode (c # value) =
     (if isUnreserved c then c # encode value
      else CHR ''%'' # hexDigit (char_code c div 16) # hexDigit (char_code c mod 16) # encode value)"

fun decode :: "string \<Rightarrow> string option" where
  "decode [] = Some []"
| "decode (c # value) =
     (if c \<noteq> CHR ''%'' then map_option ((#) c) (decode value)
      else (case value of
          a # b # rest \<Rightarrow>
            if hexValue a < 0 \<or> hexValue b < 0 then None
            else map_option ((#) (char_of (nat (16 * hexValue a + hexValue b)))) (decode rest)
        | _ \<Rightarrow> None))"

section \<open>Validation\<close>

definition parsePort :: "string \<Rightarrow> int option" where
  "parsePort value =
     (if value = [] then None
      else if \<not> list_all isDigit value then None
      else let parsed = toInt value in if parsed < 1 \<or> parsed > 65535 then None else Some parsed)"

definition validKey :: "string \<Rightarrow> bool" where
  "validKey key \<longleftrightarrow> length key > 0 \<and> length key \<le> MAX_KEY_SIZE \<and> indexOf key ''-----BEGIN'' \<ge> 0
     \<and> indexOf key ''PRIVATE KEY-----'' \<ge> 0 \<and> indexOf key ''-----END'' \<ge> 0"

definition validPublicKey :: "string \<Rightarrow> bool" where
  "validPublicKey key =
     (if key = [] then True
      else if length key > MAX_PUBLIC_KEY_SIZE then False
      else let trimmed = trim key; separator = indexOf trimmed '' '' in
        if separator \<le> 0 \<or> separator = int (length trimmed) - 1 then False
        else let algorithm = take (nat separator) trimmed in
          algorithm = ''ssh-rsa'' \<or> algorithm = ''ecdsa-sha2-nistp256'' \<or> algorithm = ''ecdsa-sha2-nistp384''
          \<or> algorithm = ''ecdsa-sha2-nistp521'')"

definition validDeviceConfig :: "device_config \<Rightarrow> bool" where
  "validDeviceConfig c =
     (if sshHost c = [] \<or> length (sshHost c) > 253 \<or> sshUsername c = [] \<or> length (sshUsername c) > 128
         \<or> sshPort c < 1 \<or> sshPort c > 65535 \<or> dc_remoteBindHost c = [] \<or> dc_remoteBindPort c < 1
         \<or> dc_remoteBindPort c > 65535 \<or> dc_localHost c = [] \<or> dc_localPort c < 1 \<or> dc_localPort c > 65535
      then False
      else if sshAuthMethod c = PasswordAuth then sshPassword c \<noteq> []
      else validKey (sshPrivateKey c) \<and> validPublicKey (sshPublicKey c))"

section \<open>Files\<close>

definition removeIfExists :: "'w board \<Rightarrow> path \<Rightarrow> ('w, 'z, unit) board_op" where
  "removeIfExists B p = do {
     e \<leftarrow> ext (fs_exists B p);
     whenM e (do { ext (fs_remove B p); ret () }) }"

text \<open>The two keys are reference parameters; what is not assigned stays.\<close>

definition loadKeys :: "'w board \<Rightarrow> string \<times> string \<Rightarrow> ('w, 'z, bool \<times> string \<times> string) board_op" where
  "loadKeys B = (\<lambda>(privateKey, publicKey). do {
     f \<leftarrow> ext (fs_read B KEY_PATH);
     (case f of
        None \<Rightarrow> ret (False, privateKey, publicKey)
      | Some key \<Rightarrow>
          if length key = 0 \<or> length key > MAX_KEY_SIZE then ret (False, privateKey, publicKey)
          else if \<not> validKey key then ret (False, key, publicKey)
          else do {
            g \<leftarrow> ext (fs_read B PUBLIC_KEY_PATH);
            (case g of
               None \<Rightarrow> ret (True, key, [])
             | Some pub \<Rightarrow>
                 if length pub = 0 \<or> length pub > MAX_PUBLIC_KEY_SIZE then ret (False, key, [])
                 else ret (validPublicKey pub, key, pub)) }) })"

definition println :: "'w board \<Rightarrow> path \<Rightarrow> string \<Rightarrow> ('w, 'z, unit) board_op" where
  "println B p s = do {
     ext (fs_print B p s);
     ext (fs_print B p [CR, LF]);
     ret () }"

definition writeValue :: "'w board \<Rightarrow> path \<Rightarrow> string \<Rightarrow> string \<Rightarrow> ('w, 'z, unit) board_op" where
  "writeValue B p name value = do {
     ext (fs_print B p name);
     ext (fs_print B p ''='');
     println B p (encode value) }"

definition auth_name :: "ssh_auth_method \<Rightarrow> string" where
  "auth_name a = (if a = PrivateKeyAuth then ''key'' else ''password'')"

text \<open>The \<open>name=value\<close> lines that follow the two first lines, before encoding.\<close>

definition config_values :: "device_config \<Rightarrow> (string \<times> string) list" where
  "config_values c =
     [(''wifi_ssid'', wifiSsid c), (''wifi_password'', wifiPassword c), (''mac_vendor'', configValue (macVendor c))]
     @ (if setupComplete c then
         [(''ssh_host'', sshHost c), (''ssh_port'', decimal_int (sshPort c)), (''ssh_user'', sshUsername c),
          (''ssh_auth'', auth_name (sshAuthMethod c)), (''ssh_password'', sshPassword c),
          (''ssh_key_passphrase'', sshKeyPassphrase c), (''tunnel_enabled'', if tunnelEnabled c then ''1'' else ''0''),
          (''remote_host'', dc_remoteBindHost c), (''remote_port'', decimal_int (dc_remoteBindPort c)),
          (''local_host'', dc_localHost c), (''local_port'', decimal_int (dc_localPort c))]
        else [])"

text \<open>Putting a freshly written file in the place of another, keeping the old one until then.\<close>

definition replace_file :: "'w board \<Rightarrow> path \<Rightarrow> path \<Rightarrow> path \<Rightarrow> ('w, 'z, bool) board_op" where
  "replace_file B temp target backup = do {
     removeIfExists B backup;
     hadExistingConfig \<leftarrow> ext (fs_exists B target);
     moved \<leftarrow> (if hadExistingConfig then ext (fs_rename B target backup) else ret True);
     if hadExistingConfig \<and> \<not> moved then do { removeIfExists B temp; ret False }
     else do {
       ok \<leftarrow> ext (fs_rename B temp target);
       if \<not> ok then do {
         whenM hadExistingConfig (do { ext (fs_rename B backup target); ret () });
         removeIfExists B temp;
         ret False }
       else do { removeIfExists B backup; ret True } } }"

definition write_config_text :: "'w board \<Rightarrow> device_config \<Rightarrow> ('w, 'z, unit) board_op" where
  "write_config_text B c = do {
     println B CONFIG_TEMP ''version=4'';
     println B CONFIG_TEMP (if setupComplete c then ''setup_complete=1'' else ''setup_complete=0'');
     for_each (\<lambda>(name, value). writeValue B CONFIG_TEMP name value) (config_values c) }"

definition writeConfig :: "'w board \<Rightarrow> device_config \<Rightarrow> ('w, 'z, bool) board_op" where
  "writeConfig B c = do {
     opened \<leftarrow> ext (fs_open_w B CONFIG_TEMP);
     if \<not> opened then ret False
     else do {
       write_config_text B c;
       ext (fs_flush B CONFIG_TEMP);
       ext (fs_close B CONFIG_TEMP);
       replace_file B CONFIG_TEMP CONFIG_PATH CONFIG_BACKUP } }"

definition writeKeyFile :: "'w board \<Rightarrow> path \<Rightarrow> string \<Rightarrow> ('w, 'z, bool) board_op" where
  "writeKeyFile B p key = do {
     opened \<leftarrow> ext (fs_open_w B p);
     if \<not> opened then ret False
     else do {
       written \<leftarrow> ext (fs_print B p key);
       ext (fs_close B p);
       ret (written = length key) } }"

definition saveKeys :: "'w board \<Rightarrow> string \<Rightarrow> string \<Rightarrow> ('w, 'z, bool) board_op" where
  "saveKeys B privateKey publicKey = do {
     removeIfExists B KEY_TEMP;
     removeIfExists B PUBLIC_KEY_TEMP;
     ok \<leftarrow> writeKeyFile B KEY_TEMP privateKey;
     if \<not> ok then ret False
     else do {
       okPub \<leftarrow> (if publicKey \<noteq> [] then writeKeyFile B PUBLIC_KEY_TEMP publicKey else ret True);
       if \<not> okPub then do { removeIfExists B KEY_TEMP; ret False }
       else do {
         removeIfExists B KEY_PATH;
         r \<leftarrow> ext (fs_rename B KEY_TEMP KEY_PATH);
         if \<not> r then do { removeIfExists B PUBLIC_KEY_TEMP; ret False }
         else do {
           removeIfExists B PUBLIC_KEY_PATH;
           r2 \<leftarrow> (if publicKey \<noteq> [] then ext (fs_rename B PUBLIC_KEY_TEMP PUBLIC_KEY_PATH) else ret True);
           ret r2 } } } }"

section \<open>Loading\<close>

text \<open>The pieces that \<open>readStringUntil\<close> returns, up to a newline or the end.\<close>

function file_lines :: "string \<Rightarrow> string list" where
  "file_lines s =
     (if s = [] then []
      else takeWhile (\<lambda>c. c \<noteq> LF) s # file_lines (drop (Suc (length (takeWhile (\<lambda>c. c \<noteq> LF) s))) s))"
  by pat_completeness auto

termination
  by (relation "measure length") auto

declare file_lines.simps [simp del]

definition strip_cr :: "string \<Rightarrow> string" where
  "strip_cr line = (if line \<noteq> [] \<and> last line = CR then butlast line else line)"

text \<open>The local variables of \<open>loadConfig\<close> and the configuration it fills.\<close>

record load_state =
  ld_version :: int
  ld_complete :: string
  ld_sshPort :: string
  ld_remotePort :: string
  ld_localPort :: string
  ld_auth :: string
  ld_tunnelEnabled :: string
  ld_macVendor :: string
  ld_config :: device_config

definition load_start :: "device_config \<Rightarrow> load_state" where
  "load_start c = \<lparr>ld_version = 0, ld_complete = [], ld_sshPort = [], ld_remotePort = [], ld_localPort = [],
     ld_auth = [], ld_tunnelEnabled = [], ld_macVendor = [], ld_config = c\<rparr>"

definition load_value :: "string \<Rightarrow> string \<Rightarrow> load_state \<Rightarrow> load_state" where
  "load_value name value st =
     (if name = ''version'' then st\<lparr>ld_version := toInt value\<rparr>
      else if name = ''setup_complete'' then st\<lparr>ld_complete := value\<rparr>
      else if name = ''wifi_ssid'' then st\<lparr>ld_config := ld_config st\<lparr>wifiSsid := value\<rparr>\<rparr>
      else if name = ''wifi_password'' then st\<lparr>ld_config := ld_config st\<lparr>wifiPassword := value\<rparr>\<rparr>
      else if name = ''mac_vendor'' then st\<lparr>ld_macVendor := value\<rparr>
      else if name = ''ssh_host'' then st\<lparr>ld_config := ld_config st\<lparr>sshHost := value\<rparr>\<rparr>
      else if name = ''ssh_port'' then st\<lparr>ld_sshPort := value\<rparr>
      else if name = ''ssh_user'' then st\<lparr>ld_config := ld_config st\<lparr>sshUsername := value\<rparr>\<rparr>
      else if name = ''ssh_auth'' then st\<lparr>ld_auth := value\<rparr>
      else if name = ''ssh_password'' then st\<lparr>ld_config := ld_config st\<lparr>sshPassword := value\<rparr>\<rparr>
      else if name = ''ssh_key_passphrase'' then st\<lparr>ld_config := ld_config st\<lparr>sshKeyPassphrase := value\<rparr>\<rparr>
      else if name = ''tunnel_enabled'' then st\<lparr>ld_tunnelEnabled := value\<rparr>
      else if name = ''remote_host'' then st\<lparr>ld_config := ld_config st\<lparr>dc_remoteBindHost := value\<rparr>\<rparr>
      else if name = ''remote_port'' then st\<lparr>ld_remotePort := value\<rparr>
      else if name = ''local_host'' then st\<lparr>ld_config := ld_config st\<lparr>dc_localHost := value\<rparr>\<rparr>
      else if name = ''local_port'' then st\<lparr>ld_localPort := value\<rparr>
      else st)"

text \<open>The loop over the lines; the flag is false when a value cannot be decoded.\<close>

fun load_lines :: "string list \<Rightarrow> load_state \<Rightarrow> bool \<times> load_state" where
  "load_lines [] st = (True, st)"
| "load_lines (l # ls) st =
     (let line = strip_cr l; pos = indexOf line ''='' in
      if pos \<le> 0 then load_lines ls st
      else (case decode (drop (nat pos + 1) line) of
          None \<Rightarrow> (False, st)
        | Some value \<Rightarrow> load_lines ls (load_value (take (nat pos) line) value st)))"

definition parse_ports :: "load_state \<Rightarrow> device_config \<Rightarrow> bool \<times> device_config" where
  "parse_ports st c =
     (case parsePort (ld_sshPort st) of
        None \<Rightarrow> (False, c)
      | Some p \<Rightarrow>
          (let c = c\<lparr>sshPort := p\<rparr> in case parsePort (ld_remotePort st) of
             None \<Rightarrow> (False, c)
           | Some q \<Rightarrow>
               (let c = c\<lparr>dc_remoteBindPort := q\<rparr> in case parsePort (ld_localPort st) of
                  None \<Rightarrow> (False, c)
                | Some r \<Rightarrow> (True, c\<lparr>dc_localPort := r\<rparr>))))"

text \<open>What follows the loop.\<close>

definition load_finish :: "'w board \<Rightarrow> load_state \<Rightarrow> ('w, 'z, bool \<times> device_config) board_op" where
  "load_finish B st =
     (let c = ld_config st in
      if ld_version st < 1 \<or> ld_version st > 4 \<or> wifiSsid c = [] \<or> length (wifiSsid c) > 32 \<or> length (wifiPassword c) > 63
      then ret (False, c)
      else case (if ld_version st \<ge> 4 then mac_parse (ld_macVendor st) else Some Original) of
        None \<Rightarrow> ret (False, c)
      | Some v \<Rightarrow>
          (let c = c\<lparr>macVendor := v\<rparr> in
           if ld_version st = 1 \<or> ld_complete st \<noteq> ''1'' then ret (True, c)
           else if ld_version st \<ge> 3 \<and> ld_tunnelEnabled st \<noteq> ''0'' \<and> ld_tunnelEnabled st \<noteq> ''1'' then ret (True, c)
           else let
               c = (if ld_version st \<ge> 3 then c\<lparr>tunnelEnabled := (ld_tunnelEnabled st = ''1'')\<rparr> else c);
               c = c\<lparr>sshAuthMethod := (if ld_auth st = ''key'' then PrivateKeyAuth else PasswordAuth)\<rparr>;
               (portsOk, c) = parse_ports st c
             in if \<not> portsOk then ret (True, c)
                else if sshAuthMethod c = PrivateKeyAuth then do {
                  (ok, priv, pub) \<leftarrow> loadKeys B (sshPrivateKey c, sshPublicKey c);
                  let c = c\<lparr>sshPrivateKey := priv, sshPublicKey := pub\<rparr>;
                  ret (True, if ok then c\<lparr>setupComplete := validDeviceConfig c\<rparr> else c) }
                else ret (True, c\<lparr>setupComplete := validDeviceConfig c\<rparr>)))"

definition loadConfig :: "'w board \<Rightarrow> device_config \<Rightarrow> ('w, 'z, bool \<times> device_config) board_op" where
  "loadConfig B c = do {
     e \<leftarrow> ext (fs_exists B CONFIG_PATH);
     (if \<not> e then do {
        b \<leftarrow> ext (fs_exists B CONFIG_BACKUP);
        whenM b (do { ext (fs_rename B CONFIG_BACKUP CONFIG_PATH); ret () }) }
      else removeIfExists B CONFIG_BACKUP);
     f \<leftarrow> ext (fs_read B CONFIG_PATH);
     (case f of
        None \<Rightarrow> ret (False, c)
      | Some content \<Rightarrow>
          (case load_lines (file_lines content) (load_start c) of
             (False, st) \<Rightarrow> ret (False, ld_config st)
           | (True, st) \<Rightarrow> load_finish B st)) }"

end
