(* ===== verification/Minis_Config.thy ===== *)
theory Minis_Config
  imports Wifi_Config
begin

text \<open>
  The pure part of \<open>examples/src/minis_registration.cpp\<close>: HTTP status lines, numbers, the form encoding of alerts,
  and the parser of the managed configuration \<open>cfg.txt\<close>. A C string is the list of its characters before
  the terminating zero, so the end of the list is where the code reads \<open>'\0'\<close>. The text parser cuts blanks
  off the end of its line in place; \<open>parseTextSetting\<close> returns the line as it leaves it.
\<close>

definition MIN_HEARTBEAT_INTERVAL_MIN :: u32 where "MIN_HEARTBEAT_INTERVAL_MIN = 2"
definition MAX_HEARTBEAT_INTERVAL_MIN :: u32 where "MAX_HEARTBEAT_INTERVAL_MIN = 1440"
definition MAX_CONFIG_HOST_LENGTH :: nat where "MAX_CONFIG_HOST_LENGTH = 253"
definition MAX_MAC_VENDOR_LENGTH :: nat where "MAX_MAC_VENDOR_LENGTH = 16"
definition CONFIG_BUFFER_SIZE :: nat where "CONFIG_BUFFER_SIZE = 768"

section \<open>Numbers\<close>

definition parseHttpStatus :: "string \<Rightarrow> int" where
  "parseHttpStatus line =
     (case memchr (CHR '' '') line of
        None \<Rightarrow> -1
      | Some i \<Rightarrow>
          if i + 3 \<ge> length line \<or> \<not> isdigit (line ! (i + 1)) \<or> \<not> isdigit (line ! (i + 2)) \<or> \<not> isdigit (line ! (i + 3)) then -1
          else int (digit_value (line ! (i + 1)) * 100 + digit_value (line ! (i + 2)) * 10 + digit_value (line ! (i + 3))))"

text \<open>The loop over the digits, with its guard against overflow, and what is left after it.\<close>

fun parse_digits :: "u32 \<Rightarrow> string \<Rightarrow> (u32 \<times> string) option" where
  "parse_digits parsed [] = Some (parsed, [])"
| "parse_digits parsed (c # s) =
     (if isdigit c then
        (let digit = of_nat (digit_value c) :: u32 in
         if parsed > (0xFFFFFFFF - digit) div 10 then None else parse_digits (parsed * 10 + digit) s)
      else Some (parsed, c # s))"

definition isBlank :: "char \<Rightarrow> bool" where
  "isBlank c \<longleftrightarrow> c = CHR '' '' \<or> c = CHR 0x09"

definition isBlankCr :: "char \<Rightarrow> bool" where
  "isBlankCr c \<longleftrightarrow> c = CHR '' '' \<or> c = CHR 0x09 \<or> c = CR"

definition parseUnsigned :: "string \<Rightarrow> u32 option" where
  "parseUnsigned s =
     (if s = [] \<or> \<not> isdigit (hd s) then None
      else case parse_digits 0 s of
        None \<Rightarrow> None
      | Some (parsed, rest) \<Rightarrow>
          (let rest = dropWhile isBlankCr rest in
           if rest \<noteq> [] \<and> hd rest \<noteq> LF \<and> hd rest \<noteq> CHR ''#'' then None else Some parsed))"

section \<open>Forms\<close>

definition form_unreserved :: "char \<Rightarrow> bool" where
  "form_unreserved c \<longleftrightarrow> isAlphaNumeric c \<or> c = CHR ''-'' \<or> c = CHR ''_'' \<or> c = CHR ''.'' \<or> c = CHR ''~''"

definition form_char :: "char \<Rightarrow> string" where
  "form_char c =
     (if form_unreserved c then [c]
      else if c = CHR '' '' then ''+''
      else [CHR ''%'', hexUpper ! (char_code c div 16), hexUpper ! (char_code c mod 16)])"

definition appendFormEncoded :: "string \<Rightarrow> string \<Rightarrow> string" where
  "appendFormEncoded out value = out @ concat (map form_char value)"

definition appendFormField :: "string \<Rightarrow> string \<Rightarrow> string \<Rightarrow> string" where
  "appendFormField body name value =
     appendFormEncoded ((if body \<noteq> [] then body @ ''&'' else body) @ name @ ''='') value"

section \<open>Settings\<close>

datatype setting_result = NotFound | Valid | Invalid

text \<open>What follows the key and the equals sign of a line, without the blanks in front of it.\<close>

definition setting_value :: "string \<Rightarrow> string \<Rightarrow> string option" where
  "setting_value line key =
     (if take (length key) line \<noteq> key then None
      else let rest = dropWhile isBlank (drop (length key) line) in
        if rest = [] \<or> hd rest \<noteq> CHR ''='' then None else Some (dropWhile isBlank (tl rest)))"

definition parseSetting :: "string \<Rightarrow> string \<Rightarrow> setting_result \<times> u32" where
  "parseSetting line key =
     (case setting_value line key of
        None \<Rightarrow> (NotFound, 0)
      | Some v \<Rightarrow> (case parseUnsigned v of None \<Rightarrow> (Invalid, 0) | Some n \<Rightarrow> (Valid, n)))"

definition strip_end :: "string \<Rightarrow> string" where
  "strip_end s = rev (dropWhile isBlankCr (rev s))"

definition parseTextSetting :: "string \<Rightarrow> string \<Rightarrow> setting_result \<times> string \<times> string" where
  "parseTextSetting line key =
     (case setting_value line key of
        None \<Rightarrow> (NotFound, [], line)
      | Some v \<Rightarrow>
          (let text = strip_end v; line' = take (length line - length v) line @ text in
           if text = [] then (Invalid, [], line') else (Valid, text, line')))"

definition ascii_lower :: "char \<Rightarrow> char" where
  "ascii_lower c = (if 65 \<le> char_code c \<and> char_code c \<le> 90 then char_of (char_code c - 65 + 97) else c)"

fun equalsIgnoreCase :: "string \<Rightarrow> string \<Rightarrow> bool" where
  "equalsIgnoreCase (a # l) (b # r) = (if ascii_lower a \<noteq> ascii_lower b then False else equalsIgnoreCase l r)"
| "equalsIgnoreCase l r \<longleftrightarrow> l = [] \<and> r = []"

definition parseBoolean :: "string \<Rightarrow> bool option" where
  "parseBoolean v =
     (if v = ''1'' \<or> equalsIgnoreCase v ''yes'' \<or> equalsIgnoreCase v ''true'' \<or> equalsIgnoreCase v ''on'' then Some True
      else if v = ''0'' \<or> equalsIgnoreCase v ''no'' \<or> equalsIgnoreCase v ''false'' \<or> equalsIgnoreCase v ''off'' then Some False
      else None)"

definition isValidConfigHost :: "string \<Rightarrow> bool" where
  "isValidConfigHost host \<longleftrightarrow> \<not> (length host = 0 \<or> length host > MAX_CONFIG_HOST_LENGTH)
     \<and> list_all (\<lambda>c. isAlphaNumeric c \<or> c = CHR ''.'' \<or> c = CHR ''-'' \<or> c = CHR '':'' \<or> c = CHR ''['' \<or> c = CHR '']'') host"

definition isValidMacVendor :: "string \<Rightarrow> bool" where
  "isValidMacVendor v \<longleftrightarrow> equalsIgnoreCase v ''ORIGINAL'' \<or> equalsIgnoreCase v ''ESP32'' \<or> equalsIgnoreCase v ''CISCO''
     \<or> equalsIgnoreCase v ''HP''"

text \<open>A setting of the parsed configuration: whether it was there, whether it was valid, and its value.\<close>

record 'v setting =
  present :: bool
  valid :: bool
  val :: 'v

record parsed_config =
  heartbeatInterval :: "u16 setting"
  pc_tunnelEnabled :: "bool setting"
  pc_sshHost :: "string setting"
  pc_sshPort :: "u16 setting"
  pc_remoteBindHost :: "string setting"
  pc_remoteBindPort :: "u16 setting"
  pc_localHost :: "string setting"
  pc_localPort :: "u16 setting"
  pc_macVendor :: "string setting"

definition absent :: "'v \<Rightarrow> 'v setting" where
  "absent v = \<lparr>present = False, valid = False, val = v\<rparr>"

definition parsed_empty :: parsed_config where
  "parsed_empty = \<lparr>heartbeatInterval = absent 0, pc_tunnelEnabled = absent False, pc_sshHost = absent [],
     pc_sshPort = absent 0, pc_remoteBindHost = absent [], pc_remoteBindPort = absent 0, pc_localHost = absent [],
     pc_localPort = absent 0, pc_macVendor = absent []\<rparr>"

text \<open>
  The blocks of the loop body, one form for numbers within bounds and one for texts that a check accepts or
  converts; the flag is \<open>structurallyValid\<close>.
\<close>

definition number_block :: "string \<Rightarrow> string \<Rightarrow> u32 \<Rightarrow> u32 \<Rightarrow> bool \<times> u16 setting \<Rightarrow> bool \<times> u16 setting" where
  "number_block line key lo hi = (\<lambda>(ok, st).
     (case parseSetting line key of
        (NotFound, _) \<Rightarrow> (ok, st)
      | (result, n) \<Rightarrow>
          (let good = (result = Valid \<and> n \<ge> lo \<and> n \<le> hi) in
           (ok \<and> \<not> present st, \<lparr>present = True, valid = good, val = (if good then ucast n else val st)\<rparr>))))"

definition text_block ::
  "string \<Rightarrow> (string \<Rightarrow> 'v option) \<Rightarrow> bool \<times> 'v setting \<Rightarrow> string \<Rightarrow> (bool \<times> 'v setting) \<times> string" where
  "text_block key accept = (\<lambda>(ok, st) line.
     (case parseTextSetting line key of
        (NotFound, _, line') \<Rightarrow> ((ok, st), line')
      | (result, v, line') \<Rightarrow>
          (case (if result = Valid then accept v else None) of
             None \<Rightarrow> ((ok \<and> \<not> present st, \<lparr>present = True, valid = False, val = val st\<rparr>), line')
           | Some x \<Rightarrow> ((ok \<and> \<not> present st, \<lparr>present = True, valid = True, val = x\<rparr>), line'))))"

definition accept_host :: "string \<Rightarrow> string option" where
  "accept_host v = (if isValidConfigHost v then Some v else None)"

definition accept_vendor :: "string \<Rightarrow> string option" where
  "accept_vendor v = (if isValidMacVendor v then Some v else None)"

text \<open>The body of the loop for a line that is neither empty nor a comment.\<close>

definition parse_settings :: "string \<Rightarrow> bool \<times> parsed_config \<Rightarrow> bool \<times> parsed_config" where
  "parse_settings line = (\<lambda>(ok, p).
     let (ok, h) = number_block line ''HB_INTERVAL_MIN'' MIN_HEARTBEAT_INTERVAL_MIN MAX_HEARTBEAT_INTERVAL_MIN (ok, heartbeatInterval p);
         ((ok, e), line) = text_block ''TUNNEL_ENABLED'' parseBoolean (ok, pc_tunnelEnabled p) line;
         ((ok, sh), line) = text_block ''SSH_HOST'' accept_host (ok, pc_sshHost p) line;
         (ok, sp) = number_block line ''SSH_PORT'' 1 65535 (ok, pc_sshPort p);
         ((ok, rh), line) = text_block ''REMOTE_BIND_HOST'' accept_host (ok, pc_remoteBindHost p) line;
         (ok, rp) = number_block line ''REMOTE_BIND_PORT'' 1 65535 (ok, pc_remoteBindPort p);
         ((ok, lh), line) = text_block ''LOCAL_HOST'' accept_host (ok, pc_localHost p) line;
         (ok, lp) = number_block line ''LOCAL_PORT'' 1 65535 (ok, pc_localPort p);
         ((ok, mv), line) = text_block ''MAC_VENDOR'' accept_vendor (ok, pc_macVendor p) line
     in (ok, \<lparr>heartbeatInterval = h, pc_tunnelEnabled = e, pc_sshHost = sh, pc_sshPort = sp, pc_remoteBindHost = rh,
          pc_remoteBindPort = rp, pc_localHost = lh, pc_localPort = lp, pc_macVendor = mv\<rparr>))"

definition parse_line :: "string \<Rightarrow> bool \<times> parsed_config \<Rightarrow> bool \<times> parsed_config" where
  "parse_line l st =
     (let line = dropWhile isBlankCr l in
      if line = [] \<or> hd line = CHR ''#'' then st else parse_settings line st)"

function parseConfig_loop :: "string \<Rightarrow> bool \<times> parsed_config \<Rightarrow> bool \<times> parsed_config" where
  "parseConfig_loop config st =
     (if config = [] then st
      else case memchr LF config of
        None \<Rightarrow> parse_line config st
      | Some i \<Rightarrow> parseConfig_loop (drop (i + 1) config) (parse_line (take i config) st))"
  by pat_completeness auto

termination
  by (relation "measure (\<lambda>(c, _). length c)") auto

declare parseConfig_loop.simps [simp del]

definition parseConfig :: "string \<Rightarrow> bool \<times> parsed_config" where
  "parseConfig config = parseConfig_loop config (True, parsed_empty)"

definition hasCompleteTunnelConfig :: "parsed_config \<Rightarrow> bool" where
  "hasCompleteTunnelConfig p \<longleftrightarrow>
     present (pc_tunnelEnabled p) \<and> present (pc_sshHost p) \<and> present (pc_sshPort p) \<and> present (pc_remoteBindHost p)
     \<and> present (pc_remoteBindPort p) \<and> present (pc_localHost p) \<and> present (pc_localPort p)
     \<and> valid (pc_tunnelEnabled p) \<and> valid (pc_sshHost p) \<and> valid (pc_sshPort p) \<and> valid (pc_remoteBindHost p)
     \<and> valid (pc_remoteBindPort p) \<and> valid (pc_localHost p) \<and> valid (pc_localPort p)
     \<and> (present (pc_macVendor p) \<longrightarrow> valid (pc_macVendor p))"

end
