(* ===== verification/Wifi_Storage.thy ===== *)
theory Wifi_Storage
  imports Wifi_Config
begin

text \<open>
  The stored configuration survives: its text form loads back to the same configuration, and
  replacing it is all-or-nothing although every operation of the file system may fail.
\<close>

section \<open>The encoding\<close>

lemma char_code_bound: "char_code c < 256"
  by (simp add: char_code_def)

lemma char_of_code [simp]: "char_of (char_code c) = c"
  by (simp add: char_code_def)

lemma hexValue_hexDigit: "n < 16 \<Longrightarrow> hexValue (hexDigit n) = int n"
  by (auto simp: hexValue_def hexDigit_def char_code_def)

lemma decode_encode [simp]: "decode (encode s) = Some s"
proof (induction s)
  case (Cons c s)
  have "isUnreserved c \<Longrightarrow> c \<noteq> CHR ''%''"
    by (auto simp: isUnreserved_def isAlphaNumeric_def isdigit_def char_code_def)
  moreover have "nat (16 * hexValue (hexDigit (char_code c div 16)) + hexValue (hexDigit (char_code c mod 16))) = char_code c"
  proof -
    have "16 * int (char_code c div 16) + int (char_code c mod 16) = int (char_code c)"
      by (metis mult_div_mod_eq of_nat_add of_nat_mult of_nat_numeral)
    then show ?thesis using char_code_bound [of c] by (simp add: hexValue_hexDigit)
  qed
  ultimately show ?case using Cons char_code_bound [of c] by (simp add: hexValue_hexDigit)
qed simp

definition line_char :: "char \<Rightarrow> bool" where
  "line_char c \<longleftrightarrow> c \<noteq> CR \<and> c \<noteq> LF \<and> c \<noteq> CHR ''=''"

lemma hexDigit_line_char: "n < 16 \<Longrightarrow> line_char (hexDigit n)"
  by (auto simp: line_char_def hexDigit_def CR_def LF_def of_char_eq_iff [symmetric, where 'a = nat] simp del: of_char_eq_iff)

lemma encode_line_chars: "list_all line_char (encode s)"
proof (induction s)
  case (Cons c s)
  have "isUnreserved c \<Longrightarrow> line_char c"
    by (auto simp: isUnreserved_def isAlphaNumeric_def isdigit_def char_code_def line_char_def CR_def LF_def)
  moreover have "line_char (CHR ''%'')" by (simp add: line_char_def CR_def LF_def)
  ultimately show ?case using Cons char_code_bound [of c] by (simp add: hexDigit_line_char)
qed simp

section \<open>The text of a configuration\<close>

definition value_line :: "string \<times> string \<Rightarrow> string" where
  "value_line nv = fst nv @ ''='' @ encode (snd nv)"

definition config_entries :: "device_config \<Rightarrow> (string \<times> string) list" where
  "config_entries c = (''version'', ''4'') # (''setup_complete'', if setupComplete c then ''1'' else ''0'') # config_values c"

definition text_of :: "(string \<times> string) list \<Rightarrow> string" where
  "text_of nvs = concat (map (\<lambda>nv. value_line nv @ [CR, LF]) nvs)"

definition config_text :: "device_config \<Rightarrow> string" where
  "config_text c = text_of (config_entries c)"

definition name_ok :: "string \<Rightarrow> bool" where
  "name_ok n \<longleftrightarrow> n \<noteq> [] \<and> list_all line_char n"

lemma file_lines_line:
  assumes "LF \<notin> set l"
  shows "file_lines (l @ LF # rest) = l # file_lines rest"
proof -
  have "takeWhile (\<lambda>c. c \<noteq> LF) (l @ LF # rest) = l"
    using assms by (subst takeWhile_append2) auto
  then show ?thesis by (subst file_lines.simps) simp
qed

lemma file_lines_text:
  assumes "list_all (\<lambda>nv. name_ok (fst nv)) nvs"
  shows "file_lines (text_of nvs) = map (\<lambda>nv. value_line nv @ [CR]) nvs"
  using assms
proof (induction nvs)
  case (Cons nv nvs)
  have "list_all line_char (fst nv)" using Cons.prems by (simp add: name_ok_def)
  then have "LF \<notin> set (fst nv)" by (auto simp: list_all_iff line_char_def)
  moreover have "LF \<notin> set (encode (snd nv))" using encode_line_chars [of "snd nv"] by (auto simp: list_all_iff line_char_def)
  moreover have "LF \<noteq> CHR ''=''" "LF \<noteq> CR" by (simp_all add: LF_def CR_def)
  ultimately have "LF \<notin> set (value_line nv @ [CR])" by (simp add: value_line_def)
  from file_lines_line [OF this, of "text_of nvs"]
  show ?case using Cons by (simp add: text_of_def)
qed (simp add: text_of_def file_lines.simps [of "[]"])

lemma indexOf_from_eq: "CHR ''='' \<notin> set n \<Longrightarrow> indexOf_from i ''='' (n @ CHR ''='' # v) = i + int (length n)"
  by (induction n arbitrary: i) auto

lemma indexOf_eq: "CHR ''='' \<notin> set n \<Longrightarrow> indexOf (n @ CHR ''='' # v) ''='' = int (length n)"
  by (simp add: indexOf_def indexOf_from_eq)

lemma load_lines_text:
  assumes "list_all (\<lambda>nv. name_ok (fst nv)) nvs"
  shows "load_lines (map (\<lambda>nv. value_line nv @ [CR]) nvs) st = (True, foldl (\<lambda>st nv. load_value (fst nv) (snd nv) st) st nvs)"
  using assms
proof (induction nvs arbitrary: st)
  case (Cons nv nvs)
  have "CHR ''='' \<notin> set (fst nv)" "fst nv \<noteq> []"
    using Cons.prems by (auto simp: name_ok_def list_all_iff line_char_def)
  then show ?case using Cons
    by (simp add: value_line_def strip_cr_def butlast_append indexOf_eq)
qed simp

lemma config_entries_ok: "list_all (\<lambda>nv. name_ok (fst nv)) (config_entries c)"
  by (simp add: config_entries_def config_values_def name_ok_def line_char_def CR_def LF_def)

text \<open>The variables of \<open>loadConfig\<close> after its loop, for the text of a configuration.\<close>

definition loaded_state :: "device_config \<Rightarrow> load_state" where
  "loaded_state c = foldl (\<lambda>st nv. load_value (fst nv) (snd nv) st) (load_start device_default) (config_entries c)"

lemma load_text: "load_lines (file_lines (config_text c)) (load_start device_default) = (True, loaded_state c)"
  by (simp add: config_text_def file_lines_text load_lines_text config_entries_ok loaded_state_def)

lemma loaded_complete:
  assumes "setupComplete c"
  shows "loaded_state c = \<lparr>ld_version = 4, ld_complete = ''1'', ld_sshPort = decimal_int (sshPort c),
     ld_remotePort = decimal_int (dc_remoteBindPort c), ld_localPort = decimal_int (dc_localPort c),
     ld_auth = auth_name (sshAuthMethod c), ld_tunnelEnabled = (if tunnelEnabled c then ''1'' else ''0''),
     ld_macVendor = configValue (macVendor c),
     ld_config = device_default\<lparr>wifiSsid := wifiSsid c, wifiPassword := wifiPassword c, sshHost := sshHost c,
       sshUsername := sshUsername c, sshPassword := sshPassword c, sshKeyPassphrase := sshKeyPassphrase c,
       dc_remoteBindHost := dc_remoteBindHost c, dc_localHost := dc_localHost c\<rparr>\<rparr>"
proof -
  have "toInt ''4'' = 4" by code_simp
  then show ?thesis
    using assms by (simp add: loaded_state_def config_entries_def config_values_def load_start_def load_value_def)
qed

lemma loaded_incomplete:
  assumes "\<not> setupComplete c"
  shows "loaded_state c = (load_start (device_default\<lparr>wifiSsid := wifiSsid c, wifiPassword := wifiPassword c\<rparr>))
     \<lparr>ld_version := 4, ld_complete := ''0'', ld_macVendor := configValue (macVendor c)\<rparr>"
proof -
  have "toInt ''4'' = 4" by code_simp
  then show ?thesis
    using assms by (simp add: loaded_state_def config_entries_def config_values_def load_start_def load_value_def)
qed

lemma parsePort_decimal:
  assumes "1 \<le> p" "p \<le> 65535"
  shows "parsePort (decimal_int p) = Some p"
proof -
  have d: "decimal_int p = decimal (nat p)" using assms by (simp add: decimal_int_def)
  have "toInt (decimal (nat p)) = p" using toInt_digits [OF decimal_digits, of "nat p"] assms by simp
  moreover have "list_all isDigit (decimal (nat p))" using decimal_digits [of "nat p"] by (simp add: isDigit_def [abs_def])
  ultimately show ?thesis using assms by (simp add: parsePort_def d)
qed

section \<open>Loading\<close>

text \<open>
  A configuration as the firmware stores it: what \<open>handleWifiSave\<close> and the device page check, with the
  keys in their files when the device authenticates by key and nowhere otherwise.
\<close>

definition keys_stored :: "device_config \<Rightarrow> (path \<Rightarrow> string option) \<Rightarrow> bool" where
  "keys_stored c F \<longleftrightarrow>
     (if sshAuthMethod c = PrivateKeyAuth
      then F KEY_PATH = Some (sshPrivateKey c) \<and> F PUBLIC_KEY_PATH = (if sshPublicKey c = [] then None else Some (sshPublicKey c))
      else sshPrivateKey c = [] \<and> sshPublicKey c = [])"

definition storable :: "device_config \<Rightarrow> (path \<Rightarrow> string option) \<Rightarrow> bool" where
  "storable c F \<longleftrightarrow> wifiSsid c \<noteq> [] \<and> length (wifiSsid c) \<le> 32 \<and> length (wifiPassword c) \<le> 63
     \<and> (setupComplete c \<longrightarrow> validDeviceConfig c \<and> keys_stored c F)"

text \<open>What a stored configuration comes back as: before the tunnel is set up only the network is stored.\<close>

definition restored :: "device_config \<Rightarrow> device_config" where
  "restored c = (if setupComplete c then c
     else device_default\<lparr>wifiSsid := wifiSsid c, wifiPassword := wifiPassword c, macVendor := macVendor c\<rparr>)"

lemma parse_ports_loaded:
  assumes "setupComplete c" "validDeviceConfig c"
  shows "parse_ports (loaded_state c) d
    = (True, d\<lparr>sshPort := sshPort c, dc_remoteBindPort := dc_remoteBindPort c, dc_localPort := dc_localPort c\<rparr>)"
  using assms
  by (simp add: parse_ports_def loaded_complete parsePort_decimal validDeviceConfig_def not_less split: if_splits)

lemma valid_keys:
  assumes "validDeviceConfig c" "sshAuthMethod c = PrivateKeyAuth"
  shows "validKey (sshPrivateKey c)" "validPublicKey (sshPublicKey c)"
    "sshPrivateKey c \<noteq> []" "length (sshPrivateKey c) \<le> MAX_KEY_SIZE" "length (sshPublicKey c) \<le> MAX_PUBLIC_KEY_SIZE"
proof -
  show k: "validKey (sshPrivateKey c)" and p: "validPublicKey (sshPublicKey c)"
    using assms by (simp_all add: validDeviceConfig_def split: if_splits)
  show "sshPrivateKey c \<noteq> []" "length (sshPrivateKey c) \<le> MAX_KEY_SIZE" using k by (simp_all add: validKey_def)
  show "length (sshPublicKey c) \<le> MAX_PUBLIC_KEY_SIZE"
    using p by (cases "sshPublicKey c = []") (auto simp: validPublicKey_def split: if_splits)
qed

text \<open>The configuration before the keys are added.\<close>

definition keyless :: "device_config \<Rightarrow> device_config" where
  "keyless c = c\<lparr>sshPrivateKey := [], sshPublicKey := [], setupComplete := False\<rparr>"

lemma keyless_rebuilt:
  "device_default\<lparr>wifiSsid := wifiSsid c, wifiPassword := wifiPassword c, sshHost := sshHost c,
     sshUsername := sshUsername c, sshPassword := sshPassword c, sshKeyPassphrase := sshKeyPassphrase c,
     dc_remoteBindHost := dc_remoteBindHost c, dc_localHost := dc_localHost c, macVendor := macVendor c,
     tunnelEnabled := tunnelEnabled c, sshAuthMethod := sshAuthMethod c, sshPort := sshPort c,
     dc_remoteBindPort := dc_remoteBindPort c, dc_localPort := dc_localPort c\<rparr> = keyless c"
  by (cases c) (simp add: device_default_def keyless_def)

lemma load_finish_complete:
  assumes "storable c F" "setupComplete c"
  shows "load_finish B (loaded_state c) =
    (if sshAuthMethod c = PrivateKeyAuth then do {
       (ok, priv, pub) \<leftarrow> loadKeys B ([], []);
       let d = (keyless c)\<lparr>sshPrivateKey := priv, sshPublicKey := pub\<rparr>;
       ret (True, if ok then d\<lparr>setupComplete := validDeviceConfig d\<rparr> else d) }
     else ret (True, (keyless c)\<lparr>setupComplete := validDeviceConfig (keyless c)\<rparr>))"
proof -
  have v: "validDeviceConfig c" using assms by (simp add: storable_def)
  have a: "(if auth_name (sshAuthMethod c) = ''key'' then PrivateKeyAuth else PasswordAuth) = sshAuthMethod c"
    by (cases "sshAuthMethod c") (simp_all add: auth_name_def)
  have e: "((if tunnelEnabled c then ''1'' else ''0'') = ''1'') = tunnelEnabled c" by simp
  have z: "((if tunnelEnabled c then ''1'' else ''0'') = ''0'') = (\<not> tunnelEnabled c)" by simp
  have k: "sshPrivateKey (keyless c) = []" "sshPublicKey (keyless c) = []" "sshAuthMethod (keyless c) = sshAuthMethod c"
    by (simp_all add: keyless_def)
  show ?thesis
    unfolding load_finish_def Let_def parse_ports_loaded [OF assms(2) v] unfolding loaded_complete [OF assms(2)]
    using assms
    by (simp add: a e z k keyless_rebuilt storable_def split del: if_split cong: if_cong)
qed

lemma keyless_filled: "(keyless c)\<lparr>sshPrivateKey := sshPrivateKey c, sshPublicKey := sshPublicKey c\<rparr> = c\<lparr>setupComplete := False\<rparr>"
  by (simp add: keyless_def)

lemma validDeviceConfig_complete [simp]: "validDeviceConfig (c\<lparr>setupComplete := b\<rparr>) = validDeviceConfig c"
  by (simp add: validDeviceConfig_def)

context littlefs_healthy
begin

lemma fwp_loadKeys:
  assumes "validDeviceConfig c" "sshAuthMethod c = PrivateKeyAuth" "keys_stored c F"
  shows "fwp (loadKeys B k) (\<lambda>r G. r = (True, sshPrivateKey c, sshPublicKey c) \<and> G = F) F"
  unfolding loadKeys_def case_prod_beta
  apply (rule fwp_bind, rule fwp_read_ok)
  using assms valid_keys [OF assms(1,2)]
  by (auto simp: keys_stored_def intro!: fwp_ret fwp_bind fwp_read_ok)

lemma fwp_load_finish:
  assumes "storable c F"
  shows "fwp (load_finish B (loaded_state c)) (\<lambda>r G. r = (True, restored c) \<and> G = F) F"
proof (cases "setupComplete c")
  case True
  then have v: "validDeviceConfig c" "keys_stored c F" using assms by (simp_all add: storable_def)
  have whole: "c\<lparr>setupComplete := True\<rparr> = c" using True by (cases c) simp
  show ?thesis
  proof (cases "sshAuthMethod c = PrivateKeyAuth")
    case key: True
    show ?thesis
      unfolding load_finish_complete [OF assms True] if_P [OF key]
      by (rule fwp_bind, rule fwp_mono [OF fwp_loadKeys [OF v(1) key v(2)]])
        (simp add: keyless_filled v whole restored_def True fwp_ret)
  next
    case False
    then have "keyless c = c\<lparr>setupComplete := False\<rparr>" using v(2) by (cases c) (simp add: keyless_def keys_stored_def)
    then show ?thesis
      unfolding load_finish_complete [OF assms True] using False by (simp add: v whole restored_def True fwp_ret)
  qed
next
  case False
  then show ?thesis
    using assms by (simp add: load_finish_def loaded_incomplete load_start_def storable_def restored_def fwp_ret)
qed

end

section \<open>Writing\<close>

definition prints_complete :: "'w board \<Rightarrow> bool" where
  "prints_complete B \<longleftrightarrow> (\<forall>p s w. fst (fs_print B p s w) = length s)"

text \<open>\<open>appends\<close>: an operation that only extends one open file, by a given text unless a \<open>print\<close> falls short.\<close>

definition appends :: "'w board \<Rightarrow> ('w \<Rightarrow> path \<Rightarrow> string option) \<Rightarrow> path \<Rightarrow> string \<Rightarrow> ('w, 'z, 'a) board_op \<Rightarrow> bool" where
  "appends B files p txt m \<longleftrightarrow> (\<forall>F c. F p = Some c \<longrightarrow>
     files_wp files m (\<lambda>_ G. \<exists>c'. G = F(p \<mapsto> c') \<and> (prints_complete B \<longrightarrow> c' = c @ txt)) F)"

text \<open>The file that \<open>loadConfig\<close> reads after restoring the backup.\<close>

definition recovered :: "path \<Rightarrow> path \<Rightarrow> (path \<Rightarrow> string option) \<Rightarrow> string option" where
  "recovered target backup F = (if F target \<noteq> None then F target else F backup)"

context littlefs
begin

lemma fwp_removeIfExists: "Q () (F(p := None)) \<Longrightarrow> Q () F \<Longrightarrow> fwp (removeIfExists B p) Q F"
  unfolding removeIfExists_def by (intro fwp_rules)

lemma appends_print: "appends B files p s (ext (fs_print B p s) :: ('w, 'z, nat) board_op)"
  unfolding appends_def
proof (intro allI impI)
  fix F :: "path \<Rightarrow> string option" and c
  assume F: "F p = Some c"
  show "fwp (ext (fs_print B p s) :: ('w, 'z, nat) board_op) (\<lambda>_ G. \<exists>c'. G = F(p \<mapsto> c') \<and> (prints_complete B \<longrightarrow> c' = c @ s)) F"
    unfolding files_wp_def wp_ext
  proof (intro allI impI)
    fix st :: "('w, 'z) wstate_scheme"
    assume st: "files (world st) = F"
    obtain n w' where r: "fs_print B p s (world st) = (n, w')" by fastforce
    have "n \<le> length s \<and> files w' = F(p \<mapsto> c @ take n s)" using fs_print_law [OF r] F st by simp
    moreover have "prints_complete B \<Longrightarrow> n = length s" using r by (metis prints_complete_def fst_conv)
    ultimately show "case fs_print B p s (world st) of (a, w) \<Rightarrow>
        \<exists>c'. files (world (st\<lparr>world := w\<rparr>)) = F(p \<mapsto> c') \<and> (prints_complete B \<longrightarrow> c' = c @ s)"
      using r by auto
  qed
qed

lemma appends_bind:
  "appends B files p a m \<Longrightarrow> (\<And>x. appends B files p b (f x)) \<Longrightarrow> appends B files p (a @ b) (State_Monad.bind m f)"
  unfolding appends_def
proof (intro allI impI)
  fix F :: "path \<Rightarrow> string option" and c
  assume m: "\<forall>F c. F p = Some c \<longrightarrow> fwp m (\<lambda>_ G. \<exists>c'. G = F(p \<mapsto> c') \<and> (prints_complete B \<longrightarrow> c' = c @ a)) F"
    and f: "\<And>x. \<forall>F c. F p = Some c \<longrightarrow> fwp (f x) (\<lambda>_ G. \<exists>c'. G = F(p \<mapsto> c') \<and> (prints_complete B \<longrightarrow> c' = c @ b)) F"
    and F: "F p = Some c"
  show "fwp (State_Monad.bind m f) (\<lambda>_ G. \<exists>c'. G = F(p \<mapsto> c') \<and> (prints_complete B \<longrightarrow> c' = c @ a @ b)) F"
  proof (rule fwp_bind, rule fwp_mono [OF m [rule_format, of F c, OF F]])
    fix x G
    assume "\<exists>c'. G = F(p \<mapsto> c') \<and> (prints_complete B \<longrightarrow> c' = c @ a)"
    then obtain c' where G: "G = F(p \<mapsto> c')" "prints_complete B \<longrightarrow> c' = c @ a" by blast
    then have "G p = Some c'" by simp
    from f [of x, rule_format, of G c', OF this]
    show "fwp (f x) (\<lambda>_ G. \<exists>c'. G = F(p \<mapsto> c') \<and> (prints_complete B \<longrightarrow> c' = c @ a @ b)) G"
      by (rule fwp_mono) (use G in auto)
  qed
qed

lemma appends_ret: "appends B files p [] (ret x)"
  unfolding appends_def by (intro allI impI fwp_ret exI conjI) auto

lemma appends_println: "appends B files p (s @ [CR, LF]) (println B p s)"
  unfolding println_def using appends_bind [OF appends_print appends_bind [OF appends_print appends_ret]] by simp

lemma appends_writeValue: "appends B files p (value_line (n, v) @ [CR, LF]) (writeValue B p n v)"
  unfolding writeValue_def value_line_def
  using appends_bind [OF appends_print [of p n] appends_bind [OF appends_print [of p "''=''"] appends_println [of p "encode v"]]]
  by simp

lemma appends_values: "appends B files p (text_of nvs) (for_each (\<lambda>(n, v). writeValue B p n v) nvs)"
proof (induction nvs)
  case (Cons nv nvs)
  show ?case
    using appends_bind [OF appends_writeValue [of p "fst nv" "snd nv"] Cons.IH] by (simp add: text_of_def case_prod_beta)
qed (simp add: text_of_def appends_ret)

text \<open>Replacing a file: afterwards the new one is in place, or the old one can be recovered.\<close>

lemma fwp_replace_file:
  assumes "temp \<noteq> target" "temp \<noteq> backup" "target \<noteq> backup" "F temp = Some t"
  shows "fwp (replace_file B temp target backup)
    (\<lambda>ok G. (\<forall>p. p \<notin> {temp, target, backup} \<longrightarrow> G p = F p)
      \<and> (if ok then G target = Some t else F target \<noteq> None \<longrightarrow> recovered target backup G = F target)) F"
  unfolding replace_file_def
  apply (intro fwp_rules fwp_removeIfExists)
  using assms by (auto simp: recovered_def)

lemma appends_config_text: "appends B files CONFIG_TEMP (config_text c) (write_config_text B c)"
proof -
  have u: "isUnreserved (CHR ''4'')" "isUnreserved (CHR ''1'')" "isUnreserved (CHR ''0'')" by code_simp+
  have "config_text c = (''version=4'' @ [CR, LF]) @ ((if setupComplete c then ''setup_complete=1'' else ''setup_complete=0'')
      @ [CR, LF]) @ text_of (config_values c)"
    by (simp add: config_text_def config_entries_def text_of_def value_line_def u)
  then show ?thesis
    unfolding write_config_text_def by (simp only: appends_bind appends_println appends_values)
qed

lemma fwp_writeConfig:
  "fwp (writeConfig B c)
    (\<lambda>ok G. (\<forall>p. p \<notin> {CONFIG_TEMP, CONFIG_PATH, CONFIG_BACKUP} \<longrightarrow> G p = F p)
      \<and> (if ok then \<exists>t. G CONFIG_PATH = Some t \<and> (prints_complete B \<longrightarrow> t = config_text c)
         else F CONFIG_PATH \<noteq> None \<longrightarrow> recovered CONFIG_PATH CONFIG_BACKUP G = F CONFIG_PATH)) F"
  (is "fwp _ ?Q F")
proof -
  let ?F1 = "F(CONFIG_TEMP \<mapsto> [])"
  have ne: "CONFIG_TEMP \<noteq> CONFIG_PATH" "CONFIG_TEMP \<noteq> CONFIG_BACKUP" "CONFIG_PATH \<noteq> CONFIG_BACKUP"
    by (simp_all add: path_defs)
  have body: "fwp (write_config_text B c) (\<lambda>_ G. \<exists>t. G = ?F1(CONFIG_TEMP \<mapsto> t) \<and> (prints_complete B \<longrightarrow> t = config_text c)) ?F1"
    using appends_config_text [of c, unfolded appends_def, rule_format, of ?F1 "[]", OF fun_upd_same]
    by (simp only: append_Nil)
  have rest: "fwp (do { ext (fs_flush B CONFIG_TEMP); ext (fs_close B CONFIG_TEMP);
      replace_file B CONFIG_TEMP CONFIG_PATH CONFIG_BACKUP }) ?Q G"
    if G: "G = ?F1(CONFIG_TEMP \<mapsto> t)" and t: "prints_complete B \<longrightarrow> t = config_text c" for G t
  proof -
    have "G CONFIG_TEMP = Some t" "G CONFIG_PATH = F CONFIG_PATH"
      and "\<And>p. p \<noteq> CONFIG_TEMP \<Longrightarrow> G p = F p" using G ne by simp_all
    then show ?thesis using t
      by (intro fwp_bind fwp_flush fwp_close fwp_mono [OF fwp_replace_file [OF ne, of G t]]) auto
  qed
  have "fwp (do { write_config_text B c; ext (fs_flush B CONFIG_TEMP); ext (fs_close B CONFIG_TEMP);
      replace_file B CONFIG_TEMP CONFIG_PATH CONFIG_BACKUP }) ?Q ?F1"
    by (rule fwp_seq [OF body]) (blast intro: rest)
  then show ?thesis
    unfolding writeConfig_def by (intro fwp_bind fwp_open_w) (simp_all add: fwp_ret recovered_def)
qed

end

context littlefs_healthy
begin

lemma complete: "prints_complete B"
  using fs_print_ok by (simp add: prints_complete_def)

lemma fwp_removeIfExists_ok: "Q () (F(p := None)) \<Longrightarrow> fwp (removeIfExists B p) Q F"
  unfolding removeIfExists_def
  by (rule fwp_bind, rule fwp_exists, rule fwp_whenM, rule fwp_bind, rule fwp_remove_ok, simp, rule fwp_ret)
    (simp_all add: fun_upd_idem)

lemma fwp_replace_ok:
  assumes "temp \<noteq> target" "temp \<noteq> backup" "target \<noteq> backup" "F temp = Some t"
  shows "fwp (replace_file B temp target backup) (\<lambda>ok G. ok) F"
  unfolding replace_file_def
  by (intro fwp_bind fwp_if fwp_exists fwp_removeIfExists_ok fwp_rename_ok fwp_ret) (use assms in auto)

lemma fwp_writeConfig_ok: "fwp (writeConfig B c) (\<lambda>ok G. ok) F"
proof -
  have ne: "CONFIG_TEMP \<noteq> CONFIG_PATH" "CONFIG_TEMP \<noteq> CONFIG_BACKUP" "CONFIG_PATH \<noteq> CONFIG_BACKUP"
    by (simp_all add: path_defs)
  let ?F1 = "F(CONFIG_TEMP \<mapsto> [])"
  have "fwp (write_config_text B c) (\<lambda>_ G. \<exists>t. G = ?F1(CONFIG_TEMP \<mapsto> t)) ?F1"
    by (rule fwp_mono [OF appends_config_text [of c, unfolded appends_def, rule_format, of ?F1 "[]"]]) auto
  then have "fwp (do { write_config_text B c; ext (fs_flush B CONFIG_TEMP); ext (fs_close B CONFIG_TEMP);
      replace_file B CONFIG_TEMP CONFIG_PATH CONFIG_BACKUP }) (\<lambda>ok G. ok) ?F1"
  proof (rule fwp_seq)
    fix G
    assume "\<exists>t. G = ?F1(CONFIG_TEMP \<mapsto> t)"
    then obtain t where "G = ?F1(CONFIG_TEMP \<mapsto> t)" ..
    then have "fwp (replace_file B CONFIG_TEMP CONFIG_PATH CONFIG_BACKUP) (\<lambda>ok G. ok) G" by (intro fwp_replace_ok [OF ne, of _ t]) simp
    then show "fwp (do { ext (fs_flush B CONFIG_TEMP); ext (fs_close B CONFIG_TEMP);
      replace_file B CONFIG_TEMP CONFIG_PATH CONFIG_BACKUP }) (\<lambda>ok G. ok) G" by (intro fwp_bind fwp_flush fwp_close)
  qed
  then show ?thesis unfolding writeConfig_def by (intro fwp_bind fwp_open_ok) simp
qed

text \<open>Loading the text of a storable configuration, from its file or from the backup.\<close>

lemma fwp_loadConfig:
  assumes "recovered CONFIG_PATH CONFIG_BACKUP F = Some (config_text c)" "storable c F"
  shows "fwp (loadConfig B device_default) (\<lambda>r G. r = (True, restored c)) F"
proof -
  have ne: "CONFIG_PATH \<noteq> CONFIG_BACKUP" "KEY_PATH \<noteq> CONFIG_PATH" "KEY_PATH \<noteq> CONFIG_BACKUP"
    "PUBLIC_KEY_PATH \<noteq> CONFIG_PATH" "PUBLIC_KEY_PATH \<noteq> CONFIG_BACKUP"
    by (simp_all add: path_defs)
  have read: "fwp (ext (fs_read B CONFIG_PATH)) (\<lambda>f. fwp
     (case f of
        None \<Rightarrow> ret (False, device_default)
      | Some content \<Rightarrow>
          (case load_lines (file_lines content) (load_start device_default) of
             (False, st) \<Rightarrow> ret (False, ld_config st)
           | (True, st) \<Rightarrow> load_finish B st)) (\<lambda>r G. r = (True, restored c))) G"
    if "G CONFIG_PATH = Some (config_text c)" "\<And>p. p = KEY_PATH \<or> p = PUBLIC_KEY_PATH \<Longrightarrow> G p = F p" for G
  proof -
    have "storable c G" using assms(2) that(2) by (simp add: storable_def keys_stored_def)
    from fwp_mono [OF fwp_load_finish [OF this], of "\<lambda>r G. r = (True, restored c)"]
    show ?thesis by (intro fwp_read_ok) (simp add: that load_text)
  qed
  show ?thesis
    unfolding loadConfig_def
    apply (intro fwp_bind fwp_exists fwp_if fwp_removeIfExists_ok fwp_whenM fwp_rename_ok fwp_ret)
    using assms(1) ne
    by (auto intro!: read simp: recovered_def)
qed

end

section \<open>Properties\<close>

text \<open>
  C27: A configuration that was stored comes back: on a file system without faults, \<open>writeConfig\<close> succeeds and the
  \<open>loadConfig\<close> of the next start restores the configuration exactly (all fields when the tunnel is set up, the network
  and the MAC profile before), for any characters in its values.
\<close>

theorem stored_config_reloads:
  assumes "littlefs_healthy B files" and "storable c (files (world s))"
  shows "wp (do { ok \<leftarrow> writeConfig B c; r \<leftarrow> loadConfig B device_default; ret (ok, r) })
    (\<lambda>r s'. r = (True, True, restored c)) s"
proof -
  have ne: "KEY_PATH \<notin> {CONFIG_TEMP, CONFIG_PATH, CONFIG_BACKUP}" "PUBLIC_KEY_PATH \<notin> {CONFIG_TEMP, CONFIG_PATH, CONFIG_BACKUP}"
    by (simp_all add: path_defs)
  note L = littlefs_healthy.axioms(1) [OF assms(1)]
  obtain ok s1 where w: "run_state (writeConfig B c) s = (ok, s1)" by fastforce
  obtain r s2 where l: "run_state (loadConfig B device_default) s1 = (r, s2)" by fastforce
  have ok using littlefs.fwp_run [OF L littlefs_healthy.fwp_writeConfig_ok [OF assms(1)] w] .
  moreover have "prints_complete B" by (rule littlefs_healthy.complete [OF assms(1)])
  ultimately have t: "files (world s1) CONFIG_PATH = Some (config_text c)"
      and k: "\<And>p. p = KEY_PATH \<or> p = PUBLIC_KEY_PATH \<Longrightarrow> files (world s1) p = files (world s) p"
    using littlefs.fwp_run [OF L littlefs.fwp_writeConfig [OF L] w] ne by auto
  have "storable c (files (world s1))" using assms(2) k by (simp add: storable_def keys_stored_def)
  moreover have "recovered CONFIG_PATH CONFIG_BACKUP (files (world s1)) = Some (config_text c)" using t by (simp add: recovered_def)
  ultimately have "r = (True, restored c)"
    using littlefs.fwp_run [OF L littlefs_healthy.fwp_loadConfig [OF assms(1)] l] by blast
  then show ?thesis using w l \<open>ok\<close> by (simp add: wp_def)
qed

text \<open>A device set up with a password.\<close>

definition ex_device :: device_config where
  "ex_device = device_default\<lparr>wifiSsid := ''home net'', wifiPassword := ''p=ss%w'' @ [CR, LF], macVendor := HP,
     setupComplete := True, sshHost := ''ssh.example.org'', sshUsername := ''0a1b2c3d'', sshPassword := ''x&y'',
     sshPort := 2222\<rparr>"

lemma ex_device_storable: "storable ex_device F"
  by (simp add: ex_device_def device_default_def storable_def keys_stored_def validDeviceConfig_def)

theorem stored_config_reloads_witness:
  "wp (do { ok \<leftarrow> writeConfig (ref_board False) ex_device; r \<leftarrow> loadConfig (ref_board False) device_default; ret (ok, r) })
    (\<lambda>r s'. r = (True, True, restored ex_device)) \<lparr>world = flash_empty\<rparr>"
  by (rule stored_config_reloads [OF ref_healthy.littlefs_healthy_axioms ex_device_storable])

text \<open>
  C28: Replacing the configuration is all-or-nothing. Whatever operations of the file system fail during
  \<open>writeConfig\<close> (and so at whatever moment the power is lost), the next start loads the previous
  configuration when \<open>writeConfig\<close> did not succeed, and the new one when it did, provided the text was written
  completely.
\<close>

theorem config_survives_faults:
  assumes "littlefs B files" and "littlefs_healthy B' files"
    and "files (world s) CONFIG_PATH = Some (config_text old)"
    and "storable old (files (world s))" and "storable new (files (world s))"
    and "run_state (writeConfig B new) s = (ok, s')" and "ok \<longrightarrow> prints_complete B"
  shows "fst (run_state (loadConfig B' device_default) s') = (True, restored (if ok then new else old))"
proof -
  have ne: "KEY_PATH \<notin> {CONFIG_TEMP, CONFIG_PATH, CONFIG_BACKUP}" "PUBLIC_KEY_PATH \<notin> {CONFIG_TEMP, CONFIG_PATH, CONFIG_BACKUP}"
    by (simp_all add: path_defs)
  note L = littlefs_healthy.axioms(1) [OF assms(2)]
  obtain r s2 where l: "run_state (loadConfig B' device_default) s' = (r, s2)" by fastforce
  note W = littlefs.fwp_run [OF assms(1) littlefs.fwp_writeConfig [OF assms(1)] assms(6)]
  have "files (world s') p = files (world s) p" if "p = KEY_PATH \<or> p = PUBLIC_KEY_PATH" for p
    using W ne that by auto
  then have "storable (if ok then new else old) (files (world s'))"
    using assms(4,5) by (simp add: storable_def keys_stored_def)
  moreover have "recovered CONFIG_PATH CONFIG_BACKUP (files (world s')) = Some (config_text (if ok then new else old))"
    using W assms(3,7) by (cases ok) (auto simp: recovered_def)
  ultimately have "r = (True, restored (if ok then new else old))"
    using littlefs.fwp_run [OF L littlefs_healthy.fwp_loadConfig [OF assms(2)] l] by blast
  then show ?thesis using l by simp
qed

text \<open>A flash that holds a configuration, on a board that cannot rename files.\<close>

definition ex_flash :: "unit ref_flash wstate" where
  "ex_flash = \<lparr>world = flash_empty\<lparr>rf_files := [CONFIG_PATH \<mapsto> config_text ex_device]\<rparr>\<rparr>"

definition stuck_board :: "unit ref_flash board" where
  "stuck_board = (ref_board False)\<lparr>fs_rename := (\<lambda>p q w. (False, w))\<rparr>"

interpretation stuck_fs: littlefs stuck_board rf_files
  by unfold_locales
    (auto simp: stuck_board_def ref_board_def rf_try_def rf_print_def Let_def split: if_splits option.splits)

definition ex_changed :: device_config where
  "ex_changed = ex_device\<lparr>wifiSsid := ''office''\<rparr>"

theorem config_survives_faults_witness:
  "fst (run_state (loadConfig (ref_board False) device_default) (snd (run_state (writeConfig stuck_board ex_changed) ex_flash)))
    = (True, restored (if fst (run_state (writeConfig stuck_board ex_changed) ex_flash) then ex_changed else ex_device))"
proof -
  have "prints_complete stuck_board"
    by (simp add: prints_complete_def stuck_board_def ref_board_def rf_print_def rf_fault_def Let_def split: option.splits)
  moreover have "storable ex_changed F" for F
    by (simp add: ex_changed_def ex_device_def device_default_def storable_def keys_stored_def validDeviceConfig_def)
  moreover have "rf_files (world ex_flash) CONFIG_PATH = Some (config_text ex_device)" by (simp add: ex_flash_def)
  ultimately show ?thesis
    by (intro config_survives_faults [OF stuck_fs.littlefs_axioms ref_healthy.littlefs_healthy_axioms _ ex_device_storable]) auto
qed

end
