(* ===== verification/Minis_Parsing.thy ===== *)
theory Minis_Parsing
  imports Minis_Config Wifi_Storage
begin

text \<open>
  The parsers of the Minis client against reference definitions: numbers are read exactly, forms can be read
  back, and the configuration is what looking up each key independently gives.
\<close>

section \<open>Numbers\<close>

lemma guard_exact:
  assumes "d < 10"
  shows "(parsed :: u32) > (0xFFFFFFFF - of_nat d) div 10 \<longleftrightarrow> unat parsed * 10 + d \<ge> 2 ^ 32"
proof -
  have d: "unat (of_nat d :: u32) = d" using assms by (simp add: unat_of_nat)
  have "unat (0xFFFFFFFF - of_nat d :: u32) = 0xFFFFFFFF - d"
    using assms d by (subst unat_sub) (simp_all add: word_le_nat_alt)
  then have "unat ((0xFFFFFFFF - of_nat d) div 10 :: u32) = (0xFFFFFFFF - d) div 10" by (simp add: unat_div)
  then have "(parsed > (0xFFFFFFFF - of_nat d) div 10) \<longleftrightarrow> (0xFFFFFFFF - d) div 10 < unat parsed" by (simp add: word_less_nat_alt)
  also have "\<dots> \<longleftrightarrow> unat parsed * 10 + d \<ge> 2 ^ 32" using assms by auto
  finally show ?thesis .
qed

lemma digit_bound: "isdigit c \<Longrightarrow> digit_value c < 10"
  unfolding isdigit_def digit_value_def by linarith

lemma parse_digits_exact:
  "parse_digits p s =
    (let v = unat p * 10 ^ length (takeWhile isdigit s) + digits_value (takeWhile isdigit s) in
     if v < 2 ^ 32 then Some (of_nat v, dropWhile isdigit s) else None)"
proof (induction s arbitrary: p)
  case Nil
  have "unat p < 2 ^ 32" using unsigned_less [of p] by simp
  then show ?case by (simp add: digits_value_def)
next
  case (Cons c s)
  show ?case
  proof (cases "isdigit c")
    case True
    define d where "d = digit_value c"
    have d: "d < 10" using True by (simp add: d_def digit_bound)
    let ?ds = "takeWhile isdigit s"
    have v: "unat p * 10 ^ length (takeWhile isdigit (c # s)) + digits_value (takeWhile isdigit (c # s))
        = (unat p * 10 + d) * 10 ^ length ?ds + digits_value ?ds"
    proof -
      have "digits_value (c # ?ds) = d * 10 ^ length ?ds + digits_value ?ds"
        using digits_value_acc [of d ?ds] by (simp add: digits_value_def d_def)
      then show ?thesis using True by (simp add: algebra_simps)
    qed
    show ?thesis
    proof (cases "unat p * 10 + d \<ge> 2 ^ 32")
      case over: True
      have "unat p * 10 + d \<le> (unat p * 10 + d) * 10 ^ length ?ds" by simp
      from order_trans [OF over order_trans [OF this le_add1]]
      have "(unat p * 10 + d) * 10 ^ length ?ds + digits_value ?ds \<ge> 2 ^ 32" .
      then show ?thesis using True over guard_exact [OF d, of p] unfolding Let_def v by (simp add: d_def Let_def)
    next
      case False
      then have u: "unat (p * 10 + of_nat d) = unat p * 10 + d"
        by (simp add: unat_word_ariths unat_of_nat mod_add_eq mod_mult_left_eq)
      have "parse_digits p (c # s) = parse_digits (p * 10 + of_nat d) s"
        using True False guard_exact [OF d, of p] by (simp add: d_def Let_def)
      then show ?thesis using True unfolding Let_def v Cons.IH u by simp
    qed
  next
    case False
    have "unat p < 2 ^ 32" using unsigned_less [of p] by simp
    then show ?thesis using False by (simp add: digits_value_def)
  qed
qed

text \<open>
  C31: \<open>parseUnsigned\<close> reads decimal numbers exactly. It succeeds on precisely the texts that start with digits whose value fits
  into 32 bits and are followed by nothing but blanks, a line end or a comment, and returns that value: its guard
  neither lets an overflow through nor rejects a number that fits.
\<close>

theorem parseUnsigned_exact:
  "parseUnsigned s =
    (let ds = takeWhile isdigit s; rest = dropWhile isBlankCr (dropWhile isdigit s) in
     if ds \<noteq> [] \<and> digits_value ds < 2 ^ 32 \<and> (rest = [] \<or> hd rest = LF \<or> hd rest = CHR ''#'')
     then Some (of_nat (digits_value ds)) else None)"
  by (cases s) (auto simp: parseUnsigned_def parse_digits_exact Let_def)

section \<open>Forms\<close>

definition form_hex :: "char \<Rightarrow> nat" where
  "form_hex c = nat (hexValue c)"

fun form_decode :: "string \<Rightarrow> string" where
  "form_decode (c # a # b # s) =
     (if c = CHR ''%'' then char_of (16 * form_hex a + form_hex b) # form_decode s
      else (if c = CHR ''+'' then CHR '' '' else c) # form_decode (a # b # s))"
| "form_decode (c # s) = (if c = CHR ''+'' then CHR '' '' else c) # form_decode s"
| "form_decode [] = []"

text \<open>The fields of a form: separated by ampersands, the name before the first equals sign.\<close>

function split_at :: "char \<Rightarrow> string \<Rightarrow> string list" where
  "split_at c s = (let a = takeWhile (\<lambda>x. x \<noteq> c) s in
     if length a = length s then [a] else a # split_at c (drop (Suc (length a)) s))"
  by pat_completeness auto

termination
proof (relation "measure (\<lambda>(_, s). length s)")
  fix c :: char and s a :: string
  assume "a = takeWhile (\<lambda>x. x \<noteq> c) s" "length a \<noteq> length s"
  moreover have "length (takeWhile (\<lambda>x. x \<noteq> c) s) \<le> length s" by (rule length_takeWhile_le)
  ultimately show "((c, drop (Suc (length a)) s), c, s) \<in> measure (\<lambda>(_, s). length s)" by auto
qed simp

declare split_at.simps [simp del]

definition form_field :: "string \<Rightarrow> string \<times> string" where
  "form_field s = (form_decode (takeWhile (\<lambda>c. c \<noteq> CHR ''='') s), form_decode (drop 1 (dropWhile (\<lambda>c. c \<noteq> CHR ''='') s)))"

definition form_fields :: "string \<Rightarrow> (string \<times> string) list" where
  "form_fields body = map form_field (split_at (CHR ''&'') body)"

definition form_safe :: "char \<Rightarrow> bool" where
  "form_safe c \<longleftrightarrow> c \<noteq> CHR ''&'' \<and> c \<noteq> CHR ''=''"

lemma hexUpper_digit: "n < 16 \<Longrightarrow> hexUpper ! n = hexDigit n"
proof -
  have "\<forall>n \<in> set [0..<16]. hexUpper ! n = hexDigit n" by code_simp
  then show "n < 16 \<Longrightarrow> hexUpper ! n = hexDigit n" by simp
qed

lemma hexDigit_safe: "n < 16 \<Longrightarrow> form_safe (hexDigit n)"
proof -
  have "\<forall>n \<in> set [0..<16]. form_safe (hexDigit n)" by code_simp
  then show "n < 16 \<Longrightarrow> form_safe (hexDigit n)" by simp
qed

lemma form_unreserved_plain: "form_unreserved c \<Longrightarrow> c \<noteq> CHR ''%'' \<and> c \<noteq> CHR ''+'' \<and> form_safe c"
  by (auto simp: form_unreserved_def isAlphaNumeric_def isdigit_def char_code_def form_safe_def)

lemma form_char_safe: "list_all form_safe (form_char c)"
  using char_code_bound [of c] form_unreserved_plain [of c]
  by (auto simp: form_char_def hexUpper_digit hexDigit_safe) (simp_all add: form_safe_def)

lemma form_decode_char: "form_decode (form_char c @ s) = c # form_decode s"
proof -
  have plain: "form_decode (x # s) = x # form_decode s" if "x \<noteq> CHR ''%''" "x \<noteq> CHR ''+''" for x
    using that by (cases "x # s" rule: form_decode.cases) auto
  have space: "form_decode (CHR ''+'' # s) = CHR '' '' # form_decode s"
    by (cases "CHR ''+'' # s" rule: form_decode.cases) auto
  have "char_of (16 * (char_code c div 16) + char_code c mod 16) = c" by simp
  then show ?thesis
    using char_code_bound [of c] form_unreserved_plain [of c] space
    by (auto simp: form_char_def plain form_hex_def hexUpper_digit hexValue_hexDigit)
qed

lemma form_decode_encoded: "form_decode (concat (map form_char v)) = v"
  by (induction v) (simp_all add: form_decode_char)

lemma encoded_safe: "list_all form_safe (concat (map form_char v))"
  using form_char_safe by (induction v) auto

text \<open>A form body is its encoded fields with ampersands between them.\<close>

definition field_text :: "string \<times> string \<Rightarrow> string" where
  "field_text nv = fst nv @ ''='' @ concat (map form_char (snd nv))"

definition form_body :: "(string \<times> string) list \<Rightarrow> string" where
  "form_body nvs = foldl (\<lambda>body nv. appendFormField body (fst nv) (snd nv)) [] nvs"

lemma form_body_snoc:
  "form_body (nvs @ [nv]) = (if nvs = [] then field_text nv else form_body nvs @ ''&'' @ field_text nv)"
proof -
  have "form_body nvs \<noteq> []" if "nvs \<noteq> []"
    using that by (cases nvs rule: rev_cases) (simp_all add: form_body_def appendFormField_def appendFormEncoded_def)
  then show ?thesis by (auto simp: form_body_def appendFormField_def appendFormEncoded_def field_text_def)
qed

lemma takeWhile_sep: "c \<notin> set a \<Longrightarrow> takeWhile (\<lambda>x. x \<noteq> c) (a @ c # s) = a"
  by (induction a) auto

lemma dropWhile_sep: "c \<notin> set a \<Longrightarrow> dropWhile (\<lambda>x. x \<noteq> c) (a @ c # s) = c # s"
  by (induction a) auto

lemma split_at_plain:
  assumes "c \<notin> set s"
  shows "split_at c s = [s]"
proof -
  have s: "takeWhile (\<lambda>x. x \<noteq> c) s = s" using assms by (auto simp: takeWhile_eq_all_conv)
  show ?thesis by (subst split_at.simps) (simp only: s Let_def refl if_True)
qed

lemma split_at_sep: "c \<notin> set a \<Longrightarrow> split_at c (a @ c # s) = a # split_at c s"
  by (subst split_at.simps) (simp add: takeWhile_sep Let_def)

lemma split_at_snoc: "c \<notin> set t \<Longrightarrow> split_at c (s @ c # t) = split_at c s @ [t]"
proof (induction c s rule: split_at.induct)
  case (1 c s)
  show ?case
  proof (cases "c \<in> set s")
    case False
    then show ?thesis using 1 by (simp add: split_at_sep split_at_plain)
  next
    case True
    then obtain a b where s: "s = a @ c # b" "c \<notin> set a" by (meson split_list_first)
    have "takeWhile (\<lambda>x. x \<noteq> c) s = a" using s by (simp add: takeWhile_sep)
    then have "split_at c (b @ c # t) = split_at c b @ [t]" using 1(1) [OF refl] 1(2) s by simp
    then show ?thesis using s by (simp add: split_at_sep)
  qed
qed

lemma form_fields_body:
  assumes "\<forall>nv\<in>set nvs. list_all form_unreserved (fst nv)" "nvs \<noteq> []"
  shows "form_fields (form_body nvs) = nvs"
  using assms
proof (induction nvs rule: rev_induct)
  case (snoc nv nvs)
  have n: "list_all form_unreserved (fst nv)" using snoc.prems by simp
  then have name: "\<And>c. c \<in> set (fst nv) \<Longrightarrow> c \<noteq> CHR ''%'' \<and> c \<noteq> CHR ''+'' \<and> form_safe c"
    using form_unreserved_plain by (auto simp: list_all_iff)
  have enc: "\<And>c. c \<in> set (concat (map form_char (snd nv))) \<Longrightarrow> form_safe c"
    using encoded_safe [of "snd nv"] by (auto simp: list_all_iff)
  have amp: "CHR ''&'' \<notin> set (field_text nv)" using name enc by (auto simp: field_text_def form_safe_def)
  have dn: "form_decode (fst nv) = fst nv"
    using form_decode_encoded [of "fst nv"] n by (simp add: form_char_def list_all_iff cong: map_cong) 
  have eq: "CHR ''='' \<notin> set (fst nv)" using name by (auto simp: form_safe_def)
  have fld: "form_field (field_text nv) = nv"
    using eq by (simp add: form_field_def field_text_def takeWhile_sep dropWhile_sep dn form_decode_encoded)
  show ?case
  proof (cases "nvs = []")
    case True
    then show ?thesis using form_body_snoc [of nvs nv] by (simp add: form_fields_def split_at_plain [OF amp] fld)
  next
    case False
    have "form_fields (form_body nvs) = nvs" using snoc False by simp
    then show ?thesis
      using form_body_snoc [of nvs nv] False by (simp add: form_fields_def split_at_snoc [OF amp] fld)
  qed
qed simp

section \<open>The configuration\<close>

definition cfg_keys :: "string list" where
  "cfg_keys = [''HB_INTERVAL_MIN'', ''TUNNEL_ENABLED'', ''SSH_HOST'', ''SSH_PORT'', ''REMOTE_BIND_HOST'', ''REMOTE_BIND_PORT'',
     ''LOCAL_HOST'', ''LOCAL_PORT'', ''MAC_VENDOR'']"

text \<open>The meaning of one setting by itself, and of a list of settings: each key is looked up independently.\<close>

definition number_setting :: "u32 \<Rightarrow> u32 \<Rightarrow> string \<Rightarrow> u16 setting" where
  "number_setting lo hi v =
     (case parseUnsigned v of
        Some n \<Rightarrow> if lo \<le> n \<and> n \<le> hi then \<lparr>present = True, valid = True, val = ucast n\<rparr> else \<lparr>present = True, valid = False, val = 0\<rparr>
      | None \<Rightarrow> \<lparr>present = True, valid = False, val = 0\<rparr>)"

definition text_setting :: "(string \<Rightarrow> 'v option) \<Rightarrow> 'v \<Rightarrow> string \<Rightarrow> 'v setting" where
  "text_setting accept d v =
     (case accept v of Some x \<Rightarrow> \<lparr>present = True, valid = True, val = x\<rparr> | None \<Rightarrow> \<lparr>present = True, valid = False, val = d\<rparr>)"

definition lookup_setting :: "(string \<Rightarrow> 'v setting) \<Rightarrow> 'v \<Rightarrow> string \<Rightarrow> (string \<times> string) list \<Rightarrow> 'v setting" where
  "lookup_setting meaning d key kvs = (case map_of kvs key of None \<Rightarrow> absent d | Some v \<Rightarrow> meaning v)"

definition settings_of :: "(string \<times> string) list \<Rightarrow> parsed_config" where
  "settings_of kvs =
     \<lparr>heartbeatInterval = lookup_setting (number_setting 2 1440) 0 ''HB_INTERVAL_MIN'' kvs,
      pc_tunnelEnabled = lookup_setting (text_setting parseBoolean False) False ''TUNNEL_ENABLED'' kvs,
      pc_sshHost = lookup_setting (text_setting accept_host []) [] ''SSH_HOST'' kvs,
      pc_sshPort = lookup_setting (number_setting 1 65535) 0 ''SSH_PORT'' kvs,
      pc_remoteBindHost = lookup_setting (text_setting accept_host []) [] ''REMOTE_BIND_HOST'' kvs,
      pc_remoteBindPort = lookup_setting (number_setting 1 65535) 0 ''REMOTE_BIND_PORT'' kvs,
      pc_localHost = lookup_setting (text_setting accept_host []) [] ''LOCAL_HOST'' kvs,
      pc_localPort = lookup_setting (number_setting 1 65535) 0 ''LOCAL_PORT'' kvs,
      pc_macVendor = lookup_setting (text_setting accept_vendor []) [] ''MAC_VENDOR'' kvs\<rparr>"

text \<open>A value as it is written: not empty, on one line, without blanks around it.\<close>

definition value_ok :: "string \<Rightarrow> bool" where
  "value_ok v \<longleftrightarrow> v \<noteq> [] \<and> LF \<notin> set v \<and> \<not> isBlankCr (hd v) \<and> \<not> isBlankCr (last v)"

definition cfg_line :: "string \<times> string \<Rightarrow> string" where
  "cfg_line kv = fst kv @ ''='' @ snd kv"

definition cfg_text :: "(string \<times> string) list \<Rightarrow> string" where
  "cfg_text kvs = concat (map (\<lambda>kv. cfg_line kv @ [LF]) kvs)"

lemma value_ok_strip:
  assumes "value_ok v"
  shows "dropWhile isBlank v = v" "strip_end v = v"
proof -
  show "dropWhile isBlank v = v"
    using assms by (cases v) (auto simp: value_ok_def isBlank_def isBlankCr_def)
  show "strip_end v = v"
    using assms by (cases v rule: rev_cases) (auto simp: value_ok_def strip_end_def)
qed

lemma setting_value_line:
  assumes "k \<in> set cfg_keys" "k' \<in> set cfg_keys" "value_ok v"
  shows "setting_value (cfg_line (k, v)) k' = (if k = k' then Some v else None)"
  using assms(1,2) value_ok_strip(1) [OF assms(3)]
  by (simp add: cfg_keys_def, elim disjE; simp add: setting_value_def cfg_line_def isBlank_def)

lemma number_block_line:
  assumes "k \<in> set cfg_keys" "k' \<in> set cfg_keys" "value_ok v"
  shows "k \<noteq> k' \<Longrightarrow> number_block (cfg_line (k, v)) k' lo hi st = st"
    and "number_block (cfg_line (k, v)) k lo hi (ok, absent 0) = (ok, number_setting lo hi v)"
proof -
  show "k \<noteq> k' \<Longrightarrow> number_block (cfg_line (k, v)) k' lo hi st = st"
    by (cases st) (simp add: number_block_def parseSetting_def setting_value_line [OF assms])
  show "number_block (cfg_line (k, v)) k lo hi (ok, absent 0) = (ok, number_setting lo hi v)"
    by (simp add: number_block_def parseSetting_def setting_value_line [OF assms(1,1,3)] number_setting_def absent_def Let_def
        split: option.splits)
qed

lemma text_block_line:
  assumes "k \<in> set cfg_keys" "k' \<in> set cfg_keys" "value_ok v"
  shows "k \<noteq> k' \<Longrightarrow> text_block k' accept st (cfg_line (k, v)) = (st, cfg_line (k, v))"
    and "text_block k accept (ok, absent d) (cfg_line (k, v)) = ((ok, text_setting accept d v), cfg_line (k, v))"
proof -
  show "k \<noteq> k' \<Longrightarrow> text_block k' accept st (cfg_line (k, v)) = (st, cfg_line (k, v))"
    by (cases st) (simp add: text_block_def parseTextSetting_def setting_value_line [OF assms])
  have "take (length (cfg_line (k, v)) - length v) (cfg_line (k, v)) @ v = cfg_line (k, v)" by (simp add: cfg_line_def)
  then show "text_block k accept (ok, absent d) (cfg_line (k, v)) = ((ok, text_setting accept d v), cfg_line (k, v))"
    using assms(3) value_ok_strip(2) [OF assms(3)]
    by (simp add: text_block_def parseTextSetting_def setting_value_line [OF assms(1,1,3)] text_setting_def absent_def Let_def
        value_ok_def split: option.splits)
qed

lemma number_block_here:
  "k \<in> set cfg_keys \<Longrightarrow> value_ok v \<Longrightarrow> number_block (cfg_line (k, v)) k lo hi (ok, absent 0) = (ok, number_setting lo hi v)"
  by (rule number_block_line(2))

lemma text_block_here:
  "k \<in> set cfg_keys \<Longrightarrow> value_ok v \<Longrightarrow>
    text_block k accept (ok, absent d) (cfg_line (k, v)) = ((ok, text_setting accept d v), cfg_line (k, v))"
  by (rule text_block_line(2))

lemma lookup_setting_snoc:
  "lookup_setting meaning d key (kvs @ [(k, v)])
    = (if key = k \<and> key \<notin> fst ` set kvs then meaning v else lookup_setting meaning d key kvs)"
proof (cases "map_of kvs key")
  case None
  then have "key \<notin> fst ` set kvs" by (simp add: map_of_eq_None_iff)
  then show ?thesis using None by (simp add: lookup_setting_def map_add_def del: map_of_eq_None_iff)
next
  case (Some x)
  then have "key \<in> fst ` set kvs" by (metis map_of_eq_None_iff option.distinct(1))
  then show ?thesis using Some by (simp add: lookup_setting_def map_add_def)
qed

lemma lookup_setting_absent: "key \<notin> fst ` set kvs \<Longrightarrow> lookup_setting meaning d key kvs = absent d"
  by (simp add: lookup_setting_def map_of_eq_None_iff [THEN iffD2])

lemma parse_settings_line:
  assumes "k \<in> set cfg_keys" "value_ok v" "k \<notin> fst ` set kvs"
  shows "parse_settings (cfg_line (k, v)) (True, settings_of kvs) = (True, settings_of (kvs @ [(k, v)]))"
proof -
  have keys: "''HB_INTERVAL_MIN'' \<in> set cfg_keys" "''TUNNEL_ENABLED'' \<in> set cfg_keys" "''SSH_HOST'' \<in> set cfg_keys"
    "''SSH_PORT'' \<in> set cfg_keys" "''REMOTE_BIND_HOST'' \<in> set cfg_keys" "''REMOTE_BIND_PORT'' \<in> set cfg_keys"
    "''LOCAL_HOST'' \<in> set cfg_keys" "''LOCAL_PORT'' \<in> set cfg_keys" "''MAC_VENDOR'' \<in> set cfg_keys"
    by (simp_all add: cfg_keys_def)
  have "k \<in> {''HB_INTERVAL_MIN'', ''TUNNEL_ENABLED'', ''SSH_HOST'', ''SSH_PORT'', ''REMOTE_BIND_HOST'', ''REMOTE_BIND_PORT'',
     ''LOCAL_HOST'', ''LOCAL_PORT'', ''MAC_VENDOR''}" using assms(1) by (simp add: cfg_keys_def)
  then show ?thesis
    using assms(2,3)
    unfolding insert_iff empty_iff parse_settings_def settings_of_def lookup_setting_snoc MIN_HEARTBEAT_INTERVAL_MIN_def
      MAX_HEARTBEAT_INTERVAL_MIN_def
    by (elim disjE; simp add: keys lookup_setting_absent number_block_line(1) text_block_line(1)
        number_block_here text_block_here)
qed

lemma parse_line_cfg:
  assumes "k \<in> set cfg_keys"
  shows "parse_line (cfg_line (k, v)) st = parse_settings (cfg_line (k, v)) st" "LF \<notin> set k"
  using assms by (auto simp: cfg_keys_def parse_line_def cfg_line_def isBlankCr_def CR_def LF_def)

lemma memchr_at_sep: "c \<notin> set s \<Longrightarrow> memchr c (s @ c # r) = Some (length s)"
  by (induction s) auto

lemma parseConfig_loop_line:
  assumes "LF \<notin> set l"
  shows "parseConfig_loop (l @ LF # rest) st = parseConfig_loop rest (parse_line l st)"
  by (subst parseConfig_loop.simps) (simp add: memchr_at_sep [OF assms])

lemma parseConfig_settings:
  assumes "distinct (map fst (pre @ kvs))" "\<forall>kv\<in>set kvs. fst kv \<in> set cfg_keys \<and> value_ok (snd kv)"
  shows "parseConfig_loop (cfg_text kvs) (True, settings_of pre) = (True, settings_of (pre @ kvs))"
  using assms
proof (induction kvs arbitrary: pre)
  case Nil
  then show ?case by (simp add: cfg_text_def parseConfig_loop.simps)
next
  case (Cons kv kvs)
  obtain k v where kv: "kv = (k, v)" by fastforce
  have k: "k \<in> set cfg_keys" "value_ok v" "k \<notin> fst ` set pre" using Cons.prems kv by auto
  have "LF \<notin> set (cfg_line (k, v))"
    using parse_line_cfg(2) [OF k(1)] k(2) by (simp add: cfg_line_def value_ok_def) (simp add: LF_def)
  then have "parseConfig_loop (cfg_text (kv # kvs)) (True, settings_of pre)
      = parseConfig_loop (cfg_text kvs) (parse_line (cfg_line (k, v)) (True, settings_of pre))"
    using parseConfig_loop_line by (simp add: cfg_text_def kv)
  also have "\<dots> = parseConfig_loop (cfg_text kvs) (True, settings_of (pre @ [kv]))"
    by (simp add: parse_line_cfg(1) [OF k(1)] parse_settings_line [OF k] kv)
  also have "\<dots> = (True, settings_of (pre @ kv # kvs))" using Cons.IH [of "pre @ [kv]"] Cons.prems by simp
  finally show ?case .
qed

lemma parsed_empty_settings: "settings_of [] = parsed_empty"
  by (simp add: settings_of_def parsed_empty_def lookup_setting_def)

text \<open>
  C32: The one-pass parser of \<open>cfg.txt\<close> gives each setting the meaning it has by itself: for settings in any order, each
  key at most once, the result is structurally valid and every field is what looking up its key and converting
  its value gives, and absent when the key is missing.
\<close>

theorem parseConfig_lookup:
  assumes "distinct (map fst kvs)" and "\<forall>kv\<in>set kvs. fst kv \<in> set cfg_keys \<and> value_ok (snd kv)"
  shows "parseConfig (cfg_text kvs) = (True, settings_of kvs)"
  using parseConfig_settings [of "[]" kvs] assms by (simp add: parseConfig_def parsed_empty_settings)

theorem parseConfig_lookup_witness:
  "parseConfig (cfg_text [(''LOCAL_PORT'', ''22''), (''SSH_PORT'', ''70000''), (''TUNNEL_ENABLED'', ''Yes'')])
    = (True, parsed_empty\<lparr>pc_localPort := \<lparr>present = True, valid = True, val = 22\<rparr>,
        pc_sshPort := \<lparr>present = True, valid = False, val = 0\<rparr>,
        pc_tunnelEnabled := \<lparr>present = True, valid = True, val = True\<rparr>\<rparr>)"
proof -
  let ?kvs = "[(''LOCAL_PORT'', ''22''), (''SSH_PORT'', ''70000''), (''TUNNEL_ENABLED'', ''Yes'')]"
  have "parseConfig (cfg_text ?kvs) = (True, settings_of ?kvs)"
    by (rule parseConfig_lookup) (simp_all add: cfg_keys_def value_ok_def isBlankCr_def LF_def CR_def)
  also have "settings_of ?kvs = parsed_empty\<lparr>pc_localPort := \<lparr>present = True, valid = True, val = 22\<rparr>,
      pc_sshPort := \<lparr>present = True, valid = False, val = 0\<rparr>, pc_tunnelEnabled := \<lparr>present = True, valid = True, val = True\<rparr>\<rparr>"
    by code_simp
  finally show ?thesis .
qed

section \<open>What is accepted is sound\<close>

definition config_sound :: "parsed_config \<Rightarrow> bool" where
  "config_sound p \<longleftrightarrow>
     (valid (heartbeatInterval p) \<longrightarrow> 2 \<le> val (heartbeatInterval p) \<and> val (heartbeatInterval p) \<le> 1440)
     \<and> (valid (pc_sshHost p) \<longrightarrow> isValidConfigHost (val (pc_sshHost p)))
     \<and> (valid (pc_sshPort p) \<longrightarrow> 1 \<le> val (pc_sshPort p))
     \<and> (valid (pc_remoteBindHost p) \<longrightarrow> isValidConfigHost (val (pc_remoteBindHost p)))
     \<and> (valid (pc_remoteBindPort p) \<longrightarrow> 1 \<le> val (pc_remoteBindPort p))
     \<and> (valid (pc_localHost p) \<longrightarrow> isValidConfigHost (val (pc_localHost p)))
     \<and> (valid (pc_localPort p) \<longrightarrow> 1 \<le> val (pc_localPort p))
     \<and> (valid (pc_macVendor p) \<longrightarrow> isValidMacVendor (val (pc_macVendor p)))"

lemma ucast_bounds:
  fixes n :: u32
  assumes "lo \<le> n" "n \<le> hi" "hi \<le> 65535"
  shows "ucast lo \<le> (ucast n :: u16) \<and> (ucast n :: u16) \<le> ucast hi"
proof -
  have "unat (ucast x :: u16) = unat x" if "x \<le> 65535" for x :: u32
  proof -
    have "unat x \<le> 65535" using that by (simp add: word_le_nat_alt)
    then show ?thesis by (simp add: unsigned_ucast_eq take_bit_nat_eq_self)
  qed
  then show ?thesis using assms by (simp add: word_le_nat_alt)
qed

lemma number_block_bounds:
  assumes "valid (snd st) \<longrightarrow> ucast lo \<le> val (snd st) \<and> val (snd st) \<le> ucast hi" "hi \<le> 65535"
    and "number_block line key lo hi st = st'"
  shows "valid (snd st') \<longrightarrow> ucast lo \<le> val (snd st') \<and> val (snd st') \<le> ucast hi"
  using assms ucast_bounds [of lo _ hi]
  by (cases st) (auto simp: number_block_def Let_def split: prod.splits setting_result.splits)

lemma text_block_accepts:
  assumes "valid (snd st) \<longrightarrow> Q (val (snd st))" "\<And>v x. accept v = Some x \<Longrightarrow> Q x"
    and "text_block key accept st line = (st', line')"
  shows "valid (snd st') \<longrightarrow> Q (val (snd st'))"
  using assms
  by (cases st) (auto simp: text_block_def split: prod.splits setting_result.splits option.splits if_splits)

lemma accept_host_sound: "accept_host v = Some x \<Longrightarrow> isValidConfigHost x"
  by (simp add: accept_host_def split: if_splits)

lemma accept_vendor_sound: "accept_vendor v = Some x \<Longrightarrow> isValidMacVendor x"
  by (simp add: accept_vendor_def split: if_splits)

lemma host_block_sound:
  "text_block key accept_host (ok, st) line = ((ok', st'), line') \<Longrightarrow> valid st \<longrightarrow> isValidConfigHost (val st) \<Longrightarrow>
    valid st' \<longrightarrow> isValidConfigHost (val st')"
  using text_block_accepts [of "(ok, st)" isValidConfigHost accept_host key line "(ok', st')" line'] accept_host_sound by simp

lemma vendor_block_sound:
  "text_block key accept_vendor (ok, st) line = ((ok', st'), line') \<Longrightarrow> valid st \<longrightarrow> isValidMacVendor (val st) \<Longrightarrow>
    valid st' \<longrightarrow> isValidMacVendor (val st')"
  using text_block_accepts [of "(ok, st)" isValidMacVendor accept_vendor key line "(ok', st')" line'] accept_vendor_sound by simp

lemma parse_settings_sound:
  assumes "config_sound (snd st)"
  shows "config_sound (snd (parse_settings line st))"
proof -
  obtain ok0 p where st: "st = (ok0, p)" by fastforce
  obtain ok1 h where 1: "number_block line ''HB_INTERVAL_MIN'' 2 1440 (ok0, heartbeatInterval p) = (ok1, h)" by fastforce
  obtain ok2 e l2 where 2: "text_block ''TUNNEL_ENABLED'' parseBoolean (ok1, pc_tunnelEnabled p) line = ((ok2, e), l2)" by (metis surj_pair)
  obtain ok3 sh l3 where 3: "text_block ''SSH_HOST'' accept_host (ok2, pc_sshHost p) l2 = ((ok3, sh), l3)" by (metis surj_pair)
  obtain ok4 sp where 4: "number_block l3 ''SSH_PORT'' 1 65535 (ok3, pc_sshPort p) = (ok4, sp)" by fastforce
  obtain ok5 rh l5 where 5: "text_block ''REMOTE_BIND_HOST'' accept_host (ok4, pc_remoteBindHost p) l3 = ((ok5, rh), l5)" by (metis surj_pair)
  obtain ok6 rp where 6: "number_block l5 ''REMOTE_BIND_PORT'' 1 65535 (ok5, pc_remoteBindPort p) = (ok6, rp)" by fastforce
  obtain ok7 lh l7 where 7: "text_block ''LOCAL_HOST'' accept_host (ok6, pc_localHost p) l5 = ((ok7, lh), l7)" by (metis surj_pair)
  obtain ok8 lp where 8: "number_block l7 ''LOCAL_PORT'' 1 65535 (ok7, pc_localPort p) = (ok8, lp)" by fastforce
  obtain ok9 mv l9 where 9: "text_block ''MAC_VENDOR'' accept_vendor (ok8, pc_macVendor p) l7 = ((ok9, mv), l9)" by (metis surj_pair)
  have max: "(w :: u16) \<le> 65535" for w
    using unsigned_less [of w, where 'a = nat] by (simp add: word_le_nat_alt)
  have s: "config_sound p" using assms st by simp
  note nb = number_block_bounds [OF _ _ 1] number_block_bounds [OF _ _ 4] number_block_bounds [OF _ _ 6] number_block_bounds [OF _ _ 8]
  note tb = host_block_sound [OF 3] host_block_sound [OF 5] host_block_sound [OF 7] vendor_block_sound [OF 9]
  have "snd (parse_settings line st) = \<lparr>heartbeatInterval = h, pc_tunnelEnabled = e, pc_sshHost = sh, pc_sshPort = sp,
      pc_remoteBindHost = rh, pc_remoteBindPort = rp, pc_localHost = lh, pc_localPort = lp, pc_macVendor = mv\<rparr>"
    by (simp add: parse_settings_def st MIN_HEARTBEAT_INTERVAL_MIN_def MAX_HEARTBEAT_INTERVAL_MIN_def 1 2 3 4 5 6 7 8 9)
  then show ?thesis using nb tb s max by (simp add: config_sound_def)
qed

lemma parseConfig_loop_sound:
  assumes "config_sound (snd st)"
  shows "config_sound (snd (parseConfig_loop config st))"
  using assms
proof (induction config st rule: parseConfig_loop.induct)
  case (1 config st)
  have line: "config_sound (snd (parse_line l st))" for l
    using 1(2) parse_settings_sound by (simp add: parse_line_def Let_def)
  show ?case
    using 1 line by (subst parseConfig_loop.simps) (simp split: option.splits)
qed

lemma parseConfig_sound: "parseConfig config = (ok, p) \<Longrightarrow> config_sound p"
  using parseConfig_loop_sound [of "(True, parsed_empty)" config]
  by (simp add: parseConfig_def) (simp add: config_sound_def parsed_empty_def absent_def)

text \<open>An accepted MAC vendor is one the firmware knows.\<close>

lemma equalsIgnoreCase_lower: "equalsIgnoreCase a b \<longleftrightarrow> map ascii_lower a = map ascii_lower b"
  by (induction a b rule: equalsIgnoreCase.induct) auto

lemma toUpperCase_lower: "toUpperCase (map ascii_lower v) = toUpperCase v"
proof -
  have "toupper (ascii_lower c) = toupper c" for c
    by (auto simp: toupper_def ascii_lower_def char_code_def)
  then show ?thesis by (simp add: toUpperCase_def)
qed

lemma trim_id:
  assumes "\<forall>c\<in>set x. \<not> isspace c"
  shows "trim x = x"
proof -
  have "dropWhile isspace x = x" using assms by (cases x) auto
  moreover have "dropWhile isspace (rev x) = rev x" using assms by (cases x rule: rev_cases) auto
  ultimately show ?thesis by (simp add: trim_def)
qed

lemma mac_parse_ignoring_case:
  assumes "equalsIgnoreCase v w" "\<forall>c\<in>set w. \<not> isspace c \<and> \<not> isspace (ascii_lower c)"
  shows "mac_parse v = mac_parse w"
proof -
  have m: "map ascii_lower v = map ascii_lower w" using assms(1) by (simp add: equalsIgnoreCase_lower)
  have "\<not> isspace c" if "c \<in> set v" for c
  proof
    assume s: "isspace c"
    then have "ascii_lower c = c" by (auto simp: isspace_def ascii_lower_def)
    moreover have "ascii_lower c \<in> ascii_lower ` set w" using that m by (metis image_eqI set_map)
    ultimately show False using assms(2) s by auto
  qed
  then have "trim v = v" "trim w = w" using assms(2) by (simp_all add: trim_id)
  moreover have "toUpperCase v = toUpperCase w" using m by (metis toUpperCase_lower)
  ultimately show ?thesis by (simp add: mac_parse_def)
qed

lemma mac_vendor_known:
  assumes "isValidMacVendor v"
  shows "\<exists>m. mac_parse v = Some m"
proof -
  have w: "\<forall>w\<in>set [''ORIGINAL'', ''ESP32'', ''CISCO'', ''HP'']. (\<forall>c\<in>set w. \<not> isspace c \<and> \<not> isspace (ascii_lower c)) \<and> mac_parse w \<noteq> None"
    by code_simp
  obtain u where "u \<in> set [''ORIGINAL'', ''ESP32'', ''CISCO'', ''HP'']" "equalsIgnoreCase v u"
    using assms by (auto simp: isValidMacVendor_def)
  then show ?thesis using mac_parse_ignoring_case [of v u] w by auto
qed

end
