(* ===== verification/Wifi_Pages.thy ===== *)
theory Wifi_Pages
  imports Wifi_Config
begin

text \<open>
  The setup pages of \<open>examples/src/wifi_provisioning.cpp\<close>: the escaping of values, the fixed parts of the
  pages, and the pages as functions of what they show. In the fixed parts the backquote stands for the
  apostrophe (\<open>html\<close> puts it back).
\<close>

definition html :: "string \<Rightarrow> string" where
  "html s = map (\<lambda>c. if c = CHR 0x60 then CHR 0x27 else c) s"

definition escape_char :: "char \<Rightarrow> string" where
  \<open>escape_char c =
     (if c = CHR ''&'' then ''&amp;''
      else if c = CHR ''<'' then ''&lt;''
      else if c = CHR ''>'' then ''&gt;''
      else if c = CHR 0x22 then ''&quot;''
      else if c = CHR 0x27 then ''&#39;''
      else [c])\<close>

fun escapeHtml :: "string \<Rightarrow> string" where
  "escapeHtml [] = []"
| "escapeHtml (c # value) = escape_char c @ escapeHtml value"

section \<open>Fixed parts\<close>

definition page_head :: string where
  \<open>page_head =
       html ''<!doctype html><html><head><meta charset=`utf-8`><meta name=`viewport` content=`width=device-width,i'' @
       html ''nitial-scale=1`><style>body{font-family:system-ui;max-width:620px;margin:32px auto;padding:0 16px;ba'' @
       html ''ckground:#f5f7fa;color:#18212b}main{background:#fff;padding:24px;border-radius:12px}label{display:bl'' @
       html ''ock;margin-top:16px;font-weight:600}select,input,textarea,button{box-sizing:border-box;width:100%;pa'' @
       html ''dding:12px;margin-top:6px;border:1px solid #aeb8c2;border-radius:8px;font:inherit}textarea{min-heigh'' @
       html ''t:180px;font-family:monospace}button{background:#1769aa;color:#fff;border:0;font-weight:700}.note{co'' @
       html ''lor:#56616d}.error{color:#a61b1b;font-weight:700}.grid{display:grid;grid-template-columns:2fr 1fr;ga'' @
       html ''p:12px}.hidden{display:none}@media(max-width:520px){.grid{grid-template-columns:1fr}}</style></head>'' @
       html ''<body><main><h1>''\<close>

definition wifi_html0 :: string where
  \<open>wifi_html0 =
       html ''<p>Select a WiFi network and enter its password.</p>''\<close>

definition wifi_html1 :: string where
  \<open>wifi_html1 =
       html ''<form method=`post` action=`/save-wifi`><label>Detected network</label><select name=`ssid`>''\<close>

definition wifi_html2 :: string where
  \<open>wifi_html2 =
       html ''</select><label>Hidden or custom SSID</label><input name=`custom_ssid` maxlength=`32`><label>WiFi pa'' @
       html ''ssword</label><div style=`position:relative`><input id=`wifi-password` name=`password` type=`passwor'' @
       html ''d` maxlength=`63` style=`padding-right:52px`><button type=`button` aria-label=`Show or hide WiFi pas'' @
       html ''sword` title=`Show or hide password` onclick=`toggleWifiPassword()` style=`position:absolute;right:6'' @
       html ''px;top:6px;width:40px;padding:6px;background:transparent;color:#56616d;border:0;font-size:20px`>&#12'' @
       html ''8065;</button></div><label>MAC vendor</label><select name=`mac_vendor`><option value=`ORIGINAL`''\<close>

definition wifi_html3 :: string where
  \<open>wifi_html3 =
       html ''>Original ESP32</option><option value=`CISCO`''\<close>

definition wifi_html4 :: string where
  \<open>wifi_html4 =
       html ''>Cisco</option><option value=`HP`''\<close>

definition wifi_html5 :: string where
  \<open>wifi_html5 =
       html ''>HP</option></select><p class=`note`>Only the first three MAC octets change; the final three remain '' @
       html ''device-specific.</p><button>Test and continue</button></form><p class=`note`>The network is tested b'' @
       html ''efore it is stored. A changed MAC vendor is applied after restart.</p><script>function toggleWifiPas'' @
       html ''sword(){let p=document.getElementById(`wifi-password`);p.type=p.type===`password`?`text`:`password`}'' @
       html ''</script></main></body></html>''\<close>

definition device_html0 :: string where
  \<open>device_html0 =
       html ''<p>Configure the SSH server and one reverse tunnel.</p>''\<close>

definition device_html1 :: string where
  \<open>device_html1 =
       html ''<form method=`post` action=`/save-device`><div class=`grid`><div><label>SSH server</label><input nam'' @
       html ''e=`ssh_host` required maxlength=`253` value=`''\<close>

definition device_html2 :: string where
  \<open>device_html2 =
       html ''`></div><div><label>SSH port</label><input name=`ssh_port` type=`number` min=`1` max=`65535` value=`''\<close>

definition device_html3 :: string where
  \<open>device_html3 =
       html ''`></div></div><label>SSH username</label><input name=`ssh_user` required maxlength=`128` value=`''\<close>

definition device_html4 :: string where
  \<open>device_html4 =
       html ''`><label>Authentication</label><select id=`auth` name=`ssh_auth` onchange=`toggleAuth()`><option val'' @
       html ''ue=`password`''\<close>

definition device_html5 :: string where
  \<open>device_html5 =
       html ''>Password</option><option value=`key`''\<close>

definition device_html6 :: string where
  \<open>device_html6 =
       html ''>Private key</option></select><div id=`password-fields`><label>SSH password</label><input name=`ssh_'' @
       html ''password` type=`password` placeholder=`Leave blank to keep the stored password`></div><div id=`key-f'' @
       html ''ields` class=`hidden`><label>Private key</label><textarea name=`ssh_private_key` maxlength=`16384` p'' @
       html ''laceholder=`Leave blank to keep the stored private key`></textarea><label>Public key (recommended fo'' @
       html ''r ECDSA)</label><textarea name=`ssh_public_key` maxlength=`4096` placeholder=`Leave blank to keep th'' @
       html ''e stored public key unless replacing the private key`></textarea><label>Key passphrase (optional)</l'' @
       html ''abel><input name=`ssh_key_passphrase` type=`password` placeholder=`Leave blank to keep the stored pa'' @
       html ''ssphrase`></div><h2>Reverse tunnel</h2><div class=`grid`><div><label>Remote bind address</label><inp'' @
       html ''ut name=`remote_host` value=`''\<close>

definition device_html7 :: string where
  \<open>device_html7 =
       html ''`></div><div><label>Remote port</label><input name=`remote_port` type=`number` min=`1` max=`65535` v'' @
       html ''alue=`''\<close>

definition device_html8 :: string where
  \<open>device_html8 =
       html ''`></div></div><div class=`grid`><div><label>Local target</label><input name=`local_host` value=`''\<close>

definition device_html9 :: string where
  \<open>device_html9 =
       html ''`></div><div><label>Local port</label><input name=`local_port` type=`number` min=`1` max=`65535` val'' @
       html ''ue=`''\<close>

definition device_html10 :: string where
  \<open>device_html10 =
       html ''`></div></div><button>Save and start tunnel</button></form><p class=`note`>Stored passwords and keys'' @
       html '' are never displayed. Leave those fields empty to keep them unchanged.</p><script>function toggleAut'' @
       html ''h(){let k=document.getElementById(`auth`).value===`key`;document.getElementById(`password-fields`).c'' @
       html ''lassName=k?`hidden`:``;document.getElementById(`key-fields`).className=k?``:`hidden`}toggleAuth()</s'' @
       html ''cript></main></body></html>''\<close>

definition setup_done_html :: string where
  \<open>setup_done_html =
       html ''<p>The device will restart and start the reverse tunnel.</p></main></body></html>''\<close>

definition wifi_done_html :: string where
  \<open>wifi_done_html =
       html ''<p>The WiFi settings were stored. The selected MAC vendor will be active after restart.</p><p>The de'' @
       html ''vice will restart and reconnect automatically.</p></main></body></html>''\<close>

definition wifi_next0 :: string where
  \<open>wifi_next0 =
       html ''<p>Reconnect to the selected WiFi network, then open:</p><p><a href=`''\<close>

definition wifi_next1 :: string where
  \<open>wifi_next1 =
       html ''</a></p><p class=`note`>This page will continue automatically when the device becomes reachable on t'' @
       html ''hat network.</p><script>const target=`''\<close>

definition wifi_next2 :: string where
  \<open>wifi_next2 =
       html ''`;function continueSetup(){fetch(target,{mode:`no-cors`,cache:`no-store`}).then(()=>location.replace'' @
       html ''(target)).catch(()=>setTimeout(continueSetup,1500))}setTimeout(continueSetup,3500);</script></main><'' @
       html ''/body></html>''\<close>

section \<open>Pages\<close>

definition pageStart :: "string \<Rightarrow> string" where
  "pageStart title = page_head @ title @ ''</h1>''"

definition addError :: "string \<Rightarrow> string" where
  "addError err = (if err \<noteq> [] then html ''<p class=`error`>'' @ escapeHtml err @ ''</p>'' else [])"

definition selected_if :: "bool \<Rightarrow> string" where
  "selected_if b = (if b then '' selected'' else [])"

definition network_option :: "string \<times> int \<Rightarrow> string" where
  \<open>network_option n =
     ''<option value='' @ [CHR 0x22] @ escapeHtml (fst n) @ [CHR 0x22] @ ''>'' @ escapeHtml (fst n) @ '' (''
     @ decimal_int (snd n) @ '' dBm)</option>''\<close>

definition wifi_page :: "(string \<times> int) list \<Rightarrow> mac_vendor \<Rightarrow> string \<Rightarrow> string" where
  "wifi_page networks v err =
     pageStart ''esp32tun WiFi setup'' @ wifi_html0 @ addError err @ wifi_html1 @ concat (map network_option networks)
     @ wifi_html2 @ selected_if (v = Original) @ wifi_html3 @ selected_if (v = Cisco) @ wifi_html4
     @ selected_if (v = HP) @ wifi_html5"

definition device_page :: "device_config \<Rightarrow> string \<Rightarrow> string" where
  "device_page c err =
     pageStart ''esp32tun tunnel setup'' @ device_html0 @ addError err @ device_html1 @ escapeHtml (sshHost c)
     @ device_html2 @ decimal_int (sshPort c) @ device_html3 @ escapeHtml (sshUsername c) @ device_html4
     @ selected_if (sshAuthMethod c = PasswordAuth) @ device_html5 @ selected_if (sshAuthMethod c = PrivateKeyAuth)
     @ device_html6 @ escapeHtml (dc_remoteBindHost c) @ device_html7 @ decimal_int (dc_remoteBindPort c)
     @ device_html8 @ escapeHtml (dc_localHost c) @ device_html9 @ decimal_int (dc_localPort c) @ device_html10"

definition setup_done_page :: string where
  "setup_done_page = pageStart ''Setup complete'' @ setup_done_html"

definition wifi_done_page :: "bool \<Rightarrow> string" where
  "wifi_done_page vendorChanged = pageStart (if vendorChanged then ''WiFi and MAC updated'' else ''WiFi updated'') @ wifi_done_html"

definition wifi_next_page :: "string \<Rightarrow> string" where
  "wifi_next_page ip =
     (let url = ''http://'' @ ip @ ''/'' in
      pageStart ''WiFi connected'' @ wifi_next0 @ url @ html ''`>'' @ url @ wifi_next1 @ url @ wifi_next2)"

section \<open>Markup\<close>

definition markup :: "string \<Rightarrow> string" where
  \<open>markup s = filter (\<lambda>c. c = CHR ''<'' \<or> c = CHR ''>'' \<or> c = CHR 0x22 \<or> c = CHR 0x27) s\<close>

lemma markup_append [simp]: "markup (a @ b) = markup a @ markup b"
  by (simp add: markup_def)

lemma markup_escapeHtml [simp]: "markup (escapeHtml s) = []"
proof (induction s)
  case (Cons c s)
  have "markup (escape_char c) = []" by (simp add: markup_def escape_char_def)
  then show ?case using Cons by simp
qed (simp add: markup_def)

lemma markup_digits: "list_all isdigit s \<Longrightarrow> markup s = []"
  by (auto simp: markup_def list_all_iff filter_empty_conv isdigit_def char_code_def)

lemma markup_decimal_int [simp]: "markup (decimal_int n) = []"
  using markup_digits [OF decimal_digits] by (simp add: decimal_int_def markup_def)

lemma markup_selected [simp]: "markup (selected_if b) = []"
  by (simp add: selected_if_def markup_def)

lemma markup_addError: "markup (addError err) = (if err = [] then [] else markup (html ''<p class=`error`>'') @ markup ''</p>'')"
  by (simp add: addError_def) (simp add: markup_def)

lemma markup_network: "markup (network_option n) = markup (network_option m)"
  unfolding network_option_def markup_append by (simp only: markup_escapeHtml markup_decimal_int)

lemma markup_networks:
  "length ns = length ms \<Longrightarrow> markup (concat (map network_option ns)) = markup (concat (map network_option ms))"
proof (induction ns ms rule: list_induct2)
  case (Cons x xs y ys)
  then show ?case using markup_network [of x y] by simp
qed simp

lemma escapeHtml_inj: "escapeHtml s = escapeHtml t \<Longrightarrow> s = t"
proof (induction s arbitrary: t)
  case Nil
  then show ?case by (cases t) (auto simp: escape_char_def split: if_splits)
next
  case (Cons c s)
  then obtain d t' where t: "t = d # t'" by (cases t) (auto simp: escape_char_def split: if_splits)
  have "c = d \<and> escapeHtml s = escapeHtml t'"
    using Cons.prems unfolding t by (auto simp: escape_char_def split: if_splits)
  then show ?case using Cons.IH t by simp
qed

text \<open>
  C30: Nothing that is shown on a setup page can change its markup. The tags and attribute quotes of the network
  page depend only on the number of networks found (not on their names, which anybody nearby chooses) and on whether there is
  an error message, those of the device page only on the latter; the device page is the same whatever the stored passwords,
  keys and passphrase are.
\<close>

theorem setup_pages_inert:
  assumes "length ns = length ms" and "e = [] \<longleftrightarrow> e' = []"
  shows "markup (wifi_page ns v e) = markup (wifi_page ms v' e')
      \<and> markup (device_page c e) = markup (device_page c' e')
      \<and> device_page (c\<lparr>wifiPassword := a, sshPassword := b, sshPrivateKey := k, sshPublicKey := p, sshKeyPassphrase := q\<rparr>) e
        = device_page c e"
  using assms markup_networks [OF assms(1)] by (simp_all add: wifi_page_def device_page_def markup_addError)

theorem setup_pages_inert_witness:
  "markup (wifi_page [(''x<script>'', -60)] Original []) = markup (wifi_page [(''home'', -40)] HP [])
    \<and> markup (device_page (device_default\<lparr>sshHost := [CHR 0x27]\<rparr>) []) = markup (device_page device_default [])
    \<and> device_page (device_default\<lparr>wifiPassword := ''a'', sshPassword := ''b'', sshPrivateKey := ''c'', sshPublicKey := ''d'',
        sshKeyPassphrase := ''e''\<rparr>) [] = device_page device_default []"
  using setup_pages_inert [of "[(''x<script>'', -60)]" "[(''home'', -40)]" "[]" "[]" Original HP
      "device_default\<lparr>sshHost := [CHR 0x27]\<rparr>" device_default]
    setup_pages_inert [of "[]" "[]" "[]" "[]" Original HP device_default device_default "''e''" "''d''" "''c''" "''b''" "''a''"]
  by simp

end
