(* ===== verification/Config_Button.thy ===== *)
theory Config_Button
  imports Firmware_Board
begin

text \<open>
  The configuration button of the firmware (\<open>sampleConfigButton\<close> in \<open>examples/src/wifi_provisioning.cpp\<close>):
  a debounced state machine that is fed with samples of the pin and recognises three clicks, five clicks
  and a press of four seconds. Its variables are a record; one sample is a function of the clock and the pin.
\<close>

datatype button_action = NoAction | WifiReset | Edit | FactoryReset

record button =
  buttonPressedAt :: u32
  buttonWasPressed :: bool
  buttonClickCount :: u8
  buttonClickWindowStartedAt :: u32
  buttonHoldActionTriggered :: bool
  pendingButtonAction :: button_action

definition button_init :: button where
  "button_init = \<lparr>buttonPressedAt = 0, buttonWasPressed = False, buttonClickCount = 0,
     buttonClickWindowStartedAt = 0, buttonHoldActionTriggered = False, pendingButtonAction = NoAction\<rparr>"

definition CONFIG_EDIT_HOLD_MS :: u32 where "CONFIG_EDIT_HOLD_MS = 4000"
definition CONFIG_CLICK_MIN_MS :: u32 where "CONFIG_CLICK_MIN_MS = 40"
definition CONFIG_CLICK_WINDOW_MS :: u32 where "CONFIG_CLICK_WINDOW_MS = 3000"

text \<open>A click that has just been released.\<close>

definition count_click :: "u32 \<Rightarrow> button \<Rightarrow> button" where
  "count_click now b =
     (let b = (if buttonClickCount b > 0 \<and> now - buttonClickWindowStartedAt b > CONFIG_CLICK_WINDOW_MS
               then b\<lparr>buttonClickCount := 0\<rparr> else b);
          b = (if buttonClickCount b = 0 then b\<lparr>buttonClickWindowStartedAt := now\<rparr> else b);
          b = b\<lparr>buttonClickCount := buttonClickCount b + 1\<rparr>
      in if buttonClickCount b \<ge> 5 then b\<lparr>buttonClickCount := 5, pendingButtonAction := FactoryReset\<rparr> else b)"

definition button_released :: "u32 \<Rightarrow> button \<Rightarrow> button" where
  "button_released now b =
     (if buttonWasPressed b then
        (let pressDuration = now - buttonPressedAt b;
             b = b\<lparr>buttonWasPressed := False, buttonPressedAt := 0\<rparr>;
             b = (if \<not> buttonHoldActionTriggered b \<and> pressDuration \<ge> CONFIG_CLICK_MIN_MS
                     \<and> pressDuration < CONFIG_EDIT_HOLD_MS
                  then count_click now b else b)
         in b\<lparr>buttonHoldActionTriggered := False\<rparr>)
      else if buttonClickCount b > 0 \<and> now - buttonClickWindowStartedAt b > CONFIG_CLICK_WINDOW_MS then
        (if buttonClickCount b = 3 then b\<lparr>pendingButtonAction := WifiReset\<rparr> else b\<lparr>buttonClickCount := 0\<rparr>)
      else b)"

definition button_pressed :: "u32 \<Rightarrow> button \<Rightarrow> button" where
  "button_pressed now b =
     (if \<not> buttonWasPressed b
      then b\<lparr>buttonWasPressed := True, buttonPressedAt := now, buttonHoldActionTriggered := False\<rparr>
      else if \<not> buttonHoldActionTriggered b \<and> now - buttonPressedAt b \<ge> CONFIG_EDIT_HOLD_MS
      then b\<lparr>buttonHoldActionTriggered := True, buttonClickCount := 0, pendingButtonAction := Edit\<rparr>
      else b)"

definition sample_button :: "u32 \<Rightarrow> bool \<Rightarrow> button \<Rightarrow> button" where
  "sample_button now pressed b =
     (if pendingButtonAction b \<noteq> NoAction then b
      else if \<not> pressed then button_released now b
      else button_pressed now b)"

definition sampleConfigButton :: "'w board \<Rightarrow> button \<Rightarrow> ('w, 'z, button) board_op" where
  "sampleConfigButton B b =
     (if ESP32TUN_CONFIG_BUTTON_PIN B < 0 \<or> pendingButtonAction b \<noteq> NoAction then ret b
      else do {
        now \<leftarrow> ext (b_millis B);
        level \<leftarrow> ext (b_digitalRead B (ESP32TUN_CONFIG_BUTTON_PIN B));
        ret (sample_button now (\<not> level) b) })"

section \<open>What the samples say\<close>

type_synonym samples = "(u32 \<times> bool) list"

text \<open>
  \<open>pressed_from tr i j\<close>: the pin is pressed in the samples from \<open>i\<close> up to \<open>j\<close> (exclusively), and was not before.
  A click is a press of 40 ms to 4 s that has been released.
\<close>

definition pressed_from :: "samples \<Rightarrow> nat \<Rightarrow> nat \<Rightarrow> bool" where
  "pressed_from tr i j \<longleftrightarrow> i < j \<and> j \<le> length tr \<and> (\<forall>k. i \<le> k \<and> k < j \<longrightarrow> snd (tr ! k)) \<and> (i = 0 \<or> \<not> snd (tr ! (i - 1)))"

definition press_time :: "samples \<Rightarrow> nat \<Rightarrow> nat \<Rightarrow> u32" where
  "press_time tr i j = fst (tr ! j) - fst (tr ! i)"

definition click_at :: "samples \<Rightarrow> nat \<Rightarrow> bool" where
  "click_at tr j \<longleftrightarrow> j < length tr \<and> \<not> snd (tr ! j)
     \<and> (\<exists>i. pressed_from tr i j \<and> 40 \<le> press_time tr i j \<and> press_time tr i j < 4000)"

definition clicks_in_window :: "samples \<Rightarrow> nat list \<Rightarrow> bool" where
  "clicks_in_window tr js \<longleftrightarrow> sorted_wrt (<) js \<and> (\<forall>j \<in> set js. click_at tr j \<and> fst (tr ! j) - fst (tr ! hd js) \<le> 3000)"

definition held_at :: "samples \<Rightarrow> nat \<Rightarrow> bool" where
  "held_at tr j \<longleftrightarrow> j < length tr \<and> (\<exists>i. pressed_from tr i (Suc j) \<and> 4000 \<le> press_time tr i j)"

definition action_justified :: "samples \<Rightarrow> button_action \<Rightarrow> bool" where
  "action_justified tr a =
     (case a of
        NoAction \<Rightarrow> True
      | WifiReset \<Rightarrow> (\<exists>js. length js = 3 \<and> clicks_in_window tr js)
      | Edit \<Rightarrow> (\<exists>j. held_at tr j)
      | FactoryReset \<Rightarrow> (\<exists>js. length js = 5 \<and> clicks_in_window tr js))"

definition button_after :: "samples \<Rightarrow> button" where
  "button_after tr = foldl (\<lambda>b (now, pressed). sample_button now pressed b) button_init tr"

section \<open>Invariant\<close>

lemma pressed_from_mono: "pressed_from tr i j \<Longrightarrow> pressed_from (tr @ x) i j"
  by (auto simp: pressed_from_def nth_append)

lemma press_time_append: "i < length tr \<Longrightarrow> j < length tr \<Longrightarrow> press_time (tr @ x) i j = press_time tr i j"
  by (simp add: press_time_def nth_append)

lemma click_at_mono:
  assumes "click_at tr j"
  shows "click_at (tr @ x) j"
proof -
  obtain i where "j < length tr" "\<not> snd (tr ! j)" and i: "pressed_from tr i j" "40 \<le> press_time tr i j" "press_time tr i j < 4000"
    using assms by (auto simp: click_at_def)
  moreover have "i < length tr" using i by (simp add: pressed_from_def)
  ultimately show ?thesis
    using pressed_from_mono [OF i(1), of x] by (auto simp: click_at_def nth_append press_time_append)
qed

lemma clicks_in_window_mono:
  assumes "clicks_in_window tr js"
  shows "clicks_in_window (tr @ x) js"
proof (cases js)
  case (Cons a list)
  then have "hd js < length tr" using assms by (simp add: clicks_in_window_def click_at_def)
  moreover have "\<And>j. j \<in> set js \<Longrightarrow> j < length tr" using assms by (simp add: clicks_in_window_def click_at_def)
  ultimately show ?thesis using assms by (simp add: clicks_in_window_def click_at_mono nth_append)
qed (use assms in \<open>simp add: clicks_in_window_def\<close>)

lemma held_at_mono:
  assumes "held_at tr j"
  shows "held_at (tr @ x) j"
proof -
  obtain i where "j < length tr" and i: "pressed_from tr i (Suc j)" "4000 \<le> press_time tr i j"
    using assms by (auto simp: held_at_def)
  moreover have "i < length tr" using i \<open>j < length tr\<close> by (simp add: pressed_from_def)
  ultimately show ?thesis
    using pressed_from_mono [OF i(1), of x] by (auto simp: held_at_def press_time_append)
qed

lemma action_justified_mono: "action_justified tr a \<Longrightarrow> action_justified (tr @ x) a"
  by (auto simp: action_justified_def dest: clicks_in_window_mono held_at_mono split: button_action.splits)

definition clicks_counted :: "samples \<Rightarrow> u8 \<Rightarrow> u32 \<Rightarrow> bool" where
  "clicks_counted tr n started \<longleftrightarrow> (\<exists>js. length js = unat n \<and> clicks_in_window tr js \<and> (js \<noteq> [] \<longrightarrow> started = fst (tr ! hd js)))"

definition button_inv :: "samples \<Rightarrow> button \<Rightarrow> bool" where
  "button_inv tr b \<longleftrightarrow> \<not> buttonHoldActionTriggered b
     \<and> (buttonWasPressed b \<longleftrightarrow> tr \<noteq> [] \<and> snd (last tr))
     \<and> (buttonWasPressed b \<longrightarrow> (\<exists>i. pressed_from tr i (length tr) \<and> buttonPressedAt b = fst (tr ! i)))
     \<and> unat (buttonClickCount b) < 5 \<and> clicks_counted tr (buttonClickCount b) (buttonClickWindowStartedAt b)"

lemma clicks_counted_none: "clicks_counted tr 0 t"
  by (auto simp: clicks_counted_def clicks_in_window_def)

lemma clicks_counted_mono:
  assumes "clicks_counted tr n t"
  shows "clicks_counted (tr @ x) n t"
proof -
  obtain js where js: "length js = unat n" "clicks_in_window tr js" "js \<noteq> [] \<longrightarrow> t = fst (tr ! hd js)"
    using assms unfolding clicks_counted_def by blast
  have "js \<noteq> [] \<longrightarrow> hd js < length tr" using js(2) by (auto simp: clicks_in_window_def click_at_def)
  then have "js \<noteq> [] \<longrightarrow> t = fst ((tr @ x) ! hd js)" using js(3) by (auto simp: nth_append)
  then show ?thesis unfolding clicks_counted_def using js clicks_in_window_mono [OF js(2), of x] by blast
qed

lemma clicks_counted_click:
  assumes "clicks_counted tr n t" "unat n < 5" "click_at (tr @ [(now, False)]) (length tr)" "n = 0 \<or> now - t \<le> 3000"
  shows "clicks_counted (tr @ [(now, False)]) (n + 1) (if n = 0 then now else t)"
proof -
  obtain js where js: "length js = unat n" "clicks_in_window tr js" "js \<noteq> [] \<longrightarrow> t = fst (tr ! hd js)"
    using assms(1) unfolding clicks_counted_def by blast
  have lt: "\<And>j. j \<in> set js \<Longrightarrow> j < length tr" using js(2) by (auto simp: clicks_in_window_def click_at_def)
  let ?js = "js @ [length tr]"
  have "length ?js = unat (n + 1)" using js(1) assms(2) unat_inc_below [of n 5] by (simp add: word_less_nat_alt)
  moreover have "js = [] \<longleftrightarrow> n = 0" using js(1) by (metis length_0_conv unat_eq_zero)
  moreover have "clicks_in_window (tr @ [(now, False)]) ?js"
    using clicks_in_window_mono [OF js(2), of "[(now, False)]"] lt assms(3,4) js(3) \<open>js = [] \<longleftrightarrow> n = 0\<close>
    by (cases js) (auto simp: clicks_in_window_def sorted_wrt_append nth_append)
  moreover have "(if n = 0 then now else t) = fst ((tr @ [(now, False)]) ! hd ?js)"
    using lt js(3) \<open>js = [] \<longleftrightarrow> n = 0\<close> by (cases js) (auto simp: nth_append)
  ultimately show ?thesis unfolding clicks_counted_def by blast
qed

lemma button_inv_init: "button_inv [] button_init"
  by (simp add: button_inv_def button_init_def clicks_counted_none)

lemma pressed_from_extend:
  assumes "pressed_from tr i (length tr)"
  shows "pressed_from (tr @ [(now, True)]) i (Suc (length tr))"
  using assms by (auto simp: pressed_from_def nth_append less_Suc_eq)

lemma pressed_from_new:
  assumes "tr = [] \<or> \<not> snd (last tr)"
  shows "pressed_from (tr @ [(now, True)]) (length tr) (Suc (length tr))"
  using assms by (cases tr rule: rev_cases) (auto simp: pressed_from_def nth_append)

lemma press_step:
  assumes "button_inv tr b" "pendingButtonAction b = NoAction" "b' = button_pressed now b"
  shows "if pendingButtonAction b' = NoAction then button_inv (tr @ [(now, True)]) b'
    else action_justified (tr @ [(now, True)]) (pendingButtonAction b')"
proof -
  let ?tr = "tr @ [(now, True)]"
  have h: "\<not> buttonHoldActionTriggered b" and n: "unat (buttonClickCount b) < 5"
    and w: "clicks_counted ?tr (buttonClickCount b) (buttonClickWindowStartedAt b)"
    using assms(1) by (simp_all add: button_inv_def clicks_counted_mono)
  show ?thesis
  proof (cases "buttonWasPressed b")
    case False
    then have "tr = [] \<or> \<not> snd (last tr)" using assms(1) by (simp add: button_inv_def)
    from pressed_from_new [OF this, of now] show ?thesis
      using False w n assms(2) unfolding assms(3) button_pressed_def
      by (auto simp: button_inv_def intro!: exI [of _ "length tr"])
  next
    case True
    then obtain i where i: "pressed_from tr i (length tr)" "buttonPressedAt b = fst (tr ! i)"
      using assms(1) by (auto simp: button_inv_def)
    have i': "pressed_from ?tr i (Suc (length tr))" using i(1) by (rule pressed_from_extend)
    have "i < length tr" using i(1) by (simp add: pressed_from_def)
    then have at: "buttonPressedAt b = fst (?tr ! i)" using i(2) by (simp add: nth_append)
    show ?thesis
    proof (cases "now - buttonPressedAt b \<ge> CONFIG_EDIT_HOLD_MS")
      case long: True
      then have "held_at ?tr (length tr)"
        using i' at by (auto simp: held_at_def press_time_def CONFIG_EDIT_HOLD_MS_def)
      then show ?thesis using True long h unfolding assms(3) button_pressed_def by (auto simp: action_justified_def)
    next
      case False
      then show ?thesis
        using True h i' at w n assms(2) unfolding assms(3) button_pressed_def by (auto simp: button_inv_def intro!: exI [of _ i])
    qed
  qed
qed

text \<open>Counting a click keeps the count of clicks in the window, or is the fifth.\<close>

lemma count_click_step:
  assumes "clicks_counted tr (buttonClickCount b) (buttonClickWindowStartedAt b)" "unat (buttonClickCount b) < 5"
    and "click_at (tr @ [(now, False)]) (length tr)" "pendingButtonAction b = NoAction" "b' = count_click now b"
  shows "if pendingButtonAction b' = NoAction
    then unat (buttonClickCount b') < 5 \<and> clicks_counted (tr @ [(now, False)]) (buttonClickCount b') (buttonClickWindowStartedAt b')
    else pendingButtonAction b' = FactoryReset \<and> action_justified (tr @ [(now, False)]) FactoryReset"
proof -
  define n where "n = (if buttonClickCount b > 0 \<and> now - buttonClickWindowStartedAt b > CONFIG_CLICK_WINDOW_MS then 0 else buttonClickCount b)"
  define t where "t = (if n = 0 then now else buttonClickWindowStartedAt b)"
  have nb: "unat n < 5" using assms(2) by (simp add: n_def)
  have c: "clicks_counted (tr @ [(now, False)]) (n + 1) t"
    unfolding t_def
  proof (rule clicks_counted_click)
    show "clicks_counted tr n (buttonClickWindowStartedAt b)" using assms(1) by (simp add: n_def clicks_counted_none)
    show "n = 0 \<or> now - buttonClickWindowStartedAt b \<le> 3000" by (auto simp: n_def CONFIG_CLICK_WINDOW_MS_def word_gt_0)
  qed (use assms nb in auto)
  have b': "b' = (if n + 1 \<ge> 5 then b\<lparr>buttonClickWindowStartedAt := t, buttonClickCount := 5, pendingButtonAction := FactoryReset\<rparr>
      else b\<lparr>buttonClickWindowStartedAt := t, buttonClickCount := n + 1\<rparr>)"
    unfolding assms(5) count_click_def Let_def n_def t_def by (cases b) auto
  have u: "unat (n + 1) = Suc (unat n)" using nb unat_inc_below [of n 5] by (simp add: word_less_nat_alt)
  show ?thesis
  proof (cases "n + 1 \<ge> 5")
    case True
    then have "unat (n + 1) = 5" using u nb by (simp add: word_le_nat_alt)
    then show ?thesis using True c b' by (auto simp: action_justified_def clicks_counted_def)
  next
    case False
    then show ?thesis using c b' u assms(4) by (simp add: word_le_nat_alt)
  qed
qed

lemma count_click_frame [simp]:
  "buttonWasPressed (count_click now b) = buttonWasPressed b"
  "buttonHoldActionTriggered (count_click now b) = buttonHoldActionTriggered b"
  by (simp_all add: count_click_def Let_def)

lemma release_step:
  assumes "button_inv tr b" "pendingButtonAction b = NoAction" "b' = button_released now b"
  shows "if pendingButtonAction b' = NoAction then button_inv (tr @ [(now, False)]) b'
    else action_justified (tr @ [(now, False)]) (pendingButtonAction b')"
proof -
  let ?tr = "tr @ [(now, False)]"
  have h: "\<not> buttonHoldActionTriggered b" and n: "unat (buttonClickCount b) < 5"
    and c: "clicks_counted tr (buttonClickCount b) (buttonClickWindowStartedAt b)"
    and w: "clicks_counted ?tr (buttonClickCount b) (buttonClickWindowStartedAt b)"
    using assms(1) by (simp_all add: button_inv_def clicks_counted_mono)
  show ?thesis
  proof (cases "buttonWasPressed b")
    case True
    then obtain i where i: "pressed_from tr i (length tr)" "buttonPressedAt b = fst (tr ! i)"
      using assms(1) by (auto simp: button_inv_def)
    have "i < length tr" using i(1) by (simp add: pressed_from_def)
    then have pt: "press_time ?tr i (length tr) = now - buttonPressedAt b" using i(2) by (simp add: press_time_def nth_append)
    define d where "d = b\<lparr>buttonWasPressed := False, buttonPressedAt := 0\<rparr>"
    show ?thesis
    proof (cases "now - buttonPressedAt b \<ge> CONFIG_CLICK_MIN_MS \<and> now - buttonPressedAt b < CONFIG_EDIT_HOLD_MS")
      case click: True
      then have "click_at ?tr (length tr)"
        using pressed_from_mono [OF i(1), of "[(now, False)]"] pt
        by (auto simp: click_at_def CONFIG_CLICK_MIN_MS_def CONFIG_EDIT_HOLD_MS_def)
      then have "if pendingButtonAction (count_click now d) = NoAction
        then unat (buttonClickCount (count_click now d)) < 5 \<and> clicks_counted ?tr (buttonClickCount (count_click now d))
          (buttonClickWindowStartedAt (count_click now d))
        else pendingButtonAction (count_click now d) = FactoryReset \<and> action_justified ?tr FactoryReset"
        by (intro count_click_step [OF _ _ _ _ refl]) (use c n assms(2) in \<open>simp_all add: d_def\<close>)
      moreover have "b' = (count_click now d)\<lparr>buttonHoldActionTriggered := False\<rparr>"
        using True click h unfolding assms(3) button_released_def Let_def d_def by simp
      ultimately show ?thesis by (auto simp: button_inv_def d_def split: if_splits)
    next
      case False
      then have "b' = d\<lparr>buttonHoldActionTriggered := False\<rparr>"
        using True h unfolding assms(3) button_released_def Let_def d_def by auto
      then show ?thesis using w n assms(2) by (simp add: button_inv_def d_def)
    qed
  next
    case False
    have three: "action_justified ?tr WifiReset" if "buttonClickCount b = 3"
      using w that by (auto simp: action_justified_def clicks_counted_def)
    show ?thesis
      using False h w n assms(2) three unfolding assms(3) button_released_def
      by (auto simp: button_inv_def clicks_counted_none)
  qed
qed

lemma button_after_snoc: "button_after (tr @ [x]) = sample_button (fst x) (snd x) (button_after tr)"
  by (simp add: button_after_def case_prod_beta)

lemma button_inv_after:
  "if pendingButtonAction (button_after tr) = NoAction then button_inv tr (button_after tr)
   else action_justified tr (pendingButtonAction (button_after tr))"
proof (induction tr rule: rev_induct)
  case Nil
  then show ?case by (simp add: button_after_def button_inv_init) (simp add: button_init_def)
next
  case (snoc x tr)
  obtain now p where x: "x = (now, p)" by fastforce
  show ?case
  proof (cases "pendingButtonAction (button_after tr) = NoAction")
    case True
    then have "button_inv tr (button_after tr)" using snoc by simp
    from press_step [OF this True refl, of now] release_step [OF this True refl, of now]
    show ?thesis using True by (cases p) (simp_all add: button_after_snoc sample_button_def x)
  next
    case False
    then show ?thesis using snoc action_justified_mono [of tr _ "[x]"] by (simp add: button_after_snoc sample_button_def)
  qed
qed

section \<open>Property\<close>

text \<open>Five quick clicks ask for a factory reset, so the property below is not about a button that never acts.\<close>

lemma five_clicks:
  "pendingButtonAction (button_after [(100, True), (160, True), (200, False), (400, True), (460, False), (700, True),
     (760, False), (1000, True), (1060, False), (1300, True), (1360, False)]) = FactoryReset"
  by code_simp

text \<open>
  C29: The configuration button never acts without cause, whatever the samples of its pin and the clock are
  (and across the wrap of the clock): a factory reset is only asked for after five clicks, a Wi-Fi reset after three,
  each pressed for 40 ms to 4 s and all released within 3 s of the first, and the edit mode only after a press of 4 s.
\<close>

theorem button_actions_justified:
  "action_justified tr (pendingButtonAction (button_after tr))"
  using button_inv_after [of tr] by (cases "pendingButtonAction (button_after tr) = NoAction") (simp_all add: action_justified_def)

end
