(* ===== verification/Wifi_Portal.thy ===== *)
theory Wifi_Portal
  imports Wifi_Pages Config_Button Wifi_Storage
begin

text \<open>
  The captive portal and the setup page of \<open>examples/src/wifi_provisioning.cpp\<close>: the form handlers, the
  start of the two web servers, the reaction to the button, and the module's loop. The module's
  variables extend the state; \<open>current\<close> always points to the application's \<open>deviceConfig\<close>.

  \<open>ESP.restart()\<close> does not return: \<open>restart\<close> sets \<open>restarted\<close>, and nothing of a function runs after it; a
  caller that goes on checks the flag. The web server's \<open>handleClient\<close> takes at most one request and
  calls the handler that was registered for it. A wait for the network is bounded: each of its rounds
  lets 100 ms pass, so the 20 s are over after 200 rounds.
\<close>

datatype portal_mode = PortalNone | PortalWifi | PortalDevice

record ('w, 'r) portal = "('w, 'r) mac_module" +
  wf_server :: bool
  wf_dns :: bool
  wf_mode :: portal_mode
  transitionPending :: bool
  transitionAt :: u32
  button_state :: button
  buttonTaskHandle :: bool
  buttonTaskStarted :: bool
  configEditRequested :: bool
  wifiResetRequested :: bool
  deviceConfig :: device_config
  restarted :: bool

type_synonym ('w, 'r, 'z, 'a) portal_op = "(('w, 'r, 'z) portal_scheme, 'a) state"

definition EDIT_REQUEST_PATH :: path where "EDIT_REQUEST_PATH = ''/esp32tun.edit''"
definition WIFI_RESET_REQUEST_PATH :: path where "WIFI_RESET_REQUEST_PATH = ''/esp32tun.wifi_reset''"
definition MINIS_CONFIG_PATH :: path where "MINIS_CONFIG_PATH = ''/minis.cfg''"
definition MINIS_CONFIG_TEMP_PATH :: path where "MINIS_CONFIG_TEMP_PATH = ''/minis.cfg.tmp''"
definition MINIS_CONFIG_BACKUP_PATH :: path where "MINIS_CONFIG_BACKUP_PATH = ''/minis.cfg.bak''"
definition MINIS_CFG_APPLIED_NOTICE_PATH :: path where "MINIS_CFG_APPLIED_NOTICE_PATH = ''/minis.cfg_applied_notice''"
definition WIFI_TIMEOUT_MS :: u32 where "WIFI_TIMEOUT_MS = 20000"

lemmas marker_defs = EDIT_REQUEST_PATH_def WIFI_RESET_REQUEST_PATH_def MINIS_CONFIG_PATH_def MINIS_CONFIG_TEMP_PATH_def
  MINIS_CONFIG_BACKUP_PATH_def MINIS_CFG_APPLIED_NOTICE_PATH_def

definition restart :: "'w board \<Rightarrow> ('w, 'r, 'z, unit) portal_op" where
  "restart B = do { ext (b_restart B); modify (\<lambda>s. s\<lparr>restarted := True\<rparr>) }"

section \<open>Starting\<close>

definition mountStorage :: "'w board \<Rightarrow> ('w, 'z, bool) board_op" where
  "mountStorage B = do {
     ok \<leftarrow> ext (fs_begin B);
     if ok then ret True
     else do {
       formatted \<leftarrow> ext (fs_format B);
       if formatted then ext (fs_begin B) else ret False } }"

definition startConfigButtonTask :: "'w board \<Rightarrow> ('w, 'r, 'z, bool) portal_op" where
  "startConfigButtonTask B =
     (if ESP32TUN_CONFIG_BUTTON_PIN B < 0 then ret False
      else do {
        h \<leftarrow> gets buttonTaskHandle;
        if h then ret True
        else do {
          ok \<leftarrow> ext (b_xTaskCreate B ''cfg-button'');
          modify (\<lambda>s. s\<lparr>buttonTaskHandle := ok\<rparr>);
          ret ok } })"

text \<open>One round of the button's task.\<close>

definition configButtonTask_round :: "'w board \<Rightarrow> ('w, 'r, 'z, unit) portal_op" where
  "configButtonTask_round B = do {
     b \<leftarrow> gets button_state;
     b' \<leftarrow> sampleConfigButton B b;
     modify (\<lambda>s. s\<lparr>button_state := b'\<rparr>);
     ext (b_delay B 20);
     ret () }"

definition sendWifiPage :: "'w board \<Rightarrow> string \<Rightarrow> ('w, 'r, 'z, unit) portal_op" where
  "sendWifiPage B err = do {
     networks \<leftarrow> ext (wifi_networks B);
     c \<leftarrow> gets deviceConfig;
     ext (srv_send B 200 (wifi_page networks (macVendor c) err)) }"

definition sendDevicePage :: "'w board \<Rightarrow> string \<Rightarrow> ('w, 'r, 'z, unit) portal_op" where
  "sendDevicePage B err = do {
     c \<leftarrow> gets deviceConfig;
     ext (srv_send B 200 (device_page c err)) }"

definition stopServices :: "'w board \<Rightarrow> ('w, 'r, 'z, unit) portal_op" where
  "stopServices B = do {
     d \<leftarrow> gets wf_dns;
     whenM d (do { ext (dns_stop B); modify (\<lambda>s. s\<lparr>wf_dns := False\<rparr>) });
     v \<leftarrow> gets wf_server;
     whenM v (do { ext (srv_stop B); modify (\<lambda>s. s\<lparr>wf_server := False\<rparr>) });
     modify (\<lambda>s. s\<lparr>wf_mode := PortalNone\<rparr>) }"

definition startDevicePortalInternal :: "'w board \<Rightarrow> ('w, 'r, 'z, bool) portal_op" where
  "startDevicePortalInternal B = do {
     made \<leftarrow> ext (srv_new B);
     modify (\<lambda>s. s\<lparr>wf_server := made\<rparr>);
     if \<not> made then ret False
     else do {
       ext (srv_begin B);
       modify (\<lambda>s. s\<lparr>wf_mode := PortalDevice\<rparr>);
       ret True } }"

definition hex_digits6 :: "u64 \<Rightarrow> string" where
  "hex_digits6 v = map (\<lambda>i. hexUpper ! unat (drop_bit (4 * (5 - i)) v AND 0x0F)) [0..<6]"

definition startWifiPortal :: "'w board \<Rightarrow> ('w, 'r, 'z, bool) portal_op" where
  "startWifiPortal B = do {
     let name = ''esp32tun-'' @ hex_digits6 (b_efuse_mac B AND 0xFFFFFF);
     ext (wifi_mode B ''AP_STA'');
     ap \<leftarrow> ext (wifi_softAP B name);
     if \<not> ap then ret False
     else do {
       ext (wifi_scanNetworks B);
       d \<leftarrow> ext (dns_new B);
       v \<leftarrow> ext (srv_new B);
       modify (\<lambda>s. s\<lparr>wf_dns := d, wf_server := v\<rparr>);
       if \<not> d \<or> \<not> v then do { stopServices B; ret False }
       else do {
         ext (dns_start B);
         ext (srv_begin B);
         modify (\<lambda>s. s\<lparr>wf_mode := PortalWifi\<rparr>);
         ret True } } }"

section \<open>Forms\<close>

fun replace_crlf :: "string \<Rightarrow> string" where
  "replace_crlf (a # b # s) = (if a = CR \<and> b = LF then LF # replace_crlf s else a # replace_crlf (b # s))"
| "replace_crlf s = s"

text \<open>The configuration with the submitted credentials; an empty field keeps what is stored.\<close>

definition submit_credentials :: "http_request \<Rightarrow> ssh_auth_method \<Rightarrow> device_config \<Rightarrow> device_config" where
  "submit_credentials rq storedAuthMethod c =
     (let submittedPassword = rq_arg rq ''ssh_password'';
          submittedKey = replace_crlf (rq_arg rq ''ssh_private_key'');
          submittedPublicKey = replace_crlf (rq_arg rq ''ssh_public_key'');
          submittedPassphrase = rq_arg rq ''ssh_key_passphrase''
      in if sshAuthMethod c = PasswordAuth then
           (if submittedPassword \<noteq> [] \<or> storedAuthMethod \<noteq> PasswordAuth then c\<lparr>sshPassword := submittedPassword\<rparr> else c)
         else if submittedKey \<noteq> [] then
           c\<lparr>sshPrivateKey := submittedKey, sshPublicKey := submittedPublicKey, sshKeyPassphrase := submittedPassphrase\<rparr>
         else if storedAuthMethod = PrivateKeyAuth then
           (let c = (if submittedPublicKey \<noteq> [] then c\<lparr>sshPublicKey := submittedPublicKey\<rparr> else c)
            in (if submittedPassphrase \<noteq> [] then c\<lparr>sshKeyPassphrase := submittedPassphrase\<rparr> else c))
         else c)"

text \<open>Storing a checked configuration: the keys first, then the configuration file.\<close>

definition store_device :: "'w board \<Rightarrow> device_config \<Rightarrow> ('w, 'r, 'z, unit) portal_op" where
  "store_device B c = do {
     stored \<leftarrow> (if sshAuthMethod c = PrivateKeyAuth then do {
         ok \<leftarrow> saveKeys B (sshPrivateKey c) (sshPublicKey c);
         ret (if ok then Some (c\<lparr>sshPassword := []\<rparr>) else None) }
       else do {
         removeIfExists B KEY_PATH;
         removeIfExists B PUBLIC_KEY_PATH;
         ret (Some (c\<lparr>sshPrivateKey := [], sshPublicKey := [], sshKeyPassphrase := []\<rparr>)) });
     (case stored of
        None \<Rightarrow> sendDevicePage B ''The SSH keys could not be stored.''
      | Some c \<Rightarrow> do {
          ok \<leftarrow> writeConfig B c;
          if \<not> ok then sendDevicePage B ''The configuration could not be stored.''
          else do {
            removeIfExists B EDIT_REQUEST_PATH;
            modify (\<lambda>s. s\<lparr>configEditRequested := False\<rparr>);
            ext (srv_send B 200 setup_done_page);
            ext (b_delay B 1500);
            restart B } }) }"

definition handleDeviceSave :: "'w board \<Rightarrow> http_request \<Rightarrow> ('w, 'r, 'z, unit) portal_op" where
  "handleDeviceSave B rq = do {
     current \<leftarrow> gets deviceConfig;
     let c = current\<lparr>sshHost := rq_arg rq ''ssh_host'', sshUsername := rq_arg rq ''ssh_user'',
       dc_remoteBindHost := rq_arg rq ''remote_host'', dc_localHost := rq_arg rq ''local_host''\<rparr>;
     (case (parsePort (rq_arg rq ''ssh_port''), parsePort (rq_arg rq ''remote_port''), parsePort (rq_arg rq ''local_port'')) of
        (Some p, Some q, Some r) \<Rightarrow> do {
          let c = c\<lparr>sshPort := p, dc_remoteBindPort := q, dc_localPort := r,
            sshAuthMethod := (if rq_arg rq ''ssh_auth'' = ''key'' then PrivateKeyAuth else PasswordAuth)\<rparr>;
          let c = (submit_credentials rq (sshAuthMethod current) c)\<lparr>setupComplete := True, tunnelEnabled := True\<rparr>;
          if \<not> validDeviceConfig c then
            sendDevicePage B (if sshAuthMethod c = PrivateKeyAuth
              then ''Enter a valid private key and optional OpenSSH public-key line.''
              else ''Complete all fields and enter an SSH password.'')
          else store_device B c }
      | _ \<Rightarrow> sendDevicePage B ''Every port must be between 1 and 65535.'') }"

text \<open>\<open>while (WiFi.status() != WL_CONNECTED && millis() - started < WIFI_TIMEOUT_MS) delay(100);\<close>\<close>

fun wait_connected :: "'w board \<Rightarrow> u32 \<Rightarrow> nat \<Rightarrow> ('w, 'z, unit) board_op" where
  "wait_connected B started 0 = ret ()"
| "wait_connected B started (Suc fuel) = do {
     up \<leftarrow> ext (wifi_connected B);
     if up then ret ()
     else do {
       now \<leftarrow> ext (b_millis B);
       if now - started < WIFI_TIMEOUT_MS then do { ext (b_delay B 100); wait_connected B started fuel } else ret () } }"

text \<open>What follows a successful test of the network.\<close>

definition store_wifi :: "'w board \<Rightarrow> string \<Rightarrow> string \<Rightarrow> mac_vendor \<Rightarrow> ('w, 'r, 'z, unit) portal_op" where
  "store_wifi B ssid password selectedVendor = do {
     requested \<leftarrow> gets wifiResetRequested;
     current \<leftarrow> gets deviceConfig;
     applied \<leftarrow> gets appliedVendor;
     let preserveDeviceConfig = (requested \<and> setupComplete current);
     let vendorChanged = (selectedVendor \<noteq> applied);
     let c = current\<lparr>wifiSsid := ssid, wifiPassword := password, macVendor := selectedVendor\<rparr>;
     let c = (if \<not> preserveDeviceConfig then c\<lparr>setupComplete := False\<rparr> else c);
     modify (\<lambda>s. s\<lparr>deviceConfig := c\<rparr>);
     ok \<leftarrow> writeConfig B c;
     if \<not> ok then sendWifiPage B ''WiFi worked, but the configuration could not be stored.''
     else do {
       whenM requested (do {
         removeIfExists B WIFI_RESET_REQUEST_PATH;
         modify (\<lambda>s. s\<lparr>wifiResetRequested := False\<rparr>) });
       if preserveDeviceConfig \<or> vendorChanged then do {
         ext (srv_send B 200 (wifi_done_page vendorChanged));
         ext (b_delay B 1500);
         restart B }
       else do {
         ip \<leftarrow> ext (wifi_localIP B);
         ext (srv_send B 200 (wifi_next_page ip));
         now \<leftarrow> ext (b_millis B);
         modify (\<lambda>s. s\<lparr>transitionPending := True, transitionAt := now\<rparr>) } } }"

definition handleWifiSave :: "'w board \<Rightarrow> http_request \<Rightarrow> ('w, 'r, 'z, unit) portal_op" where
  "handleWifiSave B rq = do {
     let ssid = (if rq_arg rq ''custom_ssid'' = [] then rq_arg rq ''ssid'' else rq_arg rq ''custom_ssid'');
     let password = rq_arg rq ''password'';
     (case mac_parse (rq_arg rq ''mac_vendor'') of
        None \<Rightarrow> sendWifiPage B ''Select a valid MAC vendor.''
      | Some selectedVendor \<Rightarrow>
          if ssid = [] \<or> length ssid > 32 then sendWifiPage B ''The SSID is missing or too long.''
          else if password \<noteq> [] \<and> (length password < 8 \<or> length password > 63) then
            sendWifiPage B ''A WiFi password must contain 8 to 63 characters.''
          else do {
            ext (wifi_begin B (c_str ssid) (c_str password));
            started \<leftarrow> ext (b_millis B);
            wait_connected B started 20001;
            up \<leftarrow> ext (wifi_connected B);
            if \<not> up then do {
              ext (wifi_disconnect B False False);
              sendWifiPage B ''Connection failed. Check the SSID and password.'' }
            else store_wifi B ssid password selectedVendor }) }"

text \<open>The handlers as they are registered for each server.\<close>

definition handleClient :: "'w board \<Rightarrow> ('w, 'r, 'z, unit) portal_op" where
  "handleClient B = do {
     r \<leftarrow> ext (srv_request B);
     m \<leftarrow> gets wf_mode;
     (case r of
        None \<Rightarrow> ret ()
      | Some rq \<Rightarrow>
          if m = PortalWifi then
            (if rq_post rq \<and> rq_uri rq = ''/save-wifi'' then handleWifiSave B rq else sendWifiPage B [])
          else if m = PortalDevice then
            (if rq_post rq \<and> rq_uri rq = ''/save-device'' then handleDeviceSave B rq else sendDevicePage B [])
          else ret ()) }"

section \<open>The module's interface\<close>

definition prov_begin :: "'w board \<Rightarrow> ('w, 'r, 'z, bool) portal_op" where
  "prov_begin B = do {
     mounted \<leftarrow> mountStorage B;
     if \<not> mounted then ret False
     else do {
       whenM (ESP32TUN_CONFIG_BUTTON_PIN B \<ge> 0) (do {
         ext (b_pinMode B (ESP32TUN_CONFIG_BUTTON_PIN B));
         started \<leftarrow> startConfigButtonTask B;
         modify (\<lambda>s. s\<lparr>buttonTaskStarted := started\<rparr>) });
       edit \<leftarrow> ext (fs_exists B EDIT_REQUEST_PATH);
       modify (\<lambda>s. s\<lparr>configEditRequested := edit\<rparr>);
       wreset \<leftarrow> ext (fs_exists B WIFI_RESET_REQUEST_PATH);
       modify (\<lambda>s. s\<lparr>wifiResetRequested := wreset\<rparr>);
       c \<leftarrow> gets deviceConfig;
       (configLoaded, c) \<leftarrow> loadConfig B c;
       modify (\<lambda>s. s\<lparr>deviceConfig := c\<rparr>);
       prepared \<leftarrow> prepareStation B (macVendor c);
       if \<not> prepared then ret False
       else if wreset then startWifiPortal B
       else if configLoaded then ret True
       else startWifiPortal B } }"

definition startDeviceSetup :: "'w board \<Rightarrow> ('w, 'r, 'z, bool) portal_op" where
  "startDeviceSetup B = do {
     up \<leftarrow> ext (wifi_connected B);
     if up then startDevicePortalInternal B else ret False }"

definition saveManagedConfig :: "'w board \<Rightarrow> device_config \<Rightarrow> ('w, 'z, bool) board_op" where
  "saveManagedConfig B c = (if \<not> setupComplete c then ret False else writeConfig B c)"

definition isActive :: "('w, 'r, 'z) portal_scheme \<Rightarrow> bool" where
  "isActive s \<longleftrightarrow> wf_mode s \<noteq> PortalNone"

definition editRequested :: "('w, 'r, 'z) portal_scheme \<Rightarrow> bool" where
  "editRequested s = configEditRequested s"

text \<open>A marker file; the state of the button starts over when it cannot be stored.\<close>

definition store_marker :: "'w board \<Rightarrow> path \<Rightarrow> ('w, 'r, 'z, bool) portal_op" where
  "store_marker B p = do {
     opened \<leftarrow> ext (fs_open_w B p);
     if \<not> opened then do { modify (\<lambda>s. s\<lparr>button_state := button_init\<rparr>); ret False }
     else do { ext (fs_print B p ''1''); ext (fs_close B p); ret True } }"

definition forget_wifi_and_restart :: "'w board \<Rightarrow> ('w, 'r, 'z, unit) portal_op" where
  "forget_wifi_and_restart B = do {
     ext (wifi_disconnect B False True);
     ext (b_delay B 100);
     ext (wifi_mode B ''OFF'');
     ext (b_delay B 150);
     restart B }"

definition factory_files :: "path list" where
  "factory_files = [CONFIG_PATH, CONFIG_TEMP, CONFIG_BACKUP, KEY_PATH, KEY_TEMP, PUBLIC_KEY_PATH, PUBLIC_KEY_TEMP,
     EDIT_REQUEST_PATH, WIFI_RESET_REQUEST_PATH, MINIS_CONFIG_PATH, MINIS_CONFIG_TEMP_PATH, MINIS_CONFIG_BACKUP_PATH,
     MINIS_CFG_APPLIED_NOTICE_PATH]"

definition pollConfigResetButton :: "'w board \<Rightarrow> ('w, 'r, 'z, unit) portal_op" where
  "pollConfigResetButton B =
     (if ESP32TUN_CONFIG_BUTTON_PIN B < 0 then ret ()
      else do {
        started \<leftarrow> gets buttonTaskStarted;
        whenM (\<not> started) (do {
          b \<leftarrow> gets button_state;
          b' \<leftarrow> sampleConfigButton B b;
          modify (\<lambda>s. s\<lparr>button_state := b'\<rparr>) });
        b \<leftarrow> gets button_state;
        (case pendingButtonAction b of
           NoAction \<Rightarrow> ret ()
         | Edit \<Rightarrow> do {
             ok \<leftarrow> store_marker B EDIT_REQUEST_PATH;
             whenM ok (do { ext (b_delay B 250); restart B }) }
         | WifiReset \<Rightarrow> do {
             ok \<leftarrow> store_marker B WIFI_RESET_REQUEST_PATH;
             whenM ok (do {
               removeIfExists B EDIT_REQUEST_PATH;
               stopServices B;
               forget_wifi_and_restart B }) }
         | FactoryReset \<Rightarrow> do {
             stopServices B;
             for_each (removeIfExists B) factory_files;
             forget_wifi_and_restart B }) })"

definition prov_loop :: "'w board \<Rightarrow> ('w, 'r, 'z, unit) portal_op" where
  "prov_loop B = do {
     m \<leftarrow> gets wf_mode;
     d \<leftarrow> gets wf_dns;
     whenM (m = PortalWifi \<and> d) (ext (dns_processNextRequest B));
     v \<leftarrow> gets wf_server;
     whenM v (handleClient B);
     stopped \<leftarrow> gets restarted;
     if stopped then ret ()
     else do {
       pending \<leftarrow> gets transitionPending;
       at \<leftarrow> gets transitionAt;
       whenM pending (do {
         now \<leftarrow> ext (b_millis B);
         whenM (now - at \<ge> 2500) (do {
           modify (\<lambda>s. s\<lparr>transitionPending := False\<rparr>);
           stopServices B;
           ext (wifi_softAPdisconnect B True);
           ext (wifi_mode B ''STA'');
           startDevicePortalInternal B;
           ret () }) });
       ext (b_delay B 2);
       ret () } }"

end
