(* ===== verification/Minis_Registration.thy ===== *)
theory Minis_Registration
  imports Minis_Parsing Wifi_Portal
begin

text \<open>
  The client of the Minis control plane, \<open>examples/src/minis_registration.cpp\<close>: requests over TLS, the queue of
  alerts, the heartbeat that fetches \<open>cfg.txt\<close>, and the task that runs them. The module's variables extend the
  state of the portal; a queue or task handle is the flag whether it is not null.

  The two FreeRTOS queues and the task notifications are parameters, the record \<open>minis_os\<close>. A call that blocks is where
  other tasks run: what they do is part of what the function does to the world.

  Reading a response may go on as long as the server sends; \<open>performGet\<close> takes a bound on the rounds of these
  loops and returns \<open>None\<close> when it is used up, as the code would still be reading. A wait with a deadline ends by itself: each
  round of \<open>wait_response\<close> lets at least a millisecond pass, so its 5001 rounds outlast the 5 s (theory \<open>Bounded_Waits\<close>). The \<open>logTlsHeap\<close> calls only log.
\<close>

section \<open>Data\<close>

definition MINIS_HOST :: string where "MINIS_HOST = ''cloud.supcom.nl''"
definition MINIS_HTTPS_PORT :: nat where "MINIS_HTTPS_PORT = 443"
definition MINIS_PATH :: string where "MINIS_PATH = ''/hb/''"
definition MINIS_TIMEOUT_MS :: u32 where "MINIS_TIMEOUT_MS = 5000"
definition ONBOARDING_HEARTBEAT_INTERVAL_MIN :: u16 where "ONBOARDING_HEARTBEAT_INTERVAL_MIN = 2"
definition INITIAL_CONFIG_DELAY_MS :: u32 where "INITIAL_CONFIG_DELAY_MS = 5000"
definition MINIS_TLS_MIN_LARGEST_BLOCK :: nat where "MINIS_TLS_MIN_LARGEST_BLOCK = 31 * 1024"
definition MINIS_TLS_MIN_FREE_HEAP :: nat where "MINIS_TLS_MIN_FREE_HEAP = 70 * 1024"
definition MINIS_ALERT_PATH :: string where "MINIS_ALERT_PATH = ''/uploot.php''"
definition CONFIG_APPLIED_NOTICE_PATH :: path where "CONFIG_APPLIED_NOTICE_PATH = ''/minis.cfg_applied_notice''"
definition ALERT_QUEUE_DEPTH :: nat where "ALERT_QUEUE_DEPTH = 4"
definition ALERT_LEVEL_SIZE :: nat where "ALERT_LEVEL_SIZE = 9"
definition ALERT_TITLE_SIZE :: nat where "ALERT_TITLE_SIZE = 97"
definition ALERT_MESSAGE_SIZE :: nat where "ALERT_MESSAGE_SIZE = 257"
definition ALERT_TAG_SIZE :: nat where "ALERT_TAG_SIZE = 49"
definition CACHED_CONFIG_PATH :: path where "CACHED_CONFIG_PATH = ''/minis.cfg''"
definition CACHED_CONFIG_TEMP_PATH :: path where "CACHED_CONFIG_TEMP_PATH = ''/minis.cfg.tmp''"
definition CACHED_CONFIG_BACKUP_PATH :: path where "CACHED_CONFIG_BACKUP_PATH = ''/minis.cfg.bak''"
definition FIRMWARE_VERSION :: string where "FIRMWARE_VERSION = ''1.0.0-beta.1''"

text \<open>\<open>strlcpy\<close> into a buffer of the given size.\<close>

definition strlcpy :: "nat \<Rightarrow> string \<Rightarrow> string" where
  "strlcpy n s = take (n - 1) s"

record queued_alert =
  al_level :: string
  al_title :: string
  al_message :: string
  al_tag :: string
  clearConfigAppliedNotice :: bool

datatype alert_send_result = AlertNone | AlertSent | AlertDeferred

record queued_managed_config =
  qm_enabled :: bool
  qm_sshPort :: u16
  qm_remoteBindPort :: u16
  qm_localPort :: u16
  qm_macVendorPresent :: bool
  qm_sshHost :: string
  qm_remoteBindHost :: string
  qm_localHost :: string
  qm_macVendor :: string

record managed_tunnel_config =
  mt_enabled :: bool
  mt_sshHost :: string
  mt_sshPort :: u16
  mt_remoteBindHost :: string
  mt_remoteBindPort :: u16
  mt_localHost :: string
  mt_localPort :: u16
  mt_macVendorPresent :: bool
  mt_macVendor :: string

definition managed_default :: managed_tunnel_config where
  "managed_default = \<lparr>mt_enabled = False, mt_sshHost = [], mt_sshPort = 0, mt_remoteBindHost = [], mt_remoteBindPort = 0,
     mt_localHost = [], mt_localPort = 0, mt_macVendorPresent = False, mt_macVendor = []\<rparr>"

record ('w, 'r) minis = "('w, 'r) portal" +
  heartbeatTaskHandle :: bool
  managedConfigQueue :: bool
  alertQueue :: bool
  heartbeatIntervalMin :: u16

type_synonym ('w, 'r, 'z, 'a) minis_op = "(('w, 'r, 'z) minis_scheme, 'a) state"

text \<open>A FreeRTOS queue, and what the module uses of the operating system.\<close>

record ('w, 'e) rtos_queue =
  q_create :: "nat \<Rightarrow> 'w \<Rightarrow> bool \<times> 'w"
  q_delete :: "'w \<Rightarrow> unit \<times> 'w"
  q_send :: "'e \<Rightarrow> 'w \<Rightarrow> bool \<times> 'w"
  q_overwrite :: "'e \<Rightarrow> 'w \<Rightarrow> bool \<times> 'w"
  q_peek :: "'w \<Rightarrow> 'e option \<times> 'w"
  q_receive :: "'w \<Rightarrow> 'e option \<times> 'w"
  q_waiting :: "'w \<Rightarrow> nat \<times> 'w"

record 'w minis_os =
  alerts :: "('w, queued_alert) rtos_queue"
  configs :: "('w, queued_managed_config) rtos_queue"
  os_ms_to_ticks :: "u64 \<Rightarrow> u32"
  os_tickCount :: "'w \<Rightarrow> u32 \<times> 'w"
  os_notifyTake :: "bool \<Rightarrow> u32 \<Rightarrow> 'w \<Rightarrow> u32 \<times> 'w"
  os_notifyGive :: "'w \<Rightarrow> unit \<times> 'w"

section \<open>Identity and memory\<close>

text \<open>\<open>%08x\<close>; the String is built once and the register it comes from never changes.\<close>

definition buildSid :: "'w board \<Rightarrow> string" where
  "buildSid B = hex_digits_of 8 (b_efuse_mac B AND 0xFFFFFFFF)"

definition sid :: "'w board \<Rightarrow> string" where
  "sid B = buildSid B"

definition tlsMemoryAvailable :: "'w board \<Rightarrow> ('w, 'z, bool) board_op" where
  "tlsMemoryAvailable B = do {
     freeHeap \<leftarrow> ext (b_free_heap B);
     largestBlock \<leftarrow> ext (b_largest_block B);
     if freeHeap < MINIS_TLS_MIN_FREE_HEAP then ret False
     else if largestBlock < MINIS_TLS_MIN_LARGEST_BLOCK then ret False
     else ret True }"

section \<open>Alerts\<close>

definition alert_body :: "string \<Rightarrow> queued_alert \<Rightarrow> string" where
  "alert_body clientSid a =
     (let body = appendFormField [] ''sid'' clientSid;
          body = appendFormField body ''alert_level'' (al_level a);
          body = appendFormField body ''alert_title'' (al_title a);
          body = appendFormField body ''alert_message'' (al_message a)
      in appendFormField body ''alert_tag'' (al_tag a))"

definition crlf :: string where
  "crlf = [CR, LF]"

definition alert_request :: "string \<Rightarrow> string list" where
  "alert_request body =
     [''POST '', MINIS_ALERT_PATH, '' HTTP/1.1'' @ crlf @ ''Host: '', MINIS_HOST, crlf @ ''User-Agent: MHB;v'', FIRMWARE_VERSION,
      '';ESP32;alert'' @ crlf @ ''Content-Type: application/x-www-form-urlencoded'' @ crlf @ ''Content-Length: '',
      decimal (length body), crlf @ ''Connection: close'' @ crlf @ crlf, body]"

definition tls_print :: "'w board \<Rightarrow> string \<Rightarrow> ('w, 'z, unit) board_op" where
  "tls_print B s = do { ext (tls_write B s); ret () }"

fun wait_response :: "'w board \<Rightarrow> u32 \<Rightarrow> nat \<Rightarrow> ('w, 'z, unit) board_op" where
  "wait_response B deadline 0 = ret ()"
| "wait_response B deadline (Suc n) = do {
     a \<leftarrow> ext (tls_available B);
     if a then ret ()
     else do {
       c \<leftarrow> ext (tls_connected B);
       if \<not> c then ret ()
       else do {
         now \<leftarrow> ext (b_millis B);
         if sint (deadline - now) > 0 then do {
           ext (b_delay B 10);
           wait_response B deadline n }
         else ret () } } }"

definition performAlertPost :: "'w board \<Rightarrow> queued_alert \<Rightarrow> ('w, 'z, int) board_op" where
  "performAlertPost B a = do {
     up \<leftarrow> ext (wifi_connected B);
     if \<not> up then ret (-3)
     else do {
       mem \<leftarrow> tlsMemoryAvailable B;
       if \<not> mem then ret (-2)
       else do {
         ok \<leftarrow> ext (tls_connect B MINIS_HOST MINIS_HTTPS_PORT);
         if \<not> ok then do { ext (tls_stop B); ret (-1) }
         else do {
           for_each (tls_print B) (alert_request (alert_body (sid B) a));
           now \<leftarrow> ext (b_millis B);
           wait_response B (now + MINIS_TIMEOUT_MS) 5001;
           av \<leftarrow> ext (tls_available B);
           if \<not> av then do { ext (tls_stop B); ret (-1) }
           else do {
             statusLine \<leftarrow> ext (tls_readBytesUntil B LF 95);
             ext (tls_stop B);
             ret (parseHttpStatus statusLine) } } } } }"

definition applied_notice :: queued_alert where
  "applied_notice = \<lparr>al_level = strlcpy ALERT_LEVEL_SIZE ''info'',
     al_title = strlcpy ALERT_TITLE_SIZE ''ESP32 cfg.txt toegepast'',
     al_message = strlcpy ALERT_MESSAGE_SIZE ''Nieuwe Minis cfg.txt is opgeslagen en na herstart toegepast.'',
     al_tag = strlcpy ALERT_TAG_SIZE ''cfg-applied'', clearConfigAppliedNotice = True\<rparr>"

definition queueConfigAppliedNoticeIfNeeded :: "'w board \<Rightarrow> 'w minis_os \<Rightarrow> ('w, 'r, 'z, bool) minis_op" where
  "queueConfigAppliedNoticeIfNeeded B M = do {
     q \<leftarrow> gets alertQueue;
     if \<not> q then ret True
     else do {
       e \<leftarrow> ext (fs_exists B CONFIG_APPLIED_NOTICE_PATH);
       if \<not> e then ret True else ext (q_send (alerts M) applied_notice) } }"

definition sendNextQueuedAlert :: "'w board \<Rightarrow> 'w minis_os \<Rightarrow> ('w, 'r, 'z, alert_send_result) minis_op" where
  "sendNextQueuedAlert B M = do {
     q \<leftarrow> gets alertQueue;
     if \<not> q then ret AlertNone
     else do {
       p \<leftarrow> ext (q_peek (alerts M));
       (case p of
          None \<Rightarrow> ret AlertNone
        | Some a \<Rightarrow> do {
            status \<leftarrow> performAlertPost B a;
            if status \<noteq> 200 then ret AlertDeferred
            else do {
              d \<leftarrow> ext (q_receive (alerts M));
              (case d of
                 None \<Rightarrow> ret AlertDeferred
               | Some delivered \<Rightarrow> do {
                   whenM (clearConfigAppliedNotice delivered) (do {
                     e \<leftarrow> ext (fs_exists B CONFIG_APPLIED_NOTICE_PATH);
                     whenM e (do { ext (fs_remove B CONFIG_APPLIED_NOTICE_PATH); ret () }) });
                   ret AlertSent }) } }) } }"

section \<open>Requests\<close>

definition get_request :: "'w board \<Rightarrow> string \<Rightarrow> string list" where
  "get_request B suffix =
     [''GET '', MINIS_PATH, sid B, suffix, '' HTTP/1.1'' @ crlf @ ''Host: '', MINIS_HOST, crlf @ ''User-Agent: MHB;v'',
      FIRMWARE_VERSION, '';ESP32;embedded'' @ crlf @ ''Connection: close'' @ crlf @ crlf]"

definition content_length :: "string \<Rightarrow> int \<Rightarrow> int" where
  "content_length line contentLength =
     (let l = c_str line; header = ''Content-Length:'' in
      if take (length header) l = header then
        (case parseUnsigned (dropWhile isBlank (drop (length header) l)) of
           Some n \<Rightarrow> if n \<le> 0x7FFFFFFF then int (unat n) else contentLength
         | None \<Rightarrow> contentLength)
      else contentLength)"

fun read_headers :: "'w board \<Rightarrow> nat \<Rightarrow> int \<Rightarrow> ('w, 'z, int option) board_op" where
  "read_headers B 0 contentLength = ret None"
| "read_headers B (Suc fuel) contentLength = do {
     line \<leftarrow> ext (tls_readBytesUntil B LF 95);
     if length line = 0 \<or> (length line = 1 \<and> hd line = CR) then ret (Some contentLength)
     else read_headers B fuel (content_length line contentLength) }"

text \<open>The response so far, whether it is complete, and the time of the last byte.\<close>

fun read_available :: "'w board \<Rightarrow> nat \<Rightarrow> nat \<Rightarrow> string \<times> bool \<times> u32 \<Rightarrow> ('w, 'z, (string \<times> bool \<times> u32) option) board_op" where
  "read_available B 0 cap r = ret None"
| "read_available B (Suc fuel) cap r = do {
     a \<leftarrow> ext (tls_available B);
     if \<not> a then ret (Some r)
     else do {
       v \<leftarrow> ext (tls_read B);
       if v < 0 then ret (Some r)
       else do {
         now \<leftarrow> ext (b_millis B);
         let (response, complete, lastDataAt) = r;
         read_available B fuel cap
           (if length response + 1 < cap then (response @ [char_of (nat v)], complete, now) else (response, False, now)) } } }"

fun read_body :: "'w board \<Rightarrow> nat \<Rightarrow> nat \<Rightarrow> string \<times> bool \<times> u32 \<Rightarrow> ('w, 'z, (string \<times> bool) option) board_op" where
  "read_body B 0 cap r = ret None"
| "read_body B (Suc fuel) cap r = do {
     c \<leftarrow> ext (tls_connected B);
     a \<leftarrow> (if c then ret True else ext (tls_available B));
     if \<not> a then ret (Some (fst r, fst (snd r)))
     else do {
       x \<leftarrow> read_available B (Suc fuel) cap r;
       (case x of
          None \<Rightarrow> ret None
        | Some (response, complete, lastDataAt) \<Rightarrow> do {
            now \<leftarrow> ext (b_millis B);
            if now - lastDataAt \<ge> MINIS_TIMEOUT_MS then ret (Some (response, False))
            else do {
              ext (b_delay B 10);
              read_body B fuel cap (response, complete, lastDataAt) } }) } }"

text \<open>The part of \<open>performGet\<close> that reads headers and body of a response of status 200.\<close>

definition read_response :: "'w board \<Rightarrow> nat \<Rightarrow> nat \<Rightarrow> ('w, 'z, (string \<times> bool) option) board_op" where
  "read_response B fuel cap = do {
     h \<leftarrow> read_headers B fuel (-1);
     (case h of
        None \<Rightarrow> ret None
      | Some contentLength \<Rightarrow>
          if contentLength \<ge> 0 then
            (if nat contentLength \<ge> cap then ret (Some ([], False))
             else do {
               bs \<leftarrow> ext (tls_readBytes B (nat contentLength));
               ret (Some (bs, length bs = nat contentLength)) })
          else do {
            now \<leftarrow> ext (b_millis B);
            read_body B fuel cap ([], True, now) }) }"

text \<open>The buffer for the response is its capacity, \<open>None\<close> for the null pointer; the result is the status and the response.\<close>

definition performGet :: "'w board \<Rightarrow> nat \<Rightarrow> string \<Rightarrow> nat option \<Rightarrow> ('w, 'z, (int \<times> string) option) board_op" where
  "performGet B fuel suffix buffer = do {
     mem \<leftarrow> tlsMemoryAvailable B;
     if \<not> mem then ret (Some (-2, []))
     else do {
       ok \<leftarrow> ext (tls_connect B MINIS_HOST MINIS_HTTPS_PORT);
       if \<not> ok then do { ext (tls_stop B); ret (Some (-1, [])) }
       else do {
         for_each (tls_print B) (get_request B suffix);
         line \<leftarrow> ext (tls_readBytesUntil B LF 95);
         let status = parseHttpStatus line;
         (case buffer of
            None \<Rightarrow> do { ext (tls_stop B); ret (Some (status, [])) }
          | Some cap \<Rightarrow>
              if status < 0 \<or> cap < 2 \<or> status \<noteq> 200 then do { ext (tls_stop B); ret (Some (status, [])) }
              else do {
                r \<leftarrow> read_response B fuel cap;
                (case r of
                   None \<Rightarrow> ret None
                 | Some (response, complete) \<Rightarrow> do {
                     ext (tls_stop B);
                     if \<not> complete then ret (Some (-1, [])) else ret (Some (status, response)) }) }) } } }"

text \<open>The bootstrap passes no buffer, so no loop is entered.\<close>

definition sendBootstrap :: "'w board \<Rightarrow> ('w, 'z, bool) board_op" where
  "sendBootstrap B = do {
     up \<leftarrow> ext (wifi_connected B);
     if \<not> up then ret False
     else do {
       r \<leftarrow> performGet B 0 ''/'' None;
       ret (case r of Some (status, _) \<Rightarrow> status > 0 | None \<Rightarrow> False) } }"

definition registerClient :: "'w board \<Rightarrow> ('w, 'z, bool) board_op" where
  "registerClient B = sendBootstrap B"

section \<open>The heartbeat interval\<close>

definition writeCachedHeartbeatInterval :: "'w board \<Rightarrow> u16 \<Rightarrow> ('w, 'z, bool) board_op" where
  "writeCachedHeartbeatInterval B intervalMin = do {
     removeIfExists B CACHED_CONFIG_TEMP_PATH;
     opened \<leftarrow> ext (fs_open_w B CACHED_CONFIG_TEMP_PATH);
     if \<not> opened then ret False
     else do {
       ext (fs_print B CACHED_CONFIG_TEMP_PATH ''HB_INTERVAL_MIN='');
       println B CACHED_CONFIG_TEMP_PATH (decimal (unat intervalMin));
       ext (fs_flush B CACHED_CONFIG_TEMP_PATH);
       ext (fs_close B CACHED_CONFIG_TEMP_PATH);
       replace_file B CACHED_CONFIG_TEMP_PATH CACHED_CONFIG_PATH CACHED_CONFIG_BACKUP_PATH } }"

text \<open>The interval a cached text gives, if it is usable.\<close>

definition cached_interval :: "string \<Rightarrow> u16 option" where
  "cached_interval content =
     (if length content = 0 \<or> length content \<ge> CONFIG_BUFFER_SIZE then None
      else let (ok, parsed) = parseConfig (c_str content) in
        if \<not> ok \<or> \<not> present (heartbeatInterval parsed) \<or> \<not> valid (heartbeatInterval parsed) then None
        else Some (val (heartbeatInterval parsed)))"

definition loadCachedHeartbeatInterval :: "'w board \<Rightarrow> ('w, 'r, 'z, unit) minis_op" where
  "loadCachedHeartbeatInterval B = do {
     e \<leftarrow> ext (fs_exists B CACHED_CONFIG_PATH);
     if \<not> e then ret ()
     else do {
       f \<leftarrow> ext (fs_read B CACHED_CONFIG_PATH);
       (case f of
          None \<Rightarrow> ret ()
        | Some content \<Rightarrow>
            (case cached_interval content of
               None \<Rightarrow> ret ()
             | Some n \<Rightarrow> modify (\<lambda>s. s\<lparr>heartbeatIntervalMin := n\<rparr>))) } }"

definition nextHeartbeatDelaySeconds :: "'w board \<Rightarrow> ('w, 'r, 'z, u32) minis_op" where
  "nextHeartbeatDelaySeconds B = do {
     n \<leftarrow> gets heartbeatIntervalMin;
     let baseSeconds = ucast n * 60;
     r \<leftarrow> ext (b_random B);
     ret (baseSeconds + r mod (baseSeconds + 1)) }"

section \<open>The managed configuration\<close>

definition queued_of :: "parsed_config \<Rightarrow> queued_managed_config" where
  "queued_of p = \<lparr>qm_enabled = val (pc_tunnelEnabled p), qm_sshPort = val (pc_sshPort p),
     qm_remoteBindPort = val (pc_remoteBindPort p), qm_localPort = val (pc_localPort p),
     qm_macVendorPresent = present (pc_macVendor p),
     qm_sshHost = strlcpy (MAX_CONFIG_HOST_LENGTH + 1) (val (pc_sshHost p)),
     qm_remoteBindHost = strlcpy (MAX_CONFIG_HOST_LENGTH + 1) (val (pc_remoteBindHost p)),
     qm_localHost = strlcpy (MAX_CONFIG_HOST_LENGTH + 1) (val (pc_localHost p)),
     qm_macVendor = (if present (pc_macVendor p) then strlcpy (MAX_MAC_VENDOR_LENGTH + 1) (val (pc_macVendor p)) else [])\<rparr>"

definition queueManagedConfig :: "'w minis_os \<Rightarrow> parsed_config \<Rightarrow> ('w, 'r, 'z, bool) minis_op" where
  "queueManagedConfig M p = do {
     q \<leftarrow> gets managedConfigQueue;
     if \<not> q then ret False else ext (q_overwrite (configs M) (queued_of p)) }"

text \<open>What \<open>refreshConfig\<close> accepts of a response.\<close>

definition accepted_config :: "string \<Rightarrow> parsed_config option" where
  "accepted_config config =
     (let (ok, parsed) = parseConfig (c_str config) in
      if length config = 0 \<or> \<not> ok then None
      else if \<not> present (heartbeatInterval parsed) \<or> \<not> valid (heartbeatInterval parsed) \<or> \<not> hasCompleteTunnelConfig parsed then None
      else Some parsed)"

definition refreshConfig :: "'w board \<Rightarrow> 'w minis_os \<Rightarrow> nat \<Rightarrow> ('w, 'r, 'z, bool option) minis_op" where
  "refreshConfig B M fuel = do {
     up \<leftarrow> ext (wifi_connected B);
     if \<not> up then ret (Some False)
     else do {
       r \<leftarrow> performGet B fuel ''/cfg.txt'' (Some CONFIG_BUFFER_SIZE);
       (case r of
          None \<Rightarrow> ret None
        | Some (status, config) \<Rightarrow>
            if status \<noteq> 200 then ret (Some False)
            else (case accepted_config config of
                None \<Rightarrow> ret (Some False)
              | Some parsed \<Rightarrow> do {
                  cur \<leftarrow> gets heartbeatIntervalMin;
                  whenM (val (heartbeatInterval parsed) \<noteq> cur) (do {
                    modify (\<lambda>s. s\<lparr>heartbeatIntervalMin := val (heartbeatInterval parsed)\<rparr>);
                    writeCachedHeartbeatInterval B (val (heartbeatInterval parsed));
                    ret () });
                  queued \<leftarrow> queueManagedConfig M parsed;
                  ret (Some queued) })) } }"

section \<open>The task\<close>

text \<open>What \<open>heartbeatTask\<close> does before its loop.\<close>

definition heartbeat_start :: "'w board \<Rightarrow> 'w minis_os \<Rightarrow> nat \<Rightarrow> ('w, 'r, 'z, unit option) minis_op" where
  "heartbeat_start B M fuel = do {
     loadCachedHeartbeatInterval B;
     queueConfigAppliedNoticeIfNeeded B M;
     ext (b_delay B INITIAL_CONFIG_DELAY_MS);
     r \<leftarrow> refreshConfig B M fuel;
     (case r of None \<Rightarrow> ret None | Some _ \<Rightarrow> do { sendNextQueuedAlert B M; ret (Some ()) }) }"

text \<open>The wait for the next heartbeat, interrupted by notifications of new alerts.\<close>

fun heartbeat_wait :: "'w board \<Rightarrow> 'w minis_os \<Rightarrow> nat \<Rightarrow> u32 \<Rightarrow> ('w, 'r, 'z, unit option) minis_op" where
  "heartbeat_wait B M 0 heartbeatRemaining = ret None"
| "heartbeat_wait B M (Suc fuel) heartbeatRemaining =
     (if heartbeatRemaining = 0 then ret (Some ())
      else do {
        waitStarted \<leftarrow> ext (os_tickCount M);
        notified \<leftarrow> ext (os_notifyTake M False heartbeatRemaining);
        whenM (notified > 0) (do {
          result \<leftarrow> sendNextQueuedAlert B M;
          whenM (result = AlertDeferred) (do { ext (os_notifyTake M True 0); ret () }) });
        now \<leftarrow> ext (os_tickCount M);
        let elapsed = now - waitStarted;
        heartbeat_wait B M fuel (if elapsed \<ge> heartbeatRemaining then 0 else heartbeatRemaining - elapsed) })"

definition heartbeat_round :: "'w board \<Rightarrow> 'w minis_os \<Rightarrow> nat \<Rightarrow> ('w, 'r, 'z, unit option) minis_op" where
  "heartbeat_round B M fuel = do {
     delaySeconds \<leftarrow> nextHeartbeatDelaySeconds B;
     waited \<leftarrow> heartbeat_wait B M fuel (os_ms_to_ticks M (ucast delaySeconds * 1000));
     (case waited of
        None \<Rightarrow> ret None
      | Some _ \<Rightarrow> do {
          r \<leftarrow> refreshConfig B M fuel;
          (case r of
             None \<Rightarrow> ret None
           | Some _ \<Rightarrow> do {
               result \<leftarrow> sendNextQueuedAlert B M;
               q \<leftarrow> gets alertQueue;
               whenM (result = AlertSent \<and> q) (do {
                 n \<leftarrow> ext (q_waiting (alerts M));
                 whenM (n > 0) (ext (os_notifyGive M)) });
               ret (Some ()) }) }) }"

definition startHeartbeatTask :: "'w board \<Rightarrow> 'w minis_os \<Rightarrow> ('w, 'r, 'z, bool) minis_op" where
  "startHeartbeatTask B M = do {
     h \<leftarrow> gets heartbeatTaskHandle;
     if h then ret True
     else do {
       c \<leftarrow> gets managedConfigQueue;
       c' \<leftarrow> (if c then ret True else ext (q_create (configs M) 1));
       modify (\<lambda>s. s\<lparr>managedConfigQueue := c'\<rparr>);
       if \<not> c' then ret False
       else do {
         a \<leftarrow> gets alertQueue;
         a' \<leftarrow> (if a then ret True else ext (q_create (alerts M) ALERT_QUEUE_DEPTH));
         modify (\<lambda>s. s\<lparr>alertQueue := a'\<rparr>);
         if \<not> a' then do {
           ext (q_delete (configs M));
           modify (\<lambda>s. s\<lparr>managedConfigQueue := False\<rparr>);
           ret False }
         else do {
           t \<leftarrow> ext (b_xTaskCreate B ''minis_hb'');
           modify (\<lambda>s. s\<lparr>heartbeatTaskHandle := t\<rparr>);
           if \<not> t then do {
             ext (q_delete (configs M));
             modify (\<lambda>s. s\<lparr>managedConfigQueue := False\<rparr>);
             ext (q_delete (alerts M));
             modify (\<lambda>s. s\<lparr>alertQueue := False\<rparr>);
             ret False }
           else ret True } } } }"

section \<open>Calls of other tasks\<close>

definition markConfigAppliedNotice :: "'w board \<Rightarrow> ('w, 'z, bool) board_op" where
  "markConfigAppliedNotice B = do {
     opened \<leftarrow> ext (fs_open_w B CONFIG_APPLIED_NOTICE_PATH);
     if \<not> opened then ret False
     else do {
       written \<leftarrow> ext (fs_print B CONFIG_APPLIED_NOTICE_PATH FIRMWARE_VERSION);
       ext (fs_flush B CONFIG_APPLIED_NOTICE_PATH);
       ext (fs_close B CONFIG_APPLIED_NOTICE_PATH);
       ret (written \<noteq> 0) } }"

definition normalizedLevel :: "string \<Rightarrow> string option" where
  "normalizedLevel level =
     (if level = ''info'' then Some ''info''
      else if level = ''warn'' \<or> level = ''warning'' then Some ''warn''
      else if level = ''critical'' \<or> level = ''error'' then Some ''critical''
      else None)"

definition alert_of :: "string \<Rightarrow> string option \<Rightarrow> string \<Rightarrow> string option \<Rightarrow> queued_alert" where
  "alert_of level title message tg = \<lparr>al_level = strlcpy ALERT_LEVEL_SIZE level,
     al_title = (case title of None \<Rightarrow> [] | Some t \<Rightarrow> strlcpy ALERT_TITLE_SIZE t),
     al_message = strlcpy ALERT_MESSAGE_SIZE message,
     al_tag = (case tg of None \<Rightarrow> [] | Some t \<Rightarrow> strlcpy ALERT_TAG_SIZE t), clearConfigAppliedNotice = False\<rparr>"

text \<open>A null pointer is \<open>None\<close>.\<close>

definition queueAlert ::
  "'w minis_os \<Rightarrow> string option \<Rightarrow> string option \<Rightarrow> string option \<Rightarrow> string option \<Rightarrow> ('w, 'r, 'z, bool) minis_op" where
  "queueAlert M level title message tg = do {
     h \<leftarrow> gets heartbeatTaskHandle;
     q \<leftarrow> gets alertQueue;
     if \<not> h \<or> \<not> q then ret False
     else (case (level, message) of
         (Some l, Some m) \<Rightarrow>
           if m = [] then ret False
           else (case normalizedLevel l of
               None \<Rightarrow> ret False
             | Some nl \<Rightarrow> do {
                 sent \<leftarrow> ext (q_send (alerts M) (alert_of nl title m tg));
                 if \<not> sent then ret False
                 else do {
                   ext (os_notifyGive M);
                   ret True } })
       | _ \<Rightarrow> ret False) }"

definition take_managed :: "queued_managed_config \<Rightarrow> managed_tunnel_config \<Rightarrow> managed_tunnel_config" where
  "take_managed q c = \<lparr>mt_enabled = qm_enabled q, mt_sshHost = qm_sshHost q, mt_sshPort = qm_sshPort q,
     mt_remoteBindHost = qm_remoteBindHost q, mt_remoteBindPort = qm_remoteBindPort q, mt_localHost = qm_localHost q,
     mt_localPort = qm_localPort q, mt_macVendorPresent = qm_macVendorPresent q,
     mt_macVendor = (if qm_macVendorPresent q then qm_macVendor q else mt_macVendor c)\<rparr>"

definition takeManagedTunnelConfig ::
  "'w minis_os \<Rightarrow> managed_tunnel_config \<Rightarrow> ('w, 'r, 'z, managed_tunnel_config option) minis_op" where
  "takeManagedTunnelConfig M c = do {
     q \<leftarrow> gets managedConfigQueue;
     if \<not> q then ret None
     else do {
       r \<leftarrow> ext (q_receive (configs M));
       ret (map_option (\<lambda>x. take_managed x c) r) } }"

end
