(* ===== verification/Minis_Upload.thy ===== *)
theory Minis_Upload
  imports Minis_Registration
begin

text \<open>
  The upload of the public key and of the genesis report, \<open>examples/src/minis_public_key_upload.cpp\<close>: multipart requests
  over TLS, and the marker file that makes the report a one-time upload per key. \<open>writeAll\<close> sends at least one
  byte per round, so as many rounds as there are bytes are enough; the wait for a response has 10001 rounds of at least a millisecond.
\<close>

definition UPLOAD_HOST :: string where "UPLOAD_HOST = ''cloud.supcom.nl''"
definition UPLOAD_PORT :: nat where "UPLOAD_PORT = 443"
definition UPLOAD_PATH :: string where "UPLOAD_PATH = ''/uploot.php''"
definition BOUNDARY :: string where "BOUNDARY = ''----ESP32MinisUpload7MA4YWxkTrZu0gW''"
definition GENESIS_MARKER_PATH :: path where "GENESIS_MARKER_PATH = ''/esp32tun.genesis_key''"

fun writeAll_loop :: "'w board \<Rightarrow> nat \<Rightarrow> string \<Rightarrow> ('w, 'z, bool) board_op" where
  "writeAll_loop B 0 data = ret (data = [])"
| "writeAll_loop B (Suc rounds) data =
     (if data = [] then ret True
      else do {
        written \<leftarrow> ext (tls_write B data);
        if written = 0 then ret False else writeAll_loop B rounds (drop written data) })"

definition writeAll :: "'w board \<Rightarrow> string \<Rightarrow> ('w, 'z, bool) board_op" where
  "writeAll B data = writeAll_loop B (length data) data"

definition uploadKeyTag :: "string \<Rightarrow> string" where
  "uploadKeyTag key =
     (let h = foldl (\<lambda>h c. (h XOR of_nat (char_code c)) * 1099511628211) (1469598103934665603 :: u64) key
      in hex_digits_of 8 (drop_bit 32 h) @ hex_digits_of 8 (h AND 0xffffffff))"

definition publicKeyAlgorithm :: "string \<Rightarrow> string" where
  "publicKeyAlgorithm publicKey =
     (let key = trim publicKey; separator = indexOf key '' '' in
      if separator \<le> 0 then ''unknown'' else take (nat separator) key)"

text \<open>\<open>b_strftime\<close> returns the empty text when the time cannot be printed.\<close>

definition localTimestamp :: "'w board \<Rightarrow> ('w, 'z, string) board_op" where
  "localTimestamp B = do {
     now \<leftarrow> ext (b_time B);
     let stamp = b_strftime B ''%Y-%m-%d %H:%M:%S %Z'' now;
     ret (if now < 1700000000 \<or> stamp = [] then ''unavailable (use Minis Uploads/Timeline timestamp)'' else stamp) }"

section \<open>Multipart requests\<close>

definition quote :: string where
  "quote = [CHR 0x22]"

definition part_head :: "string \<Rightarrow> string" where
  "part_head name = crlf @ ''Content-Disposition: form-data; name='' @ quote @ name @ quote"

definition multipart_body :: "string \<Rightarrow> string option \<Rightarrow> string \<Rightarrow> string \<Rightarrow> string" where
  "multipart_body clientSid dest filename payload =
     ''--'' @ BOUNDARY @ part_head ''sid'' @ crlf @ crlf @ clientSid
     @ (case dest of
          Some d \<Rightarrow> if d \<noteq> [] then crlf @ ''--'' @ BOUNDARY @ part_head ''dest'' @ crlf @ crlf @ d else []
        | None \<Rightarrow> [])
     @ crlf @ ''--'' @ BOUNDARY @ part_head ''file'' @ ''; filename='' @ quote @ filename @ quote @ crlf
     @ ''Content-Type: text/plain'' @ crlf @ crlf @ payload @ crlf @ ''--'' @ BOUNDARY @ ''--'' @ crlf"

definition upload_headers :: "string \<Rightarrow> string \<Rightarrow> string" where
  "upload_headers userAgent body =
     ''POST '' @ UPLOAD_PATH @ '' HTTP/1.1'' @ crlf @ ''Host: '' @ UPLOAD_HOST @ crlf @ ''User-Agent: '' @ userAgent
     @ crlf @ ''Content-Type: multipart/form-data; boundary='' @ BOUNDARY @ crlf @ ''Content-Length: ''
     @ decimal (length body) @ crlf @ ''Connection: close'' @ crlf @ crlf"

definition uploadTextFile ::
  "'w board \<Rightarrow> string \<Rightarrow> string option \<Rightarrow> string \<Rightarrow> string \<Rightarrow> string \<Rightarrow> ('w, 'z, bool) board_op" where
  "uploadTextFile B clientSid dest filename payload userAgent = do {
     let body = multipart_body clientSid dest filename payload;
     ok \<leftarrow> ext (tls_connect B UPLOAD_HOST UPLOAD_PORT);
     if \<not> ok then ret False
     else do {
       h \<leftarrow> writeAll B (upload_headers userAgent body);
       b \<leftarrow> (if h then writeAll B body else ret False);
       if \<not> b then do { ext (tls_stop B); ret False }
       else do {
         now \<leftarrow> ext (b_millis B);
         wait_response B (now + 10000) 10001;
         av \<leftarrow> ext (tls_available B);
         if \<not> av then do { ext (tls_stop B); ret False }
         else do {
           statusLine \<leftarrow> ext (tls_readStringUntil B LF);
           ext (tls_stop B);
           ret (indexOf statusLine '' 200 '' \<ge> 0) } } } }"

section \<open>The genesis report\<close>

definition genesisAlreadySentForKey :: "'w board \<Rightarrow> string \<Rightarrow> ('w, 'z, bool) board_op" where
  "genesisAlreadySentForKey B keyTag = do {
     f \<leftarrow> ext (fs_read B GENESIS_MARKER_PATH);
     (case f of None \<Rightarrow> ret False | Some storedTag \<Rightarrow> ret (trim storedTag = keyTag)) }"

definition storeGenesisMarker :: "'w board \<Rightarrow> string \<Rightarrow> ('w, 'z, bool) board_op" where
  "storeGenesisMarker B keyTag = do {
     opened \<leftarrow> ext (fs_open_w B GENESIS_MARKER_PATH);
     if \<not> opened then ret False
     else do {
       written \<leftarrow> ext (fs_print B GENESIS_MARKER_PATH keyTag);
       ext (fs_flush B GENESIS_MARKER_PATH);
       ext (fs_close B GENESIS_MARKER_PATH);
       ret (written = length keyTag) } }"

definition buildGenesisReport :: "'w board \<Rightarrow> string \<Rightarrow> string \<Rightarrow> string \<Rightarrow> ('w, 'r, 'z, string) minis_op" where
  "buildGenesisReport B clientSid publicKey keyTag = do {
     stamp \<leftarrow> localTimestamp B;
     up \<leftarrow> ext (b_millis B);
     hardware \<leftarrow> hardwareAddress B;
     active \<leftarrow> activeAddress B;
     vendor \<leftarrow> gets appliedVendor;
     ip \<leftarrow> ext (wifi_localIP B);
     (netmask, gateway, dns1) \<leftarrow> ext (wifi_network_info B);
     ret (''==== MHB GENESIS REPORT ===='' @ [LF] @ ''Client-Type: ESP32'' @ [LF] @ ''SID: '' @ clientSid
       @ [LF] @ ''First-Connect: '' @ stamp
       @ [LF] @ ''First-Connect-Uptime-ms: '' @ decimal (unat up)
       @ [LF] @ ''Chip: '' @ fst (b_chip B) @ '' rev '' @ decimal (snd (b_chip B))
       @ [LF] @ ''Firmware-Version: '' @ FIRMWARE_VERSION
       @ [LF] @ ''Firmware-Build: '' @ fst (b_build B) @ '' '' @ snd (b_build B)
       @ [LF] @ ''Hardware-MAC: '' @ hardware
       @ [LF] @ ''WiFi-MAC: '' @ active
       @ [LF] @ ''MAC-Vendor: '' @ configValue vendor
       @ [LF] @ ''SSH-Key-Algorithm: '' @ publicKeyAlgorithm publicKey
       @ [LF] @ ''SSH-Key-Tag: '' @ keyTag
       @ [LF, LF] @ ''---- network ----'' @ [LF] @ ''IP: '' @ ip
       @ [LF] @ ''Netmask: '' @ netmask
       @ [LF] @ ''Gateway: '' @ gateway
       @ [LF] @ ''DNS1: '' @ dns1 @ [LF]) }"

definition uploadGenesisIfNeeded :: "'w board \<Rightarrow> 'w minis_os \<Rightarrow> string \<Rightarrow> string \<Rightarrow> ('w, 'r, 'z, unit) minis_op" where
  "uploadGenesisIfNeeded B M clientSid publicKey = do {
     let keyTag = uploadKeyTag publicKey;
     sent \<leftarrow> genesisAlreadySentForKey B keyTag;
     if sent then ret ()
     else do {
       report \<leftarrow> buildGenesisReport B clientSid publicKey keyTag;
       ok \<leftarrow> uploadTextFile B clientSid None ''genesis.txt'' report (''MHB;payload;genesis;ESP32;'' @ clientSid @ '';embedded'');
       if \<not> ok then ret ()
       else do {
         storeGenesisMarker B keyTag;
         queueAlert M (Some ''info'') (Some ''ESP32 geregistreerd'')
           (Some (''Genesis succesvol opgeslagen; firmware v'' @ FIRMWARE_VERSION @ ''.'')) (Some ''genesis'');
         ret () } } }"

definition upload :: "'w board \<Rightarrow> 'w minis_os \<Rightarrow> string \<Rightarrow> ('w, 'r, 'z, bool) minis_op" where
  "upload B M publicKey =
     (if publicKey = [] then ret False
      else do {
        up \<leftarrow> ext (wifi_connected B);
        if \<not> up then ret False
        else do {
          ok \<leftarrow> uploadTextFile B (sid B) (Some ''ui'') ''ssh_public_key.txt'' (trim publicKey @ [LF]) ''MHB;ESP32;publickey'';
          if \<not> ok then ret False
          else do {
            uploadGenesisIfNeeded B M (sid B) publicKey;
            ret True } } })"

section \<open>Facts\<close>

text \<open>The tag of the report is the one that the session logs for the key, so the two can be compared.\<close>

lemma uploadKeyTag_session: "uploadKeyTag key = publicKeyDiagnosticTag key"
  by (simp add: uploadKeyTag_def publicKeyDiagnosticTag_def fnv1a_def Let_def)

text \<open>A stored marker is recognised: the report of a key is not sent again.\<close>

lemma hex_digits_of_chars: "c \<in> set (hex_digits_of n v) \<Longrightarrow> c \<in> set kHexDigits"
proof (induction n arbitrary: v)
  case (Suc n)
  have "kHexDigits ! unat (v AND 0xF) \<in> set kHexDigits" for v :: u64
  proof (rule nth_mem)
    have "v AND 0xF = take_bit 4 v" by (simp add: take_bit_eq_mask mask_eq_exp_minus_1)
    then have "unat (v AND 0xF) < 16" by (simp add: unsigned_take_bit_eq) (simp add: take_bit_eq_mod)
    then show "unat (v AND 0xF) < length kHexDigits" by (simp add: kHexDigits_def)
  qed
  then show ?case using Suc by auto
qed simp

lemma uploadKeyTag_plain: "trim (uploadKeyTag key) = uploadKeyTag key"
proof (rule trim_no_space)
  fix c assume "c \<in> set (uploadKeyTag key)"
  then have "c \<in> set kHexDigits" by (auto simp: uploadKeyTag_def Let_def dest: hex_digits_of_chars)
  then show "\<not> isspace c" using hex_digit_facts by blast
qed

context littlefs_healthy
begin

lemma genesis_once:
  "fwp (do { storeGenesisMarker B (uploadKeyTag key); genesisAlreadySentForKey B (uploadKeyTag key) }) (\<lambda>sent G. sent) F"
  unfolding storeGenesisMarker_def genesisAlreadySentForKey_def
  by (intro fwp_bind fwp_open_ok fwp_if fwp_ret fwp_flush fwp_close fwp_read_ok; (rule fwp_print_ok)?)
    (auto intro!: fwp_bind fwp_flush fwp_close fwp_ret fwp_read_ok simp: uploadKeyTag_plain)

end

end
