(* ===== verification/Firmware_Main.thy ===== *)
theory Firmware_Main
  imports Minis_Upload Ssh_Key_Provisioning
begin

text \<open>
  The application, \<open>examples/src/main.cpp\<close>: \<open>setup\<close> and \<open>loop\<close> of the firmware with what they call. It works on the tunnel object, the
  configuration and the modules at once; the application's own variables are the last extension of the state, so
  every operation of the library runs on it unchanged.

  The four parameters are the platform of the library, the board, the operating system calls of the Minis client and mbedTLS.
  The tunnel's callbacks run in the library's calls and only set the LED and log; here they run when the call returns, on the events it
  added (\<open>deliver\<close>). After \<open>ESP.restart()\<close> nothing runs any more, which the tests of \<open>restarted\<close> say. The waits are
  bounded by the clock, 2 s for the serial port and 1 s for each of the thirty attempts to reach the network; every
  round of a wait lets at least one millisecond pass, so they have one round per millisecond and one more
  (theory \<open>Bounded_Waits\<close> shows that no further round changes anything).
\<close>

record ('w, 'r) firmware = "('w, 'r) minis" +
  tunnelRuntimeReady :: bool
  minisBootstrapAttempted :: bool
  minisHeartbeatStartAttempted :: bool
  automaticIdentityAttempted :: bool
  automaticPublicKeyUploadAttempted :: bool
  lastStatsReport :: u32
  lastBytesSent :: u32
  lastBytesReceived :: u32

type_synonym ('w, 'r, 'z, 'a) firmware_op = "(('w, 'r, 'z) firmware_scheme, 'a) state"

definition STATS_INTERVAL :: u32 where "STATS_INTERVAL = 10000"

definition TUNNEL_TRANSPORT_BUFFER_SIZE :: "'w board \<Rightarrow> int" where
  "TUNNEL_TRANSPORT_BUFFER_SIZE B = (if SSH_TUNNEL_LOW_MEMORY_PROFILE B then 2048 else 8192)"

definition TUNNEL_MAX_CHANNELS :: "'w board \<Rightarrow> int" where
  "TUNNEL_MAX_CHANNELS B = (if SSH_TUNNEL_LOW_MEMORY_PROFILE B then 1 else 5)"

definition TUNNEL_RING_BUFFER_SIZE :: "'w board \<Rightarrow> nat" where
  "TUNNEL_RING_BUFFER_SIZE B = (if SSH_TUNNEL_LOW_MEMORY_PROFILE B then 8 * 1024 else 64 * 1024)"

text \<open>The state at power-on: the initial values of all modules.\<close>

definition power_on :: "'w \<Rightarrow> bool \<Rightarrow> ('w, 'r) firmware" where
  "power_on w cfgMutex = tunnel.extend (tunnel_new w cfgMutex)
     \<lparr>led_currentState = Booting, led_stateStartedAt = 0, led_lastUpdateAt = 0, led_initialized = False,
      led_outputKnown = False, led_lastOutput = False,
      mv_currentVendor = Original, mv_stationPrepared = False,
      wf_server = False, wf_dns = False, wf_mode = PortalNone, transitionPending = False, transitionAt = 0,
      button_state = button_init, buttonTaskHandle = False, buttonTaskStarted = False,
      configEditRequested = False, wifiResetRequested = False, deviceConfig = device_default, restarted = False,
      heartbeatTaskHandle = False, managedConfigQueue = False, alertQueue = False,
      heartbeatIntervalMin = ONBOARDING_HEARTBEAT_INTERVAL_MIN,
      tunnelRuntimeReady = False, minisBootstrapAttempted = False, minisHeartbeatStartAttempted = False,
      automaticIdentityAttempted = False, automaticPublicKeyUploadAttempted = False, lastStatsReport = 0,
      lastBytesSent = 0, lastBytesReceived = 0\<rparr>"

section \<open>Callbacks\<close>

definition closeReasonToString :: "close_reason \<Rightarrow> string" where
  "closeReasonToString r = (case r of RemoteClosed \<Rightarrow> ''RemoteClosed'' | LocalClosed \<Rightarrow> ''LocalClosed'' | ErrorReason \<Rightarrow> ''Error''
     | Timeout \<Rightarrow> ''Timeout'' | Manual \<Rightarrow> ''Manual'' | Unknown \<Rightarrow> ''Unknown'')"

definition callback :: "'w board \<Rightarrow> tunnel_event \<Rightarrow> ('w, 'r, 'z, unit) firmware_op" where
  "callback B e =
     (case e of
        SessionConnected \<Rightarrow> led_set B LedConnected
      | SessionDisconnected \<Rightarrow> led_set B LedError
      | ChannelOpened i \<Rightarrow> ret ()
      | ChannelClosed i r \<Rightarrow> ret ()
      | ErrorEvent c d \<Rightarrow> led_set B LedError)"

definition deliver :: "'w board \<Rightarrow> ('w, 'r, 'z, 'a) firmware_op \<Rightarrow> ('w, 'r, 'z, 'a) firmware_op" where
  "deliver B m = do {
     before \<leftarrow> gets (\<lambda>s. length (events s));
     r \<leftarrow> m;
     new \<leftarrow> gets (\<lambda>s. drop before (events s));
     for_each (callback B) new;
     ret r }"

definition registerTunnelCallbacks :: "('w, 'r, 'z, unit) firmware_op" where
  "registerTunnelCallbacks = setEventHandlers \<lparr>onSessionConnected = True, onSessionDisconnected = True,
     onChannelOpened = True, onChannelClosed = True, onError = True\<rparr>"

section \<open>Configuration of the tunnel\<close>

definition configureCommonTunnelSettings :: "('w, 'r) platform \<Rightarrow> 'w board \<Rightarrow> ('w, 'r, 'z, unit) firmware_op" where
  "configureCommonTunnelSettings P B = do {
     whenM (SSH_TUNNEL_LOW_MEMORY_PROFILE B) (setMaxReverseListeners P 1);
     setConnectionConfig P 30 5000 5 30;
     setBufferConfig P (TUNNEL_TRANSPORT_BUFFER_SIZE B) (TUNNEL_MAX_CHANNELS B) 1800000 (TUNNEL_RING_BUFFER_SIZE B);
     setDebugConfig P True 115200;
     setLogLevel P LOG_INFO;
     registerTunnelCallbacks }"

definition configureSSHTunnel :: "('w, 'r) platform \<Rightarrow> 'w board \<Rightarrow> ('w, 'r, 'z, unit) firmware_op" where
  "configureSSHTunnel P B = do {
     c \<leftarrow> gets deviceConfig;
     (if sshAuthMethod c = PrivateKeyAuth then do {
        setSSHKeyAuthFromMemory P (sshHost c) (sshPort c) (sshUsername c) (sshPrivateKey c) (sshPublicKey c) (sshKeyPassphrase c);
        modify (\<lambda>s. s\<lparr>deviceConfig := (deviceConfig s)\<lparr>sshPrivateKey := [], sshPublicKey := []\<rparr>\<rparr>) }
      else do {
        setSSHServer P (sshHost c) (sshPort c) (sshUsername c) (sshPassword c);
        modify (\<lambda>s. s\<lparr>deviceConfig := (deviceConfig s)\<lparr>sshPassword := []\<rparr>\<rparr>) });
     setTunnelConfig P (dc_remoteBindHost c) (dc_remoteBindPort c) (dc_localHost c) (dc_localPort c);
     configureCommonTunnelSettings P B }"

section \<open>Network\<close>

fun wifi_pause :: "'w board \<Rightarrow> u32 \<Rightarrow> nat \<Rightarrow> ('w, 'r, 'z, unit) firmware_op" where
  "wifi_pause B waitStarted 0 = ret ()"
| "wifi_pause B waitStarted (Suc rounds) = do {
     now \<leftarrow> ext (b_millis B);
     if now - waitStarted < 1000 then do {
       led_update B;
       pollConfigResetButton B;
       stopped \<leftarrow> gets restarted;
       if stopped then ret ()
       else do {
         ext (b_delay B 20);
         wifi_pause B waitStarted rounds } }
     else ret () }"

fun wifi_attempts :: "'w board \<Rightarrow> nat \<Rightarrow> ('w, 'r, 'z, unit) firmware_op" where
  "wifi_attempts B 0 = ret ()"
| "wifi_attempts B (Suc n) = do {
     up \<leftarrow> ext (wifi_connected B);
     if up then ret ()
     else do {
       waitStarted \<leftarrow> ext (b_millis B);
       wifi_pause B waitStarted 1001;
       stopped \<leftarrow> gets restarted;
       if stopped then ret () else wifi_attempts B n } }"

definition connectWiFi :: "'w board \<Rightarrow> ('w, 'r, 'z, unit) firmware_op" where
  "connectWiFi B = do {
     led_set B LedConnecting;
     ext (wifi_mode B ''STA'');
     c \<leftarrow> gets deviceConfig;
     prepared \<leftarrow> prepareStation B (macVendor c);
     if \<not> prepared then led_set B LedError
     else do {
       ext (wifi_begin B (c_str (wifiSsid c)) (c_str (wifiPassword c)));
       wifi_attempts B 30;
       stopped \<leftarrow> gets restarted;
       if stopped then ret ()
       else do {
         up \<leftarrow> ext (wifi_connected B);
         if up then ret () else led_set B LedError } } }"

section \<open>Control plane\<close>

definition ensureMinisControlPlane ::
  "'w board \<Rightarrow> 'w minis_os \<Rightarrow> 'w mbedtls \<Rightarrow> ('w, 'r, 'z, unit) firmware_op" where
  "ensureMinisControlPlane B M T = do {
     up \<leftarrow> ext (wifi_connected B);
     if \<not> up then ret ()
     else do {
       b \<leftarrow> gets minisBootstrapAttempted;
       whenM (\<not> b) (do {
         modify (\<lambda>s. s\<lparr>minisBootstrapAttempted := True\<rparr>);
         registerClient B;
         ret () });
       h \<leftarrow> gets minisHeartbeatStartAttempted;
       whenM (\<not> h) (do {
         modify (\<lambda>s. s\<lparr>minisHeartbeatStartAttempted := True\<rparr>);
         startHeartbeatTask B M;
         ret () });
       c \<leftarrow> gets deviceConfig;
       i \<leftarrow> gets automaticIdentityAttempted;
       whenM (\<not> setupComplete c \<and> \<not> i) (do {
         modify (\<lambda>s. s\<lparr>automaticIdentityAttempted := True\<rparr>);
         (ok, c') \<leftarrow> ensure B T c;
         modify (\<lambda>s. s\<lparr>deviceConfig := c'\<rparr>) });
       c \<leftarrow> gets deviceConfig;
       u \<leftarrow> gets automaticPublicKeyUploadAttempted;
       whenM (\<not> setupComplete c \<and> sshAuthMethod c = PrivateKeyAuth \<and> sshPublicKey c \<noteq> [] \<and> \<not> u) (do {
         modify (\<lambda>s. s\<lparr>automaticPublicKeyUploadAttempted := True\<rparr>);
         upload B M (sshPublicKey c);
         ret () }) } }"

text \<open>The configuration a managed one leads to, and whether it is what the device has already.\<close>

definition managed_next :: "managed_tunnel_config \<Rightarrow> string \<Rightarrow> mac_vendor \<Rightarrow> device_config \<Rightarrow> device_config" where
  "managed_next m username vendor c = c\<lparr>setupComplete := True, tunnelEnabled := mt_enabled m, sshHost := mt_sshHost m,
     sshPort := int (unat (mt_sshPort m)), sshUsername := username, dc_remoteBindHost := mt_remoteBindHost m,
     dc_remoteBindPort := int (unat (mt_remoteBindPort m)), dc_localHost := mt_localHost m,
     dc_localPort := int (unat (mt_localPort m)), macVendor := vendor\<rparr>"

definition managed_unchanged :: "managed_tunnel_config \<Rightarrow> string \<Rightarrow> mac_vendor \<Rightarrow> device_config \<Rightarrow> bool" where
  "managed_unchanged m username vendor c \<longleftrightarrow> setupComplete c \<and> tunnelEnabled c = mt_enabled m \<and> sshHost c = mt_sshHost m
     \<and> sshPort c = int (unat (mt_sshPort m)) \<and> sshUsername c = username \<and> dc_remoteBindHost c = mt_remoteBindHost m
     \<and> dc_remoteBindPort c = int (unat (mt_remoteBindPort m)) \<and> dc_localHost c = mt_localHost m
     \<and> dc_localPort c = int (unat (mt_localPort m)) \<and> macVendor c = vendor"

definition applyPendingMinisConfig :: "'w board \<Rightarrow> 'w minis_os \<Rightarrow> ('w, 'r, 'z, unit) firmware_op" where
  "applyPendingMinisConfig B M = do {
     r \<leftarrow> takeManagedTunnelConfig M managed_default;
     (case r of
        None \<Rightarrow> ret ()
      | Some managed \<Rightarrow> do {
          c \<leftarrow> gets deviceConfig;
          (case (if mt_macVendorPresent managed then mac_parse (mt_macVendor managed) else Some (macVendor c)) of
             None \<Rightarrow> ret ()
           | Some managedMacVendor \<Rightarrow>
               if managed_unchanged managed (sid B) managedMacVendor c then ret ()
               else if sshAuthMethod c \<noteq> PrivateKeyAuth then ret ()
               else do {
                 saved \<leftarrow> saveManagedConfig B (managed_next managed (sid B) managedMacVendor c);
                 if \<not> saved then ret ()
                 else do {
                   markConfigAppliedNotice B;
                   ext (b_delay B 250);
                   restart B } }) }) }"

section \<open>Statistics\<close>

text \<open>The rate that is logged, in bytes per second.\<close>

definition rate_of :: "u32 \<Rightarrow> u32 \<Rightarrow> u32" where
  "rate_of now before = (now - before) * 1000 div STATS_INTERVAL"

text \<open>The two rates when a report is due; the rest of the report is only logged.\<close>

definition reportStats :: "'w board \<Rightarrow> ('w, 'r, 'z, (u32 \<times> u32) option) firmware_op" where
  "reportStats B = do {
     now \<leftarrow> ext (b_millis B);
     l \<leftarrow> gets lastStatsReport;
     if now - l < STATS_INTERVAL then ret None
     else do {
       modify (\<lambda>s. s\<lparr>lastStatsReport := now\<rparr>);
       ls \<leftarrow> gets lastBytesSent;
       lr \<leftarrow> gets lastBytesReceived;
       sent \<leftarrow> gets bytesSent;
       received \<leftarrow> gets bytesReceived;
       modify (\<lambda>s. s\<lparr>lastBytesSent := sent, lastBytesReceived := received\<rparr>);
       ret (Some (rate_of sent ls, rate_of received lr)) } }"

section \<open>Setup and loop\<close>

fun wait_serial :: "'w board \<Rightarrow> u32 \<Rightarrow> nat \<Rightarrow> ('w, 'r, 'z, unit) firmware_op" where
  "wait_serial B started 0 = ret ()"
| "wait_serial B started (Suc rounds) = do {
     ready \<leftarrow> ext (b_serial_ready B);
     if ready then ret ()
     else do {
       now \<leftarrow> ext (b_millis B);
       if now - started < 2000 then do {
         ext (b_delay B 10);
         wait_serial B started rounds }
       else ret () } }"

text \<open>The part of \<open>setup\<close> that follows the control plane: the setup page or the tunnel.\<close>

definition setup_tunnel :: "('w, 'r) platform \<Rightarrow> 'w board \<Rightarrow> 'w minis_os \<Rightarrow> ('w, 'r, 'z, unit) firmware_op" where
  "setup_tunnel P B M = do {
     c \<leftarrow> gets deviceConfig;
     edit \<leftarrow> gets editRequested;
     if \<not> setupComplete c \<or> edit then do {
       led_set B LedSetup;
       ok \<leftarrow> startDeviceSetup B;
       if \<not> ok then led_set B LedError else ret () }
     else do {
       u \<leftarrow> gets automaticPublicKeyUploadAttempted;
       whenM (sshAuthMethod c = PrivateKeyAuth \<and> sshPublicKey c \<noteq> [] \<and> \<not> u) (do {
         modify (\<lambda>s. s\<lparr>automaticPublicKeyUploadAttempted := True\<rparr>);
         upload B M (sshPublicKey c);
         ret () });
       configureSSHTunnel P B;
       ok \<leftarrow> deliver B (tunnel_init P);
       if \<not> ok then led_set B LedError
       else do {
         modify (\<lambda>s. s\<lparr>tunnelRuntimeReady := True\<rparr>);
         c \<leftarrow> gets deviceConfig;
         if \<not> tunnelEnabled c then led_set B LedDisabled
         else do {
           up \<leftarrow> deliver B (connectSSH P);
           if \<not> up then led_set B LedError else ret () } } } }"

definition fw_setup :: "('w, 'r) platform \<Rightarrow> 'w board \<Rightarrow> 'w minis_os \<Rightarrow> 'w mbedtls \<Rightarrow> ('w, 'r, 'z, unit) firmware_op" where
  "fw_setup P B M T = do {
     led_begin B;
     started \<leftarrow> ext (b_millis B);
     wait_serial B started 2001;
     ok \<leftarrow> prov_begin B;
     if \<not> ok then led_set B LedError
     else do {
       portal \<leftarrow> gets isActive;
       if portal then led_set B MissingConfig
       else do {
         led_set B LedConnecting;
         connectWiFi B;
         stopped \<leftarrow> gets restarted;
         if stopped then ret ()
         else do {
           up \<leftarrow> ext (wifi_connected B);
           if \<not> up then led_set B LedError
           else do {
             ensureMinisControlPlane B M T;
             setup_tunnel P B M } } } } }"

definition fw_loop :: "('w, 'r) platform \<Rightarrow> 'w board \<Rightarrow> 'w minis_os \<Rightarrow> 'w mbedtls \<Rightarrow> ('w, 'r, 'z, unit) firmware_op" where
  "fw_loop P B M T = do {
     led_update B;
     pollConfigResetButton B;
     stopped \<leftarrow> gets restarted;
     if stopped then ret ()
     else do {
       portal \<leftarrow> gets isActive;
       ready \<leftarrow> gets tunnelRuntimeReady;
       if portal then do {
         prov_loop B;
         stopped \<leftarrow> gets restarted;
         if stopped then ret ()
         else do {
           ensureMinisControlPlane B M T;
           edit \<leftarrow> gets editRequested;
           whenM (\<not> edit) (applyPendingMinisConfig B M) } }
       else if \<not> ready then do {
         ensureMinisControlPlane B M T;
         applyPendingMinisConfig B M;
         stopped \<leftarrow> gets restarted;
         whenM (\<not> stopped) (ext (b_delay B 100)) }
       else do {
         up \<leftarrow> ext (wifi_connected B);
         whenM (\<not> up) (connectWiFi B);
         stopped \<leftarrow> gets restarted;
         if stopped then ret ()
         else do {
           ensureMinisControlPlane B M T;
           applyPendingMinisConfig B M;
           stopped \<leftarrow> gets restarted;
           if stopped then ret ()
           else do {
             deliver B (tunnel_loop P);
             reportStats B;
             ext (b_delay B 1) } } } } }"

end
