(* ===== verification/Minis_Delivery.thy ===== *)
theory Minis_Delivery
  imports Firmware_Main
begin

text \<open>
  What the Minis client promises. The locale \<open>rtos_fifo\<close> is the contract of a FreeRTOS queue, \<open>alert_board\<close> says in addition that while the
  client's task waits for the network or the file system, other tasks may append to the queue of alerts, but not take from it.
\<close>

section \<open>Queues\<close>

locale rtos_fifo =
  fixes Q :: "('w, 'e) rtos_queue" and contents :: "'w \<Rightarrow> 'e list" and depth :: nat
  assumes q_send_law: "q_send Q x w = (ok, w') \<Longrightarrow>
      (if ok then length (contents w) < depth \<and> contents w' = contents w @ [x] else contents w' = contents w)"
    and q_overwrite_law: "depth = 1 \<Longrightarrow> q_overwrite Q x w = (ok, w') \<Longrightarrow> ok \<and> contents w' = [x]"
    and q_peek_law: "q_peek Q w = (r, w') \<Longrightarrow>
      contents w' = contents w \<and> r = (case contents w of [] \<Rightarrow> None | x # _ \<Rightarrow> Some x)"
    and q_receive_law: "q_receive Q w = (r, w') \<Longrightarrow>
      contents w' = tl (contents w) \<and> r = (case contents w of [] \<Rightarrow> None | x # _ \<Rightarrow> Some x)"
    and q_waiting_law: "q_waiting Q w = (n, w') \<Longrightarrow> contents w' = contents w \<and> n = length (contents w)"

text \<open>An operation of the world during which a queue may only grow.\<close>

definition grows :: "('w \<Rightarrow> 'e list) \<Rightarrow> ('w \<Rightarrow> 'a \<times> 'w) \<Rightarrow> bool" where
  "grows contents f \<longleftrightarrow> (\<forall>w. \<exists>xs. contents (snd (f w)) = contents w @ xs)"

text \<open>The state in which \<open>sendNextQueuedAlert\<close> posts the alert it has peeked at.\<close>

definition after_peek :: "'w minis_os \<Rightarrow> ('w, 'z) wstate_scheme \<Rightarrow> ('w, 'z) wstate_scheme" where
  "after_peek M s = s\<lparr>world := snd (q_peek (alerts M) (world s))\<rparr>"

locale alert_board = rtos_fifo "alerts M" pending ALERT_QUEUE_DEPTH
  for M :: "'w minis_os" and pending :: "'w \<Rightarrow> queued_alert list" +
  fixes B :: "'w board"
  assumes growing: "grows pending (wifi_connected B)" "grows pending (b_free_heap B)" "grows pending (b_largest_block B)"
      "grows pending (tls_connect B h p)" "grows pending (tls_write B x)" "grows pending (tls_available B)"
      "grows pending (tls_connected B)" "grows pending (b_millis B)" "grows pending (b_delay B d)"
      "grows pending (tls_readBytesUntil B c n)" "grows pending (tls_stop B)" "grows pending (fs_exists B f)"
      "grows pending (fs_remove B f)"
begin

text \<open>\<open>only_appends\<close>: an operation that leaves the alerts that were pending where they are.\<close>

definition only_appends :: "('w, 'z, 'a) board_op \<Rightarrow> bool" where
  "only_appends m \<longleftrightarrow> (\<forall>s. wp m (\<lambda>_ s'. \<exists>xs. pending (world s') = pending (world s) @ xs) s)"

lemma appends_ext: "grows pending f \<Longrightarrow> only_appends (ext f)"
  by (auto simp: only_appends_def wp_simps grows_def split: prod.splits) (metis snd_conv)

lemma appends_ret: "only_appends (ret a)"
  by (simp add: only_appends_def wp_simps)

lemma appends_bind:
  fixes m :: "('w, 'z, 'a) board_op" and f :: "'a \<Rightarrow> ('w, 'z, 'b) board_op"
  assumes m: "only_appends m" and f: "\<And>a. only_appends (f a)"
  shows "only_appends (State_Monad.bind m f)"
  unfolding only_appends_def wp_bind
proof
  fix s :: "('w, 'z) wstate_scheme"
  have f': "wp (f a) (\<lambda>_ t. \<exists>xs. pending (world t) = pending (world s) @ xs) s'"
    if "\<exists>xs. pending (world s') = pending (world s) @ xs" for a and s' :: "('w, 'z) wstate_scheme"
    using spec [OF f [of a, unfolded only_appends_def], of s'] that by (auto elim!: wp_mono)
  show "wp m (\<lambda>a. wp (f a) (\<lambda>_ t. \<exists>xs. pending (world t) = pending (world s) @ xs)) s"
    by (rule wp_mono [OF spec [OF m [unfolded only_appends_def]]]) (rule f')
qed

lemma appends_if: "only_appends m \<Longrightarrow> only_appends n \<Longrightarrow> only_appends (if b then m else n)"
  by simp

lemma appends_whenM: "only_appends m \<Longrightarrow> only_appends (whenM b m)"
  by (simp add: whenM_def appends_ret)

lemma appends_for_each: "(\<And>x. only_appends (f x)) \<Longrightarrow> only_appends (for_each f xs)"
  by (induction xs) (auto intro: appends_ret appends_bind)

lemmas append_rules = appends_ret appends_bind appends_if appends_whenM appends_for_each appends_ext growing

lemma appends_wait: "only_appends (wait_response B t n)"
  by (induction n) (auto intro!: append_rules)

lemma appends_post: "only_appends (performAlertPost B a)"
  unfolding performAlertPost_def tlsMemoryAvailable_def tls_print_def by (intro append_rules appends_wait)

text \<open>Delivery: the head of the queue goes only after the server's answer 200 to a request with this alert.\<close>

lemma sendNextQueuedAlert_step:
  assumes "alertQueue s"
  shows "wp (sendNextQueuedAlert B M) (\<lambda>r s'. \<exists>more.
    (case r of
       AlertNone \<Rightarrow> pending (world s) = [] \<and> pending (world s') = more
     | AlertDeferred \<Rightarrow> pending (world s) \<noteq> [] \<and> pending (world s') = pending (world s) @ more
         \<and> fst (run_state (performAlertPost B (hd (pending (world s)))) (after_peek M s)) \<noteq> 200
     | AlertSent \<Rightarrow> pending (world s) \<noteq> [] \<and> pending (world s') = tl (pending (world s)) @ more
         \<and> fst (run_state (performAlertPost B (hd (pending (world s)))) (after_peek M s)) = 200)) s"
proof (cases "pending (world s)")
  case Nil
  then show ?thesis using assms by (auto simp: sendNextQueuedAlert_def wp_simps split: prod.splits dest!: q_peek_law)
next
  case (Cons a rest)
  obtain p w1 where k: "q_peek (alerts M) (world s) = (p, w1)" by fastforce
  have p: "p = Some a" "pending w1 = a # rest" using q_peek_law [OF k] Cons by auto
  obtain status s2 where post: "run_state (performAlertPost B a) (s\<lparr>world := w1\<rparr>) = (status, s2)" by fastforce
  obtain xs where s2: "pending (world s2) = a # rest @ xs"
    using wp_run [OF spec [OF appends_post [unfolded only_appends_def]] post] p(2) by auto
  obtain d w3 where r: "q_receive (alerts M) (world s2) = (d, w3)" by fastforce
  have d: "d = Some a" "pending w3 = rest @ xs" using q_receive_law [OF r] s2 by auto
  let ?clear = "whenM (clearConfigAppliedNotice a) (do { e \<leftarrow> ext (fs_exists B CONFIG_APPLIED_NOTICE_PATH);
    whenM e (do { ext (fs_remove B CONFIG_APPLIED_NOTICE_PATH); ret () }) })"
  have "only_appends ?clear" by (intro append_rules)
  then have c: "wp ?clear (\<lambda>_ s'. \<exists>ys. pending (world s') = (rest @ xs) @ ys) (s2\<lparr>world := w3\<rparr>)"
    using d(2) unfolding only_appends_def by (auto dest: spec [of _ "s2\<lparr>world := w3\<rparr>"])
  have "wp (sendNextQueuedAlert B M) (\<lambda>r s'. \<exists>more.
      (case r of AlertNone \<Rightarrow> False | AlertDeferred \<Rightarrow> pending (world s') = (a # rest) @ more \<and> status \<noteq> 200
       | AlertSent \<Rightarrow> pending (world s') = rest @ more \<and> status = 200)) s"
  proof (cases "status = 200")
    case True
    have "wp (do { ?clear; ret AlertSent }) (\<lambda>r s'. \<exists>more.
        (case r of AlertNone \<Rightarrow> False | AlertDeferred \<Rightarrow> pending (world s') = (a # rest) @ more \<and> status \<noteq> 200
         | AlertSent \<Rightarrow> pending (world s') = rest @ more \<and> status = 200)) (s2\<lparr>world := w3\<rparr>)"
      unfolding wp_bind wp_return by (rule wp_mono [OF c]) (use True in auto)
    then show ?thesis
      using assms k p(1) post r d(1) True by (simp add: sendNextQueuedAlert_def wp_def)
  next
    case False
    then show ?thesis using assms k p(1) post s2 by (auto simp: sendNextQueuedAlert_def wp_def)
  qed
  then show ?thesis
    by (rule wp_mono) (use Cons k post in \<open>auto simp: after_peek_def split: alert_send_result.splits\<close>)
qed

end

section \<open>The heartbeat interval\<close>

text \<open>
  The interval is a variable of the Minis task: it starts with its initial value, the task changes it, and nothing else does,
  whatever else changes between two rounds of the task.
\<close>

inductive hb_reach :: "'w board \<Rightarrow> 'w minis_os \<Rightarrow> ('w, 'r) firmware \<Rightarrow> bool" for B M where
  initial: "heartbeatIntervalMin s = ONBOARDING_HEARTBEAT_INTERVAL_MIN \<Longrightarrow> hb_reach B M s"
| first_round: "hb_reach B M s \<Longrightarrow> hb_reach B M (snd (run_state (heartbeat_start B M n) s))"
| next_round: "hb_reach B M s \<Longrightarrow> hb_reach B M (snd (run_state (heartbeat_round B M n) s))"
| other_tasks: "hb_reach B M s \<Longrightarrow> heartbeatIntervalMin s' = heartbeatIntervalMin s \<Longrightarrow> hb_reach B M s'"

definition interval_ok :: "('w, 'r, 'z) minis_scheme \<Rightarrow> bool" where
  "interval_ok s \<longleftrightarrow> 2 \<le> heartbeatIntervalMin s \<and> heartbeatIntervalMin s \<le> 1440"

lemma interval_ok_world [simp]: "interval_ok (s\<lparr>world := w\<rparr>) = interval_ok s"
  by (simp add: interval_ok_def)

lemma ok_ext: "keeps interval_ok (ext f)"
  by (auto simp: keeps_def wp_simps split: prod.splits)

lemmas ok_ops = keeps_intros ok_ext

lemma cached_interval_ok: "cached_interval c = Some n \<Longrightarrow> 2 \<le> n \<and> n \<le> 1440"
  by (auto simp: cached_interval_def config_sound_def split: if_splits prod.splits dest!: parseConfig_sound)

lemma accepted_interval_ok:
  "accepted_config c = Some p \<Longrightarrow> 2 \<le> val (heartbeatInterval p) \<and> val (heartbeatInterval p) \<le> 1440"
  by (auto simp: accepted_config_def config_sound_def split: if_splits prod.splits dest!: parseConfig_sound)

lemma ok_wait: "keeps interval_ok (wait_response B t n)"
  by (induction n) (auto intro!: ok_ops)

lemma ok_send: "keeps interval_ok (sendNextQueuedAlert B M)"
  unfolding sendNextQueuedAlert_def performAlertPost_def tlsMemoryAvailable_def tls_print_def by (intro ok_ops ok_wait)

lemma ok_load: "keeps interval_ok (loadCachedHeartbeatInterval B)"
  by (auto simp: keeps_def wp_simps loadCachedHeartbeatInterval_def interval_ok_def dest: cached_interval_ok
      split: prod.splits option.splits)

lemma ok_read_headers: "keeps interval_ok (read_headers B n c)"
  by (induction n arbitrary: c) (auto intro!: ok_ops)

lemma ok_read_available: "keeps interval_ok (read_available B n cap r)"
  by (induction n arbitrary: r) (auto intro!: ok_ops split: prod.split)

lemma ok_read_body: "keeps interval_ok (read_body B n cap r)"
proof (induction n arbitrary: r)
  case (Suc n)
  then show ?case unfolding read_body.simps by (intro ok_ops ok_read_available)
qed (auto intro: ok_ops)

lemma ok_performGet: "keeps interval_ok (performGet B n suffix buf)"
  unfolding performGet_def read_response_def tlsMemoryAvailable_def tls_print_def
  by (intro ok_ops ok_read_headers ok_read_body)

lemma ok_accept:
  assumes "accepted_config c = Some p"
  shows "keeps interval_ok (modify (\<lambda>s. s\<lparr>heartbeatIntervalMin := val (heartbeatInterval p)\<rparr>))"
  using accepted_interval_ok [OF assms] by (simp add: keeps_def wp_simps interval_ok_def)

lemma ok_case_accept:
  "(\<And>p. accepted_config c = Some p \<Longrightarrow> keeps interval_ok (f p)) \<Longrightarrow> keeps interval_ok m \<Longrightarrow>
    keeps interval_ok (case accepted_config c of None \<Rightarrow> m | Some p \<Rightarrow> f p)"
  by (simp split: option.split)

lemma ok_refresh: "keeps interval_ok (refreshConfig B M n)"
  unfolding refreshConfig_def writeCachedHeartbeatInterval_def queueManagedConfig_def replace_file_def removeIfExists_def println_def
  by (intro ok_case_accept ok_ops ok_performGet; erule ok_accept)

lemma ok_heartbeat_wait: "keeps interval_ok (heartbeat_wait B M n r)"
  by (induction n arbitrary: r) (auto intro!: ok_ops ok_send simp: Let_def)

lemma ok_heartbeat: "keeps interval_ok (heartbeat_start B M n)" "keeps interval_ok (heartbeat_round B M n)"
  unfolding heartbeat_start_def heartbeat_round_def queueConfigAppliedNoticeIfNeeded_def nextHeartbeatDelaySeconds_def
  by (intro ok_ops ok_load ok_refresh ok_send ok_heartbeat_wait)+

lemma hb_reach_ok: "hb_reach B M s \<Longrightarrow> interval_ok s"
proof (induction rule: hb_reach.induct)
  case (initial s)
  then show ?case by (simp add: interval_ok_def ONBOARDING_HEARTBEAT_INTERVAL_MIN_def)
next
  case (other_tasks s s')
  then show ?case by (simp add: interval_ok_def)
qed (use keepsD [OF ok_heartbeat(1)] keepsD [OF ok_heartbeat(2)] in \<open>auto simp: wp_iff_run\<close>)

lemma delay_bounds:
  fixes m :: u16 and r :: u32
  assumes "2 \<le> unat m" "unat m \<le> 1440"
  shows "60 * unat m \<le> unat (ucast m * 60 + r mod (ucast m * 60 + 1))
    \<and> unat (ucast m * 60 + r mod (ucast m * 60 + 1)) \<le> 120 * unat m"
proof -
  let ?b = "ucast m * 60 :: u32"
  have "unat (ucast m :: u32) = unat m" using assms by (simp add: unsigned_ucast_eq take_bit_nat_eq_self)
  then have b: "unat ?b = 60 * unat m" using assms by (simp add: unat_word_ariths)
  then have b1: "unat (?b + 1) = 60 * unat m + 1" using assms by (simp add: unat_word_ariths)
  have r: "unat (r mod (?b + 1)) \<le> 60 * unat m" unfolding unat_mod_distrib b1 by (simp add: less_Suc_eq_le [symmetric])
  then have "unat (?b + r mod (?b + 1)) = 60 * unat m + unat (r mod (?b + 1))"
    using b assms by (simp add: unat_word_ariths)
  then show ?thesis using r by simp
qed

section \<open>Reference queues\<close>

definition ref_queue :: "('w \<Rightarrow> 'e list) \<Rightarrow> ('e list \<Rightarrow> 'w \<Rightarrow> 'w) \<Rightarrow> nat \<Rightarrow> ('w, 'e) rtos_queue" where
  "ref_queue contents store depth = \<lparr>
     q_create = (\<lambda>n w. (True, store [] w)), q_delete = (\<lambda>w. ((), w)),
     q_send = (\<lambda>x w. if length (contents w) < depth then (True, store (contents w @ [x]) w) else (False, w)),
     q_overwrite = (\<lambda>x w. (True, store [x] w)),
     q_peek = (\<lambda>w. (case contents w of [] \<Rightarrow> None | x # _ \<Rightarrow> Some x, w)),
     q_receive = (\<lambda>w. (case contents w of [] \<Rightarrow> None | x # _ \<Rightarrow> Some x, store (tl (contents w)) w)),
     q_waiting = (\<lambda>w. (length (contents w), w))\<rparr>"

lemma ref_queue_fifo:
  assumes "\<And>xs w. contents (store xs w) = xs"
  shows "rtos_fifo (ref_queue contents store depth) contents depth"
  by unfold_locales (auto simp: ref_queue_def assms split: if_splits)

type_synonym ref_device = "(queued_alert list \<times> queued_managed_config list) ref_flash"

definition ref_os :: "ref_device minis_os" where
  "ref_os = \<lparr>
     alerts = ref_queue (\<lambda>w. fst (rf_extra w)) (\<lambda>xs w. w\<lparr>rf_extra := (xs, snd (rf_extra w))\<rparr>) ALERT_QUEUE_DEPTH,
     configs = ref_queue (\<lambda>w. snd (rf_extra w)) (\<lambda>xs w. w\<lparr>rf_extra := (fst (rf_extra w), xs)\<rparr>) 1,
     os_ms_to_ticks = ucast, os_tickCount = (\<lambda>w. (rf_now w, w)), os_notifyTake = (\<lambda>_ d w. (0, w\<lparr>rf_now := rf_now w + d\<rparr>)),
     os_notifyGive = (\<lambda>w. ((), w))\<rparr>"

lemma ref_extra:
  "rf_extra (snd (rf_try f p c w)) = rf_extra w" "rf_extra (snd (rf_until ch n w)) = rf_extra w" "rf_extra (rf_note x w) = rf_extra w"
  by (simp_all add: rf_try_def rf_until_def rf_note_def Let_def)

interpretation ref_alerts: alert_board ref_os "\<lambda>w. fst (rf_extra w)" "ref_board faulty" for faulty
proof -
  have "rtos_fifo (alerts ref_os) (\<lambda>w. fst (rf_extra w)) ALERT_QUEUE_DEPTH"
    unfolding ref_os_def minis_os.simps by (rule ref_queue_fifo) simp
  then show "alert_board ref_os (\<lambda>w. fst (rf_extra w)) (ref_board faulty)"
    by (auto simp: alert_board_def alert_board_axioms_def grows_def ref_board_def ref_extra)
qed

section \<open>Properties\<close>

text \<open>
  C36: An alert is not lost and not delivered out of order. \<open>sendNextQueuedAlert\<close> takes the first alert off the queue
  exactly when the server has answered its request with status 200; in every other case (no network, too little memory, no
  connection, no answer, any other status) it stays first in the queue. Alerts that other tasks queue meanwhile come
  after the others.
\<close>

theorem alerts_kept_until_delivered:
  assumes "alert_board M pending B" and "alertQueue s"
  shows "wp (sendNextQueuedAlert B M) (\<lambda>r s'. \<exists>more.
    (case r of
       AlertNone \<Rightarrow> pending (world s) = [] \<and> pending (world s') = more
     | AlertDeferred \<Rightarrow> pending (world s) \<noteq> [] \<and> pending (world s') = pending (world s) @ more
         \<and> fst (run_state (performAlertPost B (hd (pending (world s)))) (after_peek M s)) \<noteq> 200
     | AlertSent \<Rightarrow> pending (world s) \<noteq> [] \<and> pending (world s') = tl (pending (world s)) @ more
         \<and> fst (run_state (performAlertPost B (hd (pending (world s)))) (after_peek M s)) = 200)) s"
  by (rule alert_board.sendNextQueuedAlert_step [OF assms])

definition ex_alerting :: "(ref_device, nat) firmware" where
  "ex_alerting = (power_on ((flash_with ([applied_notice, alert_of ''info'' None ''second'' None], []))
     \<lparr>rf_input := ''HTTP/1.1 200 OK'' @ [CR, LF]\<rparr>) True)\<lparr>alertQueue := True\<rparr>"

lemma ref_wait_response:
  "rf_input (world s) \<noteq> [] \<Longrightarrow> run_state (wait_response (ref_board f) t n) s = ((), s)"
  by (cases n) (simp_all add: ref_board_def)

lemma ref_print_run: "run_state (tls_print (ref_board f) x) s = ((), s\<lparr>world := rf_note x (world s)\<rparr>)"
  by (simp add: tls_print_def ref_board_def)

lemma ref_prints_run:
  "\<exists>w. run_state (for_each (tls_print (ref_board f)) xs) s = ((), s\<lparr>world := w\<rparr>) \<and> rf_input w = rf_input (world s)"
proof (induction xs arbitrary: s)
  case (Cons x xs)
  show ?case using Cons [of "s\<lparr>world := rf_note x (world s)\<rparr>"] by (auto simp: ref_print_run rf_note_def)
qed (auto intro!: exI [of _ "world s" for s])

lemma ok_status: "parseHttpStatus (takeWhile (\<lambda>x. x \<noteq> LF) (''HTTP/1.1 200 OK'' @ [CR, LF])) = 200"
  by code_simp

lemma ref_post_ok:
  fixes s :: "('x ref_flash, 'z) wstate_scheme"
  assumes "rf_wifi (world s)" "rf_input (world s) = ''HTTP/1.1 200 OK'' @ [CR, LF]"
  shows "fst (run_state (performAlertPost (ref_board f) a) s) = 200"
proof -
  have mem: "run_state (tlsMemoryAvailable (ref_board f)) t = (True, t)" for t :: "('x ref_flash, 'z) wstate_scheme"
    by (simp add: tlsMemoryAvailable_def ref_board_def MINIS_TLS_MIN_FREE_HEAP_def MINIS_TLS_MIN_LARGEST_BLOCK_def)
  obtain w0 where conn: "tls_connect (ref_board f) MINIS_HOST MINIS_HTTPS_PORT (world s) = (True, w0)"
      "rf_input w0 = ''HTTP/1.1 200 OK'' @ [CR, LF]"
    using assms(2) by (simp add: ref_board_def rf_note_def)
  obtain w where p: "run_state (for_each (tls_print (ref_board f)) (alert_request (alert_body (sid (ref_board f :: 'x ref_flash board)) a))) (s\<lparr>world := w0\<rparr>)
      = ((), s\<lparr>world := w\<rparr>)" and i: "rf_input w = ''HTTP/1.1 200 OK'' @ [CR, LF]"
    using ref_prints_run [of f "alert_request (alert_body (sid (ref_board f :: 'x ref_flash board)) a)" "s\<lparr>world := w0\<rparr>"] conn(2) by auto
  define v where "v = w\<lparr>rf_now := rf_now w + 1\<rparr>"
  have vi: "rf_input v = ''HTTP/1.1 200 OK'' @ [CR, LF]" by (simp add: v_def i)
  have board: "wifi_connected (ref_board f) (world s) = (True, world s)" "b_millis (ref_board f) w = (rf_now w, v)"
      "tls_available (ref_board f) v = (True, v)" "tls_stop (ref_board f) u = ((), u)" for u
    using assms vi by (simp_all add: ref_board_def v_def)
  have wait: "run_state (wait_response (ref_board f) t 5001) (s\<lparr>world := v\<rparr>) = ((), s\<lparr>world := v\<rparr>)" for t
    by (rule ref_wait_response) (simp add: vi)
  obtain l w5 where line: "tls_readBytesUntil (ref_board f) LF 95 v = (l, w5)" by fastforce
  have "l = takeWhile (\<lambda>x. x \<noteq> LF) (''HTTP/1.1 200 OK'' @ [CR, LF])"
    using line vi by (simp add: ref_board_def rf_until_def Let_def CR_def LF_def)
  then have "parseHttpStatus l = 200" by (simp only: ok_status)
  then show ?thesis
    unfolding performAlertPost_def by (simp add: board conn(1) mem p wait line)
qed

theorem alerts_kept_until_delivered_witness:
  "\<exists>s' more. run_state (sendNextQueuedAlert (ref_board False) ref_os) ex_alerting = (AlertSent, s')
    \<and> fst (rf_extra (world s')) = alert_of ''info'' None ''second'' None # more"
proof -
  obtain r s' where r: "run_state (sendNextQueuedAlert (ref_board False) ref_os) ex_alerting = (r, s')" by fastforce
  have q: "alertQueue ex_alerting" "fst (rf_extra (world ex_alerting)) = [applied_notice, alert_of ''info'' None ''second'' None]"
    by (simp_all add: ex_alerting_def power_on_def tunnel.extend_def tunnel_new_def flash_with_def)
  have "after_peek ref_os ex_alerting = ex_alerting" by (simp add: after_peek_def ref_os_def ref_queue_def)
  then have "fst (run_state (performAlertPost (ref_board False) a) (after_peek ref_os ex_alerting)) = 200" for a
    using ref_post_ok [of ex_alerting] by (simp add: ex_alerting_def power_on_def tunnel.extend_def tunnel_new_def flash_with_def)
  then show ?thesis
    using wp_run [OF alerts_kept_until_delivered [OF ref_alerts.alert_board_axioms q(1)] r] r q(2) by (cases r) auto
qed

text \<open>
  C37: The heartbeat is neither too frequent nor too rare. Whatever documents the server sends and whatever the cached file contains, the
  interval of the Minis task stays between 2 and 1440 minutes, and the delay that \<open>nextHeartbeatDelaySeconds\<close> computes, for
  any value of the random generator, is between one and two intervals, without overflow.
\<close>

theorem heartbeat_delay_bounded:
  assumes "hb_reach B M s"
  shows "2 \<le> unat (heartbeatIntervalMin s) \<and> unat (heartbeatIntervalMin s) \<le> 1440
    \<and> wp (nextHeartbeatDelaySeconds B) (\<lambda>d _. 60 * unat (heartbeatIntervalMin s) \<le> unat d
        \<and> unat d \<le> 120 * unat (heartbeatIntervalMin s)) s"
proof -
  let ?m = "unat (heartbeatIntervalMin s)"
  have m: "2 \<le> ?m" "?m \<le> 1440" using hb_reach_ok [OF assms] by (simp_all add: interval_ok_def word_le_nat_alt)
  show ?thesis using m delay_bounds [OF m] by (simp add: nextHeartbeatDelaySeconds_def wp_simps split: prod.split)
qed

theorem heartbeat_delay_bounded_witness:
  "wp (nextHeartbeatDelaySeconds (ref_board False)) (\<lambda>d _. 120 \<le> unat d \<and> unat d \<le> 240) ex_alerting"
proof -
  have i: "heartbeatIntervalMin ex_alerting = 2"
    by (simp add: ex_alerting_def power_on_def tunnel.extend_def ONBOARDING_HEARTBEAT_INTERVAL_MIN_def)
  have r: "hb_reach (ref_board False) ref_os ex_alerting"
    by (rule hb_reach.initial) (simp add: i ONBOARDING_HEARTBEAT_INTERVAL_MIN_def)
  show ?thesis using heartbeat_delay_bounded [OF r] by (simp add: i)
qed

end
