(* ===== verification/Firmware_Frame.thy ===== *)
theory Firmware_Frame
  imports Firmware_Main Link_State
begin

text \<open>
  Frames of the application: which of its operations touch the stored configuration, the portal and the tunnel object. Three locales
  from \<open>app_base\<close> to \<open>app_portal\<close> prove, once for every predicate with the stated independence, that the operations of the application keep it; the
  locale \<open>firmware_frame\<close> is the interface between the tunnel library and the application.
\<close>

section \<open>The application's own state\<close>

text \<open>
  \<open>app_base\<close>: a predicate that may look at the stored configuration, at the mode of the portal, at the request to edit the configuration
  and at \<open>tunnelRuntimeReady\<close>, at the tunnel object, but at no other variable of the application, and that does not mind that the portal stops.
  The locales \<open>app_config\<close> and \<open>app_portal\<close> are for predicates that do not look at the configuration, and neither at the portal.
\<close>

locale app_base =
  fixes J :: "('w, 'r, 'z) firmware_scheme \<Rightarrow> bool"
  assumes base_updates [simp]: "J (s\<lparr>world := w\<rparr>) = J s"
    "J (s\<lparr>led_currentState := a1\<rparr>) = J s" "J (s\<lparr>led_stateStartedAt := a2\<rparr>) = J s" "J (s\<lparr>led_lastUpdateAt := a2\<rparr>) = J s"
    "J (s\<lparr>led_initialized := b\<rparr>) = J s" "J (s\<lparr>led_outputKnown := b\<rparr>) = J s" "J (s\<lparr>led_lastOutput := b\<rparr>) = J s"
    "J (s\<lparr>mv_currentVendor := a3\<rparr>) = J s" "J (s\<lparr>mv_stationPrepared := b\<rparr>) = J s"
    "J (s\<lparr>wf_server := b\<rparr>) = J s" "J (s\<lparr>wf_dns := b\<rparr>) = J s"
    "J (s\<lparr>transitionPending := b\<rparr>) = J s" "J (s\<lparr>transitionAt := a2\<rparr>) = J s" "J (s\<lparr>button_state := a5\<rparr>) = J s"
    "J (s\<lparr>buttonTaskHandle := b\<rparr>) = J s" "J (s\<lparr>buttonTaskStarted := b\<rparr>) = J s"
    "J (s\<lparr>wifiResetRequested := b\<rparr>) = J s" "J (s\<lparr>restarted := b\<rparr>) = J s"
    "J (s\<lparr>heartbeatTaskHandle := b\<rparr>) = J s" "J (s\<lparr>managedConfigQueue := b\<rparr>) = J s" "J (s\<lparr>alertQueue := b\<rparr>) = J s"
    "J (s\<lparr>heartbeatIntervalMin := a7\<rparr>) = J s"
    "J (s\<lparr>minisBootstrapAttempted := b\<rparr>) = J s" "J (s\<lparr>minisHeartbeatStartAttempted := b\<rparr>) = J s"
    "J (s\<lparr>automaticIdentityAttempted := b\<rparr>) = J s" "J (s\<lparr>automaticPublicKeyUploadAttempted := b\<rparr>) = J s"
    "J (s\<lparr>lastStatsReport := a2\<rparr>) = J s" "J (s\<lparr>lastBytesSent := a2\<rparr>) = J s" "J (s\<lparr>lastBytesReceived := a2\<rparr>) = J s"
    and base_stop: "J s \<Longrightarrow> J (s\<lparr>wf_mode := PortalNone\<rparr>)"
begin

lemma app_ext: "keeps J (ext f)"
  by (auto simp: keeps_def wp_simps split: prod.splits)

lemma app_modify: "(\<And>s. J (f s) = J s) \<Longrightarrow> keeps J (modify f)"
  by (simp add: keeps_def wp_simps)

lemmas app_ops = keeps_intros app_ext app_modify

section \<open>LED and MAC profile\<close>

lemma app_led: "keeps J (led_begin B)" "keeps J (led_set B st)" "keeps J (led_update B)"
  unfolding led_begin_def led_set_def led_update_def led_writeOutput_def by (intro app_ops; simp)+

lemma app_mac: "keeps J (prepareStation B v)" "keeps J (hardwareAddress B)" "keeps J (activeAddress B)"
  unfolding prepareStation_def hardwareAddress_def activeAddress_def factoryStationMac_def by (intro app_ops; simp)+

section \<open>Storage\<close>

lemma app_files:
  "keeps J (removeIfExists B p)" "keeps J (println B p v)" "keeps J (writeValue B p n v)" "keeps J (loadKeys B k)"
  unfolding removeIfExists_def println_def writeValue_def loadKeys_def by (intro app_ops)+

lemma app_replace: "keeps J (replace_file B t p b)"
  unfolding replace_file_def by (intro app_ops app_files)

lemma app_writeConfig: "keeps J (writeConfig B c)"
  unfolding writeConfig_def write_config_text_def by (intro app_ops app_files app_replace)

lemma app_saveKeys: "keeps J (saveKeys B a b)"
  unfolding saveKeys_def writeKeyFile_def by (intro app_ops app_files)

lemma app_load_finish: "keeps J (load_finish B st)"
  unfolding load_finish_def by (intro app_ops app_files)

lemma app_loadConfig: "keeps J (loadConfig B c)"
  unfolding loadConfig_def by (auto intro!: app_ops app_files app_load_finish split: bool.split)

lemmas app_storage = app_ops app_files app_replace app_writeConfig app_saveKeys app_loadConfig

section \<open>Portal\<close>

lemma app_sample: "keeps J (sampleConfigButton B b)"
  unfolding sampleConfigButton_def by (intro app_ops)

lemma app_restart: "keeps J (restart B)"
  unfolding restart_def by (intro app_ops; simp)

lemma app_pages: "keeps J (sendWifiPage B e)" "keeps J (sendDevicePage B e)"
  unfolding sendWifiPage_def sendDevicePage_def by (intro app_ops)+

lemma app_services: "keeps J (stopServices B)" "keeps J (startConfigButtonTask B)"
  unfolding stopServices_def startConfigButtonTask_def by (intro keeps_intros app_ext keeps_modify; simp add: base_stop)+

lemma app_wait_connected: "keeps J (wait_connected B t n)"
  by (induction n) (auto intro!: app_ops)

lemma app_case_button:
  "keeps J a \<Longrightarrow> keeps J b \<Longrightarrow> keeps J c \<Longrightarrow> keeps J d \<Longrightarrow>
    keeps J (case x of NoAction \<Rightarrow> a | Edit \<Rightarrow> b | WifiReset \<Rightarrow> c | FactoryReset \<Rightarrow> d)"
  by (cases x) auto

lemma app_pollConfigResetButton: "keeps J (pollConfigResetButton B)"
  unfolding pollConfigResetButton_def store_marker_def forget_wifi_and_restart_def
  by (intro app_storage app_case_button app_sample app_services app_restart; simp)

lemma app_button_round: "keeps J (configButtonTask_round B)"
  unfolding configButtonTask_round_def by (intro app_ops app_sample; simp)

section \<open>Minis client\<close>

lemma app_tls_print: "keeps J (tls_print B s)"
  unfolding tls_print_def by (intro app_ops)

lemma app_tlsMemory: "keeps J (tlsMemoryAvailable B)"
  unfolding tlsMemoryAvailable_def by (intro app_ops)

lemma app_wait_response: "keeps J (wait_response B t n)"
  by (induction n) (auto intro!: app_ops)

lemma app_alert_post: "keeps J (performAlertPost B a)"
  unfolding performAlertPost_def by (intro app_ops app_tlsMemory app_tls_print app_wait_response)

lemma app_sendNextQueuedAlert: "keeps J (sendNextQueuedAlert B M)"
  unfolding sendNextQueuedAlert_def by (intro app_ops app_alert_post)

lemma app_read_headers: "keeps J (read_headers B n c)"
  by (induction n arbitrary: c) (auto intro!: app_ops)

lemma app_read_available: "keeps J (read_available B n cap r)"
  by (induction n arbitrary: r) (auto intro!: app_ops split: prod.split)

lemma app_read_body: "keeps J (read_body B n cap r)"
proof (induction n arbitrary: r)
  case (Suc n)
  then show ?case unfolding read_body.simps by (intro app_ops app_read_available)
qed (auto intro: app_ops)

lemma app_performGet: "keeps J (performGet B n suffix buf)"
  unfolding performGet_def read_response_def
  by (intro app_ops app_tlsMemory app_tls_print app_read_headers app_read_body)

lemma app_registerClient: "keeps J (registerClient B)"
  unfolding registerClient_def sendBootstrap_def by (intro app_ops app_performGet)

lemma app_refreshConfig: "keeps J (refreshConfig B M n)"
  unfolding refreshConfig_def writeCachedHeartbeatInterval_def queueManagedConfig_def
  by (intro app_storage app_performGet; simp)

lemma app_heartbeat_wait: "keeps J (heartbeat_wait B M n r)"
  by (induction n arbitrary: r) (auto intro!: app_ops app_sendNextQueuedAlert simp: Let_def)

lemma app_heartbeat: "keeps J (heartbeat_start B M n)" "keeps J (heartbeat_round B M n)"
  unfolding heartbeat_start_def heartbeat_round_def loadCachedHeartbeatInterval_def queueConfigAppliedNoticeIfNeeded_def
    nextHeartbeatDelaySeconds_def
  by (intro app_ops app_refreshConfig app_sendNextQueuedAlert app_heartbeat_wait; simp)+

lemma app_startHeartbeatTask: "keeps J (startHeartbeatTask B M)"
  unfolding startHeartbeatTask_def by (intro app_ops; simp)

lemma app_queueAlert: "keeps J (queueAlert M l t m g)"
  unfolding queueAlert_def by (intro app_ops)

lemma app_markConfigAppliedNotice: "keeps J (markConfigAppliedNotice B)"
  unfolding markConfigAppliedNotice_def by (intro app_ops)

section \<open>Upload and keys\<close>

lemma app_writeAll: "keeps J (writeAll B d)"
proof -
  have "keeps J (writeAll_loop B n d)" for n by (induction n arbitrary: d) (auto intro!: app_ops)
  then show ?thesis by (simp add: writeAll_def)
qed

lemma app_uploadTextFile: "keeps J (uploadTextFile B a b c d e)"
  unfolding uploadTextFile_def by (intro app_ops app_writeAll app_wait_response)

lemma app_genesis: "keeps J (uploadGenesisIfNeeded B M a k)"
  unfolding uploadGenesisIfNeeded_def genesisAlreadySentForKey_def storeGenesisMarker_def buildGenesisReport_def localTimestamp_def
  by (intro app_ops app_uploadTextFile app_mac app_queueAlert)

lemma app_upload: "keeps J (upload B M k)"
  unfolding upload_def by (intro app_ops app_uploadTextFile app_genesis)

lemma app_ensure: "keeps J (ensure B T c)"
  unfolding ensure_def loadExisting_def generateKeyPair_def generate_steps_def buildOpenSshPublicKey_def persistKeyPair_def writeFile_def
  by (intro app_ops app_files)

section \<open>The application\<close>

lemma app_callback: "keeps J (callback B e)"
  unfolding callback_def by (auto intro!: app_ops app_led split: tunnel_event.split)

lemma app_deliver: "keeps J m \<Longrightarrow> keeps J (deliver B m)"
  unfolding deliver_def by (intro app_ops app_callback)

lemma app_wifi_pause: "keeps J (wifi_pause B t n)"
  by (induction n) (auto intro!: app_ops app_led app_pollConfigResetButton)

lemma app_wifi_attempts: "keeps J (wifi_attempts B n)"
  by (induction n) (auto intro!: app_ops app_wifi_pause simp del: wifi_pause.simps)

lemma app_connectWiFi: "keeps J (connectWiFi B)"
  unfolding connectWiFi_def by (intro app_ops app_led app_mac app_wifi_attempts)

lemma app_applyPendingMinisConfig: "keeps J (applyPendingMinisConfig B M)"
  unfolding applyPendingMinisConfig_def takeManagedTunnelConfig_def saveManagedConfig_def
  by (intro app_storage app_markConfigAppliedNotice app_restart)

lemma app_reportStats: "keeps J (reportStats B)"
  unfolding reportStats_def by (intro app_ops; simp)

lemma app_wait_serial: "keeps J (wait_serial B t n)"
  by (induction n) (auto intro!: app_ops)

text \<open>With a complete configuration, the control plane does not touch it.\<close>

lemma app_control_complete:
  assumes "\<And>s. J s \<Longrightarrow> setupComplete (deviceConfig s)"
  shows "keeps J (ensureMinisControlPlane B M T)"
  unfolding ensureMinisControlPlane_def
  by (rule keeps_bind, rule app_ext, rule keeps_if, rule keeps_return)
    (intro app_ops keeps_gets_bind app_registerClient app_startHeartbeatTask; simp add: assms whenM_def keeps_return)

end

locale app_config = app_base J
  for J :: "('w, 'r, 'z) firmware_scheme \<Rightarrow> bool" +
  assumes config_update [simp]: "J (s\<lparr>deviceConfig := c\<rparr>) = J s"
begin

lemma app_ensureMinisControlPlane: "keeps J (ensureMinisControlPlane B M T)"
  unfolding ensureMinisControlPlane_def
  by (intro app_ops app_registerClient app_startHeartbeatTask app_ensure app_upload; simp)

end

locale app_portal = app_config J
  for J :: "('w, 'r, 'z) firmware_scheme \<Rightarrow> bool" +
  assumes portal_updates [simp]: "J (s\<lparr>wf_mode := m\<rparr>) = J s" "J (s\<lparr>configEditRequested := b\<rparr>) = J s"
begin

lemma app_portal_start: "keeps J (startDevicePortalInternal B)"
  unfolding startDevicePortalInternal_def by (intro app_ops; simp)

lemma app_startWifiPortal: "keeps J (startWifiPortal B)"
  unfolding startWifiPortal_def by (intro app_ops app_services app_portal_start; simp)

lemma app_store_device: "keeps J (store_device B c)"
  unfolding store_device_def by (intro app_storage app_pages app_restart; simp)

lemma app_handleDeviceSave: "keeps J (handleDeviceSave B rq)"
  unfolding handleDeviceSave_def by (intro app_ops app_pages app_store_device)

lemma app_store_wifi: "keeps J (store_wifi B a b v)"
  unfolding store_wifi_def by (intro app_storage app_pages app_restart; simp)

lemma app_handleWifiSave: "keeps J (handleWifiSave B rq)"
  unfolding handleWifiSave_def by (intro app_ops app_pages app_wait_connected app_store_wifi)

lemma app_handleClient: "keeps J (handleClient B)"
  unfolding handleClient_def by (intro app_ops app_pages app_handleWifiSave app_handleDeviceSave)

lemma app_prov_begin: "keeps J (prov_begin B)"
  unfolding prov_begin_def mountStorage_def
  by (intro app_storage app_services app_portal_start app_startWifiPortal app_mac; simp)

lemma app_startDeviceSetup: "keeps J (startDeviceSetup B)"
  unfolding startDeviceSetup_def by (intro app_ops app_services app_portal_start)

lemma app_prov_loop: "keeps J (prov_loop B)"
  unfolding prov_loop_def by (intro app_ops app_services app_portal_start app_handleClient; simp)

end

section \<open>What the application cannot affect\<close>

text \<open>
  The interface between the tunnel library and the application: a predicate that looks at the tunnel object and the configuration only, and not at the
  world. Every operation of the modules LED, MAC profile, portal, Minis client, upload and key provisioning keeps it, because none of
  them touches the tunnel object.
\<close>

locale firmware_frame =
  fixes J :: "('w, 'r, 'z) firmware_scheme \<Rightarrow> bool"
  assumes frame_app: "tunnel.truncate (s\<lparr>world := w\<rparr>) = tunnel.truncate (t\<lparr>world := w\<rparr>) \<Longrightarrow> J s = J t"

context firmware_frame
begin

lemma app_portal: "app_portal J"
proof -
  have upd: "J (s\<lparr>wf_mode := m\<rparr>) = J s" for s m by (rule frame_app) (simp add: tunnel.truncate_def)
  show ?thesis by unfold_locales ((rule frame_app; simp add: tunnel.truncate_def) | simp add: upd)+
qed

end

sublocale firmware_frame \<subseteq> app_portal
  by (rule app_portal)

context firmware_frame
begin

lemma frame_ready [simp]: "J (s\<lparr>tunnelRuntimeReady := b\<rparr>) = J s"
  by (rule frame_app) (simp add: tunnel.truncate_def)

end

section \<open>The interface to the library\<close>

text \<open>The setters of the configuration that the application calls keep a predicate that does not depend on the settings.\<close>

locale firmware_settings = firmware_frame J
  for J :: "('w, 'r, 'z) firmware_scheme \<Rightarrow> bool" +
  fixes P :: "('w, 'r) platform"
  assumes client_handlers: "keeps J (setEventHandlers hs)"
    and client_settings: "J (s\<lparr>sshConfig := sc\<rparr>) = J s" "J (s\<lparr>tunnelMappings := ms\<rparr>) = J s" "J (s\<lparr>debugConfig := dc\<rparr>) = J s"
    and client_connection: "J s \<Longrightarrow> J (s\<lparr>connectionConfig := (connectionConfig s)\<lparr>maxReverseListeners := n\<rparr>\<rparr>)"
      "J s \<Longrightarrow> J (s\<lparr>connectionConfig := (connectionConfig s)\<lparr>keepAliveIntervalSec := a, libssh2KeepAliveIntervalSec := a,
        reconnectDelayMs := d, maxReconnectAttempts := m, connectionTimeoutSec := t\<rparr>\<rparr>)"
      "J s \<Longrightarrow> r < 2 ^ 31 \<Longrightarrow> J (s\<lparr>connectionConfig := (connectionConfig s)\<lparr>bufferSize := b, maxChannels := m,
        channelTimeoutMs := u, tunnelRingBufferSize := r\<rparr>\<rparr>)"
begin

lemma client_locked: "(\<And>s. J s \<Longrightarrow> J (f s)) \<Longrightarrow> keeps J (locked_update P f)"
  unfolding locked_update_def lockConfig_def unlockConfig_def by (intro app_ops keeps_modify)

lemma client_common: "keeps J (configureCommonTunnelSettings P B)"
  unfolding configureCommonTunnelSettings_def setMaxReverseListeners_def setConnectionConfig_def setBufferConfig_def
    setDebugConfig_def setLogLevel_def registerTunnelCallbacks_def Let_def
  by (intro keeps_intros client_locked client_handlers)
    (simp_all add: client_settings client_connection TUNNEL_RING_BUFFER_SIZE_def)

lemma client_configure: "keeps J (configureSSHTunnel P B)"
  unfolding configureSSHTunnel_def setSSHKeyAuthFromMemory_def setSSHServer_def setTunnelConfig_def
  by (intro app_ops client_common client_locked) (simp_all add: client_settings)

end

text \<open>
  What the application asks of the library: initialisation with a ring size that the configuration can have, connecting and the
  library's loop keep the predicate. Then \<open>setup\<close> establishes it and \<open>loop\<close> keeps it.
\<close>

locale firmware_client = firmware_settings J P
  for J :: "('w, 'r, 'z) firmware_scheme \<Rightarrow> bool" and P :: "('w, 'r) platform" +
  assumes client_init: "J s \<Longrightarrow> tunnelRingBufferSize (connectionConfig s) < 2 ^ 31 \<Longrightarrow> wp (tunnel_init P) (\<lambda>_. J) s"
    and client_connect: "keeps J (connectSSH P)"
    and client_loop: "keeps J (tunnel_loop P)"

lemma small_ring_frame:
  fixes s t :: "('w, 'r, 'z) firmware_scheme"
  assumes "tunnel.truncate (s\<lparr>world := w\<rparr>) = tunnel.truncate (t\<lparr>world := w\<rparr>)"
  shows "connectionConfig s = connectionConfig t"
  using assms by (simp add: tunnel.truncate_def)

sublocale firmware_client \<subseteq> small: firmware_settings "\<lambda>s. J s \<and> tunnelRingBufferSize (connectionConfig s) < 2 ^ 31" P
  using client_handlers client_settings client_connection
  by unfold_locales
    (auto simp: keeps_def wp_simps setEventHandlers_def dest: frame_app small_ring_frame)

context firmware_client
begin

lemma client_setup_tunnel:
  assumes "J s" "tunnelRingBufferSize (connectionConfig s) < 2 ^ 31"
  shows "wp (setup_tunnel P B M) (\<lambda>_. J) s"
proof -
  let ?K = "\<lambda>s. J s \<and> tunnelRingBufferSize (connectionConfig s) < 2 ^ 31"
  have init: "wp (deliver B (tunnel_init P)) (\<lambda>_. J) t" if "?K t" for t
    unfolding deliver_def wp_bind wp_gets
    by (rule wp_mono [OF client_init]) (use that in \<open>auto simp: wp_simps intro!: wp_keep [OF keeps_for_each [OF app_callback]]\<close>)
  show ?thesis
    unfolding setup_tunnel_def wp_bind wp_gets wp_if
    using assms
    by (auto intro!: wp_keep [OF app_led(2)] wp_keep [OF app_startDeviceSetup] wp_keep [OF small.app_upload] wp_keep [OF small.client_configure]
        wp_mono [OF init] wp_keep [OF app_deliver [OF client_connect]] simp: wp_simps)
qed

lemma client_setup:
  assumes "J s" "tunnelRingBufferSize (connectionConfig s) < 2 ^ 31"
  shows "wp (fw_setup P B M T) (\<lambda>_. J) s"
  unfolding fw_setup_def wp_bind wp_gets wp_if
  using assms
  by (auto intro!: wp_keep [OF small.app_led(1)] wp_keep [OF small.app_led(2)] wp_keep [OF small.app_ext] wp_keep [OF small.app_wait_serial]
      wp_keep [OF small.app_prov_begin] wp_keep [OF small.app_connectWiFi] wp_keep [OF small.app_ensureMinisControlPlane]
      client_setup_tunnel keepsD [OF app_led(2)] simp: wp_simps)

lemma client_fw_loop: "keeps J (fw_loop P B M T)"
  unfolding fw_loop_def
  by (intro app_ops app_led app_pollConfigResetButton app_prov_loop app_ensureMinisControlPlane app_applyPendingMinisConfig
      app_connectWiFi app_deliver client_loop app_reportStats)

end

end
