(* ===== verification/Firmware_Invariant.thy ===== *)
theory Firmware_Invariant
  imports Firmware_Frame Ssh_Identity
begin

text \<open>
  The firmware as a whole: the states it goes through from power-on, with its tasks in any interleaving, and what the
  library promises to any client holds in all of them.
\<close>

section \<open>Reachable states\<close>

text \<open>
  The application starts with \<open>setup\<close> and calls \<open>loop\<close> as long as it has not restarted; between two calls, the tasks of the button and of
  the Minis client run, and the world changes.
\<close>

inductive fw_reach ::
  "('w, 'r) platform \<Rightarrow> 'w board \<Rightarrow> 'w minis_os \<Rightarrow> 'w mbedtls \<Rightarrow> ('w, 'r) firmware \<Rightarrow> bool" for P B M T where
  boot: "fw_reach P B M T (after (fw_setup P B M T) (power_on w m))"
| loop: "fw_reach P B M T s \<Longrightarrow> \<not> restarted s \<Longrightarrow> fw_reach P B M T (after (fw_loop P B M T) s)"
| button: "fw_reach P B M T s \<Longrightarrow> fw_reach P B M T (after (configButtonTask_round B) s)"
| heartbeat_first: "fw_reach P B M T s \<Longrightarrow> heartbeatTaskHandle s \<Longrightarrow> fw_reach P B M T (after (heartbeat_start B M n) s)"
| heartbeat: "fw_reach P B M T s \<Longrightarrow> heartbeatTaskHandle s \<Longrightarrow> fw_reach P B M T (after (heartbeat_round B M n) s)"
| others: "fw_reach P B M T s \<Longrightarrow> fw_reach P B M T (s\<lparr>world := w\<rparr>)"

inductive_cases fw_reach_elims: "fw_reach P B M T s"

lemma power_on_small_ring: "tunnelRingBufferSize (connectionConfig (power_on w m)) < 2 ^ 31"
  by (simp add: power_on_def tunnel.extend_def tunnel_new_def connection_default_def)

lemma fw_reach_client:
  fixes J :: "('w, 'r) firmware \<Rightarrow> bool"
  assumes "firmware_client J P" and on: "\<And>w m. J (power_on w m)" and "fw_reach P B M T s"
  shows "J s"
proof -
  have F: "firmware_frame J" by (rule assms(1) [THEN firmware_client.axioms(1), THEN firmware_settings.axioms(1)])
  have A: "app_base J"
    by (rule app_config.axioms(1) [OF app_portal.axioms(1) [OF firmware_frame.app_portal [OF F]]])
  show ?thesis
    using assms(3)
  proof (induction rule: fw_reach.induct)
    case (boot w m)
    then show ?case
      using firmware_client.client_setup [OF assms(1) on power_on_small_ring] by (simp add: after_def wp_iff_run)
  next
    case (others s w)
    then show ?case using app_base.base_updates(1) [OF A] by blast
  qed (auto intro!: after_keeps firmware_client.client_fw_loop [OF assms(1)] app_base.app_button_round [OF A]
      app_base.app_heartbeat [OF A])
qed

section \<open>What the library keeps\<close>

lemma tunnel_inv_frame_app:
  fixes s t :: "('w, 'r, 'z) firmware_scheme"
  assumes "tunnel.truncate (s\<lparr>world := w\<rparr>) = tunnel.truncate (t\<lparr>world := w\<rparr>)"
  shows "tunnel_inv P R s = tunnel_inv P R t" "link_inv s = link_inv t"
  using assms by (auto simp: tunnel.truncate_def tunnel_inv_def chan_inv_def link_inv_def link_up_def link_down_def isConnected_def)

interpretation fw_resources: firmware_client "tunnel_inv P (\<lambda>_. True)" P for P :: "('w, 'r) platform"
  by unfold_locales
    (auto intro: any_ring.wp_tunnel_init any_ring.keeps_connectSSH any_ring.keeps_tunnel_loop any_ring.keeps_setEventHandlers
      dest: tunnel_inv_frame_app(1))

lemma link_client: "socket_contract P \<Longrightarrow> firmware_client link_inv P"
  by unfold_locales
    (auto intro: keepsD [OF link_tunnel_init] link_connectSSH link_tunnel_loop link_mappings
      simp: keeps_link_state dest: tunnel_inv_frame_app(2))

section \<open>The library's promises in the firmware\<close>

text \<open>
  The firmware keeps the tunnel sound, whatever its users, its servers, the file system and the network do: in every state it
  reaches from power-on, an active slot owns both ring buffers and an open local socket, an inactive slot owns
  nothing, the active counter is exact, the queues stay within their arrays; and with sockets that are numbered as documented, the tunnel is only
  called connected when it has a session, a socket and a listener. No module of the application can break what the library
  promises.
\<close>

lemma firmware_keeps_tunnel_sound:
  assumes "fw_reach P B M T s"
  shows "(\<forall>i. 0 \<le> i \<and> i < maxSlots s \<longrightarrow>
      (if active (getSlot i s)
       then toLocal (getSlot i s) \<noteq> None \<and> toRemote (getSlot i s) \<noteq> None \<and> 0 \<le> localSocket (getSlot i s)
         \<and> chstate (getSlot i s) \<noteq> Closed
       else toLocal (getSlot i s) = None \<and> toRemote (getSlot i s) = None \<and> localSocket (getSlot i s) < 0
         \<and> chstate (getSlot i s) = Closed \<and> sshChannel (getSlot i s) = NULL))
    \<and> (\<forall>ss. slots s = Some ss \<longrightarrow> activeCount s = int (length (filter active ss)))
    \<and> length (pendingQueue s) \<le> 8 \<and> length (deferredCloseQueue s) \<le> 4 \<and> length (pendingCloseEvents s) \<le> 32
    \<and> (socket_contract P \<longrightarrow> tstate s \<noteq> TUNNEL_CONNECTING
      \<and> (tstate s = TUNNEL_CONNECTED \<longrightarrow> session s \<noteq> NULL \<and> 0 \<le> socketfd s \<and> listeners s \<noteq> [])
      \<and> (session s = NULL \<longrightarrow> socketfd s < 0 \<and> listeners s = []))"
proof -
  have new: "tunnel_inv P (\<lambda>_. True) (power_on w m)" "link_inv (power_on w m)" for w :: 'a and m
    by (simp_all add: power_on_def tunnel.extend_def tunnel_new_def tunnel_inv_def chan_inv_def queue_ok_def link_inv_def link_down_def)
  have r: "tunnel_inv P (\<lambda>_. True) s"
    by (rule fw_reach_client [OF fw_resources.firmware_client_axioms new(1) assms])
  have l: "link_inv s" if "socket_contract P"
    by (rule fw_reach_client [OF link_client [OF that] new(2) assms])
  show ?thesis
    using tunnel_inv_resources [OF r] l by (simp add: link_inv_def link_up_def isConnected_def link_down_def)
qed

end
