(* ===== verification/Firmware_Gate.thy ===== *)
theory Firmware_Gate
  imports Firmware_Invariant
begin

text \<open>
  When the firmware runs the tunnel, and with which settings. The locale \<open>client_frame\<close> is the other side of \<open>firmware_frame\<close>: what no operation of the library can
  affect, the settings it was given and the variables of its client.
\<close>

section \<open>What the library cannot affect\<close>

locale client_frame =
  fixes J :: "('w, 'r, 'z) tunnel_scheme \<Rightarrow> bool"
  assumes frame_client: "tunnel.more s = tunnel.more t \<Longrightarrow> sshConfig s = sshConfig t \<Longrightarrow> tunnelMappings s = tunnelMappings t \<Longrightarrow>
    configMutex s = configMutex t \<Longrightarrow> J s = J t"

sublocale client_frame \<subseteq> session_frame J
  by unfold_locales (rule frame_client; simp)+

sublocale client_frame \<subseteq> channel_frame J
  by unfold_locales (rule frame_client; simp)+

context client_frame
begin

lemma lib_slot: "keeps J (modify_slot i f)"
  unfolding modify_slot_def by (rule keeps_upd, rule frame_client) (simp_all add: upd_slot_def)

lemma lib_modify:
  assumes "\<And>s. tunnel.more (f s) = tunnel.more s \<and> sshConfig (f s) = sshConfig s \<and> tunnelMappings (f s) = tunnelMappings s
    \<and> configMutex (f s) = configMutex s"
  shows "keeps J (modify f)"
  by (rule keeps_upd, rule frame_client) (use assms in auto)

lemmas lib_ops = keeps_intros keeps_ext keeps_locking lib_slot lib_modify keeps_delete_ring keeps_drb_delete keeps_drb_new keeps_connectToLocalEndpoint keeps_heap_guard
  keeps_safeMalloc

lemma lib_pump: "pump_frame J P"
proof -
  have close: "keeps J (beginClose P i r)" "keeps J (finalizeClose P i)" "keeps J (abandonSlot P i r)" "keeps J (bindChannel P i ch m)" for i r ch m
    unfolding beginClose_def finalizeClose_def finalize_ssh_def finalize_local_def abandonSlot_def close_local_def
      count_buffered_dropped_def free_rings_def archiveSlotStats_def bindChannel_def resetSlot_def
    by (intro lib_ops; simp)+
  have rings: "keeps J (ring_write P i dir bs n)" "keeps J (ring_read P i dir n)" "keeps J (restoreUnsent P i dir bs)"
    "keeps J (push_close_event i r)" for i dir bs n r
    unfolding ring_write_def ring_read_def restoreUnsent_def on_ring_def push_close_event_def
    by (intro lib_ops; simp)+
  show ?thesis
    by unfold_locales (intro close rings lib_slot | rule frame_client; simp)+
qed

end

sublocale client_frame \<subseteq> pump: pump_frame J P for P
  by (rule lib_pump)

context client_frame
begin

lemma lib_emit: "keeps J (emit h e)"
  unfolding emit_def by (intro lib_ops) simp

lemma lib_closing:
  "keeps J (close_and_free P ch)" "keeps J (closeAcceptedChannel P ch t)" "keeps J (force_close P ch t)"
  "keeps J (retry_close P now e)" "keeps J (drop_pending P e)" "keeps J (close_entries P q)" "keeps J (bindAcceptedChannel P i ch m t)"
  "keeps J (abandon_all P r)" "keeps J drop_queues" "keeps J (updateStats P)" "keeps J (enqueuePending P ch m)"
  unfolding close_and_free_def closeAcceptedChannel_def force_close_def retry_close_def drop_pending_def close_entries_def
    bindAcceptedChannel_def abandon_all_def drop_queues_def updateStats_def enqueuePending_def
  by (intro lib_ops pump.keeps_abandon pump.keeps_bind; simp)+

lemmas lib_slots = pump.keeps_begin pump.keeps_final pump.keeps_abandon pump.keeps_bind

lemmas lib_tunnel = lib_ops lib_slots lib_emit lib_closing pump.keeps_pumpAll keeps_session_disconnect keeps_acceptChannel
  keeps_checkConnection keeps_sendKeepalive

lemma lib_allocateSlot: "keeps J (allocateSlot P)"
  unfolding allocateSlot_def by (intro lib_tunnel)

lemma lib_keep_entries: "(\<And>e. keeps J (f e)) \<Longrightarrow> keeps J (keep_entries f q)"
  by (induction q) (auto intro!: lib_tunnel)

lemma lib_queues:
  "keeps J (enqueueDeferredClose P ch m)" "keeps J (clearPendingQueue P)" "keeps J (clearDeferredCloseQueue P)"
  "keeps J (drainDeferredCloseQueue P)" "keeps J (cleanExpiredPending P)"
  unfolding enqueueDeferredClose_def clearPendingQueue_def clearDeferredCloseQueue_def drainDeferredCloseQueue_def cleanExpiredPending_def
    drain_deferred_entry_def clean_expired_entry_def
  by (intro lib_tunnel lib_keep_entries; simp)+

lemma lib_case_bind:
  "keeps J a \<Longrightarrow> keeps J b \<Longrightarrow> keeps J c \<Longrightarrow> keeps J (case r of Bound \<Rightarrow> a | BindFailed \<Rightarrow> b | LockUnavailable \<Rightarrow> c)"
  by (cases r) auto

lemma lib_drainPendingQueue: "keeps J (drainPendingQueue P)"
  unfolding drainPendingQueue_def drain_pending_entry_def try_bind_pending_def emitChannelOpened_def
  by (intro lib_tunnel lib_keep_entries lib_allocateSlot lib_case_bind; simp)

lemma lib_enterErrorState: "keeps J (enterErrorState P)"
  unfolding enterErrorState_def emitChannelClosed_def emitSessionDisconnected_def Let_def
  by (intro lib_tunnel lib_queues; simp)

lemma lib_handleNewConnection: "keeps J (handleNewConnection P)"
  unfolding handleNewConnection_def reject_backed_off_def reject_queue_full_def bind_new_def emitChannelOpened_def Let_def
  by (intro lib_tunnel lib_queues lib_allocateSlot lib_case_bind lib_enterErrorState)

lemma lib_accept_loop: "keeps J (accept_loop P n)"
  by (induction n) (auto intro!: lib_tunnel lib_handleNewConnection)

lemma lib_connectSSH: "keeps J (connectSSH P)"
  unfolding connectSSH_def emitErrorEvent_def emitSessionConnected_def
  by (intro lib_tunnel keeps_session_connect; simp)

lemma lib_handleReconnection: "keeps J (handleReconnection P)"
  unfolding handleReconnection_def reconnect_now_def by (intro lib_tunnel lib_queues lib_connectSSH; simp)

lemma lib_tunnel_loop: "keeps J (tunnel_loop P)"
  unfolding tunnel_loop_def check_socket_health_def keepalive_step_def pump_and_report_def queue_step_tail_def emitChannelClosed_def
    consumeCloseEvents_def
  by (intro lib_tunnel lib_queues lib_drainPendingQueue lib_enterErrorState lib_accept_loop lib_handleReconnection; simp)

lemma lib_tunnel_init: "keeps J (tunnel_init P)"
  unfolding tunnel_init_def channels_init_def channels_destroy_def pump_init_def pump_attach_def Let_def
  by (intro lib_tunnel keeps_session_init; simp)

end

section \<open>The two modes of the firmware\<close>

text \<open>No session, no channel, and no event of the tunnel so far.\<close>

definition quiet :: "('w, 'r, 'z) tunnel_scheme \<Rightarrow> bool" where
  "quiet s \<longleftrightarrow> session s = NULL \<and> tstate s = TUNNEL_DISCONNECTED \<and> activeCount s = 0 \<and> events s = []"

text \<open>The settings of the tunnel object are those of the stored configuration (without its mutex, the object takes no settings).\<close>

definition handed_over :: "device_config \<Rightarrow> ('w, 'r, 'z) tunnel_scheme \<Rightarrow> bool" where
  "handed_over c s \<longleftrightarrow> configMutex s \<longrightarrow>
     sc_host (sshConfig s) = sshHost c \<and> sc_port (sshConfig s) = sshPort c \<and> sc_username (sshConfig s) = sshUsername c
     \<and> useSSHKey (sshConfig s) = (sshAuthMethod c = PrivateKeyAuth)
     \<and> tunnelMappings s = [\<lparr>remoteBindHost = dc_remoteBindHost c, remoteBindPort = dc_remoteBindPort c,
          localHost = dc_localHost c, localPort = dc_localPort c\<rparr>]"

text \<open>The credentials have been removed from the configuration once the tunnel object has them.\<close>

definition credentials_dropped :: "device_config \<Rightarrow> bool" where
  "credentials_dropped c \<longleftrightarrow> (if sshAuthMethod c = PrivateKeyAuth then sshPrivateKey c = [] \<and> sshPublicKey c = [] else sshPassword c = [])"

definition waiting :: "('w, 'r, 'z) firmware_scheme \<Rightarrow> bool" where
  "waiting s \<longleftrightarrow> \<not> tunnelRuntimeReady s \<and> quiet s"

definition configured :: "device_config \<Rightarrow> ('w, 'r, 'z) firmware_scheme \<Rightarrow> bool" where
  "configured c s \<longleftrightarrow> deviceConfig s = c \<and> wf_mode s = PortalNone \<and> \<not> configEditRequested s \<and> handed_over c s"

definition running :: "device_config \<Rightarrow> ('w, 'r, 'z) firmware_scheme \<Rightarrow> bool" where
  "running c s \<longleftrightarrow> tunnelRuntimeReady s \<and> configured c s \<and> setupComplete c \<and> credentials_dropped c \<and> (\<not> tunnelEnabled c \<longrightarrow> quiet s)"

lemma more_fields:
  fixes s t :: "('w, 'r, 'z) firmware_scheme"
  assumes "tunnel.more s = tunnel.more t"
  shows "deviceConfig s = deviceConfig t" "wf_mode s = wf_mode t" "configEditRequested s = configEditRequested t"
    "tunnelRuntimeReady s = tunnelRuntimeReady t"
  using assms by (cases s; cases t; simp)+

interpretation waits: app_portal "waiting :: ('w, 'r, 'z) firmware_scheme \<Rightarrow> bool"
  by unfold_locales (simp_all add: waiting_def quiet_def)

interpretation runs: app_base "running c :: ('w, 'r, 'z) firmware_scheme \<Rightarrow> bool" for c
  by unfold_locales (simp_all add: running_def configured_def handed_over_def quiet_def)

interpretation kept: client_frame "\<lambda>s :: ('w, 'r, 'z) firmware_scheme. tunnelRuntimeReady s = b \<and> configured c s" for b c
  by unfold_locales (auto simp: configured_def handed_over_def dest: more_fields)

lemma quiet_init: "keeps quiet (tunnel_init P)"
proof -
  have e: "keeps quiet (ext f)" for f by (auto simp: keeps_def wp_simps quiet_def split: prod.splits)
  show ?thesis
    unfolding tunnel_init_def session_init_def channels_init_def channels_destroy_def pump_init_def pump_attach_def Let_def
      safeMalloc_def delete_ring_def drb_delete_def psramFree_def modify_slot_def
    by (intro keeps_intros keeps_modify e; simp add: quiet_def upd_slot_def)
qed

lemma quiet_loop: "keeps quiet (tunnel_loop P)"
  by (simp add: keeps_def quiet_def tunnel_loop_def wp_simps)

lemma running_if:
  fixes m :: "('w, 'r, 'z, 'a) firmware_op"
  assumes "keeps (\<lambda>s. tunnelRuntimeReady s = True \<and> configured c s) m" and "\<not> tunnelEnabled c \<Longrightarrow> keeps quiet m"
  shows "keeps (running c) m"
proof (rule keepsI)
  fix s :: "('w, 'r, 'z) firmware_scheme" assume s: "running c s"
  then have k: "wp m (\<lambda>_ s. tunnelRuntimeReady s = True \<and> configured c s) s" by (intro keepsD [OF assms(1)]) (simp add: running_def)
  show "wp m (\<lambda>_. running c) s"
  proof (cases "tunnelEnabled c")
    case True
    then show ?thesis using s by (intro wp_mono [OF k]) (simp add: running_def)
  next
    case False
    then have "wp m (\<lambda>_. quiet) s" using s by (intro keepsD [OF assms(2)]) (simp_all add: running_def)
    from wp_conj [OF k this] show ?thesis by (rule wp_mono) (use s in \<open>simp add: running_def\<close>)
  qed
qed

lemma running_loop: "keeps (running c) (tunnel_loop P)"
  by (rule running_if [OF kept.lib_tunnel_loop quiet_loop])

section \<open>Setup\<close>

text \<open>The mutex of the configuration is always granted in the end: the lock waits forever.\<close>

definition config_lock_granted :: "('w, 'r) platform \<Rightarrow> bool" where
  "config_lock_granted P \<longleftrightarrow> (\<forall>w. fst (p_xSemaphoreTake P ConfigMutex portMAX_DELAY w))"

lemma wp_locked:
  assumes "config_lock_granted P" and "\<And>t. configMutex (f t) = configMutex t"
    and "\<not> configMutex s \<Longrightarrow> Q () s" and "\<And>w w'. configMutex s \<Longrightarrow> Q () ((f (s\<lparr>world := w\<rparr>))\<lparr>world := w'\<rparr>)"
  shows "wp (locked_update P f) Q s"
proof -
  obtain ok w where t: "p_xSemaphoreTake P ConfigMutex portMAX_DELAY (world s) = (ok, w)" by fastforce
  then have "ok" using assms(1) by (metis config_lock_granted_def fst_conv)
  then show ?thesis
    using assms(2-4) t by (auto simp: locked_update_def lockConfig_def unlockConfig_def wp_simps split: prod.splits)
qed

definition stripped :: "device_config \<Rightarrow> device_config" where
  "stripped c = (if sshAuthMethod c = PrivateKeyAuth then c\<lparr>sshPrivateKey := [], sshPublicKey := []\<rparr> else c\<lparr>sshPassword := []\<rparr>)"

lemma configure_hands_over:
  fixes s :: "('w, 'r, 'z) firmware_scheme"
  assumes "config_lock_granted P" and "waiting s" and "wf_mode s = PortalNone" and "\<not> configEditRequested s"
  shows "wp (configureSSHTunnel P B) (\<lambda>_ s'. waiting s' \<and> configured (stripped (deviceConfig s)) s') s"
  using assms(2-4)
  unfolding configureSSHTunnel_def configureCommonTunnelSettings_def setSSHKeyAuthFromMemory_def setSSHServer_def setTunnelConfig_def
    setMaxReverseListeners_def setConnectionConfig_def setBufferConfig_def setDebugConfig_def setLogLevel_def registerTunnelCallbacks_def
    setEventHandlers_def Let_def
  by (auto simp: wp_simps wp_bind_fun waiting_def configured_def handed_over_def stripped_def quiet_def intro!: wp_locked assms(1))

text \<open>Before and after the settings have been handed over.\<close>

interpretation prep: app_base
  "\<lambda>s :: ('w, 'r, 'z) firmware_scheme. waiting s \<and> deviceConfig s = c \<and> wf_mode s = PortalNone \<and> \<not> configEditRequested s" for c
  by unfold_locales (simp_all add: waiting_def quiet_def)

interpretation loaded: app_base "\<lambda>s :: ('w, 'r, 'z) firmware_scheme. waiting s \<and> configured c s" for c
  by unfold_locales (simp_all add: waiting_def quiet_def configured_def handed_over_def)

lemma loaded_init: "keeps (\<lambda>s. waiting s \<and> configured c s) (tunnel_init P)"
  using keeps_conj [OF quiet_init kept.lib_tunnel_init, where b1 = False and c1 = c] by (simp add: waiting_def conj_ac)

lemma setup_tunnel_modes:
  fixes s :: "('w, 'r, 'z) firmware_scheme"
  assumes "config_lock_granted P" and "waiting s" and "wf_mode s = PortalNone"
  shows "wp (setup_tunnel P B M) (\<lambda>_ s'. waiting s' \<or> (\<exists>c. running c s')) s"
proof -
  define c where "c = deviceConfig s"
  let ?Q = "\<lambda>s' :: ('w, 'r, 'z) firmware_scheme. waiting s' \<or> (\<exists>c. running c s')"
  have w: "wp m (\<lambda>_. ?Q) t" if "keeps waiting m" "waiting t" for m :: "('w, 'r, 'z, 'a) firmware_op" and t
    by (rule wp_mono [OF keepsD [OF that]]) simp
  have r: "wp m (\<lambda>_. ?Q) t" if "keeps (running d) m" "running d t" for m :: "('w, 'r, 'z, 'a) firmware_op" and d t
    by (rule wp_mono [OF keepsD [OF that]]) auto
  have up: "running (stripped c) (t\<lparr>tunnelRuntimeReady := True\<rparr>)" if "waiting t \<and> configured (stripped c) t" "setupComplete c" for t
    using that by (simp add: running_def waiting_def configured_def handed_over_def stripped_def credentials_dropped_def quiet_def)
  have connect: "wp (do { c \<leftarrow> gets deviceConfig;
       if \<not> tunnelEnabled c then led_set B LedDisabled
       else do { up \<leftarrow> deliver B (connectSSH P); if \<not> up then led_set B LedError else ret () } }) (\<lambda>_. ?Q) t"
    if "running (stripped c) t" for t
  proof -
    have d: "deviceConfig t = stripped c" using that by (simp add: running_def configured_def)
    have link: "keeps (running (stripped c)) (connectSSH P)" if "tunnelEnabled (stripped c)"
      by (rule running_if [OF kept.lib_connectSSH]) (simp add: that)
    show ?thesis
      by (intro wp_gets_intro wp_if_intro; simp add: d)
        (intro r [OF _ that] keeps_intros runs.app_led runs.app_deliver link; simp)+
  qed
  have ready: "wp (do { modify (\<lambda>s. s\<lparr>tunnelRuntimeReady := True\<rparr>);
       c \<leftarrow> gets deviceConfig;
       if \<not> tunnelEnabled c then led_set B LedDisabled
       else do { up \<leftarrow> deliver B (connectSSH P); if \<not> up then led_set B LedError else ret () } }) (\<lambda>_. ?Q) t"
    if "waiting t \<and> configured (stripped c) t" "setupComplete c" for t
    unfolding wp_bind [of "modify f" for f] wp_modify by (rule connect) (rule up [OF that])
  have init: "wp (deliver B (tunnel_init P)) (\<lambda>_ t. waiting t \<and> configured (stripped c) t) t" if "waiting t \<and> configured (stripped c) t" for t
    by (rule keepsD [OF loaded.app_deliver [OF loaded_init] that])
  have key: "keeps (\<lambda>s. waiting s \<and> deviceConfig s = c \<and> wf_mode s = PortalNone \<and> \<not> configEditRequested s)
      (whenM b (do { modify (\<lambda>s. s\<lparr>automaticPublicKeyUploadAttempted := True\<rparr>); upload B M k; ret () }))" for b k
    by (intro prep.app_ops prep.app_upload) simp
  have conf: "wp (configureSSHTunnel P B) (\<lambda>_ t. waiting t \<and> configured (stripped c) t) t"
    if "waiting t \<and> deviceConfig t = c \<and> wf_mode t = PortalNone \<and> \<not> configEditRequested t" for t
    using configure_hands_over [OF assms(1), of t B] that by simp
  have start: "waiting s \<and> deviceConfig s = c \<and> wf_mode s = PortalNone \<and> \<not> configEditRequested s" if "\<not> editRequested s"
    using assms that by (simp add: c_def editRequested_def)
  have portal: "keeps waiting (do { led_set B LedSetup; ok \<leftarrow> startDeviceSetup B; if \<not> ok then led_set B LedError else ret () })"
    by (intro keeps_intros waits.app_led waits.app_startDeviceSetup)
  show ?thesis
    unfolding setup_tunnel_def
  proof (rule wp_gets_intro, unfold c_def [symmetric], intro wp_gets_intro wp_if_intro)
    show "wp (do { led_set B LedSetup; ok \<leftarrow> startDeviceSetup B; if \<not> ok then led_set B LedError else ret () }) (\<lambda>_. ?Q) s"
      by (rule w [OF portal assms(2)])
  next
    assume c: "\<not> (\<not> setupComplete c \<or> editRequested s)"
    then show "wp (do {
       whenM (sshAuthMethod c = PrivateKeyAuth \<and> sshPublicKey c \<noteq> [] \<and> \<not> automaticPublicKeyUploadAttempted s) (do {
         modify (\<lambda>s. s\<lparr>automaticPublicKeyUploadAttempted := True\<rparr>);
         upload B M (sshPublicKey c);
         ret () });
       configureSSHTunnel P B;
       ok \<leftarrow> deliver B (tunnel_init P);
       if \<not> ok then led_set B LedError
       else do {
         modify (\<lambda>s. s\<lparr>tunnelRuntimeReady := True\<rparr>);
         c \<leftarrow> gets deviceConfig;
         if \<not> tunnelEnabled c then led_set B LedDisabled
         else do {
           up \<leftarrow> deliver B (connectSSH P);
           if \<not> up then led_set B LedError else ret () } } }) (\<lambda>_. ?Q) s"
      by (intro wp_seq [OF keepsD [OF key start]] wp_seq [OF conf] wp_seq [OF init] wp_if_intro ready w waits.app_led) auto
  qed
qed

text \<open>The portal is inactive from the test in \<open>setup\<close> on.\<close>

interpretation quiet_portal: app_config "\<lambda>s :: ('w, 'r, 'z) firmware_scheme. waiting s \<and> wf_mode s = PortalNone"
  by unfold_locales (simp_all add: waiting_def quiet_def)

lemma setup_modes:
  fixes s :: "('w, 'r, 'z) firmware_scheme"
  assumes "config_lock_granted P" and "waiting s"
  shows "wp (fw_setup P B M T) (\<lambda>_ s'. waiting s' \<or> (\<exists>c. running c s')) s"
proof -
  let ?Q = "\<lambda>s' :: ('w, 'r, 'z) firmware_scheme. waiting s' \<or> (\<exists>c. running c s')"
  let ?W = "\<lambda>s :: ('w, 'r, 'z) firmware_scheme. waiting s \<and> wf_mode s = PortalNone"
  have w: "wp (led_set B st) (\<lambda>_. ?Q) t" if "waiting t" for st t
    by (rule wp_mono [OF keepsD [OF waits.app_led(2) that]]) simp
  note go = wp_seq [OF keepsD [OF waits.app_led(1)]] wp_seq [OF keepsD [OF waits.app_ext]] wp_seq [OF keepsD [OF waits.app_wait_serial]]
    wp_seq [OF keepsD [OF waits.app_prov_begin]]
    and on = wp_seq [where R = "\<lambda>_. ?W", OF keepsD [OF quiet_portal.app_led(2)]] wp_seq [where R = "\<lambda>_. ?W", OF keepsD [OF quiet_portal.app_connectWiFi]]
      wp_seq [where R = "\<lambda>_. ?W", OF keepsD [OF quiet_portal.app_ext]]
      wp_seq [where R = "\<lambda>_. ?W", OF keepsD [OF quiet_portal.app_ensureMinisControlPlane]]
  have net: "wp (do {
         led_set B LedConnecting;
         connectWiFi B;
         stopped \<leftarrow> gets restarted;
         if stopped then ret ()
         else do {
           up \<leftarrow> ext (wifi_connected B);
           if \<not> up then led_set B LedError
           else do { ensureMinisControlPlane B M T; setup_tunnel P B M } } }) (\<lambda>_. ?Q) t" if "?W t" for t
    by (rule on(1) [OF that], rule on(2), assumption, rule wp_gets_intro, rule wp_if_intro, rule wp_ret_intro, blast,
        rule on(3), assumption, rule wp_if_intro, rule w, blast, rule on(4), assumption, rule setup_tunnel_modes [OF assms(1)]) auto
  show ?thesis
    unfolding fw_setup_def
    by (rule go(1) [OF assms(2)], rule go(2), assumption, rule go(3), assumption, rule go(4), assumption, rule wp_if_intro, rule w, assumption,
        rule wp_gets_intro, rule wp_if_intro, rule w, assumption, rule net) (simp add: isActive_def)
qed

section \<open>Loop\<close>

lemma waiting_loop: "keeps waiting (fw_loop P B M T)"
  unfolding fw_loop_def
  by (rule keeps_gets_bind keeps_bind keeps_if keeps_whenM keeps_return waits.app_led waits.app_pollConfigResetButton waits.app_prov_loop
      waits.app_ensureMinisControlPlane waits.app_applyPendingMinisConfig waits.app_ext | simp add: waiting_def; fail)+

lemma running_fw_loop: "keeps (running c) (fw_loop P B M T)"
proof -
  have complete: "running c s \<Longrightarrow> setupComplete (deviceConfig s)" for s :: "('a, 'b, 'c) firmware_scheme"
    by (simp add: running_def configured_def)
  show ?thesis
    unfolding fw_loop_def
    by (rule keeps_gets_bind keeps_bind keeps_if keeps_whenM keeps_return runs.app_led runs.app_pollConfigResetButton
        runs.app_control_complete [OF complete] runs.app_applyPendingMinisConfig runs.app_ext runs.app_connectWiFi runs.app_reportStats
        runs.app_deliver [OF running_loop]
      | assumption | simp add: running_def configured_def isActive_def; fail)+
qed

lemma fw_reach_modes:
  fixes s :: "('w, 'r) firmware"
  assumes "fw_reach P B M T s" and "config_lock_granted P"
  shows "waiting s \<or> (\<exists>c. running c s)"
  using assms(1)
proof (induction rule: fw_reach.induct)
  case (boot w m)
  have "waiting (power_on w m)"
    by (simp add: waiting_def quiet_def power_on_def tunnel.extend_def tunnel_new_def)
  from setup_modes [OF assms(2) this] show ?case by (simp add: after_def wp_iff_run)
next
  case (loop s)
  then show ?case by (auto intro: after_keeps [OF waiting_loop] after_keeps [OF running_fw_loop])
next
  case (others s w)
  then show ?case by (auto simp: waiting_def quiet_def running_def configured_def handed_over_def)
qed (auto intro: after_keeps [OF waits.app_button_round] after_keeps [OF runs.app_button_round]
    after_keeps [OF waits.app_heartbeat(1)] after_keeps [OF runs.app_heartbeat(1)]
    after_keeps [OF waits.app_heartbeat(2)] after_keeps [OF runs.app_heartbeat(2)])

section \<open>A device that is set up\<close>

text \<open>A board on which no call succeeds, with a clock that stands still; the queues of its operating system cannot be created.\<close>

definition idle_board :: "'w board" where
  "idle_board = \<lparr>
    ESP32TUN_STATUS_LED_PIN = -1, ESP32TUN_STATUS_LED_ACTIVE_LOW = True, ESP32TUN_CONFIG_BUTTON_PIN = -1,
    SSH_TUNNEL_LOW_MEMORY_PROFILE = True, b_millis = (\<lambda>w. (0, w)), b_delay = (\<lambda>_ w. ((), w)),
    b_restart = (\<lambda>w. ((), w)), b_random = (\<lambda>w. (0, w)), b_free_heap = (\<lambda>w. (0, w)),
    b_largest_block = (\<lambda>w. (0, w)), b_efuse_mac = 0, b_time = (\<lambda>w. (0, w)), b_strftime = (\<lambda>_ _. []),
    fs_begin = (\<lambda>w. (False, w)), fs_format = (\<lambda>w. (False, w)), fs_exists = (\<lambda>_ w. (False, w)),
    fs_remove = (\<lambda>_ w. (False, w)), fs_rename = (\<lambda>_ _ w. (False, w)), fs_open_w = (\<lambda>_ w. (False, w)),
    fs_print = (\<lambda>_ _ w. (0, w)), fs_flush = (\<lambda>_ w. ((), w)), fs_close = (\<lambda>_ w. ((), w)),
    fs_read = (\<lambda>_ w. (None, w)), wifi_connected = (\<lambda>w. (False, w)), wifi_begin = (\<lambda>_ _ w. ((), w)),
    wifi_mode = (\<lambda>_ w. ((), w)), wifi_disconnect = (\<lambda>_ _ w. ((), w)),
    wifi_softAP = (\<lambda>_ w. (False, w)), wifi_softAPdisconnect = (\<lambda>_ w. ((), w)),
    wifi_scanNetworks = (\<lambda>w. ((), w)), wifi_networks = (\<lambda>w. ([], w)), wifi_localIP = (\<lambda>w. ([], w)),
    wifi_network_info = (\<lambda>w. (([], [], []), w)), wifi_macAddress = (\<lambda>w. ([], w)),
    esp_efuse_mac_get_default = (\<lambda>w. (None, w)), esp_iface_mac_addr_set = (\<lambda>_ w. (0, w)), b_chip = ([], 0),
    b_build = ([], []), tls_connect = (\<lambda>_ _ w. (False, w)), tls_write = (\<lambda>_ w. (0, w)),
    tls_available = (\<lambda>w. (False, w)), tls_connected = (\<lambda>w. (False, w)), tls_read = (\<lambda>w. (0, w)),
    tls_readBytesUntil = (\<lambda>_ _ w. ([], w)), tls_readBytes = (\<lambda>_ w. ([], w)),
    tls_readStringUntil = (\<lambda>_ w. ([], w)), tls_stop = (\<lambda>w. ((), w)), srv_new = (\<lambda>w. (False, w)),
    srv_begin = (\<lambda>w. ((), w)), srv_stop = (\<lambda>w. ((), w)), srv_request = (\<lambda>w. (None, w)),
    srv_send = (\<lambda>_ _ w. ((), w)), dns_new = (\<lambda>w. (False, w)), dns_start = (\<lambda>w. ((), w)),
    dns_stop = (\<lambda>w. ((), w)), dns_processNextRequest = (\<lambda>w. ((), w)), b_pinMode = (\<lambda>_ w. ((), w)),
    b_digitalWrite = (\<lambda>_ _ w. ((), w)), b_digitalRead = (\<lambda>_ w. (False, w)),
    b_xTaskCreate = (\<lambda>_ w. (False, w)), b_serial_ready = (\<lambda>w. (True, w))\<rparr>"

definition idle_queue :: "('w, 'e) rtos_queue" where
  "idle_queue = \<lparr>q_create = (\<lambda>_ w. (False, w)), q_delete = (\<lambda>w. ((), w)), q_send = (\<lambda>_ w. (False, w)),
     q_overwrite = (\<lambda>_ w. (False, w)), q_peek = (\<lambda>w. (None, w)), q_receive = (\<lambda>w. (None, w)), q_waiting = (\<lambda>w. (0, w))\<rparr>"

definition idle_os :: "'w minis_os" where
  "idle_os = \<lparr>alerts = idle_queue, configs = idle_queue, os_ms_to_ticks = ucast, os_tickCount = (\<lambda>w. (0, w)),
     os_notifyTake = (\<lambda>_ _ w. (0, w)), os_notifyGive = (\<lambda>w. ((), w))\<rparr>"

text \<open>A board with a stored configuration, in reach of its network, and a platform with a large enough put-back area whose locks are granted.\<close>

definition site_config :: "bool \<Rightarrow> device_config" where
  "site_config enabled = ex_device\<lparr>tunnelEnabled := enabled\<rparr>"

definition site_board :: "bool \<Rightarrow> 'w board" where
  "site_board enabled = idle_board\<lparr>fs_begin := (\<lambda>w. (True, w)), fs_exists := (\<lambda>p w. (p = CONFIG_PATH, w)),
     fs_read := (\<lambda>p w. (if p = CONFIG_PATH then Some (config_text (site_config enabled)) else None, w)),
     wifi_connected := (\<lambda>w. (True, w)), esp_efuse_mac_get_default := (\<lambda>w. (Some [0x24, 0x6F, 0x28, 1, 2, 3], w))\<rparr>"

definition site_platform :: "(ref_world, cring) platform" where
  "site_platform = ref_platform\<lparr>SSH_TUNNEL_PREPEND_CAPACITY := 8192, p_xSemaphoreTake := (\<lambda>m t w. (True, w))\<rparr>"

definition site_up :: "bool \<Rightarrow> (ref_world, cring) firmware" where
  "site_up enabled = after (fw_setup site_platform (site_board enabled) idle_os ref_mbedtls) (power_on rw_init True)"

lemma site_storable: "storable (site_config en) F" "setupComplete (site_config en)" "sshAuthMethod (site_config en) = PasswordAuth"
  by (simp_all add: site_config_def ex_device_def device_default_def storable_def keys_stored_def validDeviceConfig_def)

lemma site_fields:
  "ESP32TUN_STATUS_LED_PIN (site_board en) = -1" "ESP32TUN_CONFIG_BUTTON_PIN (site_board en) = -1"
  "SSH_TUNNEL_LOW_MEMORY_PROFILE (site_board en)"
  "b_millis (site_board en) w = (0, w)" "b_serial_ready (site_board en) w = (True, w)" "fs_begin (site_board en) w = (True, w)"
  "fs_exists (site_board en) p w = (p = CONFIG_PATH, w)" "wifi_connected (site_board en) w = (True, w)"
  "wifi_mode (site_board en) m w = ((), w)" "wifi_begin (site_board en) a b w = ((), w)"
  "esp_efuse_mac_get_default (site_board en) w = (Some [0x24, 0x6F, 0x28, 1, 2, 3], w)"
  "esp_iface_mac_addr_set (site_board en) mac w = (0, w)" "b_free_heap (site_board en) w = (0, w)" "b_largest_block (site_board en) w = (0, w)"
  "fs_read (site_board en) p w = (if p = CONFIG_PATH then Some (config_text (site_config en)) else None, w)"
  by (simp_all add: site_board_def idle_board_def)

lemma site_loads: "run_state (loadConfig (site_board en) device_default) s = ((True, site_config en), s)"
proof -
  have "(keyless (site_config en))\<lparr>setupComplete := validDeviceConfig (keyless (site_config en))\<rparr> = site_config en"
    by (simp add: keyless_def site_config_def ex_device_def device_default_def validDeviceConfig_def)
  then have fin: "load_finish B (loaded_state (site_config en)) = ret (True, site_config en)" for B :: "'a board"
    using load_finish_complete [OF site_storable(1,2), of B en] by (simp only: site_storable(3) ssh_auth_method.distinct if_False)
  have "CONFIG_BACKUP \<noteq> CONFIG_PATH" by (simp add: path_defs)
  then show ?thesis
    by (simp add: loadConfig_def removeIfExists_def site_fields load_text fin)
qed

lemma site_marks: "EDIT_REQUEST_PATH \<noteq> CONFIG_PATH" "WIFI_RESET_REQUEST_PATH \<noteq> CONFIG_PATH"
  by (simp_all add: path_defs EDIT_REQUEST_PATH_def WIFI_RESET_REQUEST_PATH_def)

definition site_started :: "bool \<Rightarrow> (ref_world, cring) firmware" where
  "site_started en = (power_on rw_init True)\<lparr>deviceConfig := site_config en, mv_currentVendor := macVendor (site_config en),
     mv_stationPrepared := True, minisBootstrapAttempted := True, minisHeartbeatStartAttempted := True\<rparr>"

lemma site_waits:
  "run_state (wait_serial (site_board en) t 2001) s = ((), s)"
  "run_state (wifi_attempts (site_board en) 30) s = ((), s)"
proof -
  have "run_state (wait_serial (site_board en) t (Suc 2000)) s = ((), s)"
    by (simp only: wait_serial.simps) (simp add: site_fields)
  then show "run_state (wait_serial (site_board en) t 2001) s = ((), s)" by simp
  have "run_state (wifi_attempts (site_board en) (Suc 29)) s = ((), s)"
    by (simp only: wifi_attempts.simps) (simp add: site_fields)
  then show "run_state (wifi_attempts (site_board en) 30) s = ((), s)" by simp
qed

lemma site_begin:
  "run_state (prov_begin (site_board en)) (power_on w m)
    = (True, (power_on w m)\<lparr>deviceConfig := site_config en, mv_currentVendor := macVendor (site_config en), mv_stationPrepared := True\<rparr>)"
  by (simp add: prov_begin_def mountStorage_def site_fields site_marks prepareStation_def factoryStationMac_def power_on_def
      tunnel.extend_def site_loads)

lemma site_setup: "site_up en = after (setup_tunnel site_platform (site_board en) idle_os) (site_started en)"
proof -
  define s where "s = (power_on rw_init True :: (ref_world, cring) firmware)\<lparr>deviceConfig := site_config en,
    mv_currentVendor := macVendor (site_config en), mv_stationPrepared := True\<rparr>"
  have p: "run_state (prov_begin (site_board en)) (power_on rw_init True :: (ref_world, cring) firmware) = (True, s)"
    by (simp only: site_begin s_def)
  have f: "wf_mode s = PortalNone" "\<not> restarted s" "mv_stationPrepared s" "mv_currentVendor s = macVendor (deviceConfig s)"
    "\<not> minisBootstrapAttempted s" "\<not> minisHeartbeatStartAttempted s" "\<not> heartbeatTaskHandle s" "\<not> managedConfigQueue s" "setupComplete (deviceConfig s)"
    using site_storable(2) [of en] by (simp_all add: s_def power_on_def tunnel.extend_def)
  have wifi: "run_state (connectWiFi (site_board en)) s = ((), s)"
    using f by (simp add: connectWiFi_def led_set_def prepareStation_def site_fields site_waits)
  have plane: "run_state (ensureMinisControlPlane (site_board en) idle_os ref_mbedtls) s = ((), site_started en)"
    using f by (simp add: ensureMinisControlPlane_def site_fields registerClient_def sendBootstrap_def performGet_def tlsMemoryAvailable_def
      MINIS_TLS_MIN_FREE_HEAP_def startHeartbeatTask_def idle_os_def idle_queue_def site_started_def) (simp add: s_def power_on_def tunnel.extend_def)
  show ?thesis
    using f(1,2) by (simp add: site_up_def after_def fw_setup_def led_begin_def led_set_def site_fields site_waits p wifi plane isActive_def)
qed

lemmas site_tunnel = setup_tunnel_def editRequested_def configureSSHTunnel_def configureCommonTunnelSettings_def setSSHServer_def setTunnelConfig_def
    setMaxReverseListeners_def setConnectionConfig_def setBufferConfig_def setDebugConfig_def setLogLevel_def registerTunnelCallbacks_def
    setEventHandlers_def locked_update_def lockConfig_def unlockConfig_def deliver_def led_set_def
    TUNNEL_TRANSPORT_BUFFER_SIZE_def TUNNEL_MAX_CHANNELS_def TUNNEL_RING_BUFFER_SIZE_def

lemma site_ready: "tunnelRuntimeReady (site_up en)" "en \<Longrightarrow> tstate (site_up en) = TUNNEL_CONNECTED"
  "deviceConfig (site_up en) = (site_config en)\<lparr>sshPassword := []\<rparr>" "configMutex (site_up en)"
  unfolding site_setup
  by (simp_all add: site_started_def power_on_def tunnel.extend_def tunnel_new_def site_platform_def
      scenario_init scenario_session scenario_platform Let_def site_tunnel site_fields callback_def
      site_config_def ex_device_def device_default_def)

lemma site_reach: "fw_reach site_platform (site_board en) idle_os ref_mbedtls (site_up en)"
  unfolding site_up_def by (rule fw_reach.boot)

section \<open>Property\<close>

text \<open>
  C35: When the firmware runs the tunnel, and with which settings. In every state that the firmware reaches from power-on, with its tasks in any
  interleaving and whatever its users, servers and file system do: as long as the tunnel has not been made ready, and also then when the stored configuration
  disables the tunnel, the tunnel object has no session and no channel and has reported no event. Once it is ready, the stored configuration is
  complete, no setup page is being served and none has been asked for; the tunnel object (if its mutex could be created, and the lock of its configuration
  is granted in the end) has the server, the port, the user, the authentication method and the one mapping of the stored configuration; and the password, or the key pair, has been
  removed from the application's copy of the configuration.
\<close>

theorem tunnel_runs_as_configured:
  assumes "fw_reach P B M T s" and "\<And>w. fst (p_xSemaphoreTake P ConfigMutex portMAX_DELAY w)"
  shows "(\<not> tunnelRuntimeReady s \<or> \<not> tunnelEnabled (deviceConfig s) \<longrightarrow>
      session s = NULL \<and> tstate s = TUNNEL_DISCONNECTED \<and> activeCount s = 0 \<and> events s = [])
    \<and> (tunnelRuntimeReady s \<longrightarrow> setupComplete (deviceConfig s) \<and> \<not> isActive s \<and> \<not> editRequested s
      \<and> (configMutex s \<longrightarrow> sc_host (sshConfig s) = sshHost (deviceConfig s) \<and> sc_port (sshConfig s) = sshPort (deviceConfig s)
         \<and> sc_username (sshConfig s) = sshUsername (deviceConfig s)
         \<and> useSSHKey (sshConfig s) = (sshAuthMethod (deviceConfig s) = PrivateKeyAuth)
         \<and> tunnelMappings s = [\<lparr>remoteBindHost = dc_remoteBindHost (deviceConfig s), remoteBindPort = dc_remoteBindPort (deviceConfig s),
              localHost = dc_localHost (deviceConfig s), localPort = dc_localPort (deviceConfig s)\<rparr>])
      \<and> (if sshAuthMethod (deviceConfig s) = PrivateKeyAuth then sshPrivateKey (deviceConfig s) = [] \<and> sshPublicKey (deviceConfig s) = []
         else sshPassword (deviceConfig s) = []))"
proof -
  have "config_lock_granted P" using assms(2) by (simp add: config_lock_granted_def)
  from fw_reach_modes [OF assms(1) this] show ?thesis
    by (auto simp: waiting_def quiet_def running_def configured_def handed_over_def credentials_dropped_def isActive_def editRequested_def)
qed

text \<open>A device that is set up: with the tunnel enabled it connects to the stored server, with the tunnel disabled it is ready but has no session.\<close>

theorem tunnel_runs_as_configured_witness:
  "tunnelRuntimeReady (site_up True) \<and> tstate (site_up True) = TUNNEL_CONNECTED \<and> sc_host (sshConfig (site_up True)) = ''ssh.example.org''
    \<and> sc_port (sshConfig (site_up True)) = 2222 \<and> sshPassword (deviceConfig (site_up True)) = []
    \<and> tunnelRuntimeReady (site_up False) \<and> session (site_up False) = NULL \<and> events (site_up False) = []"
proof -
  have lock: "fst (p_xSemaphoreTake site_platform ConfigMutex portMAX_DELAY w)" for w by (simp add: site_platform_def)
  have c: "sshHost (site_config True) = ''ssh.example.org''" "sshPort (site_config True) = 2222" "\<not> tunnelEnabled (site_config False)"
    by (simp_all add: site_config_def ex_device_def)
  show ?thesis
    using tunnel_runs_as_configured [OF site_reach lock, of True] tunnel_runs_as_configured [OF site_reach lock, of False]
      site_ready [of True] site_ready [of False] c by simp
qed

end
