(* ===== verification/Logger.thy ===== *)
theory Logger
  imports Ssh_Channel
begin

text \<open>
  The logger, \<open>logger.h\<close> and \<open>logger.cpp\<close>: levels, the filter by level and tag, the prefix with the time
  or the uptime, and the line that is printed. The serial port, the clock, the calendar of the C library
  and SNTP are the record \<open>console\<close>; \<open>con_diag_only\<close> is the build flag \<open>TUNNEL_DIAG_LOG_ONLY\<close>. A call
  of \<open>printf\<close> appears with the text it formats, and the arguments of \<open>logf\<close> as the text that its format
  makes of them. The functions of \<open>time.h\<close> and \<open>stdio.h\<close> that write into a buffer are modelled with its size.

  The other theories leave the log statements of the program out. What they may leave out is shown here:
  a log statement changes nothing but the flag of \<open>ensureTimeSyncConfigured\<close> and the world
  and prints at most one line, and exactly for the levels and tags that are enabled
  (\<open>log_prints\<close>); a prefix always fits its buffer (\<open>prefix_fits\<close>).
\<close>

section \<open>Levels\<close>

primrec level_value :: "log_level \<Rightarrow> nat" where
  "level_value LOG_ERROR = 0"
| "level_value LOG_WARN = 1"
| "level_value LOG_INFO = 2"
| "level_value LOG_DEBUG = 3"

lemma level_value_inject: "level_value a = level_value b \<longleftrightarrow> a = b"
  by (cases a; cases b) simp_all

instantiation log_level :: linorder
begin

definition less_eq_log_level :: "log_level \<Rightarrow> log_level \<Rightarrow> bool" where
  "less_eq_log_level a b \<longleftrightarrow> level_value a \<le> level_value b"

definition less_log_level :: "log_level \<Rightarrow> log_level \<Rightarrow> bool" where
  "less_log_level a b \<longleftrightarrow> level_value a < level_value b"

instance
  by standard (auto simp: less_eq_log_level_def less_log_level_def simp flip: level_value_inject)

end

primrec getLevelString :: "log_level \<Rightarrow> string" where
  "getLevelString LOG_ERROR = ''ERROR''"
| "getLevelString LOG_WARN = ''WARN ''"
| "getLevelString LOG_INFO = ''INFO ''"
| "getLevelString LOG_DEBUG = ''DEBUG''"

section \<open>The serial port, the clock and the C library\<close>

record tm =
  tm_sec :: nat
  tm_min :: nat
  tm_hour :: nat
  tm_mday :: nat
  tm_mon :: nat
  tm_year :: nat

record 'w console =
  con_diag_only :: bool
  con_millis :: "'w \<Rightarrow> u32 \<times> 'w"
  con_delay :: "u32 \<Rightarrow> 'w \<Rightarrow> unit \<times> 'w"
  con_wifi_connected :: "'w \<Rightarrow> bool \<times> 'w"
  con_configTzTime :: "string \<Rightarrow> string \<Rightarrow> string \<Rightarrow> 'w \<Rightarrow> unit \<times> 'w"
  con_time :: "'w \<Rightarrow> int \<times> 'w"
  con_localtime_r :: "int \<Rightarrow> 'w \<Rightarrow> tm \<times> 'w"
  con_serial_begin :: "int \<Rightarrow> 'w \<Rightarrow> unit \<times> 'w"
  con_serial_ready :: "'w \<Rightarrow> bool \<times> 'w"
  con_print :: "string \<Rightarrow> 'w \<Rightarrow> unit \<times> 'w"

text \<open>\<open>snprintf\<close> of a formatted text into a buffer of \<open>n\<close> bytes: what it stores and what it returns.\<close>

definition snprintf :: "nat \<Rightarrow> string \<Rightarrow> string \<times> nat" where
  "snprintf n s = (take (n - 1) s, length s)"

definition two_digits :: "nat \<Rightarrow> string" where
  "two_digits n = (if n < 10 then CHR ''0'' # decimal n else decimal n)"

definition compact_date :: "tm \<Rightarrow> string" where
  "compact_date t = two_digits ((tm_year t + 1900) mod 100) @ two_digits (tm_mon t + 1) @ two_digits (tm_mday t)
     @ two_digits (tm_hour t) @ two_digits (tm_min t) @ two_digits (tm_sec t)"

text \<open>\<open>strftime\<close> with the format \<open>%y%m%d%H%M%S\<close>: nothing when the text and its final zero do not fit.\<close>

definition strftime_compact :: "nat \<Rightarrow> tm \<Rightarrow> string" where
  "strftime_compact n t = (if length (compact_date t) < n then compact_date t else [])"

section \<open>Operations\<close>

record 'w logger_state = "'w config_state" +
  ts_configured :: bool

type_synonym ('w, 'z, 'a) log_op = "(('w, 'z) logger_state_scheme, 'a) state"

definition LOCAL_TIMEZONE :: string where
  "LOCAL_TIMEZONE = ''CET-1CEST,M3.5.0,M10.5.0/3''"

definition NTP_SERVER_PRIMARY :: string where
  "NTP_SERVER_PRIMARY = ''pool.ntp.org''"

definition NTP_SERVER_SECONDARY :: string where
  "NTP_SERVER_SECONDARY = ''time.cloudflare.com''"

definition ensureTimeSyncConfigured :: "'w console \<Rightarrow> ('w, 'z, unit) log_op" where
  "ensureTimeSyncConfigured C = do {
     configured \<leftarrow> gets ts_configured;
     if configured then ret ()
     else do {
       up \<leftarrow> ext (con_wifi_connected C);
       if \<not> up then ret ()
       else do {
         ext (con_configTzTime C LOCAL_TIMEZONE NTP_SERVER_PRIMARY NTP_SERVER_SECONDARY);
         modify (\<lambda>s. s\<lparr>ts_configured := True\<rparr>) } } }"

definition uptime_prefix :: "'w console \<Rightarrow> nat \<Rightarrow> ('w, 'z, string \<times> nat) log_op" where
  "uptime_prefix C n = do {
     now \<leftarrow> ext (con_millis C);
     ret (snprintf n (''[up+'' @ decimal (unat now) @ ''ms] '')) }"

text \<open>The contents of the buffer, up to its final zero, and the returned size; \<open>None\<close> when \<open>strftime\<close> returns 0.\<close>

definition date_prefix :: "nat \<Rightarrow> tm \<Rightarrow> (string \<times> nat) option" where
  "date_prefix n t =
     (let off = (if n > 0 then 1 else 0);
          w = strftime_compact (n - off) t;
          off' = off + length w;
          (tail, rem) = snprintf (n - off') ''] ''
      in if w = [] then None else Some ((if n > 0 then ''['' else '''') @ w @ tail, off' + rem))"

definition buildLogPrefix :: "'w console \<Rightarrow> nat \<Rightarrow> ('w, 'z, string \<times> nat) log_op" where
  "buildLogPrefix C n = do {
     ensureTimeSyncConfigured C;
     now \<leftarrow> ext (con_time C);
     if now \<ge> 1700000000 then do {
       t \<leftarrow> ext (con_localtime_r C now);
       (case date_prefix n t of
          None \<Rightarrow> uptime_prefix C n
        | Some p \<Rightarrow> ret p) }
     else uptime_prefix C n }"

definition tunnelDiagLogTagAllowed :: "bool \<Rightarrow> string option \<Rightarrow> bool" where
  "tunnelDiagLogTagAllowed diag_only tg =
     (if diag_only then
        (case tg of None \<Rightarrow> False
         | Some t \<Rightarrow> c_str t \<in> {''SSH'', ''CONFIG'', ''MAIN'', ''MEM'', ''RING''})
      else True)"

definition logger_log :: "'w console \<Rightarrow> log_level \<Rightarrow> string \<Rightarrow> string \<Rightarrow> ('w, 'z, unit) log_op" where
  "logger_log C level tg message = do {
     dc \<leftarrow> gets debugConfig;
     if level > minLogLevel dc then ret ()
     else if \<not> tunnelDiagLogTagAllowed (con_diag_only C) (Some tg) then ret ()
     else do {
       p \<leftarrow> buildLogPrefix C 40;
       ext (con_print C (fst p @ getLevelString level @ '' ['' @ c_str tg @ ''] '' @ c_str message @ [CHR 0x0A])) } }"

definition logger_logf :: "'w console \<Rightarrow> log_level \<Rightarrow> string \<Rightarrow> string \<Rightarrow> ('w, 'z, unit) log_op" where
  "logger_logf C level tg formatted = do {
     dc \<leftarrow> gets debugConfig;
     if level > minLogLevel dc then ret ()
     else do {
       let buffer = fst (snprintf 256 (c_str formatted));
       logger_log C level tg buffer } }"

definition logger_error :: "'w console \<Rightarrow> string \<Rightarrow> string \<Rightarrow> ('w, 'z, unit) log_op" where
  "logger_error C = logger_log C LOG_ERROR"

definition logger_warn :: "'w console \<Rightarrow> string \<Rightarrow> string \<Rightarrow> ('w, 'z, unit) log_op" where
  "logger_warn C = logger_log C LOG_WARN"

definition logger_info :: "'w console \<Rightarrow> string \<Rightarrow> string \<Rightarrow> ('w, 'z, unit) log_op" where
  "logger_info C = logger_log C LOG_INFO"

definition logger_debug :: "'w console \<Rightarrow> string \<Rightarrow> string \<Rightarrow> ('w, 'z, unit) log_op" where
  "logger_debug C = logger_log C LOG_DEBUG"

text \<open>
  The wait of \<open>init\<close>: every round lets at least one millisecond pass, so that 5001 rounds outlast the 5000 ms
  of the loop's condition.
\<close>

fun init_wait :: "'w console \<Rightarrow> nat \<Rightarrow> ('w, 'z, unit) log_op" where
  "init_wait C 0 = ret ()"
| "init_wait C (Suc rounds) = do {
     ready \<leftarrow> ext (con_serial_ready C);
     if ready then ret ()
     else do {
       now \<leftarrow> ext (con_millis C);
       if now < 5000 then do {
         ext (con_delay C 10);
         init_wait C rounds }
       else ret () } }"

definition logger_init :: "'w console \<Rightarrow> ('w, 'z, unit) log_op" where
  "logger_init C = do {
     dc \<leftarrow> gets debugConfig;
     ext (con_serial_begin C (serialBaudRate dc));
     init_wait C 5001;
     ext (con_print C (''Logger initialized'' @ [CHR 0x0D, CHR 0x0A])) }"

section \<open>What a log statement does\<close>

text \<open>A console that keeps a transcript of what is printed, over any other.\<close>

definition lifted :: "('w \<Rightarrow> 'a \<times> 'w) \<Rightarrow> 'w \<times> string list \<Rightarrow> 'a \<times> 'w \<times> string list" where
  "lifted f = (\<lambda>(w, out). case f w of (a, w') \<Rightarrow> (a, w', out))"

definition transcript :: "'w console \<Rightarrow> ('w \<times> string list) console" where
  "transcript C = \<lparr>con_diag_only = con_diag_only C, con_millis = lifted (con_millis C),
     con_delay = (\<lambda>d. lifted (con_delay C d)), con_wifi_connected = lifted (con_wifi_connected C),
     con_configTzTime = (\<lambda>z a b. lifted (con_configTzTime C z a b)), con_time = lifted (con_time C),
     con_localtime_r = (\<lambda>t. lifted (con_localtime_r C t)), con_serial_begin = (\<lambda>r. lifted (con_serial_begin C r)),
     con_serial_ready = lifted (con_serial_ready C),
     con_print = (\<lambda>line (w, out). case con_print C line w of (u, w') \<Rightarrow> (u, w', out @ [line]))\<rparr>"

abbreviation printed :: "('w \<times> string list, 'z) wstate_scheme \<Rightarrow> string list" where
  "printed s \<equiv> snd (world s)"

definition tm_valid :: "tm \<Rightarrow> bool" where
  "tm_valid t \<longleftrightarrow> tm_sec t \<le> 60 \<and> tm_min t \<le> 59 \<and> tm_hour t \<le> 23 \<and> 1 \<le> tm_mday t \<and> tm_mday t \<le> 31 \<and> tm_mon t \<le> 11"

text \<open>What \<open>localtime_r\<close> promises.\<close>

definition calendar_valid :: "'w console \<Rightarrow> bool" where
  "calendar_valid C \<longleftrightarrow> (\<forall>now w. tm_valid (fst (con_localtime_r C now w)))"

lemma length_decimal: "n < 10 ^ Suc k \<Longrightarrow> length (decimal n) \<le> Suc k"
proof (induction k arbitrary: n)
  case 0
  then show ?case by (simp add: decimal.simps [of n])
next
  case (Suc k)
  show ?case
  proof (cases "n < 10")
    case False
    from Suc.prems have "n div 10 < 10 ^ Suc k" by (simp add: less_mult_imp_div_less mult.commute)
    from Suc.IH [OF this] show ?thesis using False by (simp add: decimal.simps [of n])
  qed (simp add: decimal.simps [of n])
qed

lemma length_two_digits: "n < 100 \<Longrightarrow> length (two_digits n) = 2"
  by (simp add: two_digits_def decimal.simps [of n] decimal.simps [of "n div 10"] less_mult_imp_div_less)

lemma length_compact_date: "tm_valid t \<Longrightarrow> length (compact_date t) = 12"
  by (simp add: compact_date_def tm_valid_def length_two_digits)

definition prefix_ok :: "string \<times> nat \<Rightarrow> bool" where
  "prefix_ok p \<longleftrightarrow> snd p = length (fst p) \<and> length (fst p) \<le> 20 \<and> (\<exists>m. fst p = ''['' @ m @ ''] '')"

lemma uptime_ok: "prefix_ok (snprintf 40 (''[up+'' @ decimal (unat (now :: u32)) @ ''ms] ''))"
proof -
  have "unat now < 10 ^ Suc 9" using unsigned_less [of now, where ?'a = nat] by simp
  then have l: "length (decimal (unat now)) \<le> 10" using length_decimal by fastforce
  then have "take 39 (''[up+'' @ decimal (unat now) @ ''ms] '') = ''['' @ (''up+'' @ decimal (unat now) @ ''ms'') @ ''] ''"
    by simp
  then show ?thesis using l unfolding prefix_ok_def snprintf_def by auto
qed

lemma date_prefix_ok:
  assumes "tm_valid t"
  shows "\<exists>p. date_prefix 40 t = Some p \<and> prefix_ok p"
proof -
  have l: "length (compact_date t) = 12" by (rule length_compact_date [OF assms])
  then have "strftime_compact 39 t = compact_date t" and "compact_date t \<noteq> []" by (auto simp: strftime_compact_def)
  with l have "date_prefix 40 t = Some (''['' @ compact_date t @ ''] '', 15)"
    by (simp add: date_prefix_def snprintf_def)
  moreover have "prefix_ok (''['' @ compact_date t @ ''] '', 15)" using l by (auto simp: prefix_ok_def)
  ultimately show ?thesis by blast
qed

text \<open>Nothing but the world and the flag of \<open>ensureTimeSyncConfigured\<close> has changed.\<close>

definition log_frame :: "('w, 'z) logger_state_scheme \<Rightarrow> ('w, 'z) logger_state_scheme \<Rightarrow> bool" where
  "log_frame s s' \<longleftrightarrow> s' = s\<lparr>world := world s', ts_configured := ts_configured s'\<rparr>"

lemma log_frame_refl [simp]: "log_frame s s"
  by (simp add: log_frame_def)

lemma log_frame_step [simp]:
  "log_frame s (s'\<lparr>world := w\<rparr>) \<longleftrightarrow> log_frame s s'"
  "log_frame s (s'\<lparr>ts_configured := b\<rparr>) \<longleftrightarrow> log_frame s s'"
  by (cases s; cases s'; auto simp: log_frame_def)+

definition quiet :: "(('w \<times> string list), 'z) logger_state_scheme \<Rightarrow> (('w \<times> string list), 'z) logger_state_scheme \<Rightarrow> bool" where
  "quiet s s' \<longleftrightarrow> log_frame s s' \<and> printed s' = printed s"

lemma lifted_quiet: "lifted f w = (a, w') \<Longrightarrow> snd w' = snd w \<and> (\<exists>v. f (fst w) = (a, v))"
  by (auto simp: lifted_def split: prod.splits)

lemma quiet_ext:
  "quiet s t \<Longrightarrow> (\<And>a t'. quiet s t' \<Longrightarrow> Q a t') \<Longrightarrow> wp (ext (lifted f)) Q t"
  by (auto simp: wp_simps quiet_def split: prod.splits dest!: lifted_quiet)

lemma quiet_flag: "quiet s (t\<lparr>ts_configured := b\<rparr>) \<longleftrightarrow> quiet s t"
  by (simp add: quiet_def)

lemmas transcript_calls = transcript_def console.simps

lemma transcript_sync:
  "quiet s t \<Longrightarrow> (\<And>a t'. quiet s t' \<Longrightarrow> Q a t') \<Longrightarrow> wp (ensureTimeSyncConfigured (transcript C)) Q t"
  unfolding ensureTimeSyncConfigured_def transcript_calls
  by (auto simp: wp_bind wp_gets wp_if wp_return wp_modify quiet_flag intro!: quiet_ext [where s = s])

lemma transcript_uptime:
  "quiet s t \<Longrightarrow> wp (uptime_prefix (transcript C) 40) (\<lambda>p s'. prefix_ok p \<and> quiet s s') t"
  unfolding uptime_prefix_def transcript_calls wp_bind
  by (erule quiet_ext) (simp only: wp_return uptime_ok simp_thms)

lemma prefix_fits:
  assumes C: "calendar_valid C" and q: "quiet s t"
  shows "wp (buildLogPrefix (transcript C) 40) (\<lambda>p s'. prefix_ok p \<and> quiet s s') t"
proof -
  have date: "wp (do { t \<leftarrow> ext (con_localtime_r (transcript C) now);
        (case date_prefix 40 t of None \<Rightarrow> uptime_prefix (transcript C) 40 | Some p \<Rightarrow> ret p) })
      (\<lambda>p s'. prefix_ok p \<and> quiet s s') t'" if t': "quiet s t'" for t' now
  proof -
    obtain a w where a: "con_localtime_r C now (fst (world t')) = (a, w)" by force
    then obtain p where "date_prefix 40 a = Some p" and "prefix_ok p"
      using C date_prefix_ok by (metis calendar_valid_def fst_conv)
    then show ?thesis using t' a
      by (auto simp: wp_bind wp_ext wp_return transcript_def lifted_def quiet_def split: prod.splits)
  qed
  show ?thesis
    unfolding buildLogPrefix_def wp_bind
    by (rule transcript_sync [OF q], unfold wp_if, subst transcript_def, simp only: console.simps, erule quiet_ext)
      (simp only: wp_if date transcript_uptime simp_thms if_cancel)
qed

text \<open>
  A log statement prints one line, for the enabled levels and tags only, with a prefix that was not cut
  off and at most 255 characters of the message, and changes nothing else.
\<close>

lemma log_prints:
  assumes "calendar_valid C"
  shows "wp (logger_logf (transcript C) level tg formatted)
    (\<lambda>_ s'. log_frame s s' \<and>
       (if level \<le> minLogLevel (debugConfig s) \<and> tunnelDiagLogTagAllowed (con_diag_only C) (Some tg)
        then \<exists>p. prefix_ok p \<and> printed s' = printed s @ [fst p @ getLevelString level @ '' ['' @ c_str tg @ ''] ''
               @ take 255 (c_str formatted) @ [CHR 0x0A]]
        else s' = s)) s"
proof -
  have cut: "c_str (take 255 (c_str formatted)) = take 255 (c_str formatted)"
    unfolding c_str_def by (simp add: takeWhile_eq_all_conv) (metis in_set_takeD set_takeWhileD)
  have "quiet s s" by (simp add: quiet_def)
  note pre = prefix_fits [OF assms this]
  show ?thesis
    using pre cut
    by (auto simp: logger_logf_def logger_log_def wp_simps Let_def snprintf_def not_less transcript_def
        quiet_def wp_def split: prod.splits)
qed

end
