(* ===== verification/Heap_Checks.thy ===== *)
theory Heap_Checks
  imports Logger
begin

text \<open>
  The allocation helpers of \<open>memory_fixes.h\<close>, with the log statements that are their purpose. The heap is
  the record \<open>heap_api\<close>; pointers are 32-bit addresses with 0 for the null pointer, \<open>fmt_pointer\<close> prints
  one, and \<open>MEMFIX_LEVEL\<close> is the build-time constant. Sizes are the 32-bit \<open>size_t\<close> of the ESP32, so that
  the sum in \<open>checkHeapHealth\<close> wraps around.

  The theorems: \<open>checkHeapHealth\<close> changes nothing but the log and warns exactly when the reserve would be
  used up, for requests below the wrap; all helpers change nothing but the world and the log, and \<open>safeMalloc\<close>
  and \<open>safeRealloc\<close> return what the heap returns.
\<close>

record 'w heap_api =
  MEMFIX_LEVEL :: nat
  fmt_pointer :: "u32 \<Rightarrow> string"
  h_getFreeHeap :: "'w \<Rightarrow> u32 \<times> 'w"
  h_getMinFreeHeap :: "'w \<Rightarrow> u32 \<times> 'w"
  h_largest_8bit :: "'w \<Rightarrow> u32 \<times> 'w"
  h_free_8bit :: "'w \<Rightarrow> u32 \<times> 'w"
  h_free_internal :: "'w \<Rightarrow> u32 \<times> 'w"
  h_check_integrity_all :: "'w \<Rightarrow> bool \<times> 'w"
  h_malloc :: "u32 \<Rightarrow> 'w \<Rightarrow> u32 \<times> 'w"
  h_realloc :: "u32 \<Rightarrow> u32 \<Rightarrow> 'w \<Rightarrow> u32 \<times> 'w"
  h_memset :: "u32 \<Rightarrow> u8 \<Rightarrow> u32 \<Rightarrow> 'w \<Rightarrow> unit \<times> 'w"

definition HEAP_RESERVE_BYTES :: u32 where
  "HEAP_RESERVE_BYTES = 8 * 1024"

abbreviation fmt_u :: "u32 \<Rightarrow> string" where
  "fmt_u n \<equiv> decimal (unat n)"

definition checkHeapHealth :: "'w console \<Rightarrow> 'w heap_api \<Rightarrow> u32 \<Rightarrow> ('w, 'z, unit) log_op" where
  "checkHeapHealth C H requestedBytes =
     (if MEMFIX_LEVEL H \<ge> 2 then do {
        freeHeap \<leftarrow> ext (h_getFreeHeap H);
        minFreeHeap \<leftarrow> ext (h_getMinFreeHeap H);
        whenM (freeHeap < requestedBytes + HEAP_RESERVE_BYTES)
          (logger_logf C LOG_WARN ''MEM'' (''Low heap for '' @ fmt_u requestedBytes @ ''-byte allocation: free ''
             @ fmt_u freeHeap @ '' (min: '' @ fmt_u minFreeHeap @ '')''));
        largestFreeBlock \<leftarrow> ext (h_largest_8bit H);
        whenM (requestedBytes > 0 \<and> largestFreeBlock < requestedBytes)
          (logger_logf C LOG_WARN ''MEM'' (''Allocation at risk: need '' @ fmt_u requestedBytes
             @ '', largest block '' @ fmt_u largestFreeBlock)) }
      else ret ())"

text \<open>\<open>safeMalloc\<close> with its checks and log statements; the channel manager's model calls the allocation only.\<close>

definition safeMalloc_logged :: "'w console \<Rightarrow> 'w heap_api \<Rightarrow> u32 \<Rightarrow> string \<Rightarrow> ('w, 'z, u32) log_op" where
  "safeMalloc_logged C H sz tg = do {
     whenM (MEMFIX_LEVEL H \<ge> 2) (checkHeapHealth C H sz);
     ptr \<leftarrow> ext (h_malloc H sz);
     if ptr = 0 then do {
       whenM (MEMFIX_LEVEL H \<ge> 1)
         (logger_logf C LOG_ERROR ''MEM'' (''malloc failed ('' @ fmt_u sz @ '' bytes) tag='' @ c_str tg));
       ret 0 }
     else do {
       whenM (MEMFIX_LEVEL H \<ge> 2) (ext (h_memset H ptr 0 sz));
       whenM (MEMFIX_LEVEL H \<ge> 2)
         (logger_logf C LOG_DEBUG ''MEM'' (''Allocated '' @ fmt_u sz @ '' bytes for '' @ c_str tg @ '' at '' @ fmt_pointer H ptr));
       ret ptr } }"

definition safeRealloc :: "'w console \<Rightarrow> 'w heap_api \<Rightarrow> u32 \<Rightarrow> u32 \<Rightarrow> string \<Rightarrow> ('w, 'z, u32) log_op" where
  "safeRealloc C H ptr sz tg = do {
     whenM (MEMFIX_LEVEL H \<ge> 2) (checkHeapHealth C H sz);
     newPtr \<leftarrow> ext (h_realloc H ptr sz);
     if newPtr = 0 \<and> sz > 0 then do {
       whenM (MEMFIX_LEVEL H \<ge> 1)
         (logger_logf C LOG_ERROR ''MEM'' (''realloc failed ('' @ fmt_u sz @ '' bytes) tag='' @ c_str tg));
       ret 0 }
     else do {
       whenM (MEMFIX_LEVEL H \<ge> 2)
         (logger_logf C LOG_DEBUG ''MEM'' (''Reallocated '' @ fmt_u sz @ '' bytes for '' @ c_str tg @ '' at ''
            @ fmt_pointer H newPtr @ '' (was '' @ fmt_pointer H ptr @ '')''));
       ret newPtr } }"

definition performHeapMaintenance :: "'w console \<Rightarrow> 'w heap_api \<Rightarrow> ('w, 'z, unit) log_op" where
  "performHeapMaintenance C H =
     (if MEMFIX_LEVEL H \<ge> 2 then do {
        ext (h_check_integrity_all H);
        total_free \<leftarrow> ext (h_free_8bit H);
        total_internal \<leftarrow> ext (h_free_internal H);
        logger_logf C LOG_DEBUG ''MEM'' (''Free: '' @ fmt_u total_internal @ '' internal, '' @ fmt_u total_free @ '' total'') }
      else ret ())"

section \<open>What the helpers do\<close>

text \<open>The heap over which the transcript of the log is kept.\<close>

definition heap_transcript :: "'w heap_api \<Rightarrow> ('w \<times> string list) heap_api" where
  "heap_transcript H = \<lparr>MEMFIX_LEVEL = MEMFIX_LEVEL H, fmt_pointer = fmt_pointer H,
     h_getFreeHeap = lifted (h_getFreeHeap H), h_getMinFreeHeap = lifted (h_getMinFreeHeap H),
     h_largest_8bit = lifted (h_largest_8bit H), h_free_8bit = lifted (h_free_8bit H),
     h_free_internal = lifted (h_free_internal H), h_check_integrity_all = lifted (h_check_integrity_all H),
     h_malloc = (\<lambda>n. lifted (h_malloc H n)), h_realloc = (\<lambda>p n. lifted (h_realloc H p n)),
     h_memset = (\<lambda>p v n. lifted (h_memset H p v n))\<rparr>"

text \<open>The tag \<open>MEM\<close> is printed in every build.\<close>

lemma mem_tag_allowed [simp]: "tunnelDiagLogTagAllowed b (Some ''MEM'')"
  by (simp add: tunnelDiagLogTagAllowed_def c_str_def)

lemma log_frame_config: "log_frame s s' \<Longrightarrow> debugConfig s' = debugConfig s"
  unfolding log_frame_def by (cases s; cases s') auto

lemma log_frame_trans: "log_frame s t \<Longrightarrow> log_frame t u \<Longrightarrow> log_frame s u"
  unfolding log_frame_def by (cases s; cases t; cases u) auto

definition lines_since :: "('w \<times> string list, 'z) logger_state_scheme \<Rightarrow> nat \<Rightarrow> ('w \<times> string list, 'z) logger_state_scheme \<Rightarrow> bool" where
  "lines_since s n s' \<longleftrightarrow> log_frame s s' \<and> (\<exists>ls. printed s' = printed s @ ls \<and> length ls = n)"

lemma lines_log:
  assumes C: "calendar_valid C" and t: "lines_since s n t"
    and Q: "\<And>t'. lines_since s (n + of_bool (level \<le> minLogLevel (debugConfig s))) t' \<Longrightarrow> Q () t'"
  shows "wp (logger_logf (transcript C) level ''MEM'' formatted) Q t"
proof -
  have cfg: "debugConfig t = debugConfig s" using t by (simp add: lines_since_def log_frame_config)
  obtain t' where run: "run_state (logger_logf (transcript C) level ''MEM'' formatted) t = ((), t')" by (metis old.unit.exhaust surj_pair)
  from log_prints [OF C, of level "''MEM''" formatted t]
  have p: "log_frame t t'" "if level \<le> minLogLevel (debugConfig s) then \<exists>l. printed t' = printed t @ [l] else t' = t"
    unfolding wp_def run cfg by (auto split: if_splits)
  obtain ls where "printed t = printed s @ ls" "length ls = n" "log_frame s t" using t by (auto simp: lines_since_def)
  with p have "lines_since s (n + of_bool (level \<le> minLogLevel (debugConfig s))) t'"
    unfolding lines_since_def using log_frame_trans by (auto split: if_splits)
  then show ?thesis using Q by (simp add: wp_def run)
qed

lemma lines_ext:
  "lines_since s n t \<Longrightarrow> (\<And>a v t'. f (fst (world t)) = (a, v) \<Longrightarrow> lines_since s n t' \<Longrightarrow> Q a t') \<Longrightarrow> wp (ext (lifted f)) Q t"
  by (auto simp: wp_ext lines_since_def lifted_def split: prod.splits)

text \<open>
  At level 2 the check prints one warning when the request would leave less than the reserve and one when no
  block is large enough, provided that the request is 8 KB below the wrap of \<open>size_t\<close>.
\<close>

lemma checkHeapHealth_warns:
  assumes C: "calendar_valid C" and on: "LOG_WARN \<le> minLogLevel (debugConfig s)" and lvl: "MEMFIX_LEVEL H \<ge> 2"
    and free: "\<And>w. fst (h_getFreeHeap H w) = free" and largest: "\<And>w. fst (h_largest_8bit H w) = largest"
    and small: "unat req < 2 ^ 32 - 8192"
  shows "wp (checkHeapHealth (transcript C) (heap_transcript H) req)
    (\<lambda>_. lines_since s (of_bool (unat free < unat req + 8192) + of_bool (0 < unat req \<and> unat largest < unat req))) s"
proof -
  have sum: "unat (req + HEAP_RESERVE_BYTES) = unat req + 8192"
    using small by (simp add: HEAP_RESERVE_BYTES_def unat_word_ariths)
  have start: "lines_since s 0 s" by (simp add: lines_since_def)
  have f: "a = free" if "h_getFreeHeap H w = (a, v)" for a w v using that free by (metis fst_conv)
  have l: "a = largest" if "h_largest_8bit H w = (a, v)" for a w v using that largest by (metis fst_conv)
  show ?thesis
    using lvl unfolding checkHeapHealth_def heap_transcript_def heap_api.simps
    by (auto simp: wp_bind wp_whenM sum word_less_nat_alt on dest!: f l intro!: lines_ext [OF start] elim!: lines_ext lines_log [OF C])
qed

text \<open>Whatever the heap and the console do, the helpers change nothing else and return what the heap returned.\<close>

lemma frame_ext: "keeps (log_frame s) (ext f)"
  by (auto simp: keeps_def wp_simps split: prod.splits)

lemma frame_logf: "keeps (log_frame s) (logger_logf C level tg formatted)"
  unfolding logger_logf_def logger_log_def buildLogPrefix_def ensureTimeSyncConfigured_def uptime_prefix_def
  by (intro keeps_intros frame_ext keeps_modify) simp

lemma frame_checkHeapHealth: "keeps (log_frame s) (checkHeapHealth C H req)"
  unfolding checkHeapHealth_def by (intro keeps_intros frame_ext frame_logf)

lemma frame_helpers:
  "keeps (log_frame s) (safeMalloc_logged C H sz tg)"
  "keeps (log_frame s) (safeRealloc C H ptr sz tg)"
  "keeps (log_frame s) (performHeapMaintenance C H)"
  unfolding safeMalloc_logged_def safeRealloc_def performHeapMaintenance_def
  by (intro keeps_intros frame_ext frame_logf frame_checkHeapHealth)+

lemma helpers_return:
  assumes "\<And>w. fst (h_malloc H sz w) = m" and "\<And>w. fst (h_realloc H ptr sz w) = r"
  shows "fst (run_state (safeMalloc_logged C H sz tg) s) = m"
    and "fst (run_state (safeRealloc C H ptr sz tg) s) = r"
  using assms by (auto simp: safeMalloc_logged_def safeRealloc_def split: prod.splits) (metis fst_conv)+

end
