(* ===== verification/Bounded_Waits.thy ===== *)
theory Bounded_Waits
  imports Minis_Delivery Heap_Checks
begin

text \<open>
  The waits of the program that the clock bounds: for the serial port, the network, a response, and those of
  \<open>Logger::init\<close>. The model gives each a number of rounds; here it is shown that these are enough, that is, that more
  rounds would change neither the result nor the state, so the model is the loop of the source.

  The clock is only known modulo \<open>2 ^ 32\<close>. The locale \<open>board_clock\<close> says what the firmware relies on: \<open>millis\<close>
  returns a time between its call and its return, a \<open>delay\<close> of a positive time lets at least one millisecond
  pass (a FreeRTOS delay of \<open>n\<close> ticks ends with the \<open>n\<close>-th tick from now, so it may be shorter than \<open>n\<close> tick
  periods), and no call but \<open>delay\<close> takes more than \<open>slack\<close>, 17 minutes.
\<close>

section \<open>Time\<close>

definition slack :: nat where
  "slack = 2 ^ 20"

definition call_time :: nat where
  "call_time = 2 ^ 24"

definition round_time :: nat where
  "round_time = 2 ^ 28"

lemmas times = slack_def call_time_def round_time_def

definition elapses :: "nat \<Rightarrow> nat \<Rightarrow> u32 \<Rightarrow> u32 \<Rightarrow> bool" where
  "elapses lo hi t t' \<longleftrightarrow> unat (t' - t) \<in> {lo..hi}"

lemma unat_u32: "n < 2 ^ 32 \<Longrightarrow> unat (of_nat n :: u32) = n"
  by (simp add: unat_of_nat)

lemma unat_later: "unat (t :: u32) + d < 2 ^ 32 \<Longrightarrow> unat (t + of_nat d) = unat t + d"
  by (simp add: unat_word_ariths unat_of_nat)

lemma elapsesI: "lo \<le> d \<Longrightarrow> d \<le> hi \<Longrightarrow> hi < 2 ^ 32 \<Longrightarrow> elapses lo hi t (t + of_nat d)"
  by (simp add: elapses_def unat_u32)

lemma elapsesE:
  assumes "elapses lo hi t t'"
  obtains d where "t' = t + of_nat d" and "lo \<le> d" and "d \<le> hi" and "d < 2 ^ 32"
proof
  show "t' = t + of_nat (unat (t' - t))" by simp
  show "unat (t' - t) < 2 ^ 32" using unsigned_less [of "t' - t", where ?'a = nat] by simp
qed (use assms in \<open>auto simp: elapses_def\<close>)

lemma elapses_trans:
  assumes "elapses lo hi t t'" and "elapses lo' hi' t' t''" and "hi + hi' < 2 ^ 32"
  shows "elapses (lo + lo') (hi + hi') t t''"
proof -
  from assms(1) obtain d where d: "t' = t + of_nat d" "lo \<le> d" "d \<le> hi" by (rule elapsesE)
  from assms(2) obtain e where e: "t'' = t' + of_nat e" "lo' \<le> e" "e \<le> hi'" by (rule elapsesE)
  have "t'' = t + of_nat (d + e)" using d e by simp
  moreover have "elapses (lo + lo') (hi + hi') t (t + of_nat (d + e))" by (rule elapsesI) (use d e assms(3) in auto)
  ultimately show ?thesis by simp
qed

lemma elapses_weaken: "elapses lo hi t t' \<Longrightarrow> lo' \<le> lo \<Longrightarrow> hi \<le> hi' \<Longrightarrow> elapses lo' hi' t t'"
  by (simp add: elapses_def)

lemma elapses_refl [simp]: "elapses 0 hi t t"
  by (simp add: elapses_def)

section \<open>Polling\<close>

fun poll :: "('s, bool) state \<Rightarrow> ('s, u32) state \<Rightarrow> (u32 \<Rightarrow> bool) \<Rightarrow> ('s, bool) state \<Rightarrow> nat \<Rightarrow> ('s, unit) state" where
  "poll pre now_is going body 0 = ret ()"
| "poll pre now_is going body (Suc n) = do {
     stop \<leftarrow> pre;
     if stop then ret ()
     else do {
       now \<leftarrow> now_is;
       if going now then do {
         stop \<leftarrow> body;
         if stop then ret () else poll pre now_is going body n }
       else ret () } }"

text \<open>The time that is left decreases while the condition holds.\<close>

definition runs_out :: "(u32 \<Rightarrow> bool) \<Rightarrow> (u32 \<Rightarrow> nat) \<Rightarrow> bool" where
  "runs_out going left \<longleftrightarrow> (\<forall>t u. going t \<longrightarrow> 0 < left t \<and> (elapses 1 (2 ^ 30) t u \<longrightarrow> going u \<longrightarrow> left u < left t))"

locale polling =
  fixes pre :: "('s, bool) state" and now_is :: "('s, u32) state" and body :: "('s, bool) state" and clk :: "'s \<Rightarrow> u32"
  assumes pre_takes: "wp pre (\<lambda>_ s'. elapses 0 call_time (clk s) (clk s')) s"
    and now_takes: "wp now_is (\<lambda>t s'. elapses 0 call_time (clk s) t \<and> elapses 0 call_time t (clk s')) s"
    and body_takes: "wp body (\<lambda>stop s'. \<not> stop \<longrightarrow> elapses 1 round_time (clk s) (clk s')) s"
begin

lemma poll_enough:
  assumes ro: "runs_out going left"
  shows "0 < n \<Longrightarrow> (\<And>t. elapses 0 (call_time + call_time) (clk s) t \<Longrightarrow> going t \<Longrightarrow> left t < n) \<Longrightarrow> n \<le> m \<Longrightarrow>
    run_state (poll pre now_is going body n) s = run_state (poll pre now_is going body m) s"
proof (induction n arbitrary: s m)
  case (Suc n)
  obtain m' where m: "m = Suc m'" using Suc.prems(3) by (cases m) auto
  have more: "run_state (poll pre now_is going body n) s3 = run_state (poll pre now_is going body m') s3"
    if 1: "elapses 0 call_time (clk s) (clk s1)" and 2: "elapses 0 call_time (clk s1) t" "elapses 0 call_time t (clk s2)"
      and 3: "elapses 1 round_time (clk s2) (clk s3)" and t: "going t" for s1 t s2 s3
  proof (rule Suc.IH)
    have "elapses 0 (call_time + call_time) (clk s) t" using elapses_trans [OF 1 2(1)] by (simp add: times)
    then have left: "left t < Suc n" "0 < left t" using Suc.prems(2) t ro by (auto simp: runs_out_def)
    show "0 < n" using left by simp
    show "n \<le> m'" using Suc.prems(3) m by simp
    show "left u < n" if u: "elapses 0 (call_time + call_time) (clk s3) u" and g: "going u" for u
    proof -
      have "elapses (0 + 1 + 0) (call_time + round_time + (call_time + call_time)) t u"
        by (rule elapses_trans [OF elapses_trans [OF 2(2) 3] u]) (simp_all add: times)
      then have "elapses 1 (2 ^ 30) t u" by (rule elapses_weaken) (simp_all add: times)
      then have "left u < left t" using ro t g by (simp add: runs_out_def)
      then show ?thesis using left by simp
    qed
  qed
  obtain b s1 where r1: "run_state pre s = (b, s1)" by force
  obtain t s2 where r2: "run_state now_is s1 = (t, s2)" by force
  obtain c s3 where r3: "run_state body s2 = (c, s3)" by force
  have "elapses 0 call_time (clk s) (clk s1)" using wp_run [OF pre_takes r1] .
  moreover have "elapses 0 call_time (clk s1) t" "elapses 0 call_time t (clk s2)" using wp_run [OF now_takes r2] by auto
  moreover have "\<not> c \<Longrightarrow> elapses 1 round_time (clk s2) (clk s3)" using wp_run [OF body_takes r3] by auto
  ultimately show ?case using more by (simp add: m r1 r2 r3)
qed simp

end

lemma runs_out_since:
  assumes "unat limit \<le> 2 ^ 20"
  shows "runs_out (\<lambda>now. now - started < limit) (\<lambda>now. unat limit - unat (now - started))"
  unfolding runs_out_def
proof (intro allI impI conjI)
  fix t u
  assume g: "t - started < limit"
  then show "0 < unat limit - unat (t - started)" by (simp add: word_less_nat_alt)
  assume "elapses 1 (2 ^ 30) t u" and g': "u - started < limit"
  then obtain d where d: "u = t + of_nat d" "1 \<le> d" "d \<le> 2 ^ 30" by (auto elim: elapsesE)
  have "unat ((t - started) + of_nat d) = unat (t - started) + d"
    by (rule unat_later) (use g d assms in \<open>simp add: word_less_nat_alt\<close>)
  then have "unat (u - started) = unat (t - started) + d" using d(1) by (simp add: algebra_simps)
  then show "unat limit - unat (u - started) < unat limit - unat (t - started)"
    using g d by (simp add: word_less_nat_alt)
qed

lemma ahead_iff: "0 < sint (w :: u32) \<longleftrightarrow> 0 < unat w \<and> unat w < 2 ^ 31"
proof -
  have "sint w = 0 \<longleftrightarrow> unat w = 0" using signed_eq_0_iff [of w] by (simp add: unat_eq_0)
  then show ?thesis using sint_neg_iff [of w] by auto
qed

lemma unat_ahead:
  fixes y :: u32
  assumes "unat y < 2 ^ 31" and "d \<le> 2 ^ 30" and "unat (y - of_nat d) < 2 ^ 31"
  shows "unat (y - of_nat d) + d = unat y"
  using unat_later [of "y - of_nat d" d] assms by simp

lemma runs_out_until: "runs_out (\<lambda>now. sint (deadline - now :: u32) > 0) (\<lambda>now. unat (deadline - now))"
  unfolding runs_out_def ahead_iff
proof (intro allI impI conjI)
  fix t u
  assume g: "0 < unat (deadline - t) \<and> unat (deadline - t) < 2 ^ 31"
  then show "0 < unat (deadline - t)" by simp
  assume "elapses 1 (2 ^ 30) t u" and g': "0 < unat (deadline - u) \<and> unat (deadline - u) < 2 ^ 31"
  then obtain d where d: "u = t + of_nat d" "1 \<le> d" "d \<le> 2 ^ 30" by (auto elim: elapsesE)
  then have u: "deadline - u = (deadline - t) - of_nat d" by simp
  show "unat (deadline - u) < unat (deadline - t)"
    using unat_ahead [of "deadline - t" d, folded u] g g' d by simp
qed

lemma until_first:
  assumes "elapses 0 (2 ^ 26) t0 t" and "sint (t0 + limit - t :: u32) > 0" and "unat limit < 2 ^ 31"
  shows "unat (t0 + limit - t) \<le> unat limit"
proof -
  from assms(1) obtain d where d: "t = t0 + of_nat d" "d \<le> 2 ^ 26" by (rule elapsesE)
  then have "t0 + limit - t = limit - of_nat d" by simp
  then show ?thesis using unat_ahead [of limit d] assms d by (simp add: ahead_iff)
qed

section \<open>The waits as polling\<close>

lemma wait_serial_poll:
  "wait_serial B started n = poll (ext (b_serial_ready B)) (ext (b_millis B)) (\<lambda>now. now - started < 2000)
     (do { ext (b_delay B 10); ret False }) n"
  by (induction n) (simp_all cong: if_cong)

lemma wait_connected_poll:
  "wait_connected B started n = poll (ext (wifi_connected B)) (ext (b_millis B)) (\<lambda>now. now - started < WIFI_TIMEOUT_MS)
     (do { ext (b_delay B 100); ret False }) n"
  by (induction n) (simp_all cong: if_cong)

lemma wait_response_poll:
  "wait_response B deadline n =
     poll (do { a \<leftarrow> ext (tls_available B); if a then ret True else do { c \<leftarrow> ext (tls_connected B); ret (\<not> c) } })
       (ext (b_millis B)) (\<lambda>now. sint (deadline - now) > 0) (do { ext (b_delay B 10); ret False }) n"
  by (induction n) (auto intro!: state_ext simp: split: prod.splits)

lemma wifi_pause_poll:
  "wifi_pause B started n = poll (ret False) (ext (b_millis B)) (\<lambda>now. now - started < 1000)
     (do { led_update B; pollConfigResetButton B; stopped \<leftarrow> gets restarted;
           if stopped then ret True else do { ext (b_delay B 20); ret False } }) n"
  by (induction n) (auto intro!: state_ext split: prod.splits)

lemma init_wait_poll:
  "init_wait C n = poll (ext (con_serial_ready C)) (ext (con_millis C)) (\<lambda>now. now - 0 < 5000)
     (do { ext (con_delay C 10); ret False }) n"
  by (induction n) (simp_all cong: if_cong)

section \<open>The clock of the board\<close>

definition takes :: "('w \<Rightarrow> u32) \<Rightarrow> ('w \<Rightarrow> 'a \<times> 'w) \<Rightarrow> bool" where
  "takes clk f \<longleftrightarrow> (\<forall>w. elapses 0 slack (clk w) (clk (snd (f w))))"

definition reads_clock :: "('w \<Rightarrow> u32) \<Rightarrow> ('w \<Rightarrow> u32 \<times> 'w) \<Rightarrow> bool" where
  "reads_clock clk f \<longleftrightarrow> (\<forall>w. elapses 0 slack (clk w) (fst (f w)) \<and> elapses 0 slack (fst (f w)) (clk (snd (f w))))"

definition sleeps :: "('w \<Rightarrow> u32) \<Rightarrow> (u32 \<Rightarrow> 'w \<Rightarrow> unit \<times> 'w) \<Rightarrow> bool" where
  "sleeps clk f \<longleftrightarrow> (\<forall>d w. 0 < d \<longrightarrow> d \<le> 1000 \<longrightarrow> elapses 1 (1000 + slack) (clk w) (clk (snd (f d w))))"

text \<open>Counting calls: after a call \<open>n\<close> has become \<open>n + 1\<close>.\<close>

definition within :: "('w \<Rightarrow> u32) \<Rightarrow> u32 \<Rightarrow> nat \<Rightarrow> ('w, 'z) wstate_scheme \<Rightarrow> bool" where
  "within clk c n s \<longleftrightarrow> elapses 0 (n * slack) c (clk (world s))"

lemma within_start: "within clk (clk (world s)) 0 s"
  by (simp add: within_def)

lemma within_modify: "within clk c n s \<Longrightarrow> world (f s) = world s \<Longrightarrow> (\<And>s'. within clk c n s' \<Longrightarrow> Q () s') \<Longrightarrow> wp (modify f) Q s"
  by (simp add: wp_modify within_def)

lemma wp_ext_call: "wp (ext f) Q s = Q (fst (f (world s))) (s\<lparr>world := snd (f (world s))\<rparr>)"
  by (simp add: wp_ext split_beta)

lemma wp_takes:
  assumes "takes clk f" and "within clk c n s" and "n < 10" and "\<And>a s'. within clk c (Suc n) s' \<Longrightarrow> Q a s'"
  shows "wp (ext f) Q s"
proof -
  have "elapses (0 + 0) (n * slack + slack) c (clk (snd (f (world s))))"
    by (rule elapses_trans) (use assms in \<open>auto simp: within_def takes_def slack_def\<close>)
  then show ?thesis using assms(4) by (simp add: wp_ext_call within_def add.assoc add.commute add.left_commute)
qed

lemma wp_reads_clock:
  assumes "reads_clock clk f" and "within clk c n s" and "n < 10" and "\<And>a s'. within clk c (n + 2) s' \<Longrightarrow> Q a s'"
  shows "wp (ext f) Q s"
proof -
  have "elapses (0 + (0 + 0)) (n * slack + (slack + slack)) c (clk (snd (f (world s))))"
    by (rule elapses_trans [OF _ elapses_trans]) (use assms in \<open>auto simp: within_def reads_clock_def slack_def\<close>)
  then show ?thesis using assms(4) by (simp add: wp_ext_call within_def add.assoc add.commute add.left_commute)
qed

lemma reads_clock_now:
  "reads_clock clk f \<Longrightarrow>
    wp (ext f) (\<lambda>t s'. elapses 0 call_time (clk (world s)) t \<and> elapses 0 call_time t (clk (world s'))) s"
  unfolding wp_ext_call reads_clock_def by (auto simp: times elim!: allE [of _ "world s"] elim: elapses_weaken)

lemma wp_sleeps:
  assumes "sleeps clk f" and "within clk c n s" and "n < 10" and "0 < d" and "d \<le> 1000"
    and "\<And>s'. elapses 1 round_time c (clk (world s')) \<Longrightarrow> Q () s'"
  shows "wp (ext (f d)) Q s"
proof -
  have "elapses (0 + 1) (n * slack + (1000 + slack)) c (clk (snd (f d (world s))))"
    by (rule elapses_trans) (use assms in \<open>auto simp: within_def sleeps_def slack_def\<close>)
  then have "elapses 1 round_time c (clk (snd (f d (world s))))"
    by (rule elapses_weaken) (use assms(3) in \<open>simp_all add: times\<close>)
  then show ?thesis using assms(6) by (simp add: wp_ext_call)
qed

lemma within_elapses: "within clk c n s \<Longrightarrow> n < 10 \<Longrightarrow> elapses 0 call_time c (clk (world s))"
  unfolding within_def by (erule elapses_weaken) (simp_all add: times)

locale board_clock =
  fixes B :: "'w board" and clk :: "'w \<Rightarrow> u32"
  assumes millis_law: "reads_clock clk (b_millis B)"
    and delay_law: "sleeps clk (b_delay B)"
    and wait_laws: "takes clk (b_serial_ready B)" "takes clk (wifi_connected B)" "takes clk (tls_available B)"
      "takes clk (tls_connected B)"
    and button_laws: "takes clk (b_digitalRead B i)" "takes clk (b_digitalWrite B i b)" "takes clk (fs_open_w B p)"
begin

abbreviation clock :: "('w, 'z) wstate_scheme \<Rightarrow> u32" where
  "clock s \<equiv> clk (world s)"

lemma sleep_body: "0 < d \<Longrightarrow> d \<le> 1000 \<Longrightarrow>
    wp (do { ext (b_delay B d); ret False }) (\<lambda>stop s'. \<not> stop \<longrightarrow> elapses 1 round_time (clock s) (clock s')) s"
  unfolding wp_bind wp_return
  by (rule wp_sleeps [OF delay_law within_start]) auto

lemma one_call: "takes clk f \<Longrightarrow> wp (ext f) (\<lambda>_ s'. elapses 0 call_time (clock s) (clock s')) s"
  by (erule wp_takes [OF _ within_start]) (auto elim: within_elapses)

lemmas polling_laws = one_call wait_laws reads_clock_now millis_law sleep_body

lemma serial_polling: "polling (ext (b_serial_ready B)) (ext (b_millis B)) (do { ext (b_delay B 10); ret False }) clock"
  by unfold_locales (rule polling_laws | simp)+

lemma connected_polling: "polling (ext (wifi_connected B)) (ext (b_millis B)) (do { ext (b_delay B 100); ret False }) clock"
  by unfold_locales (rule polling_laws | simp)+

lemma response_polling:
  "polling (do { a \<leftarrow> ext (tls_available B); if a then ret True else do { c \<leftarrow> ext (tls_connected B); ret (\<not> c) } })
     (ext (b_millis B)) (do { ext (b_delay B 10); ret False }) clock"
proof (unfold_locales, goal_cases)
  case (1 s)
  show ?case
    unfolding wp_bind wp_if wp_return
    by (rule wp_takes [OF wait_laws(3) within_start]) (auto elim: within_elapses elim!: wp_takes [OF wait_laws(4)])
qed (rule polling_laws | simp)+

lemma wp_always: "(\<And>a s'. Q a s') \<Longrightarrow> wp m Q s"
  by (simp add: wp_iff_run)

lemma led_within:
  assumes "within clk c 0 s" and Q: "\<And>n s'. within clk c n s' \<Longrightarrow> n \<le> 3 \<Longrightarrow> Q () s'"
  shows "wp (led_update B) Q s"
  using assms(1)
  unfolding led_update_def led_writeOutput_def wp_bind wp_whenM wp_gets wp_if wp_return
  by (auto intro: Q elim!: wp_reads_clock [OF millis_law] wp_takes [OF button_laws(2)] within_modify)

lemma sample_within:
  assumes "within clk c k s" and "k \<le> 3" and Q: "\<And>n b s'. within clk c n s' \<Longrightarrow> n \<le> 6 \<Longrightarrow> Q b s'"
  shows "wp (sampleConfigButton B b) Q s"
  using assms(1,2)
  unfolding sampleConfigButton_def wp_bind wp_if wp_return
  by (auto elim: Q elim!: wp_reads_clock [OF millis_law] wp_takes [OF button_laws(1)])

lemma marker_within:
  assumes "within clk c k s" and "k \<le> 6" and "\<And>s'. Q True s'" and Q: "\<And>n s'. within clk c n s' \<Longrightarrow> n \<le> 7 \<Longrightarrow> Q False s'"
  shows "wp (store_marker B p) Q s"
  using assms(1,2,3)
  unfolding store_marker_def wp_bind wp_if wp_return
  by (auto intro: Q elim!: wp_takes [OF button_laws(3)] within_modify
      intro!: wp_always [where m = "ext (fs_print B p x)" for x] wp_always [where m = "ext (fs_close B p)"])

lemma restart_sets: "(\<And>s'. restarted s' \<Longrightarrow> Q () s') \<Longrightarrow> wp (restart B) Q s"
  by (auto simp: restart_def wp_simps split: prod.splits)

lemma forget_restarts: "(\<And>s'. restarted s' \<Longrightarrow> Q () s') \<Longrightarrow> wp (forget_wifi_and_restart B) Q s"
  unfolding forget_wifi_and_restart_def wp_bind
  by (auto simp: wp_ext intro!: restart_sets split: prod.splits)

lemma button_within:
  assumes s: "within clk c k s" "k \<le> 3" and R: "\<And>s'. restarted s' \<Longrightarrow> Q () s'" and W: "\<And>n s'. within clk c n s' \<Longrightarrow> n \<le> 7 \<Longrightarrow> Q () s'"
  shows "wp (pollConfigResetButton B) Q s"
proof -
  have act: "wp (do { b \<leftarrow> gets button_state;
      (case pendingButtonAction b of
           NoAction \<Rightarrow> ret ()
         | Edit \<Rightarrow> do {
             ok \<leftarrow> store_marker B EDIT_REQUEST_PATH;
             whenM ok (do { ext (b_delay B 250); restart B }) }
         | WifiReset \<Rightarrow> do {
             ok \<leftarrow> store_marker B WIFI_RESET_REQUEST_PATH;
             whenM ok (do { removeIfExists B EDIT_REQUEST_PATH; stopServices B; forget_wifi_and_restart B }) }
         | FactoryReset \<Rightarrow> do {
             stopServices B;
             for_each (removeIfExists B) factory_files;
             forget_wifi_and_restart B }) }) Q t" if t: "within clk c n t" "n \<le> 6" for n t
  proof -
    have tail: "wp (do { m1; m2; forget_wifi_and_restart B }) Q u" for m1 m2 u
      unfolding wp_bind by (rule wp_always, rule wp_always, rule forget_restarts, rule R)
    have edit: "wp (do { ext (b_delay B 250); restart B }) Q u" for u
      unfolding wp_bind by (rule wp_always, rule restart_sets, rule R)
    show ?thesis
      using t unfolding wp_bind [of "gets button_state"] wp_gets
      by (cases "pendingButtonAction (button_state t)")
        (auto simp: wp_bind [of "store_marker B p" for p] wp_whenM wp_return tail edit intro: W elim!: marker_within)
  qed
  show ?thesis
    unfolding pollConfigResetButton_def wp_if wp_return wp_bind [of "gets buttonTaskStarted"] wp_gets
      wp_bind [of "whenM b m" for b m] wp_whenM
    using s by (auto simp: wp_bind [of "sampleConfigButton B b" for b] wp_bind [of "gets button_state"] wp_gets
        intro: W act [unfolded wp_bind [of "gets button_state"] wp_gets] elim!: sample_within within_modify)
qed

lemma pause_polling:
  "polling (ret False) (ext (b_millis B))
     (do { led_update B; pollConfigResetButton B; stopped \<leftarrow> gets restarted;
           if stopped then ret True else do { ext (b_delay B 20); ret False } }) clock"
proof (unfold_locales, goal_cases)
  case (1 s)
  show ?case by (simp add: wp_return)
next
  case (2 s)
  show ?case by (rule reads_clock_now [OF millis_law])
next
  case (3 s)
  show ?case
    unfolding wp_bind wp_gets wp_if wp_return
    by (rule led_within [OF within_start], erule button_within)
      (auto elim!: wp_sleeps [OF delay_law])
qed

lemmas serial_enough = polling.poll_enough [OF serial_polling runs_out_since]
lemmas connected_enough = polling.poll_enough [OF connected_polling runs_out_since]
lemmas response_enough = polling.poll_enough [OF response_polling runs_out_until]
lemmas pause_enough = polling.poll_enough [OF pause_polling runs_out_since]

lemma wait_serial_rounds: "2001 \<le> n \<Longrightarrow> run_state (wait_serial B started n) s = run_state (wait_serial B started 2001) s"
  unfolding wait_serial_poll by (rule serial_enough [symmetric]) simp_all

lemma wait_connected_rounds:
  "20001 \<le> n \<Longrightarrow> run_state (wait_connected B started n) s = run_state (wait_connected B started 20001) s"
  unfolding wait_connected_poll WIFI_TIMEOUT_MS_def by (rule connected_enough [symmetric]) simp_all

lemma wifi_pause_rounds: "1001 \<le> n \<Longrightarrow> run_state (wifi_pause B started n) s = run_state (wifi_pause B started 1001) s"
  unfolding wifi_pause_poll by (rule pause_enough [symmetric]) simp_all

text \<open>The limit of a response is a time read just before the wait.\<close>

lemma wait_response_rounds:
  assumes "unat limit < 2 ^ 31" and "elapses 0 slack t0 (clock s)" and "unat limit < n"
  shows "run_state (wait_response B (t0 + limit) n) s = run_state (wait_response B (t0 + limit) (Suc (unat limit))) s"
  unfolding wait_response_poll
proof (rule response_enough [symmetric])
  fix t
  assume "elapses 0 (call_time + call_time) (clock s) t" and g: "0 < sint (t0 + limit - t)"
  then have "elapses (0 + 0) (slack + (call_time + call_time)) t0 t"
    by (intro elapses_trans [OF assms(2)]) (auto simp: times)
  then have "elapses 0 (2 ^ 26) t0 t" by (rule elapses_weaken) (simp_all add: times)
  from until_first [OF this g assms(1)] show "unat (t0 + limit - t) < Suc (unat limit)" by simp
qed (use assms(3) in simp_all)

end

section \<open>The wait of the logger\<close>

lemma init_wait_rounds:
  assumes "reads_clock clk (con_millis C)" and "sleeps clk (con_delay C)" and "takes clk (con_serial_ready C)" and "5001 \<le> n"
  shows "run_state (init_wait C n) s = run_state (init_wait C 5001) s"
proof -
  have "polling (ext (con_serial_ready C)) (ext (con_millis C)) (do { ext (con_delay C 10); ret False }) (\<lambda>s. clk (world s))"
  proof (unfold_locales, goal_cases)
    case (1 s)
    show ?case by (rule wp_takes [OF assms(3) within_start]) (auto elim: within_elapses)
  next
    case (2 s)
    show ?case by (rule reads_clock_now [OF assms(1)])
  next
    case (3 s)
    show ?case unfolding wp_bind wp_return by (rule wp_sleeps [OF assms(2) within_start]) auto
  qed
  then show ?thesis
    unfolding init_wait_poll by (rule polling.poll_enough [OF _ runs_out_since, symmetric]) (use assms(4) in simp_all)
qed

section \<open>Responses\<close>

text \<open>
  A response whose end the server does not announce is read until the connection is closed or no byte has come for 5 s. The
  loops end for every response of finitely many bytes. \<open>pending\<close> counts those that are still to be read;
  the bound on the rounds allows 5 s of silence before each of them.
\<close>

definition settles :: "(nat \<Rightarrow> ('s, 'b option) state) \<Rightarrow> 's \<Rightarrow> bool" where
  "settles f s \<longleftrightarrow> (\<exists>N x s'. \<forall>fuel \<ge> N. run_state (f fuel) s = (Some x, s'))"

lemma settles_ret: "settles (\<lambda>_. ret (Some x)) s"
  by (auto simp: settles_def)

lemma settles_bind: "(\<And>a s'. settles (\<lambda>n. f n a) s') \<Longrightarrow> settles (\<lambda>n. State_Monad.bind m (f n)) s"
  unfolding settles_def by (cases "run_state m s") (auto simp: split_beta)

lemma settles_if: "(b \<Longrightarrow> settles f s) \<Longrightarrow> (\<not> b \<Longrightarrow> settles g s) \<Longrightarrow> settles (\<lambda>n. if b then f n else g n) s"
  by (cases b) simp_all

lemma settles_then:
  assumes f: "settles f s" and g: "\<And>x s'. settles (\<lambda>n. g n (Some x)) s'"
  shows "settles (\<lambda>n. State_Monad.bind (f n) (g n)) s"
proof -
  obtain N x s1 where N: "\<And>n. n \<ge> N \<Longrightarrow> run_state (f n) s = (Some x, s1)" using f by (auto simp: settles_def)
  obtain M y s2 where M: "\<And>n. n \<ge> M \<Longrightarrow> run_state (g n (Some x)) s1 = (Some y, s2)" using g [of x s1] by (auto simp: settles_def)
  have "\<forall>n \<ge> max N M. run_state (State_Monad.bind (f n) (g n)) s = (Some y, s2)" using N M by auto
  then show ?thesis unfolding settles_def by blast
qed

locale finite_response = board_clock +
  fixes pending :: "'a \<Rightarrow> nat"
  assumes read_takes: "takes clk (tls_read B)"
    and until_law: "pending (snd (tls_readBytesUntil B c n w)) + length (fst (tls_readBytesUntil B c n w)) \<le> pending w"
    and read_law: "pending (snd (tls_read B w)) + of_bool (0 \<le> fst (tls_read B w)) \<le> pending w"
    and idle_laws: "pending (snd (tls_available B w)) \<le> pending w" "pending (snd (tls_connected B w)) \<le> pending w"
      "pending (snd (b_millis B w)) \<le> pending w" "pending (snd (b_delay B d w)) \<le> pending w"
begin

abbreviation to_come :: "('a, 'z) wstate_scheme \<Rightarrow> nat" where
  "to_come s \<equiv> pending (world s)"

lemma read_headers_return:
  "to_come s < fuel \<Longrightarrow> \<exists>n s'. run_state (read_headers B fuel k) s = (Some n, s') \<and> to_come s' \<le> to_come s"
proof (induction fuel arbitrary: k s)
  case (Suc fuel)
  obtain l w where r: "tls_readBytesUntil B LF 95 (world s) = (l, w)" by force
  have p: "pending w + length l \<le> to_come s" using until_law [of LF 95 "world s"] r by simp
  show ?case
  proof (cases "length l = 0 \<or> (length l = 1 \<and> hd l = CR)")
    case True
    then show ?thesis using r p by auto
  next
    case False
    then have "to_come (s\<lparr>world := w\<rparr>) < fuel" using p Suc.prems by (cases l) auto
    then obtain n s' where "run_state (read_headers B fuel (content_length l k)) (s\<lparr>world := w\<rparr>) = (Some n, s')"
      and "to_come s' \<le> pending w" using Suc.IH [of "s\<lparr>world := w\<rparr>" "content_length l k"] by auto
    moreover from False have "run_state (read_headers B (Suc fuel) k) s
        = run_state (read_headers B fuel (content_length l k)) (s\<lparr>world := w\<rparr>)" using r by auto
    ultimately show ?thesis using p by auto
  qed
qed simp

lemma read_headers_more:
  "run_state (read_headers B fuel k) s = (Some n, s') \<Longrightarrow> run_state (read_headers B (fuel + j) k) s = (Some n, s')"
  by (induction fuel arbitrary: k s) (auto split: prod.splits if_splits)

lemma read_available_more:
  "run_state (read_available B fuel cap r) s = (Some x, s') \<Longrightarrow> run_state (read_available B (fuel + j) cap r) s = (Some x, s')"
  by (induction fuel arbitrary: r s) (auto split: prod.splits if_splits)

lemma read_body_more:
  "run_state (read_body B fuel cap r) s = (Some x, s') \<Longrightarrow> run_state (read_body B (fuel + j) cap r) s = (Some x, s')"
proof (induction fuel arbitrary: r s)
  case (Suc fuel)
  have inner: "run_state (read_available B (Suc (fuel + j)) cap r) t = (Some y, t')"
    if "run_state (read_available B (Suc fuel) cap r) t = (Some y, t')" for t y t'
    using read_available_more [OF that, of j] by simp
  from Suc.prems show ?case
    by (auto split: prod.splits if_splits option.splits simp del: read_available.simps dest!: inner Suc.IH)
qed simp

lemma read_available_return:
  "to_come s < fuel \<Longrightarrow>
    wp (read_available B fuel cap r) (\<lambda>x s'. \<exists>r'. x = Some r' \<and>
      ((snd (snd r') = snd (snd r) \<and> elapses 0 (2 * slack) (clock s) (clock s') \<and> to_come s' \<le> to_come s)
       \<or> (to_come s' < to_come s \<and> elapses 0 (3 * slack) (snd (snd r')) (clock s')))) s"
proof (induction fuel arbitrary: r s)
  case (Suc fuel)
  obtain a w1 where a: "tls_available B (world s) = (a, w1)" by force
  obtain v w2 where v: "tls_read B w1 = (v, w2)" by force
  obtain t w3 where t: "b_millis B w2 = (t, w3)" by force
  have p: "pending w1 \<le> to_come s" "pending w2 + of_bool (0 \<le> v) \<le> pending w1" "pending w3 \<le> pending w2"
    using idle_laws(1) [of "world s"] read_law [of w1] idle_laws(3) [of w2] a v t by simp_all
  have c1: "elapses 0 slack (clock s) (clk w1)" "elapses 0 slack (clk w1) (clk w2)" "elapses 0 slack t (clk w3)"
    using wait_laws(3) read_takes millis_law a v t by (auto simp: takes_def reads_clock_def) (metis fst_conv snd_conv)+
  have c2: "elapses 0 (2 * slack) (clock s) (clk w2)" using elapses_trans [OF c1(1,2)] by (simp add: times mult_2)
  show ?case
  proof (cases "a \<and> 0 \<le> v")
    case False
    then show ?thesis using a v p c2 elapses_weaken [OF c1(1), of 0 "2 * slack"]
      by (cases r) (auto simp: wp_simps not_le)
  next
    case True
    let ?s = "s\<lparr>world := w3\<rparr>"
    define r' where "r' = (case r of (response, complete, lastDataAt) \<Rightarrow>
      if length response + 1 < cap then (response @ [char_of (nat v)], complete, t) else (response, False, t))"
    have r': "snd (snd r') = t"
      "wp (read_available B (Suc fuel) cap r) Q s = wp (read_available B fuel cap r') Q ?s" for Q
      using True a v t by (cases r, simp add: wp_simps r'_def)+
    have "to_come ?s < fuel" using p True Suc.prems by simp
    from Suc.IH [OF this, of r'] show ?thesis
      unfolding r'(2)
    proof (rule wp_mono)
      fix x s'
      show "\<exists>r''. x = Some r'' \<and> (snd (snd r'') = snd (snd r) \<and> elapses 0 (2 * slack) (clock s) (clock s') \<and> to_come s' \<le> to_come s
          \<or> to_come s' < to_come s \<and> elapses 0 (3 * slack) (snd (snd r'')) (clock s'))"
        if "\<exists>r''. x = Some r'' \<and> (snd (snd r'') = snd (snd r') \<and> elapses 0 (2 * slack) (clock ?s) (clock s') \<and> to_come s' \<le> to_come ?s
          \<or> to_come s' < to_come ?s \<and> elapses 0 (3 * slack) (snd (snd r'')) (clock s'))"
        using that p True r'(1) elapses_trans [OF c1(3), of 0 "2 * slack"] by (auto simp: times)
    qed
  qed
qed simp

definition silence_left :: "u32 \<Rightarrow> ('a, 'z) wstate_scheme \<Rightarrow> nat" where
  "silence_left lastDataAt s = 5000 - unat (clock s - lastDataAt)"

lemma unat_elapsed: "elapses lo hi t u \<Longrightarrow> unat (t - x) + hi < 2 ^ 32 \<Longrightarrow> unat (t - x) + lo \<le> unat (u - x) \<and> unat (u - x) \<le> unat (t - x) + hi"
proof -
  assume e: "elapses lo hi t u" and b: "unat (t - x) + hi < 2 ^ 32"
  from e obtain d where d: "u = t + of_nat d" "lo \<le> d" "d \<le> hi" by (rule elapsesE)
  have "unat ((t - x) + of_nat d) = unat (t - x) + d" by (rule unat_later) (use b d in simp)
  moreover have "u - x = (t - x) + of_nat d" using d(1) by simp
  ultimately have "unat (u - x) = unat (t - x) + d" by (simp only:)
  then show ?thesis using d(2,3) by linarith
qed

text \<open>After a round that does not end the wait, the time of silence has grown, or a byte has come.\<close>

lemma round_silent:
  assumes e: "unat (clock s - lastDataAt) < 2 ^ 24" and t: "elapses 0 (5 * slack) (clock s) now"
    and n: "now - lastDataAt < 5000" and d: "elapses 1 (1000 + 2 * slack) now (clock s')"
  shows "unat (clock s' - lastDataAt) < 2 ^ 24 \<and> silence_left lastDataAt s' < silence_left lastDataAt s"
proof -
  have 1: "unat (clock s - lastDataAt) \<le> unat (now - lastDataAt)"
    using unat_elapsed [OF t] e by (simp add: times)
  have n': "unat (now - lastDataAt) < 5000" using n by (simp add: word_less_nat_alt)
  have "unat (now - lastDataAt) + 1 \<le> unat (clock s' - lastDataAt) \<and> unat (clock s' - lastDataAt) \<le> unat (now - lastDataAt) + (1000 + 2 * slack)"
    by (rule unat_elapsed [OF d]) (use n' in \<open>simp add: times\<close>)
  then show ?thesis using 1 n' by (auto simp: silence_left_def times intro!: diff_less_mono2)
qed

lemma round_data:
  assumes t: "elapses 0 (4 * slack) lastDataAt now" and d: "elapses 1 (1000 + 2 * slack) now (clock s')"
  shows "unat (clock s' - lastDataAt) < 2 ^ 24"
proof -
  have "elapses (0 + 1) (4 * slack + (1000 + 2 * slack)) lastDataAt (clock s')"
    by (rule elapses_trans [OF t d]) (simp add: times)
  then show ?thesis by (simp add: elapses_def times)
qed

lemma read_body_return:
  "unat (clock s - snd (snd r)) < 2 ^ 24 \<Longrightarrow> to_come s * 5001 + silence_left (snd (snd r)) s < fuel \<Longrightarrow>
    \<exists>x s'. run_state (read_body B fuel cap r) s = (Some x, s')"
proof (induction fuel arbitrary: r s)
  case (Suc fuel)
  obtain c w1 where c: "tls_connected B (world s) = (c, w1)" by force
  obtain a w2 where a: "(if c then (True, w1) else tls_available B w1) = (a, w2)" by force
  let ?s2 = "s\<lparr>world := w2\<rparr>"
  have el1: "elapses 0 slack (clock s) (clk w1)" using wait_laws(4) c unfolding takes_def by (metis snd_conv)
  have el2: "elapses 0 slack (clk w1) (clk w2)" using wait_laws(3) a unfolding takes_def by (auto split: if_splits) (metis snd_conv)
  have p2: "pending w2 \<le> to_come s" using idle_laws(1) [of w1] idle_laws(2) [of "world s"] a c by (auto split: if_splits)
  obtain x s3 where x: "run_state (read_available B (Suc fuel) cap r) ?s2 = (x, s3)" by force
  have "to_come ?s2 < Suc fuel" using p2 Suc.prems(2) by simp
  from wp_run [OF read_available_return [OF this] x] obtain r' where r': "x = Some r'" and
    data: "snd (snd r') = snd (snd r) \<and> elapses 0 (2 * slack) (clk w2) (clock s3) \<and> to_come s3 \<le> pending w2
       \<or> to_come s3 < pending w2 \<and> elapses 0 (3 * slack) (snd (snd r')) (clock s3)" by auto
  obtain now w4 where now: "b_millis B (world s3) = (now, w4)" by force
  obtain w5 where w5: "b_delay B 10 w4 = ((), w5)" by (metis old.unit.exhaust surj_pair)
  let ?s5 = "s3\<lparr>world := w5\<rparr>"
  have el4: "elapses 0 slack (clock s3) now" "elapses 0 slack now (clk w4)"
    using millis_law now unfolding reads_clock_def by (metis fst_conv, metis fst_conv snd_conv)
  have "elapses 1 (1000 + slack) (clk w4) (clk (snd (b_delay B 10 w4)))"
    using delay_law unfolding sleeps_def by (simp add: word_less_nat_alt)
  then have "elapses 1 (1000 + slack) (clk w4) (clk w5)" using w5 by simp
  from elapses_trans [OF el4(2) this] have el5: "elapses 1 (1000 + 2 * slack) now (clock ?s5)" by (simp add: times)
  have p5: "pending w5 \<le> to_come s3" using idle_laws(3) [of "world s3"] idle_laws(4) [of 10 w4] now w5 by simp
  have step: "run_state (read_body B (Suc fuel) cap r) s
      = (if \<not> a then (Some (fst r, fst (snd r)), ?s2)
         else if now - snd (snd r') \<ge> MINIS_TIMEOUT_MS then (Some (fst r', False), s3\<lparr>world := w4\<rparr>)
         else run_state (read_body B fuel cap r') ?s5)"
    using c a x r' now w5 by (cases r') (auto simp del: read_available.simps split: if_splits)
  show ?case
  proof (cases "a \<and> \<not> now - snd (snd r') \<ge> MINIS_TIMEOUT_MS")
    case False
    then show ?thesis unfolding step by auto
  next
    case True
    then have n: "now - snd (snd r') < 5000" by (simp add: MINIS_TIMEOUT_MS_def not_le)
    have "unat (clock ?s5 - snd (snd r')) < 2 ^ 24 \<and> pending w5 * 5001 + silence_left (snd (snd r')) ?s5 < fuel"
      using data
    proof
      assume q: "snd (snd r') = snd (snd r) \<and> elapses 0 (2 * slack) (clk w2) (clock s3) \<and> to_come s3 \<le> pending w2"
      have "elapses (0 + 0 + 0 + 0) (slack + slack + 2 * slack + slack) (clock s) now"
        by (rule elapses_trans [OF elapses_trans [OF elapses_trans [OF el1 el2]] el4(1)]) (use q in \<open>simp_all add: times\<close>)
      then have "elapses 0 (5 * slack) (clock s) now" by (simp add: times)
      from round_silent [OF Suc.prems(1) this _ el5] n q
      have "unat (clock ?s5 - snd (snd r)) < 2 ^ 24 \<and> silence_left (snd (snd r)) ?s5 < silence_left (snd (snd r)) s" by simp
      moreover have "pending w5 \<le> to_come s" using p5 p2 q by simp
      then have "pending w5 * 5001 \<le> to_come s * 5001" by simp
      ultimately show ?thesis using q Suc.prems(2) by simp
    next
      assume q: "to_come s3 < pending w2 \<and> elapses 0 (3 * slack) (snd (snd r')) (clock s3)"
      have "elapses (0 + 0) (3 * slack + slack) (snd (snd r')) now"
        by (rule elapses_trans [OF conjunct2 [OF q] el4(1)]) (simp add: times)
      then have "elapses 0 (4 * slack) (snd (snd r')) now" by (simp add: times)
      moreover have "pending w5 + 1 \<le> to_come s" using p5 p2 q by simp
      then have "pending w5 * 5001 + 5001 \<le> to_come s * 5001" by (metis mult_le_mono1 add_mult_distrib mult_1)
      ultimately show ?thesis using round_data [OF _ el5] Suc.prems(2) by (simp add: silence_left_def)
    qed
    then show ?thesis unfolding step using True Suc.IH [of ?s5 r'] by simp
  qed
qed simp

lemma read_response_return:
  "\<exists>x s'. \<forall>fuel > to_come s * 5001 + 5000. run_state (read_response B fuel cap) s = (Some x, s')"
proof -
  let ?n = "Suc (to_come s * 5001 + 5000)"
  have "to_come s < ?n" by simp
  then obtain k s1 where k: "run_state (read_headers B ?n (-1)) s = (Some k, s1)" and p: "to_come s1 \<le> to_come s"
    using read_headers_return by blast
  obtain t w where t: "b_millis B (world s1) = (t, w)" by force
  have "elapses 0 slack t (clk w)" using millis_law t unfolding reads_clock_def by (metis fst_conv snd_conv)
  then have "unat (clock (s1\<lparr>world := w\<rparr>) - t) < 2 ^ 24" by (simp add: elapses_def times)
  moreover have "pending w \<le> to_come s" using idle_laws(3) [of "world s1"] t p by simp
  then have "pending w * 5001 + silence_left t (s1\<lparr>world := w\<rparr>) < ?n" by (simp add: silence_left_def)
  ultimately obtain x s2 where b: "run_state (read_body B ?n cap ([], True, t)) (s1\<lparr>world := w\<rparr>) = (Some x, s2)"
    using read_body_return [of "s1\<lparr>world := w\<rparr>" "([], True, t)" ?n cap] by auto
  have more: "run_state (read_headers B fuel (-1)) s = (Some k, s1)"
    "run_state (read_body B fuel cap ([], True, t)) (s1\<lparr>world := w\<rparr>) = (Some x, s2)" if "?n \<le> fuel" for fuel
    using read_headers_more [OF k, of "fuel - ?n"] read_body_more [OF b, of "fuel - ?n"] that by simp_all
  show ?thesis
    unfolding read_response_def using more t
    by (cases "k \<ge> 0"; cases "nat k \<ge> cap") (auto split: prod.split simp: Suc_le_eq)
qed

lemma read_response_settles: "settles (\<lambda>fuel. read_response B fuel cap) s"
  using read_response_return [of s cap] unfolding settles_def by (metis Suc_le_eq)

lemma performGet_settles: "settles (\<lambda>fuel. performGet B fuel suffix buffer) s"
proof -
  have tail: "settles (\<lambda>fuel. do {
      r \<leftarrow> read_response B fuel cap;
      (case r of None \<Rightarrow> ret None
       | Some (response, complete) \<Rightarrow> do {
           ext (tls_stop B);
           if \<not> complete then ret (Some (-1, [])) else ret (Some (status, response)) }) }) s" for cap status s
    by (rule settles_then [OF read_response_settles]) (auto intro!: settles_bind settles_ret split: prod.split)
  show ?thesis
    unfolding performGet_def by (cases buffer) (auto intro!: settles_bind settles_ret settles_if tail simp: Let_def)
qed

lemma refreshConfig_settles: "settles (\<lambda>fuel. refreshConfig B M fuel) s"
  unfolding refreshConfig_def
  by (intro settles_bind settles_if settles_ret settles_then [OF performGet_settles])
    (auto intro!: settles_bind settles_if settles_ret split: prod.split option.split)

lemma heartbeat_start_settles: "settles (\<lambda>fuel. heartbeat_start B M fuel) s"
  unfolding heartbeat_start_def
  by (intro settles_bind settles_then [OF refreshConfig_settles]) (auto intro!: settles_bind settles_ret)

end

section \<open>The wait for the next heartbeat\<close>

text \<open>
  The wait ends a round early for each notification. \<open>unread\<close> counts the notifications that are pending or still to come: taking one
  lowers it, and a take that returns without one has waited as long as it was told to.
\<close>

locale finite_notes =
  fixes B :: "'w board" and M :: "'w minis_os" and unread :: "'w \<Rightarrow> nat"
  assumes timeout_law: "os_tickCount M w = (t0, w1) \<Longrightarrow> os_notifyTake M c t w1 = (0, w2) \<Longrightarrow> os_tickCount M w2 = (t1, w3) \<Longrightarrow> t \<le> t1 - t0"
    and take_law: "unread (snd (os_notifyTake M c t w)) + of_bool (0 < fst (os_notifyTake M c t w)) \<le> unread w"
    and os_laws: "unread (snd (os_tickCount M w)) \<le> unread w" "unread (snd (q_peek (alerts M) w)) \<le> unread w"
      "unread (snd (q_receive (alerts M) w)) \<le> unread w"
    and board_laws: "unread (snd (fs_exists B p w)) \<le> unread w" "unread (snd (fs_remove B p w)) \<le> unread w"
      "unread (snd (wifi_connected B w)) \<le> unread w" "unread (snd (b_free_heap B w)) \<le> unread w" "unread (snd (b_largest_block B w)) \<le> unread w"
      "unread (snd (b_millis B w)) \<le> unread w" "unread (snd (b_delay B d w)) \<le> unread w"
    and tls_laws: "unread (snd (tls_connect B h n w)) \<le> unread w" "unread (snd (tls_stop B w)) \<le> unread w"
      "unread (snd (tls_write B x w)) \<le> unread w" "unread (snd (tls_available B w)) \<le> unread w" "unread (snd (tls_connected B w)) \<le> unread w"
      "unread (snd (tls_readBytesUntil B e k w)) \<le> unread w"
begin

definition at_most :: "nat \<Rightarrow> ('w, 'z) wstate_scheme \<Rightarrow> bool" where
  "at_most n s \<longleftrightarrow> unread (world s) \<le> n"

lemma keeps_call: "(\<And>w. unread (snd (f w)) \<le> unread w) \<Longrightarrow> keeps (at_most n) (ext f)"
  unfolding keeps_def at_most_def by (auto simp: wp_simps split: prod.splits) (metis le_trans snd_conv)

lemmas calls = keeps_call [OF os_laws(2)] keeps_call [OF os_laws(3)] board_laws [THEN keeps_call] tls_laws [THEN keeps_call]

lemma keeps_wait_response: "keeps (at_most n) (wait_response B t k)"
  by (induction k) (auto intro!: keeps_intros calls)

lemma keeps_send_alert: "keeps (at_most n) (sendNextQueuedAlert B M)"
  unfolding sendNextQueuedAlert_def performAlertPost_def tlsMemoryAvailable_def tls_print_def
  by (intro keeps_intros calls keeps_wait_response)

lemma heartbeat_wait_returns:
  fixes s :: "('w, 'r, 'z) minis_scheme"
  shows "unread (world s) + 2 \<le> fuel \<Longrightarrow> \<exists>s'. run_state (heartbeat_wait B M fuel r) s = (Some (), s')"
proof (induction fuel arbitrary: r s)
  case (Suc fuel)
  show ?case
  proof (cases "r = 0")
    case False
    obtain t0 w1 where t0: "os_tickCount M (world s) = (t0, w1)" by force
    obtain k w2 where k: "os_notifyTake M False r w1 = (k, w2)" by force
    define handle :: "('w, 'r, 'z, unit) minis_op" where "handle = whenM (k > 0) (do {
      result \<leftarrow> sendNextQueuedAlert B M; whenM (result = AlertDeferred) (do { ext (os_notifyTake M True 0); ret () }) })"
    obtain s3 where s3: "run_state handle (s\<lparr>world := w2\<rparr>) = ((), s3)" by (metis old.unit.exhaust surj_pair)
    obtain t1 w4 where t1: "os_tickCount M (world s3) = (t1, w4)" by force
    let ?s4 = "s3\<lparr>world := w4\<rparr>"
    let ?r = "if t1 - t0 \<ge> r then 0 else r - (t1 - t0)"
    have step: "run_state (heartbeat_wait B M (Suc fuel) r) s = run_state (heartbeat_wait B M fuel ?r) ?s4"
      using False t0 k s3 t1 by (simp add: handle_def Let_def)
    show ?thesis
    proof (cases "k = 0")
      case True
      then have "s3 = s\<lparr>world := w2\<rparr>" using s3 by (simp add: handle_def)
      then have "?r = 0" using timeout_law [OF t0, of False r w2 t1 w4] k t1 True by simp
      then show ?thesis unfolding step using Suc.prems by (cases fuel) auto
    next
      case False
      have "unread w2 < unread (world s)"
        using take_law [of False r w1] os_laws(1) [of "world s"] t0 k False by (simp add: word_gt_0)
      moreover have "keeps (at_most (unread w2)) handle"
        unfolding handle_def by (intro keeps_intros keeps_send_alert keeps_call add_leD1 [OF take_law])
      from keeps_run [OF this _ s3] have "unread (world s3) \<le> unread w2" by (simp add: at_most_def)
      moreover have "unread w4 \<le> unread (world s3)" using os_laws(1) [of "world s3"] t1 by simp
      ultimately have "unread (world ?s4) + 2 \<le> fuel" using Suc.prems by simp
      then show ?thesis unfolding step by (rule Suc.IH)
    qed
  qed simp
qed simp

lemma heartbeat_wait_more:
  "run_state (heartbeat_wait B M fuel r) s = (Some (), s') \<Longrightarrow> run_state (heartbeat_wait B M (fuel + j) r) s = (Some (), s')"
  by (induction fuel arbitrary: r s) (auto split: prod.splits if_splits simp: Let_def)

lemma heartbeat_wait_settles: "settles (\<lambda>fuel. heartbeat_wait B M fuel r) s"
proof -
  obtain s' where "run_state (heartbeat_wait B M (unread (world s) + 2) r) s = (Some (), s')" using heartbeat_wait_returns [of s] by blast
  from heartbeat_wait_more [OF this] show ?thesis unfolding settles_def by (metis le_Suc_ex)
qed

end

text \<open>A whole round of the heartbeat task, when both contracts hold.\<close>

lemma heartbeat_round_settles:
  assumes "finite_response B clk pending" and "finite_notes B M unread"
  shows "settles (\<lambda>fuel. heartbeat_round B M fuel) s"
  unfolding heartbeat_round_def
  by (intro settles_bind settles_then [OF finite_notes.heartbeat_wait_settles [OF assms(2)]])
    (auto intro!: settles_bind settles_ret settles_then [OF finite_response.refreshConfig_settles [OF assms(1)]])

section \<open>The reference board has such a clock\<close>

lemma takes_same: "(\<And>w. clk (snd (f w)) = clk w) \<Longrightarrow> takes clk f"
  by (simp add: takes_def)

lemma rf_until_consumes: "length (rf_input (snd (rf_until c n w))) + length (fst (rf_until c n w)) \<le> length (rf_input w)"
  using length_takeWhile_le [of "\<lambda>x. x \<noteq> c" "rf_input w"] by (auto simp: rf_until_def Let_def)

interpretation ref_clock: finite_response "ref_board faulty" rf_now "\<lambda>w. length (rf_input w)" for faulty
proof (unfold_locales, goal_cases)
  case 1
  then show ?case by (auto simp: reads_clock_def ref_board_def elapses_def slack_def)
next
  case 2
  then show ?case by (auto simp: sleeps_def ref_board_def elapses_def slack_def word_less_nat_alt word_le_nat_alt)
qed (auto simp: takes_same ref_board_def rf_note_def rf_try_def rf_until_consumes split: list.split intro!: takes_same)

text \<open>On the reference system nobody sends notifications.\<close>

interpretation ref_notes: finite_notes "ref_board faulty" ref_os "\<lambda>_. 0" for faulty
  by unfold_locales (auto simp: ref_os_def)

interpretation ref_serial: polling "ext (b_serial_ready (ref_board faulty)) :: (('x ref_flash, 'z) wstate_scheme, bool) state"
    "ext (b_millis (ref_board faulty))" "do { ext (b_delay (ref_board faulty) 10); ret False }" "\<lambda>s. rf_now (world s)" for faulty
  by (rule ref_clock.serial_polling)

section \<open>Properties\<close>

text \<open>
  C39: With a clock that runs, rounds beyond the limit in milliseconds change neither result nor state of the wait for the
  serial port (2 s), for the network (20 s, and 1 s between two attempts) and for a response of the Minis server (5 s from the
  time read before the wait): these loops of the source end, after at most as many rounds as the model gives them.
\<close>

theorem waits_are_bounded:
  assumes "board_clock B clk"
  shows "(\<forall>n \<ge> 2001. run_state (wait_serial B started n) s = run_state (wait_serial B started 2001) s)
    \<and> (\<forall>n \<ge> 20001. run_state (wait_connected B started n) s = run_state (wait_connected B started 20001) s)
    \<and> (\<forall>n \<ge> 1001. run_state (wifi_pause B started n) s = run_state (wifi_pause B started 1001) s)
    \<and> (\<forall>n \<ge> 5001. run_state (do { now \<leftarrow> ext (b_millis B); wait_response B (now + MINIS_TIMEOUT_MS) n }) s
         = run_state (do { now \<leftarrow> ext (b_millis B); wait_response B (now + MINIS_TIMEOUT_MS) 5001 }) s)"
proof -
  have resp: "run_state (wait_response B (t + MINIS_TIMEOUT_MS) n) (s\<lparr>world := w\<rparr>)
      = run_state (wait_response B (t + MINIS_TIMEOUT_MS) 5001) (s\<lparr>world := w\<rparr>)"
    if "b_millis B (world s) = (t, w)" and "5001 \<le> n" for t w n
  proof -
    have "elapses 0 slack t (clk w)"
      using board_clock.millis_law [OF assms] that(1) unfolding reads_clock_def by (metis fst_conv snd_conv)
    then show ?thesis
      using board_clock.wait_response_rounds [OF assms, of MINIS_TIMEOUT_MS t "s\<lparr>world := w\<rparr>" n] that(2)
      by (simp add: MINIS_TIMEOUT_MS_def)
  qed
  have "run_state (do { now \<leftarrow> ext (b_millis B); wait_response B (now + MINIS_TIMEOUT_MS) n }) s
      = run_state (do { now \<leftarrow> ext (b_millis B); wait_response B (now + MINIS_TIMEOUT_MS) 5001 }) s" if "5001 \<le> n" for n
  proof (cases "b_millis B (world s)")
    case (Pair t w)
    show ?thesis unfolding run_state_bind run_state_ext Pair prod.case by (rule resp [OF Pair that])
  qed
  with board_clock.wait_serial_rounds [OF assms] board_clock.wait_connected_rounds [OF assms] board_clock.wifi_pause_rounds [OF assms]
  show ?thesis by blast
qed

theorem waits_are_bounded_witness:
  "run_state (wait_serial (ref_board False) 1000 9999) ex_alerting = run_state (wait_serial (ref_board False) 1000 2001) ex_alerting"
  by (rule waits_are_bounded [OF ref_clock.board_clock_axioms, THEN conjunct1, THEN spec, THEN mp]) simp

text \<open>
  C40: When the server sends finitely many bytes, the start of the heartbeat task and every later refresh of the managed
  configuration return: there is a number of rounds from which on the result no longer depends on it. When, in addition, finitely
  many notifications come, so does every round of the task: the wait for the next heartbeat, the refresh and the delivery of an alert.
\<close>

theorem refresh_returns:
  assumes "finite_response B clk pending"
  shows "(\<exists>N x s'. \<forall>fuel \<ge> N. run_state (heartbeat_start B M fuel) s = (Some x, s'))
    \<and> (\<exists>N x s'. \<forall>fuel \<ge> N. run_state (refreshConfig B M fuel) s = (Some x, s'))
    \<and> (finite_notes B M unread \<longrightarrow> (\<exists>N x s'. \<forall>fuel \<ge> N. run_state (heartbeat_round B M fuel) s = (Some x, s')))"
  using finite_response.heartbeat_start_settles [OF assms, of M s] finite_response.refreshConfig_settles [OF assms, of M s]
    heartbeat_round_settles [OF assms, of M unread s]
  unfolding settles_def by blast

theorem refresh_returns_witness:
  "(\<exists>N x s'. \<forall>fuel \<ge> N. run_state (heartbeat_start (ref_board False) ref_os fuel) ex_alerting = (Some x, s'))
   \<and> (\<exists>N x s'. \<forall>fuel \<ge> N. run_state (heartbeat_round (ref_board False) ref_os fuel) ex_alerting = (Some x, s'))"
  using refresh_returns [OF ref_clock.finite_response_axioms, of False ref_os ex_alerting "\<lambda>_. 0"] ref_notes.finite_notes_axioms [of False]
  by blast

end
