(* ===== verification/Config_Report.thy ===== *)
theory Config_Report
  imports Logger Circular_Ring
begin

text \<open>
  \<open>SSHConfiguration::printConfiguration\<close> (\<open>ssh_config.cpp\<close>), the report of the whole configuration into the log, with the
  texts that its formats make of the settings. The report is printed under the configuration mutex.

  The property is that the log discloses no credential: an observer of everything the program sends to its
  environment cannot tell two configurations apart whose password and keys differ, except by the lengths of the
  keys. It is proved with a small calculus for operations that commute with a change of the secrets.
\<close>

definition fmt_d :: "int \<Rightarrow> string" where
  "fmt_d n = (if n < 0 then CHR ''-'' # decimal (nat (- n)) else decimal (nat n))"

definition on_off :: "string \<Rightarrow> string \<Rightarrow> bool \<Rightarrow> string" where
  "on_off yes no b = (if b then yes else no)"

abbreviation log_i :: "'w console \<Rightarrow> string \<Rightarrow> ('w, 'z, unit) log_op" where
  "log_i C message \<equiv> logger_log C LOG_INFO ''CONFIG'' message"

abbreviation logf_i :: "'w console \<Rightarrow> string \<Rightarrow> ('w, 'z, unit) log_op" where
  "logf_i C formatted \<equiv> logger_logf C LOG_INFO ''CONFIG'' formatted"

definition print_server :: "'w console \<Rightarrow> ('w, 'z, unit) log_op" where
  "print_server C = do {
     log_i C ''=== SSH Configuration ==='';
     c \<leftarrow> gets sshConfig;
     logf_i C (''SSH Server: '' @ c_str (sc_host c) @ '':'' @ fmt_d (sc_port c));
     logf_i C (''SSH User: '' @ c_str (sc_username c));
     logf_i C (''SSH Auth: '' @ on_off ''Key'' ''Password'' (useSSHKey c));
     whenM (useSSHKey c)
       (logf_i C (''SSH Keys: In memory (private: '' @ decimal (length (privateKeyData c)) @ '' bytes, public: ''
          @ decimal (length (publicKeyData c)) @ '' bytes)'')) }"

definition print_mapping :: "'w console \<Rightarrow> nat \<times> tunnel_config \<Rightarrow> ('w, 'z, unit) log_op" where
  "print_mapping C = (\<lambda>(i, mapping). do {
     logf_i C (''#'' @ decimal i @ '' Remote Bind: '' @ c_str (remoteBindHost mapping) @ '':'' @ fmt_d (remoteBindPort mapping));
     logf_i C (''#'' @ decimal i @ '' Local Target: '' @ c_str (localHost mapping) @ '':'' @ fmt_d (localPort mapping)) })"

definition print_mappings :: "'w console \<Rightarrow> ('w, 'z, unit) log_op" where
  "print_mappings C = do {
     log_i C ''=== Tunnel Configuration ==='';
     ms \<leftarrow> gets tunnelMappings;
     if ms = [] then logger_log C LOG_WARN ''CONFIG'' ''No tunnel mappings configured''
     else for_each (print_mapping C) (enumerate 0 ms) }"

definition print_connection :: "'w console \<Rightarrow> ('w, 'z, unit) log_op" where
  "print_connection C = do {
     log_i C ''=== Connection Configuration ==='';
     c \<leftarrow> gets connectionConfig;
     logf_i C (''Keep-alive: '' @ fmt_d (keepAliveIntervalSec c) @ ''s'');
     logf_i C (''libssh2 keep-alive: '' @ on_off ''enabled'' ''disabled'' (libssh2KeepAliveEnabled c) @ '' (''
       @ fmt_d (libssh2KeepAliveIntervalSec c) @ ''s)'');
     logf_i C (''Reconnect delay: '' @ fmt_d (reconnectDelayMs c) @ ''ms'');
     logf_i C (''Max reconnect attempts: '' @ fmt_d (maxReconnectAttempts c));
     logf_i C (''Connection timeout: '' @ fmt_d (connectionTimeoutSec c) @ ''s'');
     logf_i C (''Buffer size: '' @ fmt_d (bufferSize c) @ '' bytes'');
     logf_i C (''Max channels: '' @ fmt_d (maxChannels c));
     logf_i C (''Tunnel ring buffer: '' @ decimal (tunnelRingBufferSize c) @ '' bytes'');
     logf_i C (''Max reverse listeners: '' @ fmt_d (maxReverseListeners c)) }"

definition print_debug :: "'w console \<Rightarrow> ('w, 'z, unit) log_op" where
  "print_debug C = do {
     log_i C ''=== Debug Configuration ==='';
     c \<leftarrow> gets debugConfig;
     logf_i C (''Debug enabled: '' @ on_off ''true'' ''false'' (debugEnabled c));
     logf_i C (''Serial baud rate: '' @ fmt_d (serialBaudRate c));
     logf_i C (''Log level threshold: '' @ decimal (level_value (minLogLevel c))) }"

definition printConfiguration :: "('w, 'r) platform \<Rightarrow> 'w console \<Rightarrow> ('w, 'z, unit) log_op" where
  "printConfiguration P C = do {
     locked \<leftarrow> lockConfig P;
     whenM locked (do {
       print_server C;
       print_mappings C;
       print_connection C;
       print_debug C;
       unlockConfig P }) }"

section \<open>Secrets\<close>

definition with_secrets :: "string \<Rightarrow> string \<Rightarrow> string \<Rightarrow> ('w, 'z) config_state_scheme \<Rightarrow> ('w, 'z) config_state_scheme" where
  "with_secrets pw priv pub s = s\<lparr>sshConfig := (sshConfig s)\<lparr>sc_password := pw, privateKeyData := priv, publicKeyData := pub\<rparr>\<rparr>"

text \<open>The operation does the same on the changed state, and the change stays.\<close>

definition blind :: "('s \<Rightarrow> 's) \<Rightarrow> ('s \<Rightarrow> bool) \<Rightarrow> ('s, 'a) state \<Rightarrow> bool" where
  "blind h I m \<longleftrightarrow> (\<forall>s. I s \<longrightarrow> (case run_state m s of (a, s') \<Rightarrow> run_state m (h s) = (a, h s') \<and> I s'))"

named_theorems blind_intros

lemma blind_ret [blind_intros]: "blind h I (ret a)"
  by (simp add: blind_def)

lemma blindD: "blind h I m \<Longrightarrow> I s \<Longrightarrow> run_state m s = (a, s') \<Longrightarrow> run_state m (h s) = (a, h s') \<and> I s'"
  by (fastforce simp: blind_def)

lemma blind_bind [blind_intros]:
  assumes "blind h I m" and "\<And>a. blind h I (f a)"
  shows "blind h I (State_Monad.bind m f)"
  unfolding blind_def
proof (intro allI impI)
  fix s
  assume s: "I s"
  obtain a s1 where 1: "run_state m s = (a, s1)" by force
  obtain b s2 where 2: "run_state (f a) s1 = (b, s2)" by force
  show "case run_state (State_Monad.bind m f) s of (a, s') \<Rightarrow> run_state (State_Monad.bind m f) (h s) = (a, h s') \<and> I s'"
    using blindD [OF assms(1) s 1] blindD [OF assms(2) _ 2] 1 2 by simp
qed

lemma blind_gets: "(\<And>s. I s \<Longrightarrow> g (h s) = g s) \<Longrightarrow> blind h I (gets g)"
  by (simp add: blind_def)

lemma blind_if [blind_intros]: "(b \<Longrightarrow> blind h I m) \<Longrightarrow> (\<not> b \<Longrightarrow> blind h I n) \<Longrightarrow> blind h I (if b then m else n)"
  by simp

lemma blind_whenM [blind_intros]: "(b \<Longrightarrow> blind h I m) \<Longrightarrow> blind h I (whenM b m)"
  by (simp add: whenM_def blind_ret)

lemma blind_let [blind_intros]: "(\<And>x. blind h I (f x)) \<Longrightarrow> blind h I (let x = e in f x)"
  by simp

lemma blind_option [blind_intros]: "blind h I m \<Longrightarrow> (\<And>y. blind h I (f y)) \<Longrightarrow> blind h I (case x of None \<Rightarrow> m | Some y \<Rightarrow> f y)"
  by (simp split: option.split)

lemma blind_for_each [blind_intros]: "(\<And>x. blind h I (f x)) \<Longrightarrow> blind h I (for_each f xs)"
  by (induction xs) (simp_all add: blind_ret blind_bind)

lemma blind_gets_bind:
  "(\<And>s. I s \<Longrightarrow> f (g (h s)) = f (g s)) \<Longrightarrow> (\<And>c. blind h I (f c)) \<Longrightarrow> blind h I (State_Monad.bind (gets g) f)"
  by (simp add: blind_def)

definition same_lengths :: "string \<Rightarrow> string \<Rightarrow> ('w, 'z) config_state_scheme \<Rightarrow> bool" where
  "same_lengths priv pub s \<longleftrightarrow>
     length (privateKeyData (sshConfig s)) = length priv \<and> length (publicKeyData (sshConfig s)) = length pub"

abbreviation hides :: "string \<Rightarrow> string \<Rightarrow> string \<Rightarrow> (('w, 'z) config_state_scheme, 'a) state \<Rightarrow> bool" where
  "hides pw priv pub \<equiv> blind (with_secrets pw priv pub) (same_lengths priv pub)"

lemma hides_ext [blind_intros]: "hides pw priv pub (ext f)"
  by (auto simp: blind_def with_secrets_def same_lengths_def split: prod.splits)

lemma hides_flag [blind_intros]: "hides pw priv pub (modify (\<lambda>s. s\<lparr>ts_configured := b\<rparr>))"
  by (simp add: blind_def with_secrets_def same_lengths_def)

lemma hides_fields [blind_intros]:
  "hides pw priv pub (gets ts_configured)" "hides pw priv pub (gets debugConfig)" "hides pw priv pub (gets connectionConfig)"
  "hides pw priv pub (gets tunnelMappings)" "hides pw priv pub (gets configMutex)"
  by (rule blind_gets, simp add: with_secrets_def)+

lemma hides_log [blind_intros]:
  "hides pw priv pub (logger_log C level tg message)" "hides pw priv pub (logger_logf C level tg formatted)"
  unfolding logger_logf_def logger_log_def buildLogPrefix_def ensureTimeSyncConfigured_def uptime_prefix_def
  by (intro blind_intros)+

lemma hides_server: "hides pw priv pub (print_server C)"
  unfolding print_server_def
  by (intro blind_bind [OF hides_log(1)] blind_gets_bind blind_intros) (simp add: with_secrets_def same_lengths_def)

lemma hides_report: "hides pw priv pub (printConfiguration P C)"
  unfolding printConfiguration_def lockConfig_def unlockConfig_def print_mappings_def print_mapping_def print_connection_def
    print_debug_def split_beta
  by (intro blind_intros hides_server)

text \<open>A console on the reference world, which keeps what is printed under socket number -1, and a configuration with keys.\<close>

definition ref_console :: "ref_world console" where
  "ref_console = \<lparr>con_diag_only = False, con_millis = (\<lambda>w. (rw_clock w, w)), con_delay = (\<lambda>d w. ((), w\<lparr>rw_clock := rw_clock w + d\<rparr>)),
     con_wifi_connected = (\<lambda>w. (False, w)), con_configTzTime = (\<lambda>_ _ _ w. ((), w)), con_time = (\<lambda>w. (0, w)),
     con_localtime_r = (\<lambda>_ w. (\<lparr>tm_sec = 0, tm_min = 0, tm_hour = 0, tm_mday = 1, tm_mon = 0, tm_year = 70\<rparr>, w)),
     con_serial_begin = (\<lambda>_ w. ((), w)), con_serial_ready = (\<lambda>w. (True, w)),
     con_print = (\<lambda>line w. ((), w\<lparr>rw_sock_out := (rw_sock_out w)(-1 := rw_sock_out w (-1) @ map of_char line)\<rparr>))\<rparr>"

definition ex_report :: "ref_world logger_state" where
  "ex_report = \<lparr>world = rw_init, configMutex = True,
     sshConfig = ssh_server_default\<lparr>sc_host := ''host'', useSSHKey := True, privateKeyData := ''secret'', publicKeyData := ''open''\<rparr>,
     tunnelMappings = [tunnel_default], connectionConfig = connection_default, debugConfig = debug_default, ts_configured = False\<rparr>"

text \<open>
  C38: What \<open>printConfiguration\<close> sends to the serial port, and all its other effects on the environment, do not depend on
  the password and on the contents of the keys, only on the keys' lengths.
\<close>

theorem report_hides_credentials:
  assumes "length priv = length (privateKeyData (sshConfig s))" and "length pub = length (publicKeyData (sshConfig s))"
  shows "world (snd (run_state (printConfiguration P C) (with_secrets pw priv pub s)))
       = world (snd (run_state (printConfiguration P C) s))"
proof -
  obtain a s' where "run_state (printConfiguration P C) s = (a, s')" by (metis surj_pair)
  with blindD [OF hides_report _ this, of priv pub pw] assms show ?thesis
    by (simp add: same_lengths_def) (simp add: with_secrets_def)
qed

theorem report_hides_credentials_witness:
  "world (snd (run_state (printConfiguration ref_platform ref_console) (with_secrets ''pw'' ''hidden'' ''kept'' ex_report)))
     = world (snd (run_state (printConfiguration ref_platform ref_console) ex_report))"
  by (rule report_hides_credentials) (simp_all add: ex_report_def)

end
