(* ===== verification/Pump_Instrument.thy ===== *)
theory Pump_Instrument
  imports Ssh_Transport Http_Diag Logger "HOL-Library.Sublist"
begin

text \<open>
  The instrumentation of the pump (\<open>ssh_transport.h\<close>, \<open>ssh_transport.cpp\<close>, builds with \<open>TUNNEL_INSTRUMENT\<close>): the counters, the
  wrappers around the two libssh2 calls of the data path, and the line that reports them. \<open>esp_timer_get_time\<close> is a parameter,
  the timer \<open>T\<close>. \<open>report_fits\<close> shows that the report never leaves its buffer and is a prefix of the complete text,
  with the returned length. The calls of the wrappers and the timers of the phases are in theory \<open>Pump_Builds\<close>.
\<close>

record instr_channel =
  read_us :: u64
  read_calls :: u32
  read_eagain :: u32
  read_zero :: u32
  read_bytes :: u64
  write_us :: u64
  write_calls :: u32
  write_eagain :: u32
  write_bytes :: u64

record instr_session =
  lock_wait_us :: u64
  lock_calls :: u32
  lock_failed :: u32
  phase1_us :: u64
  phase1_cycles :: u32
  phase3_us :: u64
  phase3_cycles :: u32

definition instr_channel_zero :: instr_channel where
  "instr_channel_zero = \<lparr>read_us = 0, read_calls = 0, read_eagain = 0, read_zero = 0, read_bytes = 0,
     write_us = 0, write_calls = 0, write_eagain = 0, write_bytes = 0\<rparr>"

definition instr_session_zero :: instr_session where
  "instr_session_zero = \<lparr>lock_wait_us = 0, lock_calls = 0, lock_failed = 0, phase1_us = 0, phase1_cycles = 0,
     phase3_us = 0, phase3_cycles = 0\<rparr>"

definition INSTR_MAX_CHANNELS :: nat where
  "INSTR_MAX_CHANNELS = 8"

text \<open>
  The members that the build switches add: the counters of the pump and, per slot, the diagnostics of theory \<open>Http_Diag\<close>.
\<close>

record ('w, 'r) build_state = "('w, 'r) pump_state" +
  instrCh :: "instr_channel list"
  instrSess :: instr_session
  chDiag :: "http_diag list"

type_synonym ('w, 'r, 'z, 'a) build_op = "(('w, 'r, 'z) build_state_scheme, 'a) state"

definition instr_slot :: "int \<Rightarrow> (instr_channel \<Rightarrow> instr_channel) \<Rightarrow> ('w, 'r, 'z, unit) build_op" where
  "instr_slot i f = whenM (0 \<le> i \<and> i < int INSTR_MAX_CHANNELS)
     (modify (\<lambda>s. s\<lparr>instrCh := (instrCh s)[nat i := f (instrCh s ! nat i)]\<rparr>))"

definition count_read :: "u64 \<Rightarrow> int \<Rightarrow> instr_channel \<Rightarrow> instr_channel" where
  "count_read dt rc ic =
     (let ic = ic\<lparr>read_us := read_us ic + dt, read_calls := read_calls ic + 1\<rparr> in
      if rc = LIBSSH2_ERROR_EAGAIN then ic\<lparr>read_eagain := read_eagain ic + 1\<rparr>
      else if rc = 0 then ic\<lparr>read_zero := read_zero ic + 1\<rparr>
      else if rc > 0 then ic\<lparr>read_bytes := read_bytes ic + of_int rc\<rparr>
      else ic)"

definition count_write :: "u64 \<Rightarrow> int \<Rightarrow> instr_channel \<Rightarrow> instr_channel" where
  "count_write dt rc ic =
     (let ic = ic\<lparr>write_us := write_us ic + dt, write_calls := write_calls ic + 1\<rparr> in
      if rc = LIBSSH2_ERROR_EAGAIN then ic\<lparr>write_eagain := write_eagain ic + 1\<rparr>
      else if rc > 0 then ic\<lparr>write_bytes := write_bytes ic + of_int rc\<rparr>
      else ic)"

definition instrRead :: "('w \<Rightarrow> u64 \<times> 'w) \<Rightarrow> ('w, 'r) platform \<Rightarrow> int \<Rightarrow> ssh_channel \<Rightarrow> nat \<Rightarrow> ('w, 'r, 'z, int \<times> bytes) build_op" where
  "instrRead T P slotIdx ch sz = do {
     t0 \<leftarrow> ext T;
     r \<leftarrow> ext (libssh2_channel_read P ch sz);
     t1 \<leftarrow> ext T;
     instr_slot slotIdx (count_read (t1 - t0) (fst r));
     ret r }"

definition instrWrite :: "('w \<Rightarrow> u64 \<times> 'w) \<Rightarrow> ('w, 'r) platform \<Rightarrow> int \<Rightarrow> ssh_channel \<Rightarrow> bytes \<Rightarrow> ('w, 'r, 'z, int) build_op" where
  "instrWrite T P slotIdx ch data = do {
     t0 \<leftarrow> ext T;
     rc \<leftarrow> ext (libssh2_channel_write P ch data);
     t1 \<leftarrow> ext T;
     instr_slot slotIdx (count_write (t1 - t0) rc);
     ret rc }"

section \<open>The report\<close>

abbreviation fmt_n :: "'a::len word \<Rightarrow> string" where
  "fmt_n n \<equiv> decimal (unat n)"

definition session_text :: "instr_session \<Rightarrow> string" where
  "session_text i = ''lock_us='' @ fmt_n (lock_wait_us i) @ '' lock_n='' @ fmt_n (lock_calls i) @ '' lock_fail='' @ fmt_n (lock_failed i)
     @ '' p1_us='' @ fmt_n (phase1_us i) @ '' p1_n='' @ fmt_n (phase1_cycles i) @ '' p3_us='' @ fmt_n (phase3_us i)
     @ '' p3_n='' @ fmt_n (phase3_cycles i)"

definition channel_text :: "nat \<Rightarrow> instr_channel \<Rightarrow> string" where
  "channel_text i ic = (let ch = '' ch'' @ decimal i in
     ch @ ''_r_us='' @ fmt_n (read_us ic) @ ch @ ''_r_n='' @ fmt_n (read_calls ic) @ ch @ ''_r_eag='' @ fmt_n (read_eagain ic)
     @ ch @ ''_r_zero='' @ fmt_n (read_zero ic) @ ch @ ''_r_b='' @ fmt_n (read_bytes ic) @ ch @ ''_w_us='' @ fmt_n (write_us ic)
     @ ch @ ''_w_n='' @ fmt_n (write_calls ic) @ ch @ ''_w_eag='' @ fmt_n (write_eagain ic) @ ch @ ''_w_b='' @ fmt_n (write_bytes ic))"

definition silent_slot :: "instr_channel \<Rightarrow> bool" where
  "silent_slot ic \<longleftrightarrow> read_calls ic = 0 \<and> write_calls ic = 0"

text \<open>The loop over the channels; the state is what the buffer holds and the offset, which counts what did not fit too.\<close>

fun format_channels :: "nat \<Rightarrow> (nat \<times> instr_channel) list \<Rightarrow> string \<times> nat \<Rightarrow> string \<times> nat" where
  "format_channels outSize [] r = r"
| "format_channels outSize ((i, ic) # ics) (out, off) =
     (if \<not> off < sz_sub outSize 1 then (out, off)
      else if silent_slot ic then format_channels outSize ics (out, off)
      else (let (txt, n) = snprintf (sz_sub outSize off) (channel_text i ic)
            in format_channels outSize ics (out @ txt, off + n)))"

definition formatInstrumentation :: "instr_session \<Rightarrow> instr_channel list \<Rightarrow> nat \<Rightarrow> string \<times> nat" where
  "formatInstrumentation sess chs outSize =
     (let (txt, n) = snprintf outSize (session_text sess) in
      if n \<ge> outSize then (txt, sz_sub outSize 1)
      else (let (out, off) = format_channels outSize (enumerate 0 (take INSTR_MAX_CHANNELS chs)) (txt, n);
                off = (if off \<ge> outSize then sz_sub outSize 1 else off)
            in (take off out, off)))"

section \<open>Theorems\<close>

definition instr_fits :: "nat \<Rightarrow> string \<Rightarrow> string \<times> nat \<Rightarrow> bool" where
  "instr_fits outSize full r \<longleftrightarrow> fst r = take (outSize - 1) (take (snd r) full) \<and> snd r \<le> length full"

definition full_text :: "(nat \<times> instr_channel) list \<Rightarrow> string" where
  "full_text ics = concat (map (\<lambda>(i, ic). if silent_slot ic then [] else channel_text i ic) ics)"

lemma format_channels_fits:
  assumes "0 < outSize" and "outSize < 2 ^ 32"
  shows "instr_fits outSize pre (out, length pre) \<Longrightarrow> instr_fits outSize (pre @ full_text ics) (format_channels outSize ics (out, length pre))"
proof (induction ics arbitrary: pre out)
  case (Cons x ics)
  obtain i ic where x: "x = (i, ic)" by force
  have sub: "sz_sub outSize (Suc 0) = outSize - Suc 0" by (rule sz_sub_exact) (use assms in auto)
  show ?case
  proof (cases "length pre < outSize - 1 \<and> \<not> silent_slot ic")
    case True
    have "sz_sub outSize (length pre) = outSize - length pre" by (rule sz_sub_exact) (use True assms in auto)
    moreover have "instr_fits outSize (pre @ channel_text i ic)
        (out @ take (outSize - length pre - 1) (channel_text i ic), length (pre @ channel_text i ic))"
      using Cons.prems True by (auto simp: instr_fits_def)
    from Cons.IH [OF this] have "instr_fits outSize (pre @ channel_text i ic @ full_text ics)
        (format_channels outSize ics (out @ take (outSize - length pre - 1) (channel_text i ic), length pre + length (channel_text i ic)))"
      by simp
    ultimately show ?thesis using True by (simp add: x sub snprintf_def full_text_def)
  next
    case False
    show ?thesis
    proof (cases "length pre < outSize - 1")
      case True
      then show ?thesis using False Cons.IH [OF Cons.prems] by (simp add: x sub full_text_def)
    next
      case False
      then show ?thesis using Cons.prems by (simp add: x sub instr_fits_def)
    qed
  qed
qed (simp add: full_text_def)

text \<open>
  The report never leaves its buffer: it has the returned length, which leaves room for the final zero, and is a prefix of the
  complete text.
\<close>

lemma report_fits:
  assumes "0 < outSize" and "outSize < 2 ^ 32" and "formatInstrumentation sess chs outSize = (out, n)"
  shows "length out = n \<and> n < outSize \<and> prefix out (session_text sess @ full_text (enumerate 0 (take INSTR_MAX_CHANNELS chs)))"
proof -
  have sub: "sz_sub outSize (Suc 0) = outSize - Suc 0" by (rule sz_sub_exact) (use assms in auto)
  let ?ics = "enumerate 0 (take INSTR_MAX_CHANNELS chs)"
  let ?full = "session_text sess @ full_text ?ics"
  show ?thesis
  proof (cases "length (session_text sess) \<ge> outSize")
    case True
    then have "out = take (outSize - Suc 0) (session_text sess)" "n = outSize - Suc 0"
      using assms(3) by (auto simp: formatInstrumentation_def snprintf_def sub)
    then show ?thesis using True assms(1) by (auto simp: take_is_prefix)
  next
    case False
    obtain o' k where r: "format_channels outSize ?ics (take (outSize - Suc 0) (session_text sess), length (session_text sess)) = (o', k)"
      by force
    have "instr_fits outSize (session_text sess) (take (outSize - Suc 0) (session_text sess), length (session_text sess))"
      by (simp add: instr_fits_def)
    from format_channels_fits [OF assms(1,2) this, of ?ics] r
    have f: "o' = take (outSize - Suc 0) (take k ?full)" "k \<le> length ?full" by (simp_all add: instr_fits_def)
    have n: "n = min (outSize - Suc 0) k" and o: "out = take n o'"
      using assms(1,3) False r by (auto simp: formatInstrumentation_def snprintf_def sub Let_def split: if_splits)
    have "out = take n ?full" unfolding o f(1) n take_take by (simp only: min.assoc min.idem min.left_idem)
    moreover have "n \<le> length ?full" "n < outSize" using n f(2) assms(1) by auto
    ultimately show ?thesis by (simp only: take_is_prefix length_take min.absorb2 simp_thms)
  qed
qed

end
