(* ===== verification/Pump_Builds.thy ===== *)
theory Pump_Builds
  imports Pump_Instrument
begin

text \<open>
  The pump with its build switches (\<open>ssh_transport.cpp\<close>, \<open>ssh_channel.cpp\<close>): every \<open>#ifdef TUNNEL_INSTRUMENT\<close> and
  \<open>#ifdef TUNNEL_DIAG_LOG_ONLY\<close> of the four phases, of \<open>resetSlot\<close> and of \<open>bindChannel\<close> is a test of a member of the record \<open>build\<close>,
  so that the definitions below (suffix \<open>_b\<close>) describe the four builds at once. Operations that no switch reaches are those of
  \<open>Ssh_Transport\<close> and \<open>Ssh_Channel\<close>. The members the switches add are those of \<open>build_state\<close>; a plain build has a
  \<open>pump_state\<close>, which \<open>pump_state.truncate\<close> makes of it. As everywhere, log lines are not modelled.

  A second part shows that the switches change nothing but what they add: each operation of a build, seen through the
  truncation, is the operation of the plain build, provided that reading a clock has no effect.
\<close>

record build =
  TUNNEL_INSTRUMENT :: bool
  TUNNEL_DIAG_LOG_ONLY :: bool

type_synonym 'w timer = "'w \<Rightarrow> u64 \<times> 'w"

section \<open>The diagnostics of a slot\<close>

definition diag_of :: "int \<Rightarrow> ('w, 'r, 'z) build_state_scheme \<Rightarrow> http_diag" where
  "diag_of i s = chDiag s ! nat i"

definition set_diag :: "int \<Rightarrow> http_diag \<Rightarrow> ('w, 'r, 'z, unit) build_op" where
  "set_diag i d = modify (\<lambda>s. s\<lparr>chDiag := (chDiag s)[nat i := d]\<rparr>)"

text \<open>The clock, where the source reads it.\<close>

definition millis_if :: "bool \<Rightarrow> ('w, 'r) platform \<Rightarrow> ('w, 'r, 'z, u32) build_op" where
  "millis_if b P = (if b then millis P else ret 0)"

definition chars_of :: "bytes \<Rightarrow> string" where
  "chars_of bs = map (\<lambda>b. char_of (unat b)) bs"

definition request_completes :: "string \<Rightarrow> http_diag \<Rightarrow> bool" where
  "request_completes data d \<longleftrightarrow> \<not> diagRequestParsed d \<and> data \<noteq> [] \<and> head_of (diagRequestBuffer (observeSshToLocal 0 data d)) \<noteq> None"

definition observe_received :: "('w, 'r) platform \<Rightarrow> int \<Rightarrow> bytes \<Rightarrow> int \<Rightarrow> ('w, 'r, 'z, unit) build_op" where
  "observe_received P i bs rc = do {
     let data = chars_of (take (nat rc) bs);
     d \<leftarrow> gets (diag_of i);
     now \<leftarrow> millis_if (request_completes data d) P;
     set_diag i (observeSshToLocal now data d) }"

definition observe_local_write :: "('w, 'r) platform \<Rightarrow> int \<Rightarrow> int \<Rightarrow> ('w, 'r, 'z, unit) build_op" where
  "observe_local_write P i sent = do {
     d \<leftarrow> gets (diag_of i);
     now \<leftarrow> millis_if (\<not> diagLocalWriteLogged d \<and> sent > 0) P;
     set_diag i (logLocalWriteOnce now sent d) }"

definition observe_response :: "int \<Rightarrow> bytes \<Rightarrow> int \<Rightarrow> ('w, 'r, 'z, unit) build_op" where
  "observe_response i bs recvd = do {
     d \<leftarrow> gets (diag_of i);
     set_diag i (snd (logLocalResponseOnce (chars_of (take (nat recvd) bs)) d)) }"

definition observe_stalls :: "('w, 'r) platform \<Rightarrow> ('w, 'r, 'z, unit) build_op" where
  "observe_stalls P = do {
     now \<leftarrow> millis P;
     modify (\<lambda>s. s\<lparr>chDiag := map snd (logChannelsWithoutRequest now (zip (map active (the (slots s))) (chDiag s)))\<rparr>) }"

section \<open>The channel manager\<close>

definition resetSlot_b :: "build \<Rightarrow> int \<Rightarrow> ('w, 'r, 'z, unit) build_op" where
  "resetSlot_b B index = do {
     n \<leftarrow> gets maxSlots;
     if index < 0 \<or> index \<ge> n then ret ()
     else do {
       modify_slot index reset_slot;
       whenM (TUNNEL_DIAG_LOG_ONLY B) (set_diag index diag_reset) } }"

definition abandonSlot_b :: "build \<Rightarrow> ('w, 'r) platform \<Rightarrow> int \<Rightarrow> close_reason \<Rightarrow> ('w, 'r, 'z, unit) build_op" where
  "abandonSlot_b B P slotIndex reason = do {
     n \<leftarrow> gets maxSlots;
     if slotIndex < 0 \<or> slotIndex \<ge> n then ret ()
     else do {
       slot \<leftarrow> gets (getSlot slotIndex);
       if \<not> active slot then ret ()
       else do {
         count_buffered_dropped P slotIndex;
         close_local P slotIndex;
         free_rings P slotIndex;
         modify_slot slotIndex (\<lambda>sl. sl\<lparr>sshChannel := NULL\<rparr>);
         archiveSlotStats slotIndex;
         modify (\<lambda>s. if activeCount s > 0 then s\<lparr>activeCount := activeCount s - 1\<rparr> else s);
         resetSlot_b B slotIndex } } }"

definition bindChannel_b ::
  "build \<Rightarrow> ('w, 'r) platform \<Rightarrow> int \<Rightarrow> ssh_channel \<Rightarrow> tunnel_config \<Rightarrow> ('w, 'r, 'z, bool) build_op" where
  "bindChannel_b B P slotIndex ch mapping = do {
     n \<leftarrow> gets maxSlots;
     if slotIndex < 0 \<or> slotIndex \<ge> n then ret False
     else do {
       slot \<leftarrow> gets (getSlot slotIndex);
       if active slot then ret False
       else do {
         fd \<leftarrow> connectToLocalEndpoint P mapping;
         if fd < 0 then do {
           now \<leftarrow> millis P;
           modify (\<lambda>s. s\<lparr>breaker := snd (recordFailure (remoteBindPort mapping) now (breaker s))\<rparr>);
           ret False }
         else do {
           modify (\<lambda>s. s\<lparr>breaker := recordSuccess (remoteBindPort mapping) (breaker s)\<rparr>);
           ringSize \<leftarrow> gets ringBufferSize;
           room \<leftarrow> heap_guard P ringSize;
           if \<not> room then do { ext (p_close P fd); ret False }
           else do {
             tl \<leftarrow> drb_new P ringSize (ring_tag slotIndex ''_toLocal'');
             tr \<leftarrow> drb_new P ringSize (ring_tag slotIndex ''_toRemote'');
             if drb_capacityBytes tl = 0 \<or> drb_capacityBytes tr = 0 then do {
               drb_delete P tl;
               drb_delete P tr;
               ext (p_close P fd);
               ret False }
             else do {
               resetSlot_b B slotIndex;
               now \<leftarrow> millis P;
               modify_slot slotIndex (\<lambda>sl. sl\<lparr>sshChannel := ch, localSocket := fd, active := True,
                 chstate := Open, toLocal := Some tl, toRemote := Some tr, lastActivity := now,
                 lastSuccessfulWrite := now, lastSuccessfulRead := now,
                 endpoint := snapshot_endpoint mapping\<rparr>);
               ext (libssh2_channel_set_blocking P ch False);
               modify (\<lambda>s. s\<lparr>activeCount := activeCount s + 1\<rparr>);
               whenM (TUNNEL_DIAG_LOG_ONLY B) (do {
                 slot \<leftarrow> gets (getSlot slotIndex);
                 d \<leftarrow> gets (diag_of slotIndex);
                 set_diag slotIndex (d\<lparr>diagBoundMs := lastActivity slot\<rparr>) });
               ret True } } } } } }"

section \<open>Phase 1\<close>

definition channel_read_b ::
  "build \<Rightarrow> 'w timer \<Rightarrow> ('w, 'r) platform \<Rightarrow> int \<Rightarrow> ssh_channel \<Rightarrow> nat \<Rightarrow> ('w, 'r, 'z, int \<times> bytes) build_op" where
  "channel_read_b B T P i ch sz =
     (if TUNNEL_INSTRUMENT B then instrRead T P i ch sz else ext (libssh2_channel_read P ch sz))"

definition store_received_b :: "build \<Rightarrow> ('w, 'r) platform \<Rightarrow> int \<Rightarrow> bytes \<Rightarrow> int \<Rightarrow> ('w, 'r, 'z, unit) build_op" where
  "store_received_b B P i bs rc = do {
     whenM (TUNNEL_DIAG_LOG_ONLY B) (observe_received P i bs rc);
     store_received P i bs rc }"

definition pump_paused_b :: "build \<Rightarrow> 'w timer \<Rightarrow> ('w, 'r) platform \<Rightarrow> int \<Rightarrow> ('w, 'r, 'z, bool) build_op" where
  "pump_paused_b B T P i = do {
     slot \<leftarrow> gets (getSlot i);
     let avail = ring_available P (toLocal slot);
     if toLocal slot \<noteq> None \<and> avail > 0 then do {
       let pumpSize = (if avail < 64 then avail else 64);
       (rc, bs) \<leftarrow> channel_read_b B T P i (sshChannel slot) pumpSize;
       (if rc > 0 then store_received_b B P i bs rc
        else if rc = 0 then modify_slot i (\<lambda>sl. sl\<lparr>remoteEof := True\<rparr>)
        else if rc \<noteq> LIBSSH2_ERROR_EAGAIN then channel_error P i
        else ret ());
       ret True }
     else ret False }"

fun read_chunks_b :: "build \<Rightarrow> 'w timer \<Rightarrow> ('w, 'r) platform \<Rightarrow> int \<Rightarrow> nat \<Rightarrow> bool \<Rightarrow> ('w, 'r, 'z, bool) build_op" where
  "read_chunks_b B T P i 0 anyRead = ret anyRead"
| "read_chunks_b B T P i (Suc n) anyRead = do {
     slot \<leftarrow> gets (getSlot i);
     let freeSpace = ring_available P (toLocal slot);
     if freeSpace = 0 then do {
       modify_slot i (\<lambda>sl. sl\<lparr>sshReadPaused := True\<rparr>);
       ret anyRead }
     else do {
       bsz \<leftarrow> gets bufSize;
       let readSize = (if freeSpace < bsz then freeSpace else bsz);
       (rc, bs) \<leftarrow> channel_read_b B T P i (sshChannel slot) readSize;
       if rc > 0 then do {
         store_received_b B P i bs rc;
         slot \<leftarrow> gets (getSlot i);
         if ring_size P (toLocal slot) > pct_of (ring_capacity (toLocal slot)) BACKPRESSURE_HIGH_PCT
         then do { modify_slot i (\<lambda>sl. sl\<lparr>sshReadPaused := True\<rparr>); ret True }
         else read_chunks_b B T P i n True }
       else if rc = LIBSSH2_ERROR_EAGAIN then ret True
       else if rc = 0 then do { modify_slot i (\<lambda>sl. sl\<lparr>remoteEof := True\<rparr>); ret True }
       else do { channel_error P i; ret True } } }"

definition read_open_channel_b :: "build \<Rightarrow> 'w timer \<Rightarrow> ('w, 'r) platform \<Rightarrow> int \<Rightarrow> ('w, 'r, 'z, bool) build_op" where
  "read_open_channel_b B T P i = do {
     slot \<leftarrow> gets (getSlot i);
     if toLocal slot = None then ret False
     else do {
       anyRead \<leftarrow> read_chunks_b B T P i 4 False;
       check_eof_flag P i;
       ret anyRead } }"

definition pump_channel_b :: "build \<Rightarrow> 'w timer \<Rightarrow> ('w, 'r) platform \<Rightarrow> int \<Rightarrow> ('w, 'r, 'z, bool) build_op" where
  "pump_channel_b B T P i = do {
     slot \<leftarrow> gets (getSlot i);
     if \<not> active slot \<or> sshChannel slot = NULL then ret False
     else if remoteEof slot then do {
       channel_read_b B T P i (sshChannel slot) 64;
       ret True }
     else if sshReadPaused slot then
       (if toLocal slot \<noteq> None
           \<and> ring_size P (toLocal slot) < pct_of (ring_capacity (toLocal slot)) BACKPRESSURE_LOW_PCT
        then do {
          modify_slot i (\<lambda>sl. sl\<lparr>sshReadPaused := False\<rparr>);
          read_open_channel_b B T P i }
        else pump_paused_b B T P i)
     else read_open_channel_b B T P i }"

fun pump_channels_b :: "build \<Rightarrow> 'w timer \<Rightarrow> ('w, 'r) platform \<Rightarrow> int list \<Rightarrow> bool \<Rightarrow> ('w, 'r, 'z, bool) build_op" where
  "pump_channels_b B T P [] anyRead = ret anyRead"
| "pump_channels_b B T P (i # is) anyRead = do {
     r \<leftarrow> pump_channel_b B T P i;
     pump_channels_b B T P is (anyRead \<or> r) }"

text \<open>The timer and the session counters, in builds with instrumentation only.\<close>

definition timer_b :: "build \<Rightarrow> 'w timer \<Rightarrow> ('w, 'r, 'z, u64) build_op" where
  "timer_b B T = (if TUNNEL_INSTRUMENT B then ext T else ret 0)"

definition count_session_b ::
  "build \<Rightarrow> 'w timer \<Rightarrow> u64 \<Rightarrow> (u64 \<Rightarrow> instr_session \<Rightarrow> instr_session) \<Rightarrow> ('w, 'r, 'z, unit) build_op" where
  "count_session_b B T t0 f = whenM (TUNNEL_INSTRUMENT B) (do {
     t1 \<leftarrow> ext T;
     modify (\<lambda>s. s\<lparr>instrSess := f (t1 - t0) (instrSess s)\<rparr>) })"

definition count_lock_failed :: "u64 \<Rightarrow> instr_session \<Rightarrow> instr_session" where
  "count_lock_failed dt i = i\<lparr>lock_wait_us := lock_wait_us i + dt, lock_failed := lock_failed i + 1\<rparr>"

definition count_lock :: "u64 \<Rightarrow> instr_session \<Rightarrow> instr_session" where
  "count_lock dt i = i\<lparr>lock_wait_us := lock_wait_us i + dt, lock_calls := lock_calls i + 1\<rparr>"

definition count_phase1 :: "u64 \<Rightarrow> instr_session \<Rightarrow> instr_session" where
  "count_phase1 dt i = i\<lparr>phase1_us := phase1_us i + dt, phase1_cycles := phase1_cycles i + 1\<rparr>"

definition count_phase3 :: "u64 \<Rightarrow> instr_session \<Rightarrow> instr_session" where
  "count_phase3 dt i = i\<lparr>phase3_us := phase3_us i + dt, phase3_cycles := phase3_cycles i + 1\<rparr>"

definition pumpSshTransport_b :: "build \<Rightarrow> 'w timer \<Rightarrow> ('w, 'r) platform \<Rightarrow> ('w, 'r, 'z, unit) build_op" where
  "pumpSshTransport_b B T P = do {
     phase1_t0 \<leftarrow> timer_b B T;
     lock_t0 \<leftarrow> timer_b B T;
     locked \<leftarrow> session_lock P (pdMS_TO_TICKS 50);
     if \<not> locked then count_session_b B T lock_t0 count_lock_failed
     else do {
       count_session_b B T lock_t0 count_lock;
       order \<leftarrow> gets pump_order;
       anyRead \<leftarrow> pump_channels_b B T P order False;
       n \<leftarrow> gets maxSlots;
       whenM (\<not> anyRead) (for_break (\<lambda>i. do {
         slot \<leftarrow> gets (getSlot i);
         if active slot \<and> sshChannel slot \<noteq> NULL \<and> remoteEof slot then do {
           channel_read_b B T P i (sshChannel slot) 1;
           ret False }
         else ret True }) [0..n - 1]);
       session_unlock P;
       count_session_b B T phase1_t0 count_phase1 } }"

section \<open>Phase 2\<close>

definition drain_local_chunk_b :: "build \<Rightarrow> ('w, 'r) platform \<Rightarrow> int \<Rightarrow> ('w, 'r, 'z, bool) build_op" where
  "drain_local_chunk_b B P i = do {
     slot \<leftarrow> gets (getSlot i);
     if ring_empty P (toLocal slot) then ret False
     else do {
       bsz \<leftarrow> gets bufSize;
       let avail = ring_size P (toLocal slot);
       let toDrain = (if avail < bsz then avail else bsz);
       chunk \<leftarrow> ring_read P i ToLocal toDrain;
       let got = length chunk;
       if got = 0 then ret False
       else do {
         (sent, errno) \<leftarrow> ext (p_send P (localSocket slot) chunk);
         if sent > 0 then do {
           whenM (TUNNEL_DIAG_LOG_ONLY B) (observe_local_write P i sent);
           add_moved (nat sent);
           now \<leftarrow> millis P;
           modify_slot i (\<lambda>sl. sl\<lparr>lastActivity := now, firstLocalSendEagainMs := 0\<rparr>);
           if nat sent < got then do {
             restore_and_account P i ToLocal (drop (nat sent) chunk);
             ret False }
           else ret True }
         else if sent < 0 \<and> errno \<noteq> EAGAIN \<and> errno \<noteq> EWOULDBLOCK then do {
           modify_slot i (\<lambda>sl. sl\<lparr>totalBytesDropped := totalBytesDropped sl + of_nat got, localEof := True\<rparr>);
           ret False }
         else do {
           restore_and_account P i ToLocal chunk;
           slot \<leftarrow> gets (getSlot i);
           whenM (firstLocalSendEagainMs slot = 0) (do {
             now \<leftarrow> millis P;
             modify_slot i (\<lambda>sl. sl\<lparr>firstLocalSendEagainMs := now\<rparr>) });
           ret False } } } }"

fun drain_local_chunks_b :: "build \<Rightarrow> ('w, 'r) platform \<Rightarrow> int \<Rightarrow> nat \<Rightarrow> ('w, 'r, 'z, unit) build_op" where
  "drain_local_chunks_b B P i 0 = ret ()"
| "drain_local_chunks_b B P i (Suc n) = do {
     go \<leftarrow> drain_local_chunk_b B P i;
     if go then drain_local_chunks_b B P i n else ret () }"

definition drain_local_channel_b :: "build \<Rightarrow> ('w, 'r) platform \<Rightarrow> int \<Rightarrow> ('w, 'r, 'z, unit) build_op" where
  "drain_local_channel_b B P i = do {
     slot \<leftarrow> gets (getSlot i);
     if \<not> active slot \<or> localSocket slot < 0 \<or> toLocal slot = None then ret ()
     else do {
       drain_local_chunks_b B P i 4;
       check_local_stall P i } }"

definition drainSshToLocal_b :: "build \<Rightarrow> ('w, 'r) platform \<Rightarrow> ('w, 'r, 'z, unit) build_op" where
  "drainSshToLocal_b B P = do {
     n \<leftarrow> gets maxSlots;
     if n = 0 then ret ()
     else do {
       order \<leftarrow> gets pump_order;
       for_each (drain_local_channel_b B P) order } }"

section \<open>Phase 3\<close>

definition channel_write_b ::
  "build \<Rightarrow> 'w timer \<Rightarrow> ('w, 'r) platform \<Rightarrow> int \<Rightarrow> ssh_channel \<Rightarrow> bytes \<Rightarrow> ('w, 'r, 'z, int) build_op" where
  "channel_write_b B T P i ch data =
     (if TUNNEL_INSTRUMENT B then instrWrite T P i ch data else ext (libssh2_channel_write P ch data))"

definition write_chunk_b :: "build \<Rightarrow> 'w timer \<Rightarrow> ('w, 'r) platform \<Rightarrow> int \<Rightarrow> nat \<Rightarrow> ('w, 'r, 'z, nat option) build_op" where
  "write_chunk_b B T P i budget = do {
     bsz \<leftarrow> gets bufSize;
     let chunkSize = (if budget < bsz then budget else bsz);
     chunk \<leftarrow> ring_read P i ToRemote chunkSize;
     let got = length chunk;
     if got = 0 then ret None
     else do {
       slot \<leftarrow> gets (getSlot i);
       written \<leftarrow> channel_write_b B T P i (sshChannel slot) chunk;
       if written > 0 then do {
         modify_slot i (\<lambda>sl. sl\<lparr>totalBytesSent := totalBytesSent sl + of_int written\<rparr>);
         add_moved (nat written);
         now \<leftarrow> millis P;
         modify_slot i (\<lambda>sl. sl\<lparr>lastSuccessfulWrite := now, lastActivity := now, eagainCount := 0,
           firstEagainMs := 0, consecutiveErrors := 0\<rparr>);
         if nat written < got then do {
           restore_and_account P i ToRemote (drop (nat written) chunk);
           ret None }
         else ret (Some (sz_sub budget (nat written))) }
       else if written = LIBSSH2_ERROR_EAGAIN then do {
         restore_and_account P i ToRemote chunk;
         modify_slot i (\<lambda>sl. sl\<lparr>eagainCount := eagainCount sl + 1\<rparr>);
         slot \<leftarrow> gets (getSlot i);
         whenM (firstEagainMs slot = 0) (do {
           now \<leftarrow> millis P;
           modify_slot i (\<lambda>sl. sl\<lparr>firstEagainMs := now\<rparr>) });
         ret None }
       else do {
         restore_and_account P i ToRemote chunk;
         channel_error P i;
         ret None } } }"

fun write_loop_b :: "build \<Rightarrow> 'w timer \<Rightarrow> ('w, 'r) platform \<Rightarrow> int \<Rightarrow> nat \<Rightarrow> nat \<Rightarrow> ('w, 'r, 'z, unit) build_op" where
  "write_loop_b B T P i fuel budget =
     (if fuel = 0 then ret ()
      else do {
        slot \<leftarrow> gets (getSlot i);
        if budget > 0 \<and> \<not> ring_empty P (toRemote slot) then do {
          r \<leftarrow> write_chunk_b B T P i budget;
          (case r of None \<Rightarrow> ret () | Some b \<Rightarrow> write_loop_b B T P i (fuel - 1) b) }
        else ret () })"

declare write_loop_b.simps [simp del]

definition write_channel_b :: "build \<Rightarrow> 'w timer \<Rightarrow> ('w, 'r) platform \<Rightarrow> int \<Rightarrow> ('w, 'r, 'z, unit) build_op" where
  "write_channel_b B T P i = do {
     slot \<leftarrow> gets (getSlot i);
     whenM (toRemote slot \<noteq> None \<and> \<not> ring_empty P (toRemote slot)) (do {
       locked \<leftarrow> session_lock P (pdMS_TO_TICKS 20);
       whenM locked (do {
         write_loop_b B T P i MAX_WRITE_PER_CHANNEL MAX_WRITE_PER_CHANNEL;
         session_unlock P;
         check_write_stall P i }) }) }"

fun recv_chunks_b :: "build \<Rightarrow> ('w, 'r) platform \<Rightarrow> int \<Rightarrow> nat \<Rightarrow> ('w, 'r, 'z, unit) build_op" where
  "recv_chunks_b B P i 0 = ret ()"
| "recv_chunks_b B P i (Suc n) = do {
     slot \<leftarrow> gets (getSlot i);
     if localEof slot \<or> localReadPaused slot then ret ()
     else do {
       let freeSpace = ring_available P (toRemote slot);
       if freeSpace = 0 then modify_slot i (\<lambda>sl. sl\<lparr>localReadPaused := True\<rparr>)
       else do {
         bsz \<leftarrow> gets bufSize;
         let readSize = (if freeSpace < bsz then freeSpace else bsz);
         (recvd, bs, errno) \<leftarrow> ext (p_recv P (localSocket slot) readSize);
         if recvd > 0 then do {
           whenM (TUNNEL_DIAG_LOG_ONLY B) (observe_response i bs recvd);
           written \<leftarrow> ring_write P i ToRemote bs (nat recvd);
           modify_slot i (\<lambda>sl. sl\<lparr>totalBytesDropped := totalBytesDropped sl + (of_int recvd - of_nat written)\<rparr>);
           now \<leftarrow> millis P;
           modify_slot i (\<lambda>sl. sl\<lparr>lastActivity := now\<rparr>);
           add_moved written;
           recv_chunks_b B P i n }
         else if recvd = 0 then modify_slot i (\<lambda>sl. sl\<lparr>localEof := True\<rparr>)
         else if errno \<noteq> EAGAIN \<and> errno \<noteq> EWOULDBLOCK then modify_slot i (\<lambda>sl. sl\<lparr>localEof := True\<rparr>)
         else ret () } } }"

definition recv_channel_b :: "build \<Rightarrow> ('w, 'r) platform \<Rightarrow> int \<Rightarrow> ('w, 'r, 'z, unit) build_op" where
  "recv_channel_b B P i = do {
     slot \<leftarrow> gets (getSlot i);
     whenM (\<not> localEof slot \<and> \<not> localReadPaused slot \<and> localSocket slot \<ge> 0 \<and> toRemote slot \<noteq> None
            \<and> eofSentMs slot = 0)
       (recv_chunks_b B P i 3) }"

definition drain_remote_channel_b :: "build \<Rightarrow> 'w timer \<Rightarrow> ('w, 'r) platform \<Rightarrow> int \<Rightarrow> ('w, 'r, 'z, unit) build_op" where
  "drain_remote_channel_b B T P i = do {
     slot \<leftarrow> gets (getSlot i);
     if \<not> active slot \<or> sshChannel slot = NULL then ret ()
     else if eofSentMs slot > 0 then ret ()
     else do {
       write_channel_b B T P i;
       modify_slot i (update_backpressure P);
       recv_channel_b B P i } }"

definition drainLocalToSsh_b :: "build \<Rightarrow> 'w timer \<Rightarrow> ('w, 'r) platform \<Rightarrow> ('w, 'r, 'z, unit) build_op" where
  "drainLocalToSsh_b B T P = do {
     phase3_t0 \<leftarrow> timer_b B T;
     n \<leftarrow> gets maxSlots;
     if n = 0 then count_session_b B T phase3_t0 count_phase3
     else do {
       order \<leftarrow> gets pump_order;
       for_each (drain_remote_channel_b B T P) order;
       modify (\<lambda>s. s\<lparr>roundRobinOffset := roundRobinOffset s + 1\<rparr>);
       count_session_b B T phase3_t0 count_phase3 } }"

section \<open>Phase 4 and the cycle\<close>

fun check_draining_b ::
  "build \<Rightarrow> ('w, 'r) platform \<Rightarrow> u32 \<Rightarrow> nat \<Rightarrow> int list \<Rightarrow> int list \<times> int list \<Rightarrow> ('w, 'r, 'z, int list \<times> int list) build_op" where
  "check_draining_b B P now arrSize [] work = ret work"
| "check_draining_b B P now arrSize (i # is) (toSendEof, toClose) = do {
     slot \<leftarrow> gets (getSlot i);
     if \<not> active slot \<or> chstate slot \<noteq> Draining then check_draining_b B P now arrSize is (toSendEof, toClose)
     else (case drain_decide P now slot of
         HardAbandon \<Rightarrow> do {
           abandonSlot_b B P i (closeReason slot);
           modify (\<lambda>s. s\<lparr>sessionDegraded := True\<rparr>);
           push_close_event i (closeReason slot);
           check_draining_b B P now arrSize is (toSendEof, toClose) }
       | ToClose \<Rightarrow> check_draining_b B P now arrSize is (toSendEof, push_bounded arrSize i toClose)
       | ToSendEof \<Rightarrow> check_draining_b B P now arrSize is (push_bounded arrSize i toSendEof, toClose)
       | KeepWaiting \<Rightarrow> check_draining_b B P now arrSize is (toSendEof, toClose)) }"

definition checkCloses_b :: "build \<Rightarrow> ('w, 'r) platform \<Rightarrow> ('w, 'r, 'z, unit) build_op" where
  "checkCloses_b B P = do {
     n \<leftarrow> gets maxSlots;
     now \<leftarrow> millis P;
     for_each (check_open P now) [0..n - 1];
     now \<leftarrow> millis P;
     let arrSize = nat (if n < 32 then n else 32);
     (toSendEof, toClose) \<leftarrow> check_draining_b B P now arrSize [0..n - 1] ([], []);
     whenM (toSendEof \<noteq> []) (do {
       locked \<leftarrow> session_lock P (pdMS_TO_TICKS 100);
       whenM locked (do {
         for_each (send_eof P) toSendEof;
         session_unlock P }) });
     whenM (toClose \<noteq> []) (do {
       locked \<leftarrow> session_lock P (pdMS_TO_TICKS 200);
       whenM locked (do {
         for_each (finalize_one P) toClose;
         session_unlock P }) }) }"

definition pumpAll_b :: "build \<Rightarrow> 'w timer \<Rightarrow> ('w, 'r) platform \<Rightarrow> ('w, 'r, 'z, bool) build_op" where
  "pumpAll_b B T P = do {
     ready \<leftarrow> gets (\<lambda>s. pumpAttached s \<and> rxBuf s \<and> txBuf s);
     if \<not> ready then ret False
     else do {
       modify (\<lambda>s. s\<lparr>lastBytesMoved := 0\<rparr>);
       pumpSshTransport_b B T P;
       drainSshToLocal_b B P;
       drainLocalToSsh_b B T P;
       checkCloses_b B P;
       whenM (TUNNEL_DIAG_LOG_ONLY B) (observe_stalls P);
       gets (\<lambda>s. lastBytesMoved s > 0) } }"

section \<open>The report of the tunnel object\<close>

definition dumpTransportInstrumentation :: "nat \<Rightarrow> ('w, 'r, 'z) build_state_scheme \<Rightarrow> string \<times> nat" where
  "dumpTransportInstrumentation outSize s = formatInstrumentation (instrSess s) (instrCh s) outSize"

end
