(* ===== verification/Build_Erasure.thy ===== *)
theory Build_Erasure
  imports Pump_Builds
begin

text \<open>
  What the build switches leave alone. \<open>mirrors m m'\<close> says that the operation \<open>m\<close> of a build, seen through the truncation of its
  state to a \<open>pump_state\<close>, is the operation \<open>m'\<close> of the plain build: the same result, the same calls to the environment, and the
  same state but for the added members. The rules follow the statements, so each operation of the pump is one line.
\<close>

abbreviation bare :: "('w, 'r, 'z) pump_state_scheme \<Rightarrow> ('w, 'r) pump_state" where
  "bare \<equiv> pump_state.truncate"

definition mirrors :: "(('w, 'r, 'z) pump_state_scheme, 'a) state \<Rightarrow> (('w, 'r) pump_state, 'a) state \<Rightarrow> bool" where
  "mirrors m m' \<longleftrightarrow> (\<forall>s. run_state m' (bare s) = map_prod id bare (run_state m s))"

lemma mirrorsD: "mirrors m m' \<Longrightarrow> run_state m' (bare s) = map_prod id bare (run_state m s)"
  by (simp add: mirrors_def)

text \<open>An operation that the truncation hides.\<close>

definition hidden :: "(('w, 'r, 'z) pump_state_scheme, 'a) state \<Rightarrow> bool" where
  "hidden m \<longleftrightarrow> (\<forall>s. bare (snd (run_state m s)) = bare s)"

named_theorems mirrors_intros

section \<open>Statements\<close>

lemma mirrors_ret [mirrors_intros]: "mirrors (ret a) (ret a)"
  by (simp add: mirrors_def)

lemma mirrors_bind [mirrors_intros]:
  assumes "mirrors m m'" and "\<And>a. mirrors (f a) (f' a)"
  shows "mirrors (State_Monad.bind m f) (State_Monad.bind m' f')"
  using assms by (simp add: mirrors_def split_beta)

lemma mirrors_hidden:
  assumes "hidden m" and "\<And>a. mirrors (f a) m'"
  shows "mirrors (State_Monad.bind m f) m'"
  unfolding mirrors_def
proof
  fix s
  obtain a s1 where 1: "run_state m s = (a, s1)" by force
  then have "bare s1 = bare s" using assms(1) by (metis hidden_def snd_conv)
  then show "run_state m' (bare s) = map_prod id bare (run_state (State_Monad.bind m f) s)"
    using assms(2) [of a] 1 by (simp add: mirrors_def) metis
qed

lemma mirrors_hidden_ret: "hidden m \<Longrightarrow> mirrors m (ret ())"
  by (simp add: mirrors_def hidden_def map_prod_def split_beta)

lemma mirrors_if [mirrors_intros]:
  "(b \<Longrightarrow> mirrors m m') \<Longrightarrow> (\<not> b \<Longrightarrow> mirrors n n') \<Longrightarrow> mirrors (if b then m else n) (if b then m' else n')"
  by simp

lemma mirrors_whenM [mirrors_intros]: "(b \<Longrightarrow> mirrors m m') \<Longrightarrow> mirrors (whenM b m) (whenM b m')"
  by (simp add: whenM_def mirrors_ret)

lemma mirrors_let [mirrors_intros]: "(\<And>x. mirrors (f x) (f' x)) \<Longrightarrow> mirrors (let x = e in f x) (let x = e in f' x)"
  by simp

lemma mirrors_option [mirrors_intros]:
  "mirrors m m' \<Longrightarrow> (\<And>y. mirrors (f y) (f' y))
   \<Longrightarrow> mirrors (case x of None \<Rightarrow> m | Some y \<Rightarrow> f y) (case x of None \<Rightarrow> m' | Some y \<Rightarrow> f' y)"
  by (simp split: option.split)

lemma mirrors_prod [mirrors_intros]:
  "(\<And>a b. mirrors (f a b) (f' a b)) \<Longrightarrow> mirrors (case x of (a, b) \<Rightarrow> f a b) (case x of (a, b) \<Rightarrow> f' a b)"
  by (simp split: prod.split)

lemma mirrors_decision [mirrors_intros]:
  "mirrors a a' \<Longrightarrow> mirrors b b' \<Longrightarrow> mirrors c c' \<Longrightarrow> mirrors d d' \<Longrightarrow>
   mirrors (case x of HardAbandon \<Rightarrow> a | ToClose \<Rightarrow> b | ToSendEof \<Rightarrow> c | KeepWaiting \<Rightarrow> d)
     (case x of HardAbandon \<Rightarrow> a' | ToClose \<Rightarrow> b' | ToSendEof \<Rightarrow> c' | KeepWaiting \<Rightarrow> d')"
  by (simp split: drain_decision.split)

lemma mirrors_for_each [mirrors_intros]: "(\<And>x. mirrors (f x) (f' x)) \<Longrightarrow> mirrors (for_each f xs) (for_each f' xs)"
  by (induction xs) (simp_all add: mirrors_ret mirrors_bind)

lemma mirrors_for_break [mirrors_intros]: "(\<And>x. mirrors (f x) (f' x)) \<Longrightarrow> mirrors (for_break f xs) (for_break f' xs)"
  by (induction xs) (simp_all add: mirrors_ret mirrors_bind)

lemma mirrors_gets: "(\<And>s. g' (bare s) = g s) \<Longrightarrow> mirrors (gets g) (gets g')"
  by (simp add: mirrors_def)

lemma mirrors_modify: "(\<And>s. f' (bare s) = bare (f s)) \<Longrightarrow> mirrors (modify f) (modify f')"
  by (simp add: mirrors_def)

section \<open>Members\<close>

lemma bare_members [simp]:
  "world (bare s) = world s" "sessionMutex (bare s) = sessionMutex s" "slots (bare s) = slots s"
  "maxSlots (bare s) = maxSlots s" "activeCount (bare s) = activeCount s" "ringBufferSize (bare s) = ringBufferSize s"
  "bufSize (bare s) = bufSize s" "tp_channelTimeoutMs (bare s) = tp_channelTimeoutMs s"
  "roundRobinOffset (bare s) = roundRobinOffset s" "lastBytesMoved (bare s) = lastBytesMoved s"
  "pendingCloseEvents (bare s) = pendingCloseEvents s" "pumpAttached (bare s) = pumpAttached s"
  "rxBuf (bare s) = rxBuf s" "txBuf (bare s) = txBuf s" "breaker (bare s) = breaker s"
  by (simp_all add: pump_state.defs)

lemma bare_updates [simp]:
  "bare (s\<lparr>world := w\<rparr>) = (bare s)\<lparr>world := w\<rparr>" "bare (s\<lparr>slots := ss\<rparr>) = (bare s)\<lparr>slots := ss\<rparr>"
  "bare (s\<lparr>activeCount := n\<rparr>) = (bare s)\<lparr>activeCount := n\<rparr>" "bare (s\<lparr>lastBytesMoved := m\<rparr>) = (bare s)\<lparr>lastBytesMoved := m\<rparr>"
  "bare (s\<lparr>roundRobinOffset := m\<rparr>) = (bare s)\<lparr>roundRobinOffset := m\<rparr>"
  "bare (s\<lparr>pendingCloseEvents := es\<rparr>) = (bare s)\<lparr>pendingCloseEvents := es\<rparr>"
  "bare (s\<lparr>sessionDegraded := b\<rparr>) = (bare s)\<lparr>sessionDegraded := b\<rparr>"
  "bare (s\<lparr>breaker := br\<rparr>) = (bare s)\<lparr>breaker := br\<rparr>"
  by (simp_all add: pump_state.defs)

lemma bare_getSlot [simp]: "getSlot i (bare s) = getSlot i s"
  by (simp add: getSlot_def)

lemma bare_upd_slot [simp]: "bare (upd_slot i f s) = upd_slot i f (bare s)"
  by (simp add: upd_slot_def)

lemma bare_pump_order [simp]: "pump_order (bare s) = pump_order s"
  by (simp add: pump_order_def)

lemma mirrors_members [mirrors_intros]:
  "mirrors (gets sessionMutex) (gets sessionMutex)" "mirrors (gets maxSlots) (gets maxSlots)" "mirrors (gets (getSlot i)) (gets (getSlot i))"
  "mirrors (gets bufSize) (gets bufSize)" "mirrors (gets tp_channelTimeoutMs) (gets tp_channelTimeoutMs)"
  "mirrors (gets pump_order) (gets pump_order)" "mirrors (gets ringBufferSize) (gets ringBufferSize)"
  by (rule mirrors_gets; simp)+

lemma mirrors_ext [mirrors_intros]: "mirrors (ext f) (ext f)"
  by (simp add: mirrors_def split_beta)

lemma mirrors_modify_slot [mirrors_intros]: "mirrors (modify_slot i f) (modify_slot i f)"
  unfolding modify_slot_def by (rule mirrors_modify) simp

lemma mirrors_add_moved [mirrors_intros]: "mirrors (add_moved n) (add_moved n)"
  unfolding add_moved_def by (rule mirrors_modify) simp

lemma mirrors_push_close_event [mirrors_intros]: "mirrors (push_close_event i r) (push_close_event i r)"
  unfolding push_close_event_def by (rule mirrors_modify) simp

lemma mirrors_lock [mirrors_intros]: "mirrors (session_lock P n) (session_lock P n)" "mirrors (session_unlock P) (session_unlock P)"
  unfolding session_lock_def session_unlock_def by (intro mirrors_intros)+

section \<open>Operations without a switch\<close>

lemma mirrors_rings [mirrors_intros]:
  "mirrors (ring_write P i dir bs n) (ring_write P i dir bs n)" "mirrors (ring_read P i dir n) (ring_read P i dir n)"
  "mirrors (restoreUnsent P i dir bs) (restoreUnsent P i dir bs)"
  unfolding ring_write_def ring_read_def restoreUnsent_def on_ring_def by (intro mirrors_intros)+

lemma mirrors_heap [mirrors_intros]:
  "mirrors (drb_new P n t) (drb_new P n t)" "mirrors (drb_delete P d) (drb_delete P d)" "mirrors (delete_ring P r) (delete_ring P r)"
  "mirrors (heap_guard P n) (heap_guard P n)"
  unfolding drb_new_def drb_delete_def delete_ring_def psramAlloc_def psramFree_def heap_guard_def by (intro mirrors_intros)+

lemma mirrors_accounts [mirrors_intros]:
  "mirrors (accountRestoreDrop i n k) (accountRestoreDrop i n k)" "mirrors (count_buffered_dropped P i) (count_buffered_dropped P i)"
  unfolding accountRestoreDrop_def count_buffered_dropped_def by (intro mirrors_intros)+

lemma mirrors_beginClose [mirrors_intros]: "mirrors (beginClose P i r) (beginClose P i r)"
  unfolding beginClose_def by (intro mirrors_intros)

lemma mirrors_steps [mirrors_intros]:
  "mirrors (restore_and_account P i dir bs) (restore_and_account P i dir bs)" "mirrors (channel_error P i) (channel_error P i)"
  "mirrors (store_received P i bs rc) (store_received P i bs rc)" "mirrors (check_eof_flag P i) (check_eof_flag P i)"
  "mirrors (check_local_stall P i) (check_local_stall P i)" "mirrors (check_write_stall P i) (check_write_stall P i)"
  "mirrors (shutdown_local P i) (shutdown_local P i)"
  unfolding restore_and_account_def channel_error_def store_received_def check_eof_flag_def check_local_stall_def
    check_write_stall_def shutdown_local_def by (intro mirrors_intros)+

lemma mirrors_check_open [mirrors_intros]: "mirrors (check_open P now i) (check_open P now i)"
  unfolding check_open_def by (intro mirrors_intros)

lemma mirrors_pump_after_eof [mirrors_intros]: "mirrors (pump_after_eof P i n) (pump_after_eof P i n)"
  by (induction n) (auto intro!: mirrors_intros)

lemma mirrors_send_eof [mirrors_intros]: "mirrors (send_eof P i) (send_eof P i)"
  unfolding send_eof_def by (intro mirrors_intros)

lemma mirrors_count [mirrors_intros]: "mirrors (modify (\<lambda>s. s\<lparr>activeCount := f (activeCount s)\<rparr>)) (modify (\<lambda>s. s\<lparr>activeCount := f (activeCount s)\<rparr>))"
  by (rule mirrors_modify) simp

lemma mirrors_archiveSlotStats [mirrors_intros]: "mirrors (archiveSlotStats i) (archiveSlotStats i)"
  unfolding archiveSlotStats_def by (rule mirrors_modify) (simp add: pump_state.defs getSlot_def)

lemma mirrors_closing [mirrors_intros]:
  "mirrors (close_local P i) (close_local P i)" "mirrors (free_rings P i) (free_rings P i)" "mirrors (finalize_ssh P i) (finalize_ssh P i)"
  unfolding close_local_def free_rings_def finalize_ssh_def by (intro mirrors_intros)+

lemma mirrors_finalize_local [mirrors_intros]: "mirrors (finalize_local P i) (finalize_local P i)"
  unfolding finalize_local_def by (intro mirrors_intros)

lemma mirrors_finalize [mirrors_intros]: "mirrors (finalizeClose P i) (finalizeClose P i)" "mirrors (finalize_one P i) (finalize_one P i)"
  unfolding finalize_one_def finalizeClose_def by (intro mirrors_intros)+

lemma mirrors_connect [mirrors_intros]: "mirrors (connectToLocalEndpoint P m) (connectToLocalEndpoint P m)"
  unfolding connectToLocalEndpoint_def optimizeSocket_def Let_def by (intro mirrors_intros)

section \<open>The switches\<close>

definition clocks_only_read :: "build \<Rightarrow> 'w timer \<Rightarrow> ('w, 'r) platform \<Rightarrow> bool" where
  "clocks_only_read B T P \<longleftrightarrow> (TUNNEL_INSTRUMENT B \<longrightarrow> (\<forall>w. snd (T w) = w)) \<and> (TUNNEL_DIAG_LOG_ONLY B \<longrightarrow> (\<forall>w. snd (p_millis P w) = w))"

lemma bare_added [simp]:
  "bare (s\<lparr>instrCh := ics\<rparr>) = bare s" "bare (s\<lparr>instrSess := se\<rparr>) = bare s" "bare (s\<lparr>chDiag := ds\<rparr>) = bare s"
  by (simp_all add: pump_state.defs)

lemma hidden_set_diag: "hidden (set_diag i d)"
  by (simp add: hidden_def set_diag_def)

lemma hidden_bind: "hidden m \<Longrightarrow> (\<And>a. hidden (f a)) \<Longrightarrow> hidden (State_Monad.bind m f)"
  by (simp add: hidden_def split_beta)

lemma hidden_ext: "(\<And>w. snd (f w) = w) \<Longrightarrow> hidden (ext f)"
  by (simp add: hidden_def split_beta)

lemma hidden_plain: "hidden (gets g)" "hidden (ret a)"
  by (simp_all add: hidden_def)

lemma hidden_observers:
  assumes "clocks_only_read B T P" and "TUNNEL_DIAG_LOG_ONLY B"
  shows "hidden (observe_received P i bs rc)" "hidden (observe_local_write P i n)" "hidden (observe_response i bs n)"
    "hidden (observe_stalls P)"
proof -
  have clock: "snd (p_millis P w) = w" for w using assms by (simp add: clocks_only_read_def)
  have "hidden (millis_if b P)" for b by (simp add: millis_if_def hidden_ext clock hidden_plain)
  note h = this hidden_ext [OF clock] hidden_bind hidden_set_diag hidden_plain
  show "hidden (observe_received P i bs rc)" "hidden (observe_local_write P i n)" "hidden (observe_response i bs n)"
    unfolding observe_received_def observe_local_write_def observe_response_def Let_def by (intro h)+
  show "hidden (observe_stalls P)" unfolding observe_stalls_def by (intro h) (simp add: hidden_def)
qed

lemma hidden_timer:
  assumes "clocks_only_read B T P"
  shows "hidden (timer_b B T)" "hidden (count_session_b B T t f)"
  using assms by (auto simp: clocks_only_read_def hidden_def timer_b_def count_session_b_def split_beta)

lemma hidden_when: "(b \<Longrightarrow> hidden m) \<Longrightarrow> hidden (whenM b m)"
  by (simp add: whenM_def hidden_plain)

lemma bare_instr_slot: "bare (snd (run_state (instr_slot i f) s)) = bare s"
  by (simp add: instr_slot_def)

lemma mirrors_read:
  assumes "clocks_only_read B T P"
  shows "mirrors (channel_read_b B T P i ch n) (ext (libssh2_channel_read P ch n))"
  using assms by (auto simp: channel_read_b_def clocks_only_read_def mirrors_ext mirrors_def instrRead_def bare_instr_slot split_beta)

lemma mirrors_write:
  assumes "clocks_only_read B T P"
  shows "mirrors (channel_write_b B T P i ch bs) (ext (libssh2_channel_write P ch bs))"
  using assms by (auto simp: channel_write_b_def clocks_only_read_def mirrors_ext mirrors_def instrWrite_def bare_instr_slot split_beta)

lemma mirrors_resetSlot: "mirrors (resetSlot_b B i) (resetSlot i)"
proof -
  have "mirrors (do { modify_slot i reset_slot; whenM (TUNNEL_DIAG_LOG_ONLY B) (set_diag i diag_reset) }) (do { modify_slot i reset_slot; ret () })"
    by (intro mirrors_intros mirrors_hidden_ret hidden_when hidden_set_diag)
  then show ?thesis unfolding resetSlot_b_def resetSlot_def by (intro mirrors_intros) simp_all
qed

lemma mirrors_abandonSlot: "mirrors (abandonSlot_b B P i r) (abandonSlot P i r)"
  unfolding abandonSlot_b_def abandonSlot_def by (intro mirrors_intros mirrors_resetSlot mirrors_modify) auto

lemma mirrors_bindChannel: "mirrors (bindChannel_b B P i ch m) (bindChannel P i ch m)"
  unfolding bindChannel_b_def bindChannel_def
  by (intro mirrors_intros mirrors_resetSlot mirrors_hidden hidden_when hidden_bind hidden_plain hidden_set_diag) (simp_all add: mirrors_modify)

section \<open>The phases\<close>

lemma mirrors_diag: "(TUNNEL_DIAG_LOG_ONLY B \<Longrightarrow> hidden m) \<Longrightarrow> mirrors n n' \<Longrightarrow> mirrors (do { whenM (TUNNEL_DIAG_LOG_ONLY B) m; n }) n'"
  by (intro mirrors_hidden hidden_when)

lemma mirrors_timer: "clocks_only_read B T P \<Longrightarrow> (\<And>t. mirrors (f t) m') \<Longrightarrow> mirrors (State_Monad.bind (timer_b B T) f) m'"
  by (intro mirrors_hidden hidden_timer)

lemma mirrors_counted: "clocks_only_read B T P \<Longrightarrow> mirrors m m' \<Longrightarrow> mirrors (do { count_session_b B T t f; m }) m'"
  by (intro mirrors_hidden hidden_timer)

lemma mirrors_trailing:
  fixes m' :: "(('w, 'r) pump_state, unit) state"
  assumes "clocks_only_read B T P" and "mirrors m m'"
  shows "mirrors (do { m; count_session_b B T t f }) m'"
  using assms(2) by (simp add: mirrors_def hidden_timer(2) [OF assms(1), unfolded hidden_def, rule_format] split_beta prod_eq_iff)

lemma mirrors_only_counted: "clocks_only_read B T P \<Longrightarrow> mirrors (count_session_b B T t f) (ret ())"
  by (intro mirrors_hidden_ret hidden_timer)

lemmas mirrors_switches = mirrors_diag mirrors_timer mirrors_counted mirrors_trailing mirrors_only_counted mirrors_read mirrors_write
  hidden_observers mirrors_abandonSlot

lemma mirrors_store_received: "clocks_only_read B T P \<Longrightarrow> mirrors (store_received_b B P i bs rc) (store_received P i bs rc)"
  unfolding store_received_b_def by (intro mirrors_switches mirrors_steps)

lemma mirrors_pump_paused: "clocks_only_read B T P \<Longrightarrow> mirrors (pump_paused_b B T P i) (pump_paused P i)"
  unfolding pump_paused_b_def pump_paused_def by (intro mirrors_switches mirrors_store_received mirrors_intros)

lemma mirrors_read_chunks: "clocks_only_read B T P \<Longrightarrow> mirrors (read_chunks_b B T P i n b) (read_chunks P i n b)"
  by (induction n arbitrary: b) (auto simp: Let_def intro!: mirrors_intros mirrors_read mirrors_store_received)

lemma mirrors_read_open_channel: "clocks_only_read B T P \<Longrightarrow> mirrors (read_open_channel_b B T P i) (read_open_channel P i)"
  unfolding read_open_channel_b_def read_open_channel_def by (intro mirrors_read_chunks mirrors_intros)

lemma mirrors_pump_channel: "clocks_only_read B T P \<Longrightarrow> mirrors (pump_channel_b B T P i) (pump_channel P i)"
  unfolding pump_channel_b_def pump_channel_def
  by (intro mirrors_switches mirrors_read_open_channel mirrors_pump_paused mirrors_intros)

lemma mirrors_pump_channels: "clocks_only_read B T P \<Longrightarrow> mirrors (pump_channels_b B T P is b) (pump_channels P is b)"
  by (induction "is" arbitrary: b) (auto intro!: mirrors_intros mirrors_pump_channel)

lemma mirrors_pumpSshTransport: "clocks_only_read B T P \<Longrightarrow> mirrors (pumpSshTransport_b B T P) (pumpSshTransport P)"
  unfolding pumpSshTransport_b_def pumpSshTransport_def by (intro mirrors_switches mirrors_pump_channels mirrors_intros)

lemma mirrors_drain_local_chunk: "clocks_only_read B T P \<Longrightarrow> mirrors (drain_local_chunk_b B P i) (drain_local_chunk P i)"
  unfolding drain_local_chunk_b_def drain_local_chunk_def Let_def by (intro mirrors_switches mirrors_intros)

lemma mirrors_drain_local_chunks: "clocks_only_read B T P \<Longrightarrow> mirrors (drain_local_chunks_b B P i n) (drain_local_chunks P i n)"
  by (induction n) (auto intro!: mirrors_intros mirrors_drain_local_chunk)

lemma mirrors_drainSshToLocal: "clocks_only_read B T P \<Longrightarrow> mirrors (drainSshToLocal_b B P) (drainSshToLocal P)"
  unfolding drainSshToLocal_b_def drainSshToLocal_def drain_local_channel_b_def drain_local_channel_def
  by (intro mirrors_drain_local_chunks mirrors_intros)

lemma mirrors_write_chunk: "clocks_only_read B T P \<Longrightarrow> mirrors (write_chunk_b B T P i n) (write_chunk P i n)"
  unfolding write_chunk_b_def write_chunk_def by (intro mirrors_switches mirrors_intros)

lemma mirrors_write_loop: "clocks_only_read B T P \<Longrightarrow> mirrors (write_loop_b B T P i fuel n) (write_loop P i fuel n)"
  by (induction fuel arbitrary: n) (subst write_loop.simps write_loop_b.simps, auto intro!: mirrors_intros mirrors_write_chunk)+

lemma mirrors_write_channel: "clocks_only_read B T P \<Longrightarrow> mirrors (write_channel_b B T P i) (write_channel P i)"
  unfolding write_channel_b_def write_channel_def by (intro mirrors_write_loop mirrors_intros)

lemma mirrors_recv_chunks: "clocks_only_read B T P \<Longrightarrow> mirrors (recv_chunks_b B P i n) (recv_chunks P i n)"
proof (induction n)
  case (Suc n)
  then show ?case unfolding recv_chunks_b.simps recv_chunks.simps by (intro mirrors_switches mirrors_intros)
qed (simp add: mirrors_ret)

lemma mirrors_drain_remote_channel: "clocks_only_read B T P \<Longrightarrow> mirrors (drain_remote_channel_b B T P i) (drain_remote_channel P i)"
  unfolding drain_remote_channel_b_def drain_remote_channel_def recv_channel_b_def recv_channel_def
  by (intro mirrors_write_channel mirrors_recv_chunks mirrors_intros)

lemma mirrors_drainLocalToSsh: "clocks_only_read B T P \<Longrightarrow> mirrors (drainLocalToSsh_b B T P) (drainLocalToSsh P)"
  unfolding drainLocalToSsh_b_def drainLocalToSsh_def
  by (intro mirrors_switches mirrors_drain_remote_channel mirrors_intros) (simp_all add: mirrors_modify)

lemma mirrors_degraded: "mirrors (modify (\<lambda>s. s\<lparr>sessionDegraded := b\<rparr>)) (modify (\<lambda>s. s\<lparr>sessionDegraded := b\<rparr>))"
  by (rule mirrors_modify) simp

lemma mirrors_check_draining: "mirrors (check_draining_b B P now n is w) (check_draining P now n is w)"
  by (induction "is" arbitrary: w) (auto intro!: mirrors_intros mirrors_abandonSlot mirrors_degraded)

lemma mirrors_checkCloses: "mirrors (checkCloses_b B P) (checkCloses P)"
  unfolding checkCloses_b_def checkCloses_def by (intro mirrors_check_draining mirrors_intros)

lemma mirrors_pumpAll: "clocks_only_read B T P \<Longrightarrow> mirrors (pumpAll_b B T P) (pumpAll P)"
  unfolding pumpAll_b_def pumpAll_def
  by (intro mirrors_switches mirrors_pumpSshTransport mirrors_drainSshToLocal mirrors_drainLocalToSsh mirrors_checkCloses mirrors_intros)
    (simp_all add: mirrors_modify mirrors_gets)

end
