(* ===== verification/Pump_Counters.thy ===== *)
theory Pump_Counters
  imports Build_Erasure Teardown Scheduling
begin

text \<open>
  What the instrumentation counts. In builds with \<open>TUNNEL_INSTRUMENT\<close> the byte counters of the writes, summed over the channels,
  grow by exactly what the tunnel's own total of sent bytes grows, whatever is written, refused, closed or
  abandoned in between: the difference of the two is an invariant of the pump, by the frame locale \<open>pump_steps\<close>.
\<close>

section \<open>The total of sent bytes\<close>

text \<open>Updates of a slot that the total does not see.\<close>

definition sent_neutral :: "('r channel_slot \<Rightarrow> 'r channel_slot) \<Rightarrow> bool" where
  "sent_neutral f \<longleftrightarrow> (\<forall>sl. active (f sl) = active sl \<and> totalBytesSent (f sl) = totalBytesSent sl)"

lemma sent_neutral_slot: "sent_neutral f \<Longrightarrow> active (getSlot j (upd_slot i f s)) = active (getSlot j s)"
  "sent_neutral f \<Longrightarrow> totalBytesSent (getSlot j (upd_slot i f s)) = totalBytesSent (getSlot j s)"
  by (cases "slots s"; cases "nat i < length (the (slots s))"; cases "nat i = nat j";
      simp add: sent_neutral_def getSlot_def upd_slot_def list_update_beyond)+

lemma total_sent_neutral: "sent_neutral f \<Longrightarrow> getTotalBytesSent (upd_slot i f s) = getTotalBytesSent s"
  by (simp add: getTotalBytesSent_def total_over_active_def sent_neutral_slot cong: if_cong)

lemma total_sent_at:
  assumes "in_range i s" and "maxSlots s' = maxSlots s" and "completedBytesSent s' = completedBytesSent s"
    and "\<And>j. 0 \<le> j \<Longrightarrow> j \<noteq> i \<Longrightarrow> getSlot j s' = getSlot j s"
  shows "getTotalBytesSent s' + (if active (getSlot i s) then totalBytesSent (getSlot i s) else 0)
    = getTotalBytesSent s + (if active (getSlot i s') then totalBytesSent (getSlot i s') else 0)"
  using sum_upto_remove [of i "maxSlots s" "\<lambda>j. if active (getSlot j s') then totalBytesSent (getSlot j s') else 0"
      "\<lambda>j. if active (getSlot j s) then totalBytesSent (getSlot j s) else 0"] assms
  by (simp add: getTotalBytesSent_def total_over_active_sum in_range_def add.assoc)

lemma total_sent_upd:
  assumes "in_range i s" and "has_slot i s"
  shows "getTotalBytesSent (upd_slot i f s) + (if active (getSlot i s) then totalBytesSent (getSlot i s) else 0)
    = getTotalBytesSent s + (if active (f (getSlot i s)) then totalBytesSent (f (getSlot i s)) else 0)"
proof -
  have "getSlot j (upd_slot i f s) = getSlot j s" if "0 \<le> j" "j \<noteq> i" for j
    using that assms(1) by (intro getSlot_other) (auto simp: in_range_def)
  from total_sent_at [OF assms(1) _ _ this] show ?thesis using assms(2) by simp
qed

lemma total_sent_added:
  assumes "in_range i s" and "has_slot i s" and "active (getSlot i s)"
  shows "getTotalBytesSent (upd_slot i (\<lambda>sl. sl\<lparr>totalBytesSent := totalBytesSent sl + n\<rparr>) s) = getTotalBytesSent s + n"
  using total_sent_upd [OF assms(1,2), of "\<lambda>sl. sl\<lparr>totalBytesSent := totalBytesSent sl + n\<rparr>"] assms(3)
  by (simp add: algebra_simps)

lemma total_sent_finalize:
  fixes s :: "('w, 'r, 'z) channel_state_scheme"
  assumes "chan_inv R s"
  shows "wp (finalizeClose P i) (\<lambda>_ s'. getTotalBytesSent s' = getTotalBytesSent s) s"
proof (cases "in_range i s \<and> active (getSlot i s)")
  case True
  then show ?thesis
    by (intro wp_mono [OF finalizeClose_effect [OF has_slot_in_range [OF assms]]])
      (auto dest: totals_closed(2) totals_same split: if_splits)
qed (auto simp: finalizeClose_def wp_simps in_range_def)

lemma total_sent_abandon:
  fixes s :: "('w, 'r, 'z) channel_state_scheme"
  assumes "chan_inv R s"
  shows "wp (abandonSlot P i r) (\<lambda>_ s'. getTotalBytesSent s' = getTotalBytesSent s) s"
proof (cases "in_range i s \<and> active (getSlot i s)")
  case True
  then show ?thesis
    by (intro wp_mono [OF abandonSlot_effect [OF has_slot_in_range [OF assms] _ _ active_slot_counted [OF assms]]])
      (auto dest: totals_closed(2))
qed (auto simp: abandonSlot_def wp_simps in_range_def)

text \<open>Binding takes a free slot, which counts nothing, and starts it at zero.\<close>

definition idle :: "int \<Rightarrow> u32 \<Rightarrow> ('w, 'r, 'z) channel_state_scheme \<Rightarrow> bool" where
  "idle i t s \<longleftrightarrow> in_range i s \<and> has_slot i s \<and> \<not> active (getSlot i s) \<and> getTotalBytesSent s = t"

lemma total_sent_frame [simp]:
  "getTotalBytesSent (s\<lparr>world := w\<rparr>) = getTotalBytesSent s" "getTotalBytesSent (s\<lparr>breaker := b\<rparr>) = getTotalBytesSent s"
  "getTotalBytesSent (s\<lparr>activeCount := n\<rparr>) = getTotalBytesSent s"
  by (simp_all add: getTotalBytesSent_def total_over_active_def cong: if_cong)

interpretation idle: channel_frame "idle i t" for i t
  by unfold_locales (simp_all add: idle_def in_range_def has_slot_def getSlot_def getTotalBytesSent_def total_over_active_def cong: if_cong)

lemma total_sent_occupy: "idle i t s \<Longrightarrow> totalBytesSent (f (getSlot i s)) = 0 \<Longrightarrow> getTotalBytesSent (upd_slot i f s) = t"
  using total_sent_upd [of i s f] by (simp add: idle_def split: if_splits)

lemma total_sent_bind_tail:
  assumes "idle i t s"
  shows "wp (do {
      resetSlot i;
      now \<leftarrow> millis P;
      modify_slot i (\<lambda>sl. sl\<lparr>sshChannel := ch, localSocket := fd, active := True,
        chstate := Open, toLocal := Some tL, toRemote := Some tR, lastActivity := now,
        lastSuccessfulWrite := now, lastSuccessfulRead := now, endpoint := e\<rparr>);
      ext (libssh2_channel_set_blocking P ch False);
      modify (\<lambda>s. s\<lparr>activeCount := activeCount s + 1\<rparr>);
      ret True }) (\<lambda>_ s'. getTotalBytesSent s' = t) s"
  using assms
  by (auto simp: wp_simps resetSlot_def modify_slot_def idle_def in_range_def reset_slot_def slot_default_def
      split: prod.splits intro!: total_sent_occupy)

lemma total_sent_bind:
  assumes "chan_inv R s"
  shows "wp (bindChannel P i ch m) (\<lambda>_ s'. getTotalBytesSent s' = getTotalBytesSent s) s"
proof -
  define t where "t = getTotalBytesSent s"
  note keep = wp_keep [where J = "idle i t"]
  have stop: "idle i t s1 \<Longrightarrow> getTotalBytesSent s1 = t" for s1 by (simp add: idle_def)
  have "wp (bindChannel P i ch m) (\<lambda>_ s'. getTotalBytesSent s' = t) s" if "idle i t s"
    unfolding bindChannel_def wp_bind wp_gets
    using that
    apply (auto simp only: wp_if wp_bind wp_gets wp_modify wp_return wp_let Let_def stop if_True if_False
        intro!: keep [OF idle.keeps_connectToLocalEndpoint] keep [OF idle.keeps_ext]
          keep [OF idle.keeps_heap_guard] keep [OF idle.keeps_drb_delete] keep [OF idle.keeps_drb_new]
        split: if_splits)
     apply (simp_all add: idle.frame_breaker stop)
    subgoal for fd _ _ _ tL _ tR s4
      using total_sent_bind_tail [where s = s4 and i = i and t = t and ch = ch and fd = fd and tL = tL and tR = tR and e = "snapshot_endpoint m"] by (auto simp: wp_bind)
    done
  then show ?thesis
    using has_slot_in_range [OF assms] by (cases "in_range i s \<and> \<not> active (getSlot i s)")
      (auto simp: idle_def t_def bindChannel_def wp_simps in_range_def)
qed

section \<open>The balance\<close>

definition written_sum :: "instr_channel list \<Rightarrow> u32" where
  "written_sum ics = sum_list (map (\<lambda>ic. ucast (write_bytes ic)) ics)"

definition accounted :: "int \<Rightarrow> u32 \<Rightarrow> ('w, 'r, 'z) build_state_scheme \<Rightarrow> bool" where
  "accounted k c s \<longleftrightarrow> chan_inv (\<lambda>_. True) s \<and> maxSlots s = k \<and> k \<le> int INSTR_MAX_CHANNELS \<and> length (instrCh s) = INSTR_MAX_CHANNELS
     \<and> getTotalBytesSent s = written_sum (instrCh s) + c"

text \<open>The operations of the plain pump do not touch the counters or the number of slots.\<close>

definition outside :: "('w, 'r, 'z) build_state_scheme \<Rightarrow> int \<times> instr_channel list" where
  "outside s = (maxSlots s, instrCh s)"

lemma outside_upd_slot [simp]: "instrCh (upd_slot i f s) = instrCh s" "outside (upd_slot i f s) = outside s"
  by (simp_all add: outside_def upd_slot_def)

interpretation outside: channel_frame "\<lambda>s. outside s = v" for v
  by unfold_locales (simp_all add: outside_def)

lemma outside_slot: "keeps (\<lambda>s. outside s = v) (modify_slot i f)"
  by (simp add: keeps_def wp_simps modify_slot_def)

lemmas outside_ops = outside.prims2 outside_slot outside.keeps_delete_ring outside.keeps_drb_delete
  outside.keeps_drb_new outside.keeps_connectToLocalEndpoint outside.keeps_heap_guard

interpretation outside: manager_frame "\<lambda>s. outside s = v" P for v P
  unfolding manager_frame_def manager_frame_axioms_def
proof (intro conjI allI impI)
  show "channel_frame (\<lambda>s. outside s = v)" by (rule outside.channel_frame_axioms)
qed ((unfold beginClose_def finalizeClose_def finalize_ssh_def finalize_local_def abandonSlot_def close_local_def
    count_buffered_dropped_def free_rings_def archiveSlotStats_def resetSlot_def bindChannel_def
    ring_write_def ring_read_def restoreUnsent_def on_ring_def)?;
    (intro outside_ops)?; simp add: outside_def)+

lemma any_manager: "manager_frame (chan_inv (\<lambda>_. True)) P"
  by (rule chan_inv_manager_frame) (simp_all add: ring_ops_keep_def wp_def split_beta)

lemma keeps_accounted:
  fixes m :: "(('w, 'r, 'z) build_state_scheme, 'a) state"
  assumes "keeps (chan_inv (\<lambda>_. True)) m" and "\<And>v. keeps (\<lambda>s. outside s = v) m"
    and "\<And>s. chan_inv (\<lambda>_. True) s \<Longrightarrow> wp m (\<lambda>_ s'. getTotalBytesSent s' = getTotalBytesSent s) s"
  shows "keeps (accounted k c) m"
proof (rule keepsI)
  fix s :: "('w, 'r, 'z) build_state_scheme"
  assume a: "accounted k c s"
  then have inv: "chan_inv (\<lambda>_. True) s" by (simp add: accounted_def)
  show "wp m (\<lambda>_. accounted k c) s"
    using wp_conj [OF keepsD [OF assms(1) inv] wp_conj [OF keepsD [OF assms(2) refl] assms(3) [OF inv]]] a
    by (elim wp_mono) (simp add: accounted_def outside_def)
qed

lemma total_sent_slot: "sent_neutral f \<Longrightarrow> wp (modify_slot i f) (\<lambda>_ s'. getTotalBytesSent s' = getTotalBytesSent s) s"
  by (simp add: modify_slot_def wp_simps total_sent_neutral)

lemma total_sent_ring: "wp (on_ring i dir d f) (\<lambda>_ s'. getTotalBytesSent s' = getTotalBytesSent s) s"
  by (cases dir) (auto simp: on_ring_def modify_slot_def wp_simps sent_neutral_def split: option.splits prod.splits intro!: total_sent_neutral)

lemma total_sent_rings:
  "wp (ring_write P i dir bs n) (\<lambda>_ s'. getTotalBytesSent s' = getTotalBytesSent s) s"
  "wp (ring_read P i dir n) (\<lambda>_ s'. getTotalBytesSent s' = getTotalBytesSent s) s"
  "wp (restoreUnsent P i dir bs) (\<lambda>_ s'. getTotalBytesSent s' = getTotalBytesSent s) s"
  unfolding ring_write_def ring_read_def restoreUnsent_def by (rule total_sent_ring)+

lemma total_sent_begin: "wp (beginClose P i r) (\<lambda>_ s'. getTotalBytesSent s' = getTotalBytesSent s) s"
  by (auto simp: beginClose_def modify_slot_def wp_simps sent_neutral_def split: prod.splits intro!: total_sent_neutral)

lemma accounted_manager:
  fixes P :: "('w, 'r) platform"
  shows "manager_frame (accounted k c :: ('w, 'r, 'z) build_state_scheme \<Rightarrow> bool) P"
proof -
  have m: "manager_frame (chan_inv (\<lambda>_. True) :: ('w, 'r, 'z) build_state_scheme \<Rightarrow> bool) P" by (rule any_manager)
  have book: "keeps (accounted k c :: ('w, 'r, 'z) build_state_scheme \<Rightarrow> bool) (modify_slot i f)" if "bookkeeping f" for i and f :: "'r channel_slot \<Rightarrow> 'r channel_slot"
    by (rule keeps_accounted [OF manager_frame.keeps_book [OF m that] outside.keeps_book [OF that] total_sent_slot])
      (use that in \<open>simp add: bookkeeping_def sent_neutral_def\<close>)
  note ops = keeps_accounted [OF manager_frame.keeps_ring_write [OF m] outside.keeps_ring_write total_sent_rings(1)]
    keeps_accounted [OF manager_frame.keeps_ring_read [OF m] outside.keeps_ring_read total_sent_rings(2)]
    keeps_accounted [OF manager_frame.keeps_restoreUnsent [OF m] outside.keeps_restoreUnsent total_sent_rings(3)]
    keeps_accounted [OF manager_frame.keeps_begin [OF m] outside.keeps_begin total_sent_begin]
    keeps_accounted [OF manager_frame.keeps_final [OF m] outside.keeps_final total_sent_finalize]
    keeps_accounted [OF manager_frame.keeps_abandon [OF m] outside.keeps_abandon total_sent_abandon]
    keeps_accounted [OF manager_frame.keeps_bind [OF m] outside.keeps_bind total_sent_bind]
  show ?thesis
    by unfold_locales
      (simp_all add: book ops,
       simp_all add: accounted_def chan_inv_def getTotalBytesSent_def total_over_active_def getSlot_def cong: if_cong)
qed

interpretation accounted: manager_frame "accounted k c" P for k c P
  by (rule accounted_manager)

interpretation accounted: pump_steps "accounted k c" P for k c P
  by unfold_locales
    (auto simp: accounted_def chan_inv_def getTotalBytesSent_def total_over_active_def getSlot_def
      keeps_def wp_simps push_close_event_def cong: if_cong)

text \<open>The diagnostics are reset after the slot.\<close>

lemma abandonSlot_b_split:
  fixes P :: "('w, 'r) platform"
  shows "(abandonSlot_b B P i r :: ('w, 'r, 'z, unit) build_op) = do {
     reset \<leftarrow> gets (\<lambda>s. TUNNEL_DIAG_LOG_ONLY B \<and> 0 \<le> i \<and> i < maxSlots s \<and> active (getSlot i s));
     abandonSlot P i r;
     whenM reset (set_diag i diag_reset) }"
proof (rule state.expand, rule HOL.ext)
  fix s :: "('w, 'r, 'z) build_state_scheme"
  define pre :: "('w, 'r, 'z, unit) build_op" where "pre = do {
    count_buffered_dropped P i; close_local P i; free_rings P i; modify_slot i (\<lambda>sl. sl\<lparr>sshChannel := NULL\<rparr>); archiveSlotStats i;
    modify (\<lambda>s. if activeCount s > 0 then s\<lparr>activeCount := activeCount s - 1\<rparr> else s) }"
  obtain s1 where s1: "run_state pre s = ((), s1)" by (metis old.unit.exhaust surj_pair)
  have "keeps (\<lambda>s. outside s = outside s0) pre" for s0
    unfolding pre_def count_buffered_dropped_def close_local_def free_rings_def archiveSlotStats_def
    by (intro outside_ops; simp add: outside_def)
  from keeps_run [OF this refl s1] have n: "maxSlots s1 = maxSlots s" by (simp add: outside_def)
  have "(abandonSlot_b B P i r :: ('w, 'r, 'z, unit) build_op) = do {
      n \<leftarrow> gets maxSlots; if i < 0 \<or> i \<ge> n then ret () else do {
        slot \<leftarrow> gets (getSlot i); if \<not> active slot then ret () else do { pre; resetSlot_b B i } } }"
    by (simp add: abandonSlot_b_def pre_def cong: if_cong)
  moreover have "(abandonSlot P i r :: ('w, 'r, 'z, unit) build_op) = do {
      n \<leftarrow> gets maxSlots; if i < 0 \<or> i \<ge> n then ret () else do {
        slot \<leftarrow> gets (getSlot i); if \<not> active slot then ret () else do { pre; resetSlot i } } }"
    by (simp add: abandonSlot_def pre_def cong: if_cong)
  ultimately show "run_state (abandonSlot_b B P i r) s = run_state (do {
      reset \<leftarrow> gets (\<lambda>s. TUNNEL_DIAG_LOG_ONLY B \<and> 0 \<le> i \<and> i < maxSlots s \<and> active (getSlot i s));
      abandonSlot P i r; whenM reset (set_diag i diag_reset) }) s"
    by (simp add: s1 n resetSlot_def resetSlot_b_def modify_slot_def set_diag_def)
qed

section \<open>The phases of a build\<close>

text \<open>
  Predicates that look neither at the diagnostics nor at the session counters, and that the read counters keep, are kept by
  every step of a build but the writes; together with the loop of phase 3, by every cycle.
\<close>

locale build_steps = pump_steps J P
  for J :: "('w, 'r, 'z) build_state_scheme \<Rightarrow> bool" and P :: "('w, 'r) platform" +
  fixes B :: build and T :: "'w timer"
  assumes frame_diag [simp]: "J (s\<lparr>chDiag := ds\<rparr>) = J s"
    and frame_sess [simp]: "J (s\<lparr>instrSess := se\<rparr>) = J s"
    and keeps_counted_read: "keeps J (instr_slot i (count_read dt rc))"
begin

lemma keeps_set_diag: "keeps J (set_diag i d)"
  by (simp add: keeps_def wp_simps set_diag_def)

lemma keeps_observers:
  "keeps J (observe_received P i bs rc)" "keeps J (observe_local_write P i n)" "keeps J (observe_response i bs n)" "keeps J (observe_stalls P)"
  unfolding observe_received_def observe_local_write_def observe_response_def observe_stalls_def millis_if_def
  by (intro pump_ops keeps_set_diag; simp)+

lemma keeps_timers: "keeps J (timer_b B T)" "keeps J (count_session_b B T t f)"
  unfolding timer_b_def count_session_b_def by (intro pump_ops; simp)+

lemma keeps_read_b: "keeps J (channel_read_b B T P i ch n)"
  unfolding channel_read_b_def instrRead_def by (intro pump_ops keeps_counted_read)

lemmas build_ops = pump_ops keeps_set_diag keeps_observers keeps_timers keeps_read_b keeps_add_moved keeps_store_received

lemma keeps_store_received_b: "keeps J (store_received_b B P i bs rc)"
  unfolding store_received_b_def by (intro build_ops)

lemma keeps_pump_paused_b: "keeps J (pump_paused_b B T P i)"
  unfolding pump_paused_b_def Let_def by (intro build_ops keeps_store_received_b; simp add: bookkeeping_def)

lemma keeps_read_chunks_b: "keeps J (read_chunks_b B T P i n b)"
  by (induction n arbitrary: b) (auto simp: Let_def bookkeeping_def intro!: build_ops keeps_store_received_b)

lemma keeps_read_open_channel_b: "keeps J (read_open_channel_b B T P i)"
  unfolding read_open_channel_b_def by (intro build_ops keeps_read_chunks_b keeps_check_eof_flag)

lemma keeps_pump_channel_b: "keeps J (pump_channel_b B T P i)"
  unfolding pump_channel_b_def by (intro build_ops keeps_read_open_channel_b keeps_pump_paused_b; simp add: bookkeeping_def)

lemma keeps_pump_channels_b: "keeps J (pump_channels_b B T P is b)"
  by (induction "is" arbitrary: b) (auto intro!: build_ops keeps_pump_channel_b)

lemma keeps_pumpSshTransport_b: "keeps J (pumpSshTransport_b B T P)"
  unfolding pumpSshTransport_b_def by (intro build_ops keeps_pump_channels_b)

lemma keeps_drain_local_chunk_b: "keeps J (drain_local_chunk_b B P i)"
  unfolding drain_local_chunk_b_def Let_def by (intro build_ops; simp add: bookkeeping_def)

lemma keeps_drain_local_chunks_b: "keeps J (drain_local_chunks_b B P i n)"
  by (induction n) (auto intro!: build_ops keeps_drain_local_chunk_b)

lemma keeps_drainSshToLocal_b: "keeps J (drainSshToLocal_b B P)"
  unfolding drainSshToLocal_b_def drain_local_channel_b_def by (intro build_ops keeps_drain_local_chunks_b)

lemma keeps_recv_chunks_b: "keeps J (recv_chunks_b B P i n)"
  by (induction n) (auto simp: Let_def bookkeeping_def intro!: build_ops)

lemma keeps_recv_channel_b: "keeps J (recv_channel_b B P i)"
  unfolding recv_channel_b_def by (intro build_ops keeps_recv_chunks_b)

lemma keeps_abandonSlot_b: "keeps J (abandonSlot_b B P i r)"
  by (simp add: abandonSlot_b_split) (intro build_ops)

lemma keeps_check_draining_b: "keeps J (check_draining_b B P now n is work)"
  by (induction "is" arbitrary: work) (auto intro!: build_ops keeps_abandonSlot_b keeps_case_decision)

lemma keeps_checkCloses_b: "keeps J (checkCloses_b B P)"
  unfolding checkCloses_b_def Let_def by (intro build_ops keeps_check_open keeps_check_draining_b keeps_finalize_one)

end

locale build_frame = build_steps J P B T
  for J :: "('w, 'r, 'z) build_state_scheme \<Rightarrow> bool" and P :: "('w, 'r) platform" and B :: build and T :: "'w timer" +
  assumes remote: "J s \<Longrightarrow> wp (for_each (drain_remote_channel_b B T P) (pump_order s)) (\<lambda>_. J) s"
begin

lemma keeps_drainLocalToSsh_b: "keeps J (drainLocalToSsh_b B T P)"
proof -
  let ?loop = "do { order \<leftarrow> gets pump_order; for_each (drain_remote_channel_b B T P) order }"
  have loop: "keeps J ?loop" using remote by (simp add: keeps_def wp_simps)
  have eq: "drainLocalToSsh_b B T P = do {
      t0 \<leftarrow> timer_b B T; n \<leftarrow> gets maxSlots;
      if n = 0 then count_session_b B T t0 count_phase3
      else do { ?loop; modify (\<lambda>s. s\<lparr>roundRobinOffset := roundRobinOffset s + 1\<rparr>); count_session_b B T t0 count_phase3 } }"
    unfolding drainLocalToSsh_b_def bind_assoc ..
  show ?thesis unfolding eq by (intro loop build_ops; simp)
qed

lemma keeps_pumpAll_b: "keeps J (pumpAll_b B T P)"
  unfolding pumpAll_b_def
  by (intro build_ops keeps_pumpSshTransport_b keeps_drainSshToLocal_b keeps_drainLocalToSsh_b keeps_checkCloses_b; simp)

end

section \<open>Writing\<close>

text \<open>The slot of a channel that is written to stays active during the writes.\<close>

definition in_use :: "int \<Rightarrow> ('w, 'r, 'z) channel_state_scheme \<Rightarrow> bool" where
  "in_use i s \<longleftrightarrow> in_range i s \<and> has_slot i s \<and> active (getSlot i s)"

interpretation in_use: channel_frame "in_use i" for i
  by unfold_locales (simp_all add: in_use_def in_range_def has_slot_def getSlot_def)

lemma in_use_upd: "sent_neutral f \<Longrightarrow> in_use i (upd_slot j f s) = in_use i s"
  by (simp add: in_use_def in_range_def sent_neutral_slot)

lemma keeps_in_use_slot: "(\<And>sl. active (f sl) = active sl) \<Longrightarrow> keeps (in_use i) (modify_slot i f)"
  by (simp add: keeps_def wp_simps modify_slot_def in_use_def in_range_def)

lemma keeps_in_use_ring: "keeps (in_use i) (on_ring i dir d f)"
  unfolding on_ring_def by (intro in_use.prims2 keeps_in_use_slot; cases dir; simp)

lemma keeps_in_use_read: "keeps (in_use i) (ring_read P i dir n)"
  unfolding ring_read_def by (rule keeps_in_use_ring)

lemma keeps_in_use_begin: "keeps (in_use i) (beginClose P i r)"
  unfolding beginClose_def by (intro in_use.prims2 keeps_in_use_slot; simp)

lemma keeps_in_use_moved: "keeps (in_use i) (add_moved n)"
  by (simp add: keeps_def wp_simps add_moved_def in_use_def in_range_def has_slot_def getSlot_def)

lemma keeps_in_use_steps: "keeps (in_use i) (restore_and_account P i dir bs)" "keeps (in_use i) (channel_error P i)"
  unfolding restore_and_account_def channel_error_def restoreUnsent_def accountRestoreDrop_def
  by (intro in_use.prims2 keeps_in_use_slot keeps_in_use_ring keeps_in_use_begin; simp)+

abbreviation writing :: "int \<Rightarrow> u32 \<Rightarrow> int \<Rightarrow> ('w, 'r, 'z) build_state_scheme \<Rightarrow> bool" where
  "writing k c i \<equiv> \<lambda>s. accounted k c s \<and> in_use i s"

lemma ucast_add_of_int: "(ucast (a + of_int n :: u64) :: u32) = ucast a + of_int n"
proof -
  have "(x + y) mod 2 ^ 64 mod 2 ^ 32 = (x mod 2 ^ 64 + y) mod 2 ^ 32" for x y :: int
  proof -
    have "(x + y) mod 2 ^ 64 mod 2 ^ 32 = (x + y) mod 2 ^ 32" by (rule mod_mod_cancel) simp
    also have "\<dots> = (x mod 2 ^ 64 mod 2 ^ 32 + y) mod 2 ^ 32" by (subst mod_mod_cancel) (simp_all add: mod_add_left_eq)
    finally show ?thesis by (simp add: mod_add_left_eq)
  qed
  then show ?thesis by transfer (simp add: take_bit_eq_mod mod_add_left_eq mod_add_right_eq)
qed

lemma written_sum_count_write:
  assumes "k < length ics"
  shows "written_sum (ics[k := count_write dt rc (ics ! k)]) = written_sum ics + (if rc > 0 then of_int rc else 0)"
  using assms by (simp add: written_sum_def sum_list_map_update count_write_def Let_def ucast_add_of_int)

text \<open>Right after a successful write the counters are ahead of the slot, until it has counted the bytes too.\<close>

lemma keeps_channel_write:
  fixes P :: "('w, 'r) platform"
  assumes "TUNNEL_INSTRUMENT B"
    and "\<And>w. keeps (writing k c i) (rest w)" and "\<And>w. keeps (writing k c i) (other w)"
  shows "keeps (writing k c i :: ('w, 'r, 'z) build_state_scheme \<Rightarrow> bool) (do {
    w \<leftarrow> channel_write_b B T P i ch data;
    if w > 0 then do { modify_slot i (\<lambda>sl. sl\<lparr>totalBytesSent := totalBytesSent sl + of_int w\<rparr>); rest w } else other w })"
proof (rule keepsI)
  fix s :: "('w, 'r, 'z) build_state_scheme"
  assume a: "writing k c i s"
  obtain t0 w0 where 0: "T (world s) = (t0, w0)" by force
  obtain rc w1 where 1: "libssh2_channel_write P ch data w0 = (rc, w1)" by force
  obtain t1 w2 where 2: "T w1 = (t1, w2)" by force
  define s1 where "s1 = s\<lparr>world := w2, instrCh := (instrCh s)[nat i := count_write (t1 - t0) rc (instrCh s ! nat i)]\<rparr>"
  have i: "0 \<le> i" "i < int INSTR_MAX_CHANNELS" "nat i < length (instrCh s)"
    using a by (auto simp: accounted_def in_use_def in_range_def)
  have wrote: "run_state (channel_write_b B T P i ch data) s = (rc, s1)"
    using assms(1) i by (simp add: channel_write_b_def instrWrite_def instr_slot_def 0 1 2 s1_def)
  have tot: "getTotalBytesSent s1 = getTotalBytesSent s"
    by (simp add: s1_def getTotalBytesSent_def total_over_active_def getSlot_def cong: if_cong)
  have used: "in_use i s1" using a by (simp add: s1_def in_use_def in_range_def has_slot_def getSlot_def)
  have "chan_inv (\<lambda>_. True) s1" using a by (auto simp: s1_def accounted_def chan_inv_def)
  then have inv: "chan_inv (\<lambda>_. True) (upd_slot i (\<lambda>sl. sl\<lparr>totalBytesSent := totalBytesSent sl + n\<rparr>) s1)" for n
    by (rule chan_inv_upd) (auto simp: slot_defs split: if_splits)
  have "writing k c i (upd_slot i (\<lambda>sl. sl\<lparr>totalBytesSent := totalBytesSent sl + of_int rc\<rparr>) s1)" if "rc > 0"
    using that a i inv used tot total_sent_added [of i s1 "of_int rc"]
    by (simp add: accounted_def in_use_def in_range_def s1_def written_sum_count_write)
  moreover have "writing k c i s1" if "\<not> rc > 0"
    using that a i used tot \<open>chan_inv _ s1\<close> by (simp add: accounted_def s1_def written_sum_count_write)
  ultimately show "wp (do { w \<leftarrow> channel_write_b B T P i ch data;
      if w > 0 then do { modify_slot i (\<lambda>sl. sl\<lparr>totalBytesSent := totalBytesSent sl + of_int w\<rparr>); rest w } else other w })
      (\<lambda>_. writing k c i) s"
    using keepsD [OF assms(2) [of rc]] keepsD [OF assms(3) [of rc]] wrote
    by (simp add: wp_def modify_slot_def)
qed

lemma keeps_writing:
  "keeps (writing k c i) (gets g)" "keeps (writing k c i) (ext f)" "keeps (writing k c i) (add_moved n)"
  "keeps (writing k c i) (ring_read P i dir n)" "keeps (writing k c i) (restore_and_account P i dir bs)"
  "keeps (writing k c i) (channel_error P i)" "bookkeeping h \<Longrightarrow> keeps (writing k c i) (modify_slot i h)"
  by (intro keeps_conj keeps_gets in_use.keeps_ext accounted.keeps_ext accounted.keeps_add_moved keeps_in_use_moved
      accounted.keeps_ring_read accounted.keeps_restore_and_account accounted.keeps_channel_error accounted.keeps_book
      keeps_in_use_steps keeps_in_use_slot keeps_in_use_read;
      simp add: bookkeeping_def)+

lemma keeps_write_chunk_b: "TUNNEL_INSTRUMENT B \<Longrightarrow> keeps (writing k c i) (write_chunk_b B T P i n)"
  unfolding write_chunk_b_def Let_def
  by (intro keeps_channel_write keeps_writing keeps_intros; simp add: bookkeeping_def)

lemma keeps_write_loop_b: "TUNNEL_INSTRUMENT B \<Longrightarrow> keeps (writing k c i) (write_loop_b B T P i fuel n)"
  by (induction fuel arbitrary: n) (subst write_loop_b.simps; auto intro!: keeps_intros keeps_write_chunk_b)+

lemma write_channel_b_accounted:
  assumes "TUNNEL_INSTRUMENT B" and "writing k c i s"
  shows "wp (write_channel_b B T P i) (\<lambda>_. accounted k c) s"
proof -
  have lock: "keeps (writing k c i) (session_lock P t)" "keeps (writing k c i) (session_unlock P)" for t
    unfolding session_lock_def session_unlock_def Let_def by (intro keeps_writing keeps_intros)+
  have stall: "accounted k c s1 \<Longrightarrow> wp (check_write_stall P i) (\<lambda>_. accounted k c) s1" for s1
    by (rule keepsD [OF accounted.keeps_check_write_stall])
  show ?thesis
    using assms unfolding write_channel_b_def
    by (auto simp: wp_simps intro!: wp_keep [OF lock(1)] wp_keep [OF lock(2)] wp_keep [OF keeps_write_loop_b [OF assms(1)]] stall)
qed

lemma written_sum_count_read: "written_sum (ics[n := count_read dt rc (ics ! n)]) = written_sum ics"
  by (cases "n < length ics") (simp_all add: written_sum_def sum_list_map_update count_read_def Let_def list_update_beyond)

lemma counted_read_accounted: "keeps (accounted k c) (instr_slot i (count_read dt rc))"
  by (auto simp: keeps_def wp_simps instr_slot_def accounted_def written_sum_count_read chan_inv_def getTotalBytesSent_def
      total_over_active_def getSlot_def cong: if_cong)

interpretation accounted: build_steps "accounted k c" P B T for k c P B T
proof
  fix s :: "('a, 'b, 'c) build_state_scheme" and i dt rc ds se
  show "accounted k c (s\<lparr>chDiag := ds\<rparr>) = accounted k c s" "accounted k c (s\<lparr>instrSess := se\<rparr>) = accounted k c s"
    by (auto simp: accounted_def chan_inv_def getTotalBytesSent_def total_over_active_def getSlot_def cong: if_cong)
  show "keeps (accounted k c :: ('a, 'b, 'c) build_state_scheme \<Rightarrow> bool) (instr_slot i (count_read dt rc))"
    by (rule counted_read_accounted)
qed

lemma drain_remote_channel_b_accounted:
  fixes P :: "('w, 'r) platform"
  assumes "TUNNEL_INSTRUMENT B" and "0 \<le> i" and "i < k"
  shows "keeps (accounted k c :: ('w, 'r, 'z) build_state_scheme \<Rightarrow> bool) (drain_remote_channel_b B T P i)"
proof (rule keepsI)
  fix s :: "('w, 'r, 'z) build_state_scheme"
  assume a: "accounted k c s"
  have tail: "keeps (accounted k c :: ('w, 'r, 'z) build_state_scheme \<Rightarrow> bool) (do { modify_slot i (update_backpressure P); recv_channel_b B P i })"
    by (intro accounted.pump_ops accounted.bookkeeping_backpressure accounted.keeps_recv_channel_b)
  have use: "writing k c i s" if "active (getSlot i s)"
    using a that assms(2,3) has_slot_in_range [of "\<lambda>_. True" s i] by (simp add: accounted_def in_use_def in_range_def)
  show "wp (drain_remote_channel_b B T P i) (\<lambda>_. accounted k c) s"
    using a wp_mono [OF write_channel_b_accounted [OF assms(1) use] keepsD [OF tail]]
    by (auto simp: drain_remote_channel_b_def wp_simps wp_bind_fun)
qed

lemma accounted_cycle:
  fixes P :: "('w, 'r) platform"
  assumes "TUNNEL_INSTRUMENT B"
  shows "build_frame (accounted k c :: ('w, 'r, 'z) build_state_scheme \<Rightarrow> bool) P B T"
proof
  fix s :: "('w, 'r, 'z) build_state_scheme"
  assume s: "accounted k c s"
  then have "0 \<le> i \<and> i < k" if "i \<in> set (pump_order s)" for i
    using pump_order_range [OF that] by (auto simp: accounted_def in_range_def)
  then have "keeps (accounted k c :: ('w, 'r, 'z) build_state_scheme \<Rightarrow> bool) (for_each (drain_remote_channel_b B T P) (pump_order s))"
    using drain_remote_channel_b_accounted [OF assms] by (intro keeps_for_each) blast
  from keepsD [OF this s] show "wp (for_each (drain_remote_channel_b B T P) (pump_order s)) (\<lambda>_. accounted k c) s" .
qed

interpretation timed: build_frame "accounted k c" P "\<lparr>TUNNEL_INSTRUMENT = True, TUNNEL_DIAG_LOG_ONLY = d\<rparr>" T for k c P d T
  by (rule accounted_cycle) simp

section \<open>Properties\<close>

text \<open>A running tunnel as a build with both switches has it: fresh counters and diagnostics.\<close>

definition bs_running :: "(ref_world, cring) build_state" where
  "bs_running = pump_state.extend (pump_state.truncate sc_running)
     (build_state.fields (replicate INSTR_MAX_CHANNELS instr_channel_zero) instr_session_zero [diag_reset])"

definition bs_platform :: "(ref_world, cring) platform" where
  "bs_platform = ref_platform\<lparr>p_millis := \<lambda>w. (rw_clock w, w)\<rparr>"

definition bs_timer :: "ref_world timer" where
  "bs_timer w = (ucast (rw_clock w) * 1000, w)"

definition bs_build :: build where
  "bs_build = \<lparr>TUNNEL_INSTRUMENT = True, TUNNEL_DIAG_LOG_ONLY = True\<rparr>"

lemma bs_running_inv: "chan_inv (\<lambda>_. True) bs_running" "maxSlots bs_running = 1" "length (instrCh bs_running) = INSTR_MAX_CHANNELS"
proof -
  have "chan_inv (\<lambda>_. True) sc_running" using any_ring.reach_inv [OF sc_running_reach] by (simp add: tunnel_inv_def)
  then show "chan_inv (\<lambda>_. True) bs_running" by (simp add: bs_running_def chan_inv_def pump_state.defs build_state.defs)
  show "maxSlots bs_running = 1" "length (instrCh bs_running) = INSTR_MAX_CHANNELS"
    by (simp_all add: bs_running_def pump_state.defs build_state.defs sc_running_slot)
qed

text \<open>
  C11: The switches of the build do not change what the pump does. In every build (with or without instrumentation, with or
  without HTTP diagnostics), a cycle of the pump and the binding of a channel return the same result, make the same calls to
  libssh2, the sockets and the system with the same arguments, and leave the same state of session, channels and pump as in the
  plain build; only the members that the switches add differ. It is assumed that reading a clock has no effect.
\<close>

theorem builds_equivalent:
  assumes "clocks_only_read B T P"
  shows "run_state (pumpAll P) (pump_state.truncate s) = map_prod id pump_state.truncate (run_state (pumpAll_b B T P) s)
    \<and> run_state (bindChannel P i ch m) (pump_state.truncate s) = map_prod id pump_state.truncate (run_state (bindChannel_b B P i ch m) s)"
  by (intro conjI mirrorsD mirrors_pumpAll [OF assms] mirrors_bindChannel)

theorem builds_equivalent_witness:
  "clocks_only_read bs_build bs_timer bs_platform
   \<and> run_state (pumpAll bs_platform) (pump_state.truncate bs_running)
     = map_prod id pump_state.truncate (run_state (pumpAll_b bs_build bs_timer bs_platform) bs_running)"
  using builds_equivalent [of bs_build bs_timer bs_platform bs_running]
  by (simp add: clocks_only_read_def bs_build_def bs_timer_def bs_platform_def)

text \<open>
  C12: The instrumentation counts what is sent. In a build with instrumentation and at most eight slots, the counters
  \<open>write_bytes\<close> of all channels together grow in a cycle of the pump by exactly as much as the total of sent bytes that the
  tunnel reports (modulo \<open>2^32\<close>), whether writes are complete, partial or refused, and across the closing and abandoning of channels.
\<close>

theorem instrumentation_counts_sent:
  assumes "TUNNEL_INSTRUMENT B" and "chan_inv (\<lambda>_. True) s" and "maxSlots s \<le> int INSTR_MAX_CHANNELS"
    and "length (instrCh s) = INSTR_MAX_CHANNELS" and "run_state (pumpAll_b B T P) s = (r, s')"
  shows "getTotalBytesSent s' - getTotalBytesSent s = written_sum (instrCh s') - written_sum (instrCh s)"
proof -
  define c where "c = getTotalBytesSent s - written_sum (instrCh s)"
  obtain d where B: "B = \<lparr>TUNNEL_INSTRUMENT = True, TUNNEL_DIAG_LOG_ONLY = d\<rparr>" using assms(1) by (cases B) simp
  have "accounted (maxSlots s) c s" using assms by (simp add: accounted_def c_def)
  from keeps_run [OF timed.keeps_pumpAll_b this assms(5) [unfolded B]]
  show ?thesis by (simp add: accounted_def c_def)
qed

theorem instrumentation_counts_sent_witness:
  "TUNNEL_INSTRUMENT bs_build \<and> maxSlots bs_running \<le> int INSTR_MAX_CHANNELS
   \<and> (let s' = after (pumpAll_b bs_build bs_timer ref_platform) bs_running in
        getTotalBytesSent s' - getTotalBytesSent bs_running = written_sum (instrCh s') - written_sum (instrCh bs_running))"
  using instrumentation_counts_sent [OF _ bs_running_inv(1) _ bs_running_inv(3) surjective_pairing, of bs_build bs_timer ref_platform]
  by (simp add: bs_build_def bs_running_inv INSTR_MAX_CHANNELS_def after_def Let_def)

end
