(* ===== verification/Log_Lines.thy ===== *)
theory Log_Lines
  imports Heap_Checks Config_Report Pump_Instrument Firmware_Main
begin

text \<open>
  Functions whose only purpose is a log line, with the text that they make: the heap reports of the connection and of the
  Minis client, the trace of libssh2, the periodic report of the firmware with the lines that \<open>Firmware_Main.reportStats\<close>
  leaves out, and the callbacks of the tunnel. FreeRTOS and the radio are the record \<open>report_api\<close>; arguments of one call are
  evaluated from left to right.

  The lemmas: the trace line is the longest prefix of the data that fits and does not end in a line break; the
  instrumentation report is cut at 255 characters by the logger, although its own buffer has 512 bytes.
\<close>

record 'w report_api =
  ra_millis :: "'w \<Rightarrow> u32 \<times> 'w"
  ra_rssi :: "'w \<Rightarrow> int \<times> 'w"
  ra_task_queries :: bool
  ra_xTaskGetHandle :: "string \<Rightarrow> 'w \<Rightarrow> nat \<times> 'w"
  ra_stackHighWaterMark :: "nat \<Rightarrow> 'w \<Rightarrow> u32 \<times> 'w"

text \<open>The two task handles are static variables of \<open>reportStats\<close>.\<close>

record 'w report_state = "'w logger_state" +
  rs_minisTask :: nat
  rs_buttonTask :: nat

type_synonym ('w, 'z, 'a) report_op = "(('w, 'z) report_state_scheme, 'a) state"

section \<open>Heap reports\<close>

definition logSshConnectHeap :: "'w console \<Rightarrow> 'w heap_api \<Rightarrow> string \<Rightarrow> ('w, 'z, unit) log_op" where
  "logSshConnectHeap C H stage = do {
     free \<leftarrow> ext (h_getFreeHeap H);
     mn \<leftarrow> ext (h_getMinFreeHeap H);
     largest \<leftarrow> ext (h_largest_8bit H);
     logger_logf C LOG_INFO ''MEMORY'' (''SSH_CONNECT_HEAP stage='' @ c_str stage @ '' free='' @ fmt_u free @ '' min='' @ fmt_u mn
       @ '' largest='' @ fmt_u largest) }"

definition logTlsHeap :: "'w console \<Rightarrow> 'w heap_api \<Rightarrow> string \<Rightarrow> ('w, 'z, unit) log_op" where
  "logTlsHeap C H stage = do {
     freeHeap \<leftarrow> ext (h_getFreeHeap H);
     largestBlock \<leftarrow> ext (h_largest_8bit H);
     mn \<leftarrow> ext (h_getMinFreeHeap H);
     logger_logf C LOG_INFO ''MINIS'' (''TLS heap '' @ c_str stage @ '': free='' @ fmt_u freeHeap @ '' largest='' @ fmt_u largestBlock
       @ '' min='' @ fmt_u mn) }"

section \<open>The trace of libssh2\<close>

text \<open>The loop that shortens the text, on the part of the buffer that is in use.\<close>

fun strip_breaks :: "string \<Rightarrow> nat \<Rightarrow> nat" where
  "strip_breaks buf 0 = 0"
| "strip_breaks buf (Suc n) = (if buf ! n = LF \<or> buf ! n = CR then strip_breaks buf n else Suc n)"

definition libssh2TraceToLogger :: "'w console \<Rightarrow> string option \<Rightarrow> ('w, 'z, unit) log_op" where
  "libssh2TraceToLogger C data =
     (case data of
        None \<Rightarrow> ret ()
      | Some bs \<Rightarrow>
          if length bs = 0 then ret ()
          else do {
            let n = (if length bs < 256 - 1 then length bs else 256 - 1);
            let buf = take n bs;
            logger_logf C LOG_DEBUG ''LIBSSH2'' (c_str (take (strip_breaks buf n) buf)) })"

section \<open>The periodic report\<close>

definition CRITICAL_FREE_HEAP_BYTES :: u32 where "CRITICAL_FREE_HEAP_BYTES = 12 * 1024"
definition CRITICAL_LARGEST_BLOCK_BYTES :: u32 where "CRITICAL_LARGEST_BLOCK_BYTES = 4 * 1024"

text \<open>The lines about the tunnel: its state, channels and totals, and the two rates of \<open>Firmware_Main.reportStats\<close>.\<close>

definition stats_lines :: "'w console \<Rightarrow> u32 \<Rightarrow> ('v, 'r, 'y) tunnel_scheme \<Rightarrow> u32 \<times> u32 \<Rightarrow> ('w, 'z, unit) log_op" where
  "stats_lines C freeHeap t rates = do {
     whenM (freeHeap > 10000) (do {
       logger_logf C LOG_INFO ''STATS'' (''Tunnel State: '' @ c_str (getStateString t));
       logger_logf C LOG_INFO ''STATS'' (''Active Channels: '' @ fmt_d (activeCount t));
       logger_logf C LOG_INFO ''STATS'' (''Bytes Sent: '' @ fmt_u (bytesSent t));
       logger_logf C LOG_INFO ''STATS'' (''Bytes Received: '' @ fmt_u (bytesReceived t));
       logger_logf C LOG_INFO ''STATS'' (''Bytes Dropped: '' @ fmt_u (bytesDropped t)) });
     whenM (freeHeap > 8000) (do {
       logger_logf C LOG_INFO ''STATS'' (''Send Rate: '' @ fmt_u (fst rates) @ '' B/s'');
       logger_logf C LOG_INFO ''STATS'' (''Receive Rate: '' @ fmt_u (snd rates) @ '' B/s'') }) }"

definition system_lines :: "'w console \<Rightarrow> 'w report_api \<Rightarrow> u32 \<Rightarrow> u32 \<Rightarrow> u32 \<Rightarrow> ('w, 'z, unit) log_op" where
  "system_lines C A freeHeap minFreeHeap largestFreeBlock = do {
     rssi \<leftarrow> ext (ra_rssi A);
     logger_logf C LOG_INFO ''WIFI'' (''RSSI: '' @ fmt_d rssi @ '' dBm'');
     logger_logf C LOG_INFO ''SYSTEM'' (''Free Heap: '' @ fmt_d (sint freeHeap) @ '' bytes (min: '' @ fmt_d (sint minFreeHeap)
       @ '', largest: '' @ fmt_d (sint largestFreeBlock) @ '')'');
     now \<leftarrow> ext (ra_millis A);
     logger_logf C LOG_INFO ''SYSTEM'' (''Uptime: '' @ fmt_u (now div 1000) @ '' seconds'') }"

text \<open>The report of the instrumentation, in builds that have it.\<close>

definition transport_line :: "'w console \<Rightarrow> instr_session \<Rightarrow> instr_channel list \<Rightarrow> ('w, 'z, unit) log_op" where
  "transport_line C sess chs =
     (case formatInstrumentation sess chs 512 of
        (txt, n) \<Rightarrow> whenM (n > 0) (logger_logf C LOG_INFO ''PERF'' (''TRANSPORT '' @ txt)))"

definition stack_line :: "'w console \<Rightarrow> 'w report_api \<Rightarrow> string \<Rightarrow> nat \<Rightarrow> ('w, 'z, unit) log_op" where
  "stack_line C A name task = whenM (task \<noteq> NULL) (do {
     freeStack \<leftarrow> ext (ra_stackHighWaterMark A task);
     logger_logf C LOG_INFO ''STACK'' (name @ '' minimum free stack: '' @ fmt_u freeStack @ '' bytes'') })"

definition stack_lines :: "'w console \<Rightarrow> 'w report_api \<Rightarrow> ('w, 'z, unit) report_op" where
  "stack_lines C A = whenM (ra_task_queries A) (do {
     m \<leftarrow> gets rs_minisTask;
     whenM (m = NULL) (do { h \<leftarrow> ext (ra_xTaskGetHandle A ''minis_hb''); modify (\<lambda>s. s\<lparr>rs_minisTask := h\<rparr>) });
     b \<leftarrow> gets rs_buttonTask;
     whenM (b = NULL) (do { h \<leftarrow> ext (ra_xTaskGetHandle A ''cfg-button''); modify (\<lambda>s. s\<lparr>rs_buttonTask := h\<rparr>) });
     m \<leftarrow> gets rs_minisTask;
     stack_line C A ''minis_hb'' m;
     b \<leftarrow> gets rs_buttonTask;
     stack_line C A ''cfg-button'' b })"

definition memory_lines :: "'w console \<Rightarrow> u32 \<Rightarrow> u32 \<Rightarrow> ('w, 'z, unit) log_op" where
  "memory_lines C freeHeap largestFreeBlock = do {
     whenM (freeHeap < CRITICAL_FREE_HEAP_BYTES)
       (logger_logf C LOG_WARN ''MEMORY'' (''Critical free heap: '' @ fmt_u freeHeap @ '' bytes''));
     whenM (freeHeap \<ge> CRITICAL_FREE_HEAP_BYTES \<and> largestFreeBlock < CRITICAL_LARGEST_BLOCK_BYTES)
       (logger_logf C LOG_WARN ''MEMORY'' (''Critical heap fragmentation: largest block '' @ fmt_u largestFreeBlock @ '' bytes'')) }"

text \<open>The report that follows when \<open>reportStats\<close> of \<open>Firmware_Main\<close> finds it due and has computed the rates.\<close>

definition report_lines ::
  "'w console \<Rightarrow> 'w heap_api \<Rightarrow> 'w report_api \<Rightarrow> bool \<Rightarrow> ('v, 'r, 'y) tunnel_scheme \<Rightarrow> u32 \<times> u32 \<Rightarrow> instr_session \<Rightarrow> instr_channel list
   \<Rightarrow> ('w, 'z, unit) report_op" where
  "report_lines C H A instrument t rates sess chs = do {
     freeHeap \<leftarrow> ext (h_getFreeHeap H);
     minFreeHeap \<leftarrow> ext (h_getMinFreeHeap H);
     largestFreeBlock \<leftarrow> ext (h_largest_8bit H);
     stats_lines C freeHeap t rates;
     system_lines C A freeHeap minFreeHeap largestFreeBlock;
     whenM instrument (transport_line C sess chs);
     stack_lines C A;
     memory_lines C freeHeap largestFreeBlock }"

section \<open>The callbacks of the tunnel\<close>

definition onSessionConnected_line :: "'w console \<Rightarrow> ('w, 'z, unit) log_op" where
  "onSessionConnected_line C = logger_log C LOG_INFO ''CALLBACK'' ''SSH session established''"

definition onSessionDisconnected_line :: "'w console \<Rightarrow> ('w, 'z, unit) log_op" where
  "onSessionDisconnected_line C = logger_log C LOG_INFO ''CALLBACK'' ''SSH session disconnected''"

definition onChannelOpened_line :: "'w console \<Rightarrow> int \<Rightarrow> ('w, 'z, unit) log_op" where
  "onChannelOpened_line C channel = logger_logf C LOG_INFO ''CALLBACK'' (''Channel '' @ fmt_d channel @ '' opened'')"

definition onChannelClosed_line :: "'w console \<Rightarrow> int \<Rightarrow> close_reason \<Rightarrow> ('w, 'z, unit) log_op" where
  "onChannelClosed_line C channel reason =
     logger_logf C LOG_INFO ''CALLBACK'' (''Channel '' @ fmt_d channel @ '' closed ('' @ closeReasonToString reason @ '')'')"

definition onTunnelError_line :: "'w console \<Rightarrow> int \<Rightarrow> string option \<Rightarrow> ('w, 'z, unit) log_op" where
  "onTunnelError_line C code detail = logger_logf C LOG_WARN ''CALLBACK''
     (''Tunnel error '' @ fmt_d code @ '': '' @ (case detail of None \<Rightarrow> ''(none)'' | Some d \<Rightarrow> c_str d))"

section \<open>Lemmas\<close>

text \<open>What is left of a trace text: a prefix without line breaks at its end, and nothing but line breaks is cut off.\<close>

lemma strip_breaks_spec:
  "n \<le> length buf \<Longrightarrow> strip_breaks buf n \<le> n \<and> (strip_breaks buf n > 0 \<longrightarrow> buf ! (strip_breaks buf n - 1) \<notin> {LF, CR})
     \<and> set (drop (strip_breaks buf n) (take n buf)) \<subseteq> {LF, CR}"
proof (induction n)
  case (Suc n)
  then have "take (Suc n) buf = take n buf @ [buf ! n]" by (simp add: take_Suc_conv_app_nth)
  then show ?case using Suc by (cases "buf ! n = LF \<or> buf ! n = CR") (auto simp: le_SucI)
qed simp

lemma frame_log: "keeps (log_frame s) (logger_log C level tg message)"
  unfolding logger_log_def buildLogPrefix_def ensureTimeSyncConfigured_def uptime_prefix_def
  by (intro keeps_intros frame_ext keeps_modify) simp

text \<open>None of these functions changes anything but the world and the time setting.\<close>

lemma frame_lines:
  "keeps (log_frame s) (logSshConnectHeap C H stage)" "keeps (log_frame s) (logTlsHeap C H stage)"
  "keeps (log_frame s) (libssh2TraceToLogger C data)" "keeps (log_frame s) (stats_lines C f t r)"
  "keeps (log_frame s) (system_lines C A f m l)" "keeps (log_frame s) (transport_line C sess chs)"
  "keeps (log_frame s) (memory_lines C f l)" "keeps (log_frame s) (onTunnelError_line C code detail)"
  unfolding logSshConnectHeap_def logTlsHeap_def libssh2TraceToLogger_def stats_lines_def system_lines_def transport_line_def
    memory_lines_def onTunnelError_line_def Let_def
  by (intro keeps_intros frame_ext frame_logf frame_log)+

text \<open>The report holds no zero character, so that a C string of it is complete.\<close>

definition zero_free :: "string \<Rightarrow> bool" where
  "zero_free s \<longleftrightarrow> list_all (\<lambda>ch. of_char ch \<noteq> (0 :: nat)) s"

lemma zero_free_simps [simp]:
  "zero_free []" "zero_free (c # xs) \<longleftrightarrow> of_char c \<noteq> (0 :: nat) \<and> zero_free xs" "zero_free (xs @ ys) \<longleftrightarrow> zero_free xs \<and> zero_free ys"
  by (simp_all add: zero_free_def)

lemma c_str_zero_free: "zero_free s \<Longrightarrow> c_str s = s"
  by (simp add: zero_free_def c_str_def takeWhile_eq_all_conv list_all_iff)

lemma zero_free_decimal [simp]: "zero_free (decimal n)"
  using decimal_digits [of n] unfolding zero_free_def list_all_iff isdigit_def char_code_def by fastforce

lemma zero_free_texts: "zero_free (session_text sess)" "zero_free (channel_text i ic)"
  by (simp_all add: session_text_def channel_text_def Let_def)

lemma zero_free_full: "zero_free (full_text ics)"
  by (induction ics) (auto simp: full_text_def zero_free_texts)

lemma zero_free_report:
  assumes "formatInstrumentation sess chs 512 = (txt, n)"
  shows "zero_free txt"
proof -
  have "prefix txt (session_text sess @ full_text (enumerate 0 (take INSTR_MAX_CHANNELS chs)))"
    using report_fits [OF _ _ assms] by simp
  then obtain rest where "session_text sess @ full_text (enumerate 0 (take INSTR_MAX_CHANNELS chs)) = txt @ rest" by (auto simp: prefix_def)
  moreover have "zero_free (session_text sess @ full_text (enumerate 0 (take INSTR_MAX_CHANNELS chs)))"
    by (simp add: zero_free_texts zero_free_full)
  ultimately show ?thesis by simp
qed

text \<open>The logger keeps 255 characters of the line, so at most 245 of the report, however many counters it holds.\<close>

lemma transport_line_cut:
  assumes "calendar_valid C" and "LOG_INFO \<le> minLogLevel (debugConfig s)" and "tunnelDiagLogTagAllowed (con_diag_only C) (Some ''PERF'')"
    and r: "formatInstrumentation sess chs 512 = (txt, n)" and n: "n > 0"
  shows "wp (transport_line (transcript C) sess chs)
    (\<lambda>_ s'. \<exists>p. printed s' = printed s @ [p @ '' [PERF] TRANSPORT '' @ take 245 txt @ [CHR 0x0A]]) s"
proof -
  define l where "l = ''TRANSPORT '' @ txt"
  have "zero_free l" using zero_free_report [OF r] by (simp add: l_def)
  then have c: "c_str l = l" by (rule c_str_zero_free)
  have tg: "c_str ''PERF'' = ''PERF''" by (rule c_str_zero_free) simp
  have cut: "take 255 l = ''TRANSPORT '' @ take 245 txt" by (simp add: l_def)
  obtain s' where run: "run_state (logger_logf (transcript C) LOG_INFO ''PERF'' l) s = ((), s')" by (metis old.unit.exhaust surj_pair)
  from log_prints [OF assms(1), of LOG_INFO "''PERF''" l s] assms(2,3)
  obtain p where "printed s' = printed s @ [(fst p @ getLevelString LOG_INFO) @ '' [PERF] TRANSPORT '' @ take 245 txt @ [CHR 0x0A]]"
    unfolding wp_def run by (auto simp: c tg cut)
  moreover have "run_state (transport_line (transcript C) sess chs) s = ((), s')"
    using n run by (simp only: transport_line_def r prod.case run_state_whenM if_True l_def)
  ultimately show ?thesis unfolding wp_def by (simp only: prod.case) (rule exI, rule refl)
qed

end
