(* ===== verification/Known_Defects.thy ===== *)
theory Known_Defects
  imports Managed_Config Scheduling
begin

text \<open>
  Statements about what the code does where a comment, or the purpose of the code, says something else. Each is a
  consequence of the definitions that the rest of the development verifies.
\<close>

section \<open>Ring buffers that could not be allocated\<close>

text \<open>
  The constructor of \<open>DataRingBuffer\<close> sets its capacity before it allocates anything and keeps it when an allocation
  fails. \<open>bindChannel\<close> takes a capacity of zero for the sign of a failure, so it never sees one.
\<close>

lemma ring_capacity_hides_failure: "wp (drb_new P sz tg) (\<lambda>d _. drb_capacityBytes d = sz) s"
  unfolding drb_new_def by (simp add: wp_iff_run drb_capacityBytes_def split_beta Let_def)

section \<open>Putting back into an occupied area\<close>

text \<open>
  The comment on \<open>DataRingBuffer::writeToFront\<close> says that it returns 0 when the put-back buffer is occupied. The code stores
  bytes that fit in front of those that are there.
\<close>

lemma occupied_area_accepts:
  assumes "pb_inv p" and "pb_isBound p" and "0 < pb_pending p" and "bs \<noteq> []" and "length bs + pb_pending p \<le> pb_cap p"
  shows "fst (pb_writeToFront (Some bs) (length bs) p) = length bs"
proof -
  have "0 < length bs" using assms(4) by simp
  then show ?thesis by (rule pb_writeToFront_accept [OF assms(1,2) _ assms(5) order_refl]) simp
qed

section \<open>Reads of paused channels\<close>

text \<open>
  While a channel is paused, up to 64 bytes are read into the pump's buffer, also when it is smaller than that: validation accepts every
  positive buffer size. The model passes the bytes as a value, so the overrun shows as a read that is longer than the buffer.
\<close>

lemma small_buffer_is_valid: "isValidBufferSize 16"
  by (simp add: isValidBufferSize_def)

lemma paused_read_ignores_buffer_size:
  assumes "toLocal (getSlot i s) = Some d" and "64 \<le> drb_available P d" and "0 < rc"
    and "libssh2_channel_read P (sshChannel (getSlot i s)) 64 (world s) = ((rc, bs), w)"
  shows "run_state (pump_paused P i) s = (True, snd (run_state (store_received P i bs rc) (s\<lparr>world := w\<rparr>)))"
proof -
  obtain u t where "run_state (store_received P i bs rc) (s\<lparr>world := w\<rparr>) = (u, t)" by (rule prod.exhaust)
  with assms show ?thesis by (simp add: pump_paused_def ring_available_def)
qed

section \<open>End of input towards the local socket\<close>

text \<open>
  When the remote side has ended its stream, the local socket is shut down for writing as soon as the ring with data
  for the remote side is empty; the data that are still to be written to the socket are in the other ring.
\<close>

lemma shutdown_ignores_unsent_data:
  assumes "remoteEof (getSlot i s)" and "\<not> localShutdownSent (getSlot i s)" and "localSocket (getSlot i s) \<ge> 0"
    and "ring_empty P (toRemote (getSlot i s))" and "ring_size P (toLocal (getSlot i s)) > 0"
  shows "world (snd (run_state (shutdown_local P i) s)) = snd (p_shutdown P (localSocket (getSlot i s)) SHUT_WR (world s))"
  using assms by (simp add: shutdown_local_def modify_slot_def upd_slot_def split_beta)

section \<open>Long header lines\<close>

text \<open>
  A header line is read into a buffer of 95 characters. When the line has exactly this length, its terminator is left
  in the stream and is taken for the empty line that ends the headers: the rest of the headers counts as the body, and a
  \<open>Content-Length\<close> among them is not seen.
\<close>

lemma takeWhile_line: "LF \<notin> set line \<Longrightarrow> takeWhile (\<lambda>x. x \<noteq> LF) (line @ LF # rest) = line"
  by (subst takeWhile_append2) auto

lemma long_header_ends_headers:
  assumes "rf_input (world s) = line @ LF # rest" and "length line = 95" and "LF \<notin> set line"
  shows "run_state (read_headers (ref_board f) (Suc (Suc n)) k) s
    = (Some (content_length line k), s\<lparr>world := (world s)\<lparr>rf_input := rest\<rparr>\<rparr>)"
proof -
  have 1: "rf_until LF 95 (world s) = (line, (world s)\<lparr>rf_input := LF # rest\<rparr>)"
    using assms takeWhile_line [OF assms(3), of rest] by (simp add: rf_until_def)
  have 2: "rf_until LF 95 ((world s)\<lparr>rf_input := LF # rest\<rparr>) = ([], (world s)\<lparr>rf_input := rest\<rparr>)"
    by (simp add: rf_until_def)
  have r: "tls_readBytesUntil (ref_board f) = rf_until" by (simp add: ref_board_def)
  show ?thesis using assms(2) by (auto simp: r 1 2)
qed

section \<open>The rates of the statistics\<close>

text \<open>The product in the rate wraps around: 4,294,968 bytes in ten seconds are reported as 0 bytes per second.\<close>

lemma rate_wraps: "rate_of 4294968 0 = 0"
  by (simp add: rate_of_def STATS_INTERVAL_def)

section \<open>The circuit breaker\<close>

text \<open>Failures of a ninth port are not recorded.\<close>

lemma ninth_port_untracked:
  assumes "port \<noteq> 0" and "index_of_port port (health c) = None" and "index_of_port 0 (health c) = None"
  shows "recordFailure port now c = (False, c)"
  using assms by (simp add: recordFailure_def findOrAlloc_def)

end
