(* ===== verification/Spec2Isabelle.thy ===== *)
theory Spec2Isabelle
  imports Credential_Safety Pump_Fairness Memory_Guard Http_Diag Managed_Config Firmware_Gate Bounded_Waits Config_Report
    Pump_Counters Log_Lines Known_Defects
begin

text \<open>
  Verification of a reverse SSH tunnel for the ESP32: the library in \<open>src/src\<close> and the firmware that uses it in
  \<open>src/examples/src\<close>.

  \<^bold>\<open>The program.\<close> The library asks an SSH server to listen on ports of the server and forwards every connection that
  arrives there to a TCP address in the device's network. \<open>SSHTunnel\<close> is the facade with the main loop,
  the queues of accepted and of closing channels and the reconnection; it drives \<open>SSHSession\<close> (TCP, handshake, host key,
  authentication, listeners), \<open>ChannelManager\<close> (a fixed number of slots, each with an SSH channel, a local socket
  and two ring buffers) and \<open>TransportPump\<close>, which moves the data in four phases per cycle. The firmware adds
  the setup pages over an access point, the stored configuration and keys in flash, a button, an LED, and the
  client of a management server (Minis), which fetches the configuration, sends alerts and uploads the public key.

  \<^bold>\<open>How the code is modelled.\<close> A class is a record, and the records extend each other in the order in which the
  classes own each other: world, configuration, session, channels, pump, tunnel, and on top of these the modules of the
  firmware, so an operation of a lower class runs unchanged on the whole state. A method is a definition in the state
  monad, with the source's conditions, early returns and calls in the source's order. Everything the
  repository does not contain (libssh2, lwIP, FreeRTOS, ESP-IDF, LittleFS, mbedTLS, the Arduino core) is a field of the
  records \<open>platform\<close>, \<open>board\<close>, \<open>minis_os\<close>, \<open>mbedtls\<close>, \<open>console\<close> and \<open>heap_api\<close>: an arbitrary function on an
  arbitrary world. What a theorem needs of such a function is a locale or a named hypothesis that states its
  documented behaviour, and an interpretation on a reference platform shows that it can hold. Counters,
  times and sizes that wrap are machine words or go through \<open>sz_add\<close>, \<open>sz_sub\<close> and \<open>sz_mul\<close>.

  \<^bold>\<open>Theories of the library\<close>, with the sources under \<open>src/src\<close>:
  \<^item> \<open>Prelude\<close>: machine types, the state monad, weakest preconditions (\<open>wp\<close>), invariant preservation (\<open>keeps\<close>), loops.
    \<open>Platform\<close>: the interface to the system. \<open>Byte_Queue_Spec\<close>: the contracts of the byte queues.
  \<^item> \<open>Prepend_Buffer\<close> (\<open>prepend_buffer.h\<close>) and \<open>Ring_Buffer\<close> (\<open>ring_buffer.h\<close>): the two buffers and their refinement of
    these contracts over the contract of a FreeRTOS byte ring; \<open>Circular_Ring\<close>: a ring that satisfies it, the reference platform, and the
    theorems about histories of operations.
  \<^item> \<open>Channel_Policies\<close> (\<open>channel_*.h\<close>), \<open>Circuit_Breaker\<close> (\<open>circuit_breaker.h\<close>), \<open>Forward_Accept\<close>
    (\<open>forward_accept_*.h\<close>), \<open>Network_Optimizer\<close> (\<open>network_optimizations.h\<close>): the policies.
  \<^item> \<open>Ssh_Config\<close> (\<open>ssh_config*.h\<close>, \<open>ssh_config.cpp\<close>), \<open>Config_Report\<close> (its \<open>printConfiguration\<close>), \<open>Host_Key\<close> (fingerprints, in
    \<open>ssh_session.cpp\<close>), \<open>Ssh_Session\<close>, \<open>Ssh_Channel\<close>, \<open>Ssh_Transport\<close>, \<open>Ssh_Tunnel\<close>: the classes.
  \<^item> \<open>Http_Diag\<close> and \<open>Pump_Instrument\<close>: the diagnostics of the pump in the builds \<open>TUNNEL_DIAG_LOG_ONLY\<close> and \<open>TUNNEL_INSTRUMENT\<close>;
    \<open>Pump_Builds\<close>: the pump with these switches, for all builds at once; \<open>Build_Erasure\<close>: a simulation of the plain pump by every
    build; \<open>Pump_Counters\<close>: what the instrumentation counts.
  \<^item> \<open>Logger\<close> (\<open>logger.*\<close>), \<open>Heap_Checks\<close> (\<open>memory_fixes.h\<close>), \<open>Log_Lines\<close> (functions of several files that only log): the log.
  \<^item> \<open>Channel_Invariant\<close>, \<open>Pump_Frame\<close>, \<open>Tunnel_Invariant\<close>: the invariants of slots, counters and queues, carried through all
    operations by the frame locales \<open>poll_frame\<close>, \<open>session_frame\<close>, \<open>channel_frame\<close>, \<open>manager_frame\<close>, \<open>pump_steps\<close>, \<open>pump_frame\<close>;
    \<open>Scenario\<close>: a run that reaches a bound channel.
  \<^item> \<open>Pump_Stream\<close>: the data path from end to end. \<open>World_Observer\<close>, \<open>Lock_Balance\<close>, \<open>Credential_Safety\<close>: what
    an observer of locks and credentials sees. \<open>Link_State\<close>, \<open>Teardown\<close>, \<open>Scheduling\<close>: connecting, closing, and the order and bounds of loops.
    \<open>Pump_Fairness\<close>: which channels the pump serves in a cycle (locales \<open>pump_phase\<close>, \<open>call_log\<close>, \<open>logged_rings\<close>). \<open>Memory_Guard\<close>: where the rings of a
    channel are allocated (locale \<open>psram_heap\<close>).

  \<^bold>\<open>Theories of the firmware\<close>, with the sources under \<open>src/examples/src\<close>:
  \<^item> \<open>Firmware_Board\<close>: the interface to the board, the contract of LittleFS under faults, the calculus \<open>fwp\<close> of files.
  \<^item> \<open>Status_Led\<close>, \<open>Mac_Vendor\<close>: the sources of these names. \<open>Wifi_Config\<close>, \<open>Wifi_Storage\<close>, \<open>Config_Button\<close>,
    \<open>Wifi_Pages\<close>, \<open>Wifi_Portal\<close>: the parts of \<open>wifi_provisioning.cpp\<close>.
  \<^item> \<open>Minis_Config\<close>, \<open>Minis_Parsing\<close>, \<open>Minis_Registration\<close>, \<open>Minis_Delivery\<close>: the parts of \<open>minis_registration.cpp\<close> and what the client
    promises. \<open>Minis_Upload\<close> (\<open>minis_public_key_upload.cpp\<close>), \<open>Ssh_Key_Provisioning\<close> and \<open>Ssh_Identity\<close> (\<open>ssh_key_provisioning.cpp\<close>).
  \<^item> \<open>Firmware_Main\<close> (\<open>main.cpp\<close>): \<open>setup\<close> and \<open>loop\<close>; \<open>Firmware_Frame\<close>, \<open>Firmware_Invariant\<close>: the library's invariants hold
    in every state of the firmware (locales \<open>app_base\<close>, \<open>app_config\<close>, \<open>app_portal\<close>, \<open>firmware_frame\<close>); \<open>Firmware_Gate\<close>: when the firmware runs the
    tunnel, and with which settings (locale \<open>client_frame\<close>); \<open>Managed_Config\<close>: a configuration from the server to the next start.
  \<^item> \<open>Bounded_Waits\<close>: the waits of the program end. \<open>Known_Defects\<close>: where the code does something else than its purpose or a comment says.

  \<^bold>\<open>What is shown.\<close>
  \<^item> Data path: no byte is lost, duplicated or reordered between an SSH channel and its socket by the three phases that
    move data (\<open>Pump_Stream\<close>); instrumentation and diagnostics of a build change nothing on the way, and the instrumentation counts
    exactly the bytes that the tunnel reports as sent (\<open>Pump_Counters\<close>); ring buffer and put-back area are a first-in-first-out queue for every history.
  \<^item> Resources: in every reachable state, of the library and of the whole firmware, an active slot owns two rings and an open
    socket, an inactive one nothing, counters are exact and the queues stay within their arrays; disconnecting leaves nothing behind,
    even when locks are not available; closing keeps the byte totals. On a board with PSRAM a channel is bound exactly when the memory budget
    fits, and its rings are then in PSRAM.
  \<^item> Locks and link: the session mutex is released on every path; the state \<open>Connected\<close> implies a session, a socket and a listener;
    connecting either succeeds completely or cleans up.
  \<^item> Security: no credential is sent to a host whose key does not match; a fingerprint accepts one hash only; the setup pages
    and the printed configuration disclose no secret, and foreign text cannot change the markup.
  \<^item> Progress: the loops of accepting, writing and waiting end, a close that hangs is abandoned after its deadline, requests of
    the management client return, reconnection delays are exact, and no channel starves: sending to the local sockets, and reading from SSH
    channels when the session lock is obtained, makes at least one and at most four calls for every channel that has something to do, from a slot that moves on in every cycle.
  \<^item> Storage: a stored configuration is read back exactly and survives faults of the flash; a generated key pair can be used by a server
    and is loaded again; managed settings take effect once; alerts are kept until delivered. The firmware does
    not run the tunnel before its configuration is complete or when it is disabled, and runs it with the stored settings.
  \<^item> Parsers and policies: configuration documents, numbers, requests, validation, circuit breaker, slot
    allocation and time-outs agree with their specifications, including wrap-around of the clock.

  \<^bold>\<open>Bounds.\<close> Loops whose number of rounds the code itself bounds are structural recursions. The others have a number of rounds that
  is shown to be enough: \<open>accept_loop\<close> \<open>maxSlots + 1\<close> and \<open>write_loop\<close> the byte budget (theory \<open>Scheduling\<close>); the ring's loops the number of
  bytes, which decreases in every round; the waits for the serial port, the network and responses one round per
  millisecond of their limit and one more, because every round sleeps (theory \<open>Bounded_Waits\<close>). Reading a response goes on as long
  as a server sends, and the wait for the next heartbeat as long as notifications come without the clock advancing;
  \<open>performGet\<close> and \<open>heartbeat_wait\<close> take the number of rounds as a parameter and
  return \<open>None\<close> when these are used up; the former is shown to return for every finite response, the latter when finitely many
  notifications come (locales \<open>finite_response\<close> and \<open>finite_notes\<close>).

  \<^bold>\<open>Conventions.\<close> Log statements are left out of the operations (theory \<open>Logger\<close> shows that they change nothing but the log and one flag).
  The callbacks of the tunnel are recorded as events and, in the firmware, run when the call of the library that causes
  them returns. After \<open>ESP.restart()\<close> nothing runs. Tasks interleave at the calls of \<open>loop\<close> and of their own rounds, except
  for the queue of alerts, which other tasks may extend at any call of the board. Buffers that a call fills are passed as values: an overrun
  of the buffer does not show in them (\<open>Known_Defects\<close> has the one that the pump's paused read can make).

  \<^bold>\<open>Not modelled.\<close> \<open>usage()\<close> of the ring buffer, a percentage for logs; the log lines of the HTTP diagnostics; one-line accessors of the
  classes, for which the fields stand; preemption inside an operation of the library, whose objects belong to one task; tests, integration firmware and
  scripts of the repository.
\<close>

end
